(* ===== verification/Prelude.thy ===== *)
theory Prelude
  imports Main
begin

text \<open>
  Shared vocabulary of the development.

  \<^item> Python strings are held as their UTF-8 bytes (\<open>string\<close>, a list of \<open>char\<close>); slices such as
    \<open>text[:160]\<close>, which count code points in Python, are \<open>take_cp\<close>.
  \<^item> Clock readings are microseconds since the epoch (\<open>time\<close>). The code stores ISO-8601 texts in UTC
    and compares them as texts; for four-digit years that order is the order of the instants
    (\<open>+\<close> sorts before \<open>.\<close>, so a reading without a fraction sorts before the later readings of
    the same second).
  \<^item> A table is the list of its rows in rowid order; an \<open>UPDATE ... WHERE\<close> is \<open>upd\<close>, its
    \<open>rowcount\<close> is \<open>hits\<close>, \<open>fetchone()\<close> is \<open>List.find\<close>, \<open>ORDER BY\<close> and \<open>LIMIT\<close> are \<open>order_by\<close>,
    \<open>order_desc\<close> and \<open>limit\<close>. Rows that tie in an \<open>ORDER BY\<close> keep their rowid order.
  \<^item> A raised exception is a value of \<open>err\<close>; a call is \<open>err + result\<close>.
\<close>

named_theorems sql_simps \<open>rewrite rules for the table operations\<close>

section \<open>Errors\<close>

datatype err =
    ValueError string
  | KeyError string
  | TypeError string
  | PermissionError string
  | RuntimeError string
  | SafeOperationError string
  | TerminalExecutionTransitionError string
  | IntegrityError string
  | IndexError string
  | OSError string
  | FileNotFoundError string
  | FileExistsError string

type_synonym 'a result = "err + 'a"

definition try_bind :: "'a result \<Rightarrow> ('a \<Rightarrow> 'b result) \<Rightarrow> 'b result" where
  "try_bind m k = (case m of Inl e \<Rightarrow> Inl e | Inr x \<Rightarrow> k x)"

lemma try_bind_simps [simp]:
  "try_bind (Inl e) k = Inl e"
  "try_bind (Inr x) k = k x"
  by (simp_all add: try_bind_def)

lemma try_bind_Inr:
  "try_bind m k = Inr y \<longleftrightarrow> (\<exists>x. m = Inr x \<and> k x = Inr y)"
  by (cases m) auto

lemma try_bind_InrE [elim!]:
  assumes "try_bind m k = Inr y"
  obtains x where "m = Inr x" and "k x = Inr y"
  using assms by (auto simp: try_bind_Inr)

section \<open>Time\<close>

type_synonym time = int

definition seconds :: "int \<Rightarrow> time" where
  "seconds n = n * 1000000"

text \<open>\<open>datetime.replace(microsecond=0)\<close>\<close>

definition whole_second :: "time \<Rightarrow> time" where
  "whole_second t = t - t mod 1000000"

lemma whole_second_le: "whole_second t \<le> t"
  by (simp add: whole_second_def)

lemma whole_second_idem [simp]: "whole_second (whole_second t) = whole_second t"
  by (simp add: whole_second_def mod_diff_left_eq [symmetric])

lemma whole_second_mono: "s \<le> t \<Longrightarrow> whole_second s \<le> whole_second t"
proof -
  assume "s \<le> t"
  have "\<And>x::int. whole_second x = 1000000 * (x div 1000000)"
    by (simp add: whole_second_def minus_mod_eq_mult_div)
  moreover have "s div 1000000 \<le> t div 1000000"
    using \<open>s \<le> t\<close> by (rule zdiv_mono1) simp
  ultimately show ?thesis by simp
qed

section \<open>Text\<close>

definition continuation_byte :: "char \<Rightarrow> bool" where
  "continuation_byte c \<longleftrightarrow> 128 \<le> (of_char c :: nat) \<and> (of_char c :: nat) < 192"

definition ascii :: "string \<Rightarrow> bool" where
  "ascii s \<longleftrightarrow> (\<forall>c\<in>set s. (of_char c :: nat) < 128)"

fun take_cp :: "nat \<Rightarrow> string \<Rightarrow> string" where
  "take_cp n [] = []"
| "take_cp n (c # cs) =
     (if continuation_byte c then c # take_cp n cs
      else (case n of 0 \<Rightarrow> [] | Suc m \<Rightarrow> c # take_cp m cs))"

definition len_cp :: "string \<Rightarrow> nat" where
  "len_cp s = length (filter (\<lambda>c. \<not> continuation_byte c) s)"

lemma len_take_cp: "len_cp (take_cp n s) \<le> n"
  by (induction n s rule: take_cp.induct) (auto simp: len_cp_def split: nat.splits)

lemma take_cp_id: "len_cp s \<le> n \<Longrightarrow> take_cp n s = s"
  by (induction n s rule: take_cp.induct) (auto simp: len_cp_def split: nat.splits if_splits)

lemma take_cp_ascii: "ascii s \<Longrightarrow> take_cp n s = take n s"
  by (induction n s rule: take_cp.induct)
     (auto simp: ascii_def continuation_byte_def split: nat.splits)

text \<open>A text given by its UTF-8 bytes, for the constants that are not ASCII.\<close>

definition utf8 :: "nat list \<Rightarrow> string" where
  "utf8 bs = map char_of bs"

text \<open>\<open>str.isspace\<close>, \<open>str.lower\<close> and \<open>str.strip\<close> on ASCII; bytes above 127 are not white space.\<close>

definition is_space :: "char \<Rightarrow> bool" where
  "is_space c \<longleftrightarrow> (let n = (of_char c :: nat) in n = 32 \<or> (9 \<le> n \<and> n \<le> 13) \<or> (28 \<le> n \<and> n \<le> 31))"

definition lower_char :: "char \<Rightarrow> char" where
  "lower_char c = (let n = (of_char c :: nat) in if 65 \<le> n \<and> n \<le> 90 then char_of (n + 32) else c)"

definition lower :: "string \<Rightarrow> string" where
  "lower = map lower_char"

definition lstrip :: "string \<Rightarrow> string" where
  "lstrip = dropWhile is_space"

definition rstrip :: "string \<Rightarrow> string" where
  "rstrip s = rev (dropWhile is_space (rev s))"

definition strip :: "string \<Rightarrow> string" where
  "strip s = rstrip (lstrip s)"

text \<open>\<open>str.split()\<close> on white space.\<close>

function split_ws :: "string \<Rightarrow> string list" where
  "split_ws s = (let r = lstrip s in
     if r = [] then [] else takeWhile (\<lambda>c. \<not> is_space c) r # split_ws (dropWhile (\<lambda>c. \<not> is_space c) r))"
  by pat_completeness auto
termination
proof (relation "measure length")
  fix s r :: string
  assume r: "r = lstrip s" and ne: "r \<noteq> []"
  have le: "length r \<le> length s"
    by (simp add: r lstrip_def length_dropWhile_le)
  obtain c cs where cs: "r = c # cs" using ne by (cases r) auto
  have "\<not> is_space c"
    using ne cs hd_dropWhile [of is_space s] by (simp add: r lstrip_def)
  then have "length (dropWhile (\<lambda>c. \<not> is_space c) r) \<le> length cs"
    by (simp add: cs length_dropWhile_le)
  with le cs show "(dropWhile (\<lambda>c. \<not> is_space c) r, s) \<in> measure length"
    by simp
qed simp

declare split_ws.simps [simp del]

fun join_with :: "string \<Rightarrow> string list \<Rightarrow> string" where
  "join_with sep [] = []"
| "join_with sep [x] = x"
| "join_with sep (x # y # zs) = x @ sep @ join_with sep (y # zs)"

fun starts_with :: "string \<Rightarrow> string \<Rightarrow> bool" where
  "starts_with [] s = True"
| "starts_with (p # ps) [] = False"
| "starts_with (p # ps) (c # cs) = (p = c \<and> starts_with ps cs)"

lemma starts_with_append: "starts_with p s \<longleftrightarrow> (\<exists>t. s = p @ t)"
  by (induction p s rule: starts_with.induct) auto

section \<open>Tables\<close>

definition upd :: "('r \<Rightarrow> bool) \<Rightarrow> ('r \<Rightarrow> 'r) \<Rightarrow> 'r list \<Rightarrow> 'r list" where
  "upd P f rows = map (\<lambda>r. if P r then f r else r) rows"

definition hits :: "('r \<Rightarrow> bool) \<Rightarrow> 'r list \<Rightarrow> nat" where
  "hits P rows = length (filter P rows)"

definition limit :: "int \<Rightarrow> 'r list \<Rightarrow> 'r list" where
  \<comment> \<open>SQLite: a negative LIMIT means no limit.\<close>
  "limit n rows = (if n < 0 then rows else take (nat n) rows)"

definition order_by :: "('r \<Rightarrow> 'k::linorder) \<Rightarrow> 'r list \<Rightarrow> 'r list" where
  "order_by k rows = sort_key k rows"

definition order_desc :: "('r \<Rightarrow> int) \<Rightarrow> 'r list \<Rightarrow> 'r list" where
  "order_desc k rows = sort_key (\<lambda>r. - k r) rows"

lemma upd_simps [simp]:
  "upd P f [] = []"
  "upd P f (r # rs) = (if P r then f r else r) # upd P f rs"
  by (simp_all add: upd_def)

lemma upd_append [simp]: "upd P f (xs @ ys) = upd P f xs @ upd P f ys"
  by (simp add: upd_def)

lemma length_upd [simp]: "length (upd P f rows) = length rows"
  by (simp add: upd_def)

lemma set_upd: "set (upd P f rows) = (\<lambda>r. if P r then f r else r) ` set rows"
  by (simp add: upd_def)

lemma map_upd [simp]: "(\<And>r. g (f r) = g r) \<Longrightarrow> map g (upd P f rows) = map g rows"
  by (induction rows) auto

lemma upd_none: "(\<And>r. r \<in> set rows \<Longrightarrow> \<not> P r) \<Longrightarrow> upd P f rows = rows"
  by (induction rows) auto

lemma hits_simps [simp]:
  "hits P [] = 0"
  "hits P (r # rs) = (if P r then Suc (hits P rs) else hits P rs)"
  by (simp_all add: hits_def)

lemma hits_pos: "0 < hits P rows \<longleftrightarrow> (\<exists>r\<in>set rows. P r)"
  by (induction rows) auto

lemma find_key_upd:
  "(\<And>r. key (f r) = key r) \<Longrightarrow>
   List.find (\<lambda>r. key r = k) (upd P f rows) =
   map_option (\<lambda>r. if P r then f r else r) (List.find (\<lambda>r. key r = k) rows)"
  by (induction rows) auto

lemma find_key_append:
  "List.find P (xs @ ys) = (case List.find P xs of Some r \<Rightarrow> Some r | None \<Rightarrow> List.find P ys)"
  by (induction xs) auto

lemma find_SomeD: "List.find P rows = Some r \<Longrightarrow> r \<in> set rows \<and> P r"
  by (induction rows) (auto split: if_splits)

lemma find_NoneD: "List.find P rows = None \<Longrightarrow> r \<in> set rows \<Longrightarrow> \<not> P r"
  by (auto simp: find_None_iff)

lemma find_key_None: "List.find (\<lambda>r. key r = k) rows = None \<longleftrightarrow> k \<notin> set (map key rows)"
  by (auto simp: find_None_iff)

lemma find_key_unique:
  "distinct (map key rows) \<Longrightarrow> r \<in> set rows \<Longrightarrow> List.find (\<lambda>x. key x = key r) rows = Some r"
  by (induction rows) (auto simp: image_iff)

lemma set_limit: "set (limit n rows) \<subseteq> set rows"
  by (auto simp: limit_def dest: in_set_takeD)

lemma length_limit: "0 \<le> n \<Longrightarrow> int (length (limit n rows)) \<le> n"
  by (auto simp: limit_def)

lemma set_order [simp]: "set (order_by k rows) = set rows" "set (order_desc d rows) = set rows"
  by (simp_all add: order_by_def order_desc_def)

lemma list_ex_updI: "r \<in> set rows \<Longrightarrow> P r \<Longrightarrow> Q (f r) \<Longrightarrow> list_ex Q (upd P f rows)"
  by (induction rows) (auto simp: list_ex_iff)

lemma find_append_new: "List.find P xs = None \<Longrightarrow> P r \<Longrightarrow> List.find P (xs @ [r]) = Some r"
  by (simp add: find_key_append)

section \<open>Loops over fetched rows\<close>

text \<open>\<open>for row in rows:\<close> with a body that may raise; an exception rolls the transaction back.\<close>

fun for_each :: "('r \<Rightarrow> 's \<Rightarrow> 's result) \<Rightarrow> 'r list \<Rightarrow> 's \<Rightarrow> 's result" where
  "for_each f [] s = Inr s"
| "for_each f (r # rs) s = try_bind (f r s) (for_each f rs)"

lemma for_each_append: "for_each f (xs @ ys) s = try_bind (for_each f xs s) (for_each f ys)"
  by (induction xs arbitrary: s) (auto simp: try_bind_def split: sum.splits)

lemma for_each_inv:
  assumes "for_each f rs s = Inr s'" "P s"
    and "\<And>r x y. r \<in> set rs \<Longrightarrow> P x \<Longrightarrow> f r x = Inr y \<Longrightarrow> P y"
  shows "P s'"
  using assms by (induction rs arbitrary: s) auto

text \<open>What the body establishes for its row and keeps for the others holds for every row at the end.\<close>

lemma for_each_establish:
  assumes "for_each f rs s = Inr s'" "r \<in> set rs"
    and "\<And>r x y. r \<in> set rs \<Longrightarrow> f r x = Inr y \<Longrightarrow> Q r y"
    and "\<And>q r x y. r \<in> set rs \<Longrightarrow> q \<in> set rs \<Longrightarrow> f r x = Inr y \<Longrightarrow> Q q x \<Longrightarrow> Q q y"
  shows "Q r s'"
  using assms
proof (induction rs arbitrary: s)
  case (Cons q qs)
  from Cons.prems(1) obtain x where x: "f q s = Inr x" "for_each f qs x = Inr s'" by auto
  show ?case
  proof (cases "r = q")
    case True
    have "Q r x" using Cons.prems(3) [of q s x] x(1) True by simp
    with x(2) show ?thesis
    proof (rule for_each_inv)
      fix p y z assume "p \<in> set qs" "Q r y" "f p y = Inr z"
      then show "Q r z" using Cons.prems(4) [of p r y z] True by simp
    qed
  next
    case False
    with Cons.prems(2) have "r \<in> set qs" by simp
    from Cons.IH [OF x(2) this] Cons.prems(3,4) show ?thesis by (meson list.set_intros(2))
  qed
qed simp

lemma fold_inv:
  assumes "P s" "\<And>r x. r \<in> set rs \<Longrightarrow> P x \<Longrightarrow> P (f r x)"
  shows "P (fold f rs s)"
  using assms by (induction rs arbitrary: s) auto

end
