(* ===== verification/Migrations.thy ===== *)
theory Migrations
  imports Prelude
begin

text \<open>
  The schema bootstrap of \<open>src/nyanya_agent/execution_store.py\<close>: \<open>MIGRATIONS\<close>, \<open>apply_migrations\<close> and
  \<open>schema_state\<close>. SQLite's execution of a migration text and SHA-256 are parameters: \<open>run\<close> gives the
  schema after the text (or \<open>None\<close> when a statement fails), \<open>has_log\<close> tells whether the table
  \<open>schema_migrations\<close> exists in a schema, \<open>checksum\<close> is the hex digest. Each migration commits in its own
  script, so an exception leaves the earlier ones applied: an outcome is the result with the database.
\<close>

record migration_row =
  mg_version :: int
  mg_name :: string
  mg_checksum :: string
  mg_applied_at :: time

record 's database =
  db_schema :: 's
  db_migrations :: "migration_row list"
  db_user_version :: int

definition MIGRATIONS :: "(int \<times> string) list" where
  "MIGRATIONS = [(1, ''execution-ledger''), (2, ''projects-and-codex-sessions''), (3, ''task-claims-and-results''),
     (4, ''serializable-operations-and-reviewed-apply''), (5, ''workflow-event-read-indexes''),
     (6, ''audit-log-read-index''), (7, ''durable-conversation-state''), (8, ''bounded-task-work-records''),
     (9, ''scoped-cited-wiki''), (10, ''reviewed-draft-workspaces'')]"

definition apply_one ::
  "('q \<Rightarrow> 's \<Rightarrow> 's option) \<Rightarrow> ('s \<Rightarrow> bool) \<Rightarrow> ('q \<Rightarrow> string) \<Rightarrow> time \<Rightarrow> int \<times> string \<Rightarrow> 'q \<Rightarrow> 's database \<Rightarrow>
   's database result" where
  "apply_one run has_log checksum t m sql d =
     (let (version, name) = m;
          applied = (if has_log (db_schema d) then List.find (\<lambda>r. mg_version r = version) (db_migrations d) else None) in
      case applied of
        Some r \<Rightarrow> if mg_checksum r \<noteq> checksum sql then Inl (RuntimeError ''Migration checksum mismatch'') else Inr d
      | None \<Rightarrow>
          (case run sql (db_schema d) of
             None \<Rightarrow> Inl (RuntimeError ''migration script failed'')
           | Some s' \<Rightarrow>
               if \<not> has_log s' then Inl (RuntimeError ''no such table: schema_migrations'')
               else if version \<in> mg_version ` set (db_migrations d) then Inl (IntegrityError ''schema_migrations'')
               else Inr (d\<lparr>db_schema := s',
                   db_migrations := db_migrations d @ [\<lparr>mg_version = version, mg_name = name,
                     mg_checksum = checksum sql, mg_applied_at = whole_second t\<rparr>],
                   db_user_version := version\<rparr>)))"

fun apply_all ::
  "('q \<Rightarrow> 's \<Rightarrow> 's option) \<Rightarrow> ('s \<Rightarrow> bool) \<Rightarrow> ('q \<Rightarrow> string) \<Rightarrow> time \<Rightarrow> (int \<Rightarrow> 'q) \<Rightarrow> (int \<times> string) list \<Rightarrow> 's database \<Rightarrow>
   int result \<times> 's database" where
  "apply_all run has_log checksum t sql [] d = (Inr (db_user_version d), d)"
| "apply_all run has_log checksum t sql (m # ms) d =
     (case apply_one run has_log checksum t m (sql (fst m)) d of
        Inl e \<Rightarrow> (Inl e, d)
      | Inr d1 \<Rightarrow> apply_all run has_log checksum t sql ms d1)"

definition apply_migrations ::
  "('q \<Rightarrow> 's \<Rightarrow> 's option) \<Rightarrow> ('s \<Rightarrow> bool) \<Rightarrow> ('q \<Rightarrow> string) \<Rightarrow> time \<Rightarrow> (int \<Rightarrow> 'q) \<Rightarrow> 's database \<Rightarrow> int result \<times> 's database" where
  "apply_migrations run has_log checksum t sql d = apply_all run has_log checksum t sql MIGRATIONS d"

record schema_state =
  ss_version :: int
  ss_latest :: int
  ss_migrations :: "migration_row list"

definition schema_state ::
  "('q \<Rightarrow> 's \<Rightarrow> 's option) \<Rightarrow> ('s \<Rightarrow> bool) \<Rightarrow> ('q \<Rightarrow> string) \<Rightarrow> time \<Rightarrow> (int \<Rightarrow> 'q) \<Rightarrow> 's database \<Rightarrow>
   schema_state result \<times> 's database" where
  "schema_state run has_log checksum t sql d =
     (case apply_migrations run has_log checksum t sql d of
        (Inl e, d1) \<Rightarrow> (Inl e, d1)
      | (Inr v, d1) \<Rightarrow> (Inr \<lparr>ss_version = v, ss_latest = fst (last MIGRATIONS),
           ss_migrations = sort_key mg_version (db_migrations d1)\<rparr>, d1))"

section \<open>Lemmas\<close>

text \<open>Version \<open>v\<close> is recorded with the checksum of its text.\<close>

definition recorded :: "('s \<Rightarrow> bool) \<Rightarrow> ('q \<Rightarrow> string) \<Rightarrow> (int \<Rightarrow> 'q) \<Rightarrow> 's database \<Rightarrow> int \<Rightarrow> bool" where
  "recorded has_log checksum sql d v \<longleftrightarrow> has_log (db_schema d) \<and>
     map_option mg_checksum (List.find (\<lambda>r. mg_version r = v) (db_migrations d)) = Some (checksum (sql v))"

lemma apply_one_recorded:
  "recorded has_log checksum sql d (fst m) \<Longrightarrow> apply_one run has_log checksum t m (sql (fst m)) d = Inr d"
  by (auto simp: recorded_def apply_one_def split_beta)

lemma apply_all_recorded:
  "\<forall>m\<in>set ms. recorded has_log checksum sql d (fst m) \<Longrightarrow>
   apply_all run has_log checksum t sql ms d = (Inr (db_user_version d), d)"
  by (induction ms) (simp_all add: apply_one_recorded)

lemma apply_one_records:
  assumes "apply_one run has_log checksum t m (sql (fst m)) d = Inr d1"
    and "\<And>q s s'. run q s = Some s' \<Longrightarrow> has_log s \<Longrightarrow> has_log s'"
  shows "recorded has_log checksum sql d1 (fst m) \<and>
    (\<forall>v. recorded has_log checksum sql d v \<longrightarrow> recorded has_log checksum sql d1 v) \<and>
    (d1 = d \<or> db_user_version d1 = fst m) \<and>
    (\<exists>rows. db_migrations d1 = db_migrations d @ rows)"
proof -
  let ?found = "if has_log (db_schema d) then List.find (\<lambda>r. mg_version r = fst m) (db_migrations d) else None"
  show ?thesis
  proof (cases ?found)
    case None
    with assms(1) obtain s' where new: "run (sql (fst m)) (db_schema d) = Some s'" "has_log s'"
        "fst m \<notin> mg_version ` set (db_migrations d)"
        "d1 = d\<lparr>db_schema := s', db_migrations := db_migrations d @ [\<lparr>mg_version = fst m, mg_name = snd m,
           mg_checksum = checksum (sql (fst m)), mg_applied_at = whole_second t\<rparr>], db_user_version := fst m\<rparr>"
      by (simp add: apply_one_def split_beta split: option.split_asm if_split_asm)
    have "List.find (\<lambda>r. mg_version r = fst m) (db_migrations d) = None"
      using new(3) by (force simp: find_None_iff)
    with new show ?thesis
      using assms(2) [OF new(1)] by (auto simp: recorded_def find_key_append split: option.split)
  next
    case (Some r)
    with assms(1) have "d1 = d" "mg_checksum r = checksum (sql (fst m))"
      by (simp_all add: apply_one_def split_beta split: if_split_asm)
    with Some show ?thesis by (simp add: recorded_def split: if_split_asm)
  qed
qed

lemma apply_all_records:
  assumes "apply_all run has_log checksum t sql ms d = (Inr v, d')"
    and "\<And>q s s'. run q s = Some s' \<Longrightarrow> has_log s \<Longrightarrow> has_log s'"
  shows "(\<forall>m\<in>set ms. recorded has_log checksum sql d' (fst m)) \<and>
    (\<forall>v. recorded has_log checksum sql d v \<longrightarrow> recorded has_log checksum sql d' v) \<and> v = db_user_version d'"
  using assms(1)
proof (induction ms arbitrary: d)
  case (Cons m ms)
  then obtain d1 where one: "apply_one run has_log checksum t m (sql (fst m)) d = Inr d1"
    and rest: "apply_all run has_log checksum t sql ms d1 = (Inr v, d')" by (auto split: sum.splits)
  have "recorded has_log checksum sql d1 (fst m)"
    "\<forall>v. recorded has_log checksum sql d v \<longrightarrow> recorded has_log checksum sql d1 v"
    using apply_one_records [where run = run and has_log = has_log and sql = sql and m = m, OF one] assms(2) by blast+
  with Cons.IH [OF rest] show ?case by auto
qed simp

section \<open>Properties\<close>

text \<open>Bootstrap is idempotent. After \<open>apply_migrations\<close> has returned, with migrations that keep the table
  \<open>schema_migrations\<close>, applying again at any later time changes nothing and returns the same version,
  and every migration is recorded with the checksum of its text.\<close>

theorem migrations_idempotent:
  assumes "apply_migrations run has_log checksum t sql d = (Inr v, d')"
    and "\<And>q s s'. run q s = Some s' \<Longrightarrow> has_log s \<Longrightarrow> has_log s'"
  shows "apply_migrations run has_log checksum t' sql d' = (Inr v, d') \<and>
    list_all (\<lambda>m. recorded has_log checksum sql d' (fst m)) MIGRATIONS"
proof -
  have rec: "\<forall>m\<in>set MIGRATIONS. recorded has_log checksum sql d' (fst m)" and v: "v = db_user_version d'"
    using apply_all_records [where run = run and has_log = has_log, OF assms(1) [unfolded apply_migrations_def]]
      assms(2) by blast+
  then show ?thesis by (simp add: apply_migrations_def apply_all_recorded list_all_iff)
qed

lemma migrations_idempotent_witness:
  "\<exists>d'. apply_migrations (\<lambda>q s. Some True) (\<lambda>s. s) (\<lambda>q::int. ''c'') 5 (\<lambda>v. v)
     \<lparr>db_schema = False, db_migrations = [], db_user_version = 0\<rparr> = (Inr 10, d') \<and>
     apply_migrations (\<lambda>q s. Some True) (\<lambda>s. s) (\<lambda>q. ''c'') 6 (\<lambda>v. v) d' = (Inr 10, d')"
proof -
  obtain d' where one: "apply_migrations (\<lambda>q s. Some True) (\<lambda>s. s) (\<lambda>q::int. ''c'') 5 (\<lambda>v. v)
      \<lparr>db_schema = False, db_migrations = [], db_user_version = 0\<rparr> = (Inr 10, d')"
    by (simp add: apply_migrations_def MIGRATIONS_def apply_one_def)
  from migrations_idempotent [OF one, of 6] one show ?thesis by auto
qed

text \<open>A changed migration stops the bootstrap. When a recorded checksum differs from the text of its version
  and the versions before it are recorded, \<open>apply_migrations\<close> raises \<open>RuntimeError\<close> and changes nothing,
  whatever the later migrations are.\<close>

theorem migration_tampering_detected:
  assumes "MIGRATIONS = before @ m # after" "\<forall>x\<in>set before. recorded has_log checksum sql d (fst x)"
    and "has_log (db_schema d)" "List.find (\<lambda>r. mg_version r = fst m) (db_migrations d) = Some r"
    and "mg_checksum r \<noteq> checksum (sql (fst m))"
  shows "apply_migrations run has_log checksum t sql d = (Inl (RuntimeError ''Migration checksum mismatch''), d)"
proof -
  have "apply_all run has_log checksum t sql (before @ m # after) d =
      (Inl (RuntimeError ''Migration checksum mismatch''), d)"
    using assms(2)
  proof (induction before)
    case Nil
    then show ?case using assms(3-5) by (simp add: apply_one_def split_beta)
  qed (simp add: apply_one_recorded)
  then show ?thesis by (simp add: apply_migrations_def assms(1))
qed

lemma migration_tampering_detected_witness:
  "apply_migrations (\<lambda>q s. Some True) (\<lambda>s. s) (\<lambda>q. ''c'') 5 (\<lambda>v. v)
     \<lparr>db_schema = True, db_migrations = [\<lparr>mg_version = 1, mg_name = [], mg_checksum = ''x'', mg_applied_at = 0\<rparr>],
      db_user_version = 1\<rparr> =
   (Inl (RuntimeError ''Migration checksum mismatch''),
     \<lparr>db_schema = True, db_migrations = [\<lparr>mg_version = 1, mg_name = [], mg_checksum = ''x'', mg_applied_at = 0\<rparr>],
      db_user_version = 1\<rparr>)"
  by (rule migration_tampering_detected [of "[]" "(1, ''execution-ledger'')" "tl MIGRATIONS" _ _ _ _
        "\<lparr>mg_version = 1, mg_name = [], mg_checksum = ''x'', mg_applied_at = 0\<rparr>"])
     (simp_all add: MIGRATIONS_def)

end
