(* ===== verification/Json_Values.thy ===== *)
theory Json_Values
  imports Prelude "HOL-Library.List_Lexorder" "HOL-Library.Char_ord"
begin

text \<open>
  JSON values as the code builds and reads them. A metadata column holds the text that
  \<open>encode_json\<close> writes; the model keeps the value, since \<open>json.loads\<close> returns the dictionary that was
  written. A dictionary is an association list with distinct keys, in insertion order; \<open>dict.update\<close>
  overwrites in place and appends new keys at the end, \<open>dict.pop(k, None)\<close> deletes.
\<close>

datatype json =
    JNull
  | JBool bool
  | JInt int
  | JStr string
  | JList "json list"
  | JObj "(string \<times> json) list"

type_synonym dict = "(string \<times> json) list"

fun dict_put :: "string \<Rightarrow> json \<Rightarrow> dict \<Rightarrow> dict" where
  "dict_put k v [] = [(k, v)]"
| "dict_put k v ((j, w) # d) = (if j = k then (k, v) # d else (j, w) # dict_put k v d)"

fun dict_update :: "dict \<Rightarrow> dict \<Rightarrow> dict" where
  "dict_update d [] = d"
| "dict_update d ((k, v) # e) = dict_update (dict_put k v d) e"

definition dict_pop :: "string \<Rightarrow> dict \<Rightarrow> dict" where
  "dict_pop k d = filter (\<lambda>(j, v). j \<noteq> k) d"

lemma map_of_dict_put [simp]: "map_of (dict_put k v d) = (map_of d)(k \<mapsto> v)"
  by (induction k v d rule: dict_put.induct) auto

lemma map_of_dict_update: "map_of (dict_update d e) j =
    (case map_of (rev e) j of Some v \<Rightarrow> Some v | None \<Rightarrow> map_of d j)"
  by (induction d e rule: dict_update.induct) (auto simp: map_add_def split: option.splits)

lemma map_of_dict_pop: "map_of (dict_pop k d) j = (if j = k then None else map_of d j)"
  by (induction d) (auto simp: dict_pop_def)

lemma set_dict_put: "set (dict_put k v d) \<subseteq> insert (k, v) (set d)"
  by (induction k v d rule: dict_put.induct) auto

lemma set_dict_update: "set (dict_update d e) \<subseteq> set d \<union> set e"
proof (induction d e rule: dict_update.induct)
  case (2 d k v e)
  then show ?case using set_dict_put [of k v d] by auto
qed simp

lemma set_dict_pop: "set (dict_pop k d) \<subseteq> set d"
  by (auto simp: dict_pop_def)

text \<open>
  \<open>encode_json\<close> sorts the keys of every dictionary, so two values have the same text exactly when their
  sorted forms agree.
\<close>

fun canon :: "json \<Rightarrow> json" where
  "canon (JObj d) = JObj (sort_key fst (map (\<lambda>(k, v). (k, canon v)) d))"
| "canon (JList xs) = JList (map canon xs)"
| "canon v = v"

definition same_json :: "dict \<Rightarrow> dict \<Rightarrow> bool" where
  "same_json d e \<longleftrightarrow> canon (JObj d) = canon (JObj e)"

text \<open>Python truth of an optional dictionary entry, as in \<open>if metadata.get(key):\<close>.\<close>

fun truthy :: "json \<Rightarrow> bool" where
  "truthy JNull = False"
| "truthy (JBool b) = b"
| "truthy (JInt i) = (i \<noteq> 0)"
| "truthy (JStr s) = (s \<noteq> [])"
| "truthy (JList xs) = (xs \<noteq> [])"
| "truthy (JObj d) = (d \<noteq> [])"

definition truthy_text :: "string option \<Rightarrow> bool" where
  "truthy_text x = (case x of None \<Rightarrow> False | Some s \<Rightarrow> s \<noteq> [])"

lemma truthy_text_simps [simp]: "\<not> truthy_text None" "truthy_text (Some s) = (s \<noteq> [])"
  by (simp_all add: truthy_text_def)

definition jstr_opt :: "string option \<Rightarrow> json" where
  "jstr_opt s = (case s of None \<Rightarrow> JNull | Some x \<Rightarrow> JStr x)"

definition jint_opt :: "int option \<Rightarrow> json" where
  "jint_opt s = (case s of None \<Rightarrow> JNull | Some x \<Rightarrow> JInt x)"

text \<open>
  \<open>COALESCE(json_extract(metadata_json, '$.key'), dflt)\<close> compared with a text: an absent or null
  entry falls back to the default, a text is compared, a value of another type equals no text the
  code passes.
\<close>

definition extract_text :: "dict \<Rightarrow> string \<Rightarrow> string option" where
  "extract_text d k = (case map_of d k of Some (JStr s) \<Rightarrow> Some s | _ \<Rightarrow> None)"

definition coalesce_is :: "dict \<Rightarrow> string \<Rightarrow> string \<Rightarrow> string \<Rightarrow> bool" where
  "coalesce_is d k dflt x =
     (case map_of d k of
        None \<Rightarrow> dflt = x
      | Some JNull \<Rightarrow> dflt = x
      | Some (JStr s) \<Rightarrow> s = x
      | Some _ \<Rightarrow> False)"

end
