(* ===== verification/Regex_Matcher.thy ===== *)
theory Regex_Matcher
  imports Prelude
begin

text \<open>
  Python's \<open>re\<close> on the patterns the code uses: a backtracking matcher. A position in the subject is the
  previous character (for \<open>\b\<close>) and the rest of the text; \<open>rmatch r st\<close> lists the positions where a
  match of \<open>r\<close> begun at \<open>st\<close> can end, in the order in which the backtracking engine tries them, so
  that its first element is the match \<open>re\<close> reports. Word characters are the ASCII ones and all bytes
  above 127 (letters outside ASCII, such as Hangul, are word characters of Python); case is ignored on
  ASCII letters, and \<open>\s\<close> is ASCII white space.
\<close>

datatype rx =
    Eps
  | Cls "char \<Rightarrow> bool"
  | Boundary
  | Seq rx rx
  | Alt rx rx
  | Star rx

type_synonym pos = "char option \<times> string"

definition word_char :: "char \<Rightarrow> bool" where
  "word_char c = (let n = (of_char c :: nat) in
     (48 \<le> n \<and> n \<le> 57) \<or> (65 \<le> n \<and> n \<le> 90) \<or> n = 95 \<or> (97 \<le> n \<and> n \<le> 122) \<or> 128 \<le> n)"

definition at_boundary :: "pos \<Rightarrow> bool" where
  "at_boundary st =
     ((case fst st of None \<Rightarrow> False | Some c \<Rightarrow> word_char c) \<noteq>
      (case snd st of [] \<Rightarrow> False | c # _ \<Rightarrow> word_char c))"

definition step_char :: "(char \<Rightarrow> bool) \<Rightarrow> pos \<Rightarrow> pos list" where
  "step_char p st = (case snd st of [] \<Rightarrow> [] | c # cs \<Rightarrow> if p c then [(Some c, cs)] else [])"

text \<open>A repetition is greedy and, as in \<open>re\<close>, does not iterate over an empty match.\<close>

function rmatch :: "rx \<Rightarrow> pos \<Rightarrow> pos list" where
  "rmatch Eps st = [st]"
| "rmatch (Cls p) st = step_char p st"
| "rmatch Boundary st = (if at_boundary st then [st] else [])"
| "rmatch (Seq r s) st = concat (map (rmatch s) (rmatch r st))"
| "rmatch (Alt r s) st = rmatch r st @ rmatch s st"
| "rmatch (Star r) st =
     concat (map (rmatch (Star r))
       (filter (\<lambda>st'. length (snd st') < length (snd st)) (rmatch r st))) @ [st]"
  by pat_completeness auto
termination
  by (relation "measures [\<lambda>(r, st). size r, \<lambda>(r, st). length (snd st)]") auto

lemma rmatch_Star: "st' \<in> set (rmatch (Star r) st) \<longleftrightarrow>
    st' = st \<or>
    (\<exists>m\<in>set (rmatch r st). length (snd m) < length (snd st) \<and> st' \<in> set (rmatch (Star r) m))"
  by (subst rmatch.simps(6)) (auto simp del: rmatch.simps)

declare rmatch.simps(6) [simp del]

definition lit_char :: "char \<Rightarrow> rx" where
  "lit_char c = Cls (\<lambda>d. lower_char d = lower_char c)"

fun lit :: "string \<Rightarrow> rx" where
  "lit [] = Eps"
| "lit [c] = lit_char c"
| "lit (c # d # cs) = Seq (lit_char c) (lit (d # cs))"

definition optional :: "rx \<Rightarrow> rx" where
  "optional r = Alt r Eps"

definition plus_rx :: "rx \<Rightarrow> rx" where
  "plus_rx r = Seq r (Star r)"

fun alts :: "rx list \<Rightarrow> rx" where
  "alts [] = Cls (\<lambda>_. False)"
| "alts [r] = r"
| "alts (r # s # rs) = Alt r (alts (s # rs))"

text \<open>\<open>re.search\<close>: the leftmost position with a match.\<close>

fun rsearch :: "rx \<Rightarrow> char option \<Rightarrow> string \<Rightarrow> bool" where
  "rsearch r pv [] = (rmatch r (pv, []) \<noteq> [])"
| "rsearch r pv (c # cs) = (rmatch r (pv, c # cs) \<noteq> [] \<or> rsearch r (Some c) cs)"

text \<open>The least number of characters a match of an expression consumes.\<close>

fun min_len :: "rx \<Rightarrow> nat" where
  "min_len Eps = 0"
| "min_len (Cls p) = 1"
| "min_len Boundary = 0"
| "min_len (Seq r s) = min_len r + min_len s"
| "min_len (Alt r s) = min (min_len r) (min_len s)"
| "min_len (Star r) = 0"

lemma rmatch_consumes: "st' \<in> set (rmatch r st) \<Longrightarrow> length (snd st') + min_len r \<le> length (snd st)"
proof (induction r st arbitrary: st' rule: rmatch.induct)
  case (2 p st)
  then show ?case by (cases "snd st") (auto simp: step_char_def split: if_splits)
next
  case (4 r s st)
  then obtain m where "m \<in> set (rmatch r st)" and "st' \<in> set (rmatch s m)" by auto
  with "4.IH" show ?case by fastforce
next
  case (5 r s st)
  then consider "st' \<in> set (rmatch r st)" | "st' \<in> set (rmatch s st)" by auto
  then show ?case by cases (drule "5.IH", simp)+
next
  case (6 r st)
  show ?case
  proof (cases "st' = st")
    case False
    with "6.prems" obtain m where m: "m \<in> set (rmatch r st)" "length (snd m) < length (snd st)"
      and "st' \<in> set (rmatch (Star r) m)" by (auto simp: rmatch_Star [of st' r st])
    with "6.IH"(2) [of m st'] have "length (snd st') \<le> length (snd m)" by simp
    with m show ?thesis by simp
  qed simp
qed (auto split: if_splits)

text \<open>A match never changes the text it leaves behind: the rest is a suffix of the subject.\<close>

lemma rmatch_suffix: "st' \<in> set (rmatch r st) \<Longrightarrow> \<exists>u. snd st = u @ snd st'"
proof (induction r st arbitrary: st' rule: rmatch.induct)
  case (2 p st)
  then show ?case by (cases "snd st") (auto simp: step_char_def split: if_splits)
next
  case (4 r s st)
  then obtain m where "m \<in> set (rmatch r st)" and "st' \<in> set (rmatch s m)" by auto
  with "4.IH" obtain u v where "snd st = u @ snd m" and "snd m = v @ snd st'" by blast
  then have "snd st = (u @ v) @ snd st'" by simp
  then show ?case by blast
next
  case (6 r st)
  show ?case
  proof (cases "st' = st")
    case False
    with "6.prems" obtain m where m: "m \<in> set (rmatch r st)" "length (snd m) < length (snd st)"
      and "st' \<in> set (rmatch (Star r) m)" by (auto simp: rmatch_Star [of st' r st])
    with "6.IH"(2) [of m st'] obtain v where v: "snd m = v @ snd st'" by auto
    from "6.IH"(1) [OF m(1)] obtain u where "snd st = u @ snd m" by blast
    then have "snd st = (u @ v) @ snd st'" by (simp add: v)
    then show ?thesis by blast
  qed simp
qed (auto split: if_splits)


end
