(* ===== verification/Redaction.thy ===== *)
theory Redaction
  imports Json_Values Regex_Matcher
begin

text \<open>
  \<open>execution_store.redact\<close>: what the ledger writes never carries the value of a secret-named key, and a
  text loses the value after a secret keyword. Part of \<open>src/nyanya_agent/execution_store.py\<close>.
\<close>

section \<open>SECRET_KEY_RE and NON_SECRET_TOKEN_KEYS\<close>

definition SECRET_KEY_RE :: rx where
  "SECRET_KEY_RE = alts
     [lit ''token'', lit ''secret'', lit ''password'', lit ''passwd'', lit ''authorization'',
      Seq (lit ''api'') (Seq (optional (Cls (\<lambda>c. c = CHR ''_'' \<or> c = CHR ''-''))) (lit ''key'')),
      Seq (lit ''private'') (Seq (optional (Cls (\<lambda>c. c = CHR ''_'' \<or> c = CHR ''-''))) (lit ''key''))]"

definition NON_SECRET_TOKEN_KEYS :: "string list" where
  "NON_SECRET_TOKEN_KEYS = [''fence_token'', ''prompt_tokens'', ''completion_tokens'', ''total_tokens'']"

definition secret_key :: "string \<Rightarrow> bool" where
  "secret_key key \<longleftrightarrow> lower key \<notin> set NON_SECRET_TOKEN_KEYS \<and> rsearch SECRET_KEY_RE None key"

section \<open>SECRET_TEXT_RE\<close>

definition secret_word :: rx where
  "secret_word = alts
     [Seq (lit ''api'') (Seq (optional (Cls (\<lambda>c. c = CHR ''_'' \<or> c = CHR ''-''))) (lit ''key'')),
      lit ''token'', lit ''password'', lit ''passwd'', lit ''secret'', lit ''authorization'', lit ''bearer'']"

definition secret_value_tail :: rx where
  "secret_value_tail =
     Seq Boundary (Seq (Star (Cls is_space))
       (Seq (Cls (\<lambda>c. c = CHR '':'' \<or> c = CHR ''='' \<or> c = CHR '' ''))
         (Seq (Star (Cls is_space))
           (Seq (optional (Cls (\<lambda>c. c = CHR 0x27 \<or> c = CHR 0x22)))
             (plus_rx (Cls (\<lambda>c. \<not> (c = CHR 0x27 \<or> c = CHR 0x22 \<or> is_space c \<or> c = CHR '','' \<or> c = CHR ''}'')))))))) "

text \<open>The first match at a position: the keyword (group 1) and the position after the value.\<close>

definition secret_text_at :: "pos \<Rightarrow> (string \<times> pos) list" where
  "secret_text_at st =
     concat (map (\<lambda>m. map (\<lambda>e. (take (length (snd st) - length (snd m)) (snd st), e)) (rmatch secret_value_tail m))
       (rmatch (Seq Boundary secret_word) st))"

lemma secret_text_at_shrinks:
  assumes "secret_text_at st = (g, e) # more"
  shows "length (snd e) < length (snd st)"
proof -
  have "(g, e) \<in> set (secret_text_at st)" using assms by simp
  then obtain m where m: "m \<in> set (rmatch (Seq Boundary secret_word) st)"
    and e: "e \<in> set (rmatch secret_value_tail m)"
    by (auto simp: secret_text_at_def simp del: rmatch.simps)
  from rmatch_consumes [OF m] have "length (snd m) \<le> length (snd st)" by simp
  moreover from rmatch_consumes [OF e] have "length (snd e) + 2 \<le> length (snd m)"
    by (simp add: secret_value_tail_def plus_rx_def optional_def)
  ultimately show ?thesis by simp
qed

text \<open>\<open>SECRET_TEXT_RE.sub(lambda match: f"{match.group(1)}=[REDACTED]", value)\<close>\<close>

function redact_from :: "char option \<Rightarrow> string \<Rightarrow> string" where
  "redact_from pv [] = []"
| "redact_from pv (c # cs) =
     (case secret_text_at (pv, c # cs) of
        [] \<Rightarrow> c # redact_from (Some c) cs
      | (g, e) # _ \<Rightarrow> g @ ''=[REDACTED]'' @ redact_from (fst e) (snd e))"
  by pat_completeness auto
termination
  by (relation "measure (\<lambda>(pv, cs). length cs)")
     (auto dest!: secret_text_at_shrinks [OF sym] secret_text_at_shrinks)

definition redact_text :: "string \<Rightarrow> string" where
  "redact_text s = redact_from None s"

section \<open>redact\<close>

text \<open>A secret-named key hides its value whatever its type; otherwise dictionaries and lists are walked.\<close>

fun redact :: "json \<Rightarrow> string \<Rightarrow> json" where
  "redact v key =
     (if secret_key key then JStr ''[REDACTED]''
      else (case v of
          JObj d \<Rightarrow> JObj (map (\<lambda>(k, w). (k, redact w k)) d)
        | JList xs \<Rightarrow> JList (map (\<lambda>x. redact x []) xs)
        | JStr s \<Rightarrow> JStr (redact_text s)
        | _ \<Rightarrow> v))"

declare redact.simps [simp del]

text \<open>\<open>redact\<close> on a dictionary passed with the empty key.\<close>

definition redact_dict :: "dict \<Rightarrow> dict" where
  "redact_dict d = map (\<lambda>(k, w). (k, redact w k)) d"

text \<open>What redaction promises: below a secret-named key there is only the mark.\<close>

fun concealed :: "json \<Rightarrow> bool" where
  "concealed (JObj d) = (\<forall>(k, w) \<in> set d. (secret_key k \<longrightarrow> w = JStr ''[REDACTED]'') \<and> concealed w)"
| "concealed (JList xs) = (\<forall>x \<in> set xs. concealed x)"
| "concealed _ = True"

definition concealed_dict :: "dict \<Rightarrow> bool" where
  "concealed_dict d \<longleftrightarrow> (\<forall>(k, w) \<in> set d. (secret_key k \<longrightarrow> w = JStr ''[REDACTED]'') \<and> concealed w)"

lemma not_secret_Nil [simp]: "\<not> secret_key []"
  by (simp add: secret_key_def SECRET_KEY_RE_def lit_char_def step_char_def)

lemma redact_secret: "secret_key k \<Longrightarrow> redact v k = JStr ''[REDACTED]''"
  by (simp add: redact.simps)

lemma redact_dict_eq: "redact (JObj d) [] = JObj (redact_dict d)"
  by (simp add: redact.simps [of "JObj d"] redact_dict_def)

lemma concealed_redact: "concealed (redact v key)"
proof (induction v key rule: redact.induct)
  case (1 v key)
  show ?case
  proof (cases "secret_key key")
    case False
    note eq = redact.simps [of v key]
    show ?thesis
    proof (cases v)
      case (JList xs)
      with False 1 show ?thesis by (simp add: redact.simps [of "JList xs"])
    next
      case (JObj d)
      have "concealed (redact w k) \<and> (secret_key k \<longrightarrow> redact w k = JStr ''[REDACTED]'')"
        if "(k, w) \<in> set d" for k w
        using 1(2) [OF False JObj that refl] redact_secret by auto
      with False JObj show ?thesis by (auto simp: redact.simps [of "JObj d"])
    qed (use eq False in simp_all)
  qed (simp add: redact.simps [of v])
qed

lemma concealed_redact_dict [simp]: "concealed_dict (redact_dict d)"
  using concealed_redact [of "JObj d" "[]"] by (simp add: redact_dict_eq concealed_dict_def)

lemma concealed_dict_simps [simp]:
  "concealed_dict []"
  "concealed_dict ((k, w) # d) =
     ((secret_key k \<longrightarrow> w = JStr ''[REDACTED]'') \<and> concealed w \<and> concealed_dict d)"
  by (auto simp: concealed_dict_def)

lemma concealed_dict_update:
  "concealed_dict d \<Longrightarrow> concealed_dict e \<Longrightarrow> concealed_dict (dict_update d e)"
  using set_dict_update [of d e] unfolding concealed_dict_def by blast

lemma concealed_dict_put:
  "concealed_dict d \<Longrightarrow> concealed w \<Longrightarrow> (secret_key k \<Longrightarrow> w = JStr ''[REDACTED]'') \<Longrightarrow>
   concealed_dict (dict_put k w d)"
  using set_dict_put [of k w d] unfolding concealed_dict_def by blast

lemma concealed_dict_pop: "concealed_dict d \<Longrightarrow> concealed_dict (dict_pop k d)"
  using set_dict_pop [of k d] unfolding concealed_dict_def by blast

section \<open>Properties\<close>

text \<open>Every key of a value with what is stored under it, at any depth.\<close>

fun entries :: "json \<Rightarrow> (string \<times> json) list" where
  "entries (JObj d) = concat (map (\<lambda>(k, w). (k, w) # entries w) d)"
| "entries (JList xs) = concat (map entries xs)"
| "entries _ = []"

lemma concealed_entries: "concealed v \<Longrightarrow> (k, w) \<in> set (entries v) \<Longrightarrow> secret_key k \<Longrightarrow> w = JStr ''[REDACTED]''"
proof (induction v rule: entries.induct)
  case (1 d)
  then obtain j u where ju: "(j, u) \<in> set d" and "(k, w) = (j, u) \<or> (k, w) \<in> set (entries u)" by auto
  moreover from 1(2) ju have "secret_key j \<longrightarrow> u = JStr ''[REDACTED]''" "concealed u" by auto
  ultimately show ?case using 1(1) [OF ju refl] 1(4) by auto
next
  case (2 xs)
  then show ?case by auto
qed simp_all

text \<open>C38. Redaction conceals: wherever a secret-named key occurs in a redacted value, at any depth of
  dictionaries and lists, what is stored under it is the mark \<open>[REDACTED]\<close>, whatever was there before.\<close>

theorem redaction_conceals:
  assumes "(k, w) \<in> set (entries (redact v []))" "secret_key k"
  shows "w = JStr ''[REDACTED]''"
  using concealed_redact assms by (rule concealed_entries)

lemma redaction_conceals_witness:
  "(''api_key'', JStr ''[REDACTED]'') \<in> set (entries (redact
     (JObj [(''env'', JList [JObj [(''api_key'', JStr ''abc''), (''n'', JInt 1)]])]) []))"
proof -
  let ?v = "JObj [(''env'', JList [JObj [(''api_key'', JStr ''abc''), (''n'', JInt 1)]])]"
  have "(''api_key'', JStr ''[REDACTED]'') \<in> set (entries (redact ?v []))" and k: "secret_key ''api_key''"
    by code_simp+
  with redaction_conceals [OF this] show ?thesis by blast
qed

text \<open>The text pattern replaces one word after the key, so the credential of an \<open>Authorization: Bearer\<close>
  header, which follows the word \<open>Bearer\<close>, is still readable after redaction.\<close>

theorem bearer_credential_survives:
  "redact_text ''Authorization: Bearer abc123'' = ''Authorization=[REDACTED] abc123''"
  by code_simp

end
