(* ===== verification/Schema.thy ===== *)
theory Schema
  imports Complex_Main Redaction "HOL-Library.Sublist"
begin

text \<open>
  The ledger: one record per table of the SQLite schema, one list of rows per table. The columns are
  those of \<open>SCHEMA_SQL\<close> in \<open>src/nyanya_agent/database.py\<close>, of the migrations in
  \<open>src/nyanya_agent/execution_store.py\<close> and of \<open>src/nyanya_agent/operation_schema.py\<close>. A nullable
  column is an \<open>option\<close>, a \<open>*_json\<close> column holds the value it encodes.

  An \<open>INSERT\<close> checks the primary key, the unique index and the foreign keys
  (\<open>PRAGMA foreign_keys = ON\<close>) and raises \<open>IntegrityError\<close>; updates never touch a key. For each table
  there are \<open>add_x\<close> (the row appended), \<open>insert_x\<close> (the checked statement) and \<open>update_x\<close>.

  \<open>ledger_inv\<close> is the type invariant of the database: keys and unique indexes hold, foreign keys
  resolve, and no stored metadata shows the value of a secret-named key. \<open>sound db db'\<close> says that a
  change of the ledger keeps the invariant and only appends to the event log and to the audit log.
  The rules \<open>sound_intros\<close> peel the statements of an operation one by one.
\<close>

named_theorems sound_intros \<open>each statement keeps the ledger invariant and the logs\<close>
named_theorems row_defs \<open>what a row of each table must satisfy\<close>
named_theorems statement_defs \<open>the statements as record updates\<close>

section \<open>Rows\<close>

record file_change =
  fc_path :: string
  fc_action :: string
  fc_reason :: string
  fc_content :: string
  fc_before_hash :: "string option"
  fc_before_content :: string
  fc_after_hash :: "string option"

record request_row =
  rq_id :: string
  rq_source :: string
  rq_guild_id :: string
  rq_channel_id :: string
  rq_channel_name :: string
  rq_user_id :: string
  rq_trigger :: string
  rq_command :: string
  rq_mode :: string
  rq_provider :: string
  rq_model :: string
  rq_prompt :: string
  rq_status :: string
  rq_result_summary :: string
  rq_error :: string
  rq_prompt_tokens :: "int option"
  rq_completion_tokens :: "int option"
  rq_total_tokens :: "int option"
  rq_started_at :: "time option"
  rq_ended_at :: "time option"
  rq_duration_ms :: "int option"
  rq_metadata :: dict
  rq_created_at :: time
  rq_updated_at :: time

record host_row =
  ho_id :: string
  ho_name :: string
  ho_role :: string
  ho_platform :: string
  ho_architecture :: string
  ho_tailscale_name :: string
  ho_status :: string
  ho_capabilities :: dict
  ho_metadata :: dict
  ho_last_heartbeat_at :: "time option"
  ho_created_at :: time
  ho_updated_at :: time

record profile_row =
  ap_id :: string
  ap_name :: string
  ap_adapter_type :: string
  ap_model :: string
  ap_workspace_root :: string
  ap_enabled :: bool
  ap_capabilities :: dict
  ap_policy :: dict
  ap_created_at :: time
  ap_updated_at :: time

record project_row =
  pj_id :: string
  pj_name :: string
  pj_owner :: string
  pj_workspace_root :: string
  pj_status :: string
  pj_description :: string
  pj_metadata :: dict
  pj_created_at :: time
  pj_updated_at :: time

record codex_row =
  cx_id :: string
  cx_project_id :: string
  cx_session_key :: string
  cx_name :: string
  cx_external_session_id :: string
  cx_status :: string
  cx_workspace_root :: string
  cx_model :: string
  cx_metadata :: dict
  cx_created_at :: time
  cx_updated_at :: time
  cx_last_activity_at :: time

record task_row =
  tk_id :: string
  tk_source_request_id :: "string option"
  tk_title :: string
  tk_prompt :: string
  tk_status :: string
  tk_priority :: int
  tk_requested_by :: string
  tk_assigned_agent_id :: "string option"
  tk_current_execution_id :: "string option"
  tk_metadata :: dict
  tk_created_at :: time
  tk_updated_at :: time
  tk_completed_at :: "time option"
  tk_project_id :: "string option"
  tk_codex_session_id :: "string option"

record execution_row =
  ex_id :: string
  ex_task_id :: string
  ex_host_id :: "string option"
  ex_agent_profile_id :: "string option"
  ex_adapter_type :: string
  ex_status :: string
  ex_status_confidence :: rat
  ex_command_summary :: string
  ex_workdir :: string
  ex_exit_code :: "int option"
  ex_error :: string
  ex_metadata :: dict
  ex_created_at :: time
  ex_started_at :: "time option"
  ex_ended_at :: "time option"
  ex_last_heartbeat_at :: "time option"
  ex_updated_at :: time

record runtime_row =
  rs_id :: string
  rs_execution_id :: "string option"
  rs_host_id :: "string option"
  rs_adapter_type :: string
  rs_external_id :: string
  rs_status :: string
  rs_pid :: "int option"
  rs_tmux_session :: string
  rs_metadata :: dict
  rs_started_at :: time
  rs_last_heartbeat_at :: time
  rs_ended_at :: "time option"
  rs_updated_at :: time

record approval_row =
  ag_id :: string
  ag_task_id :: "string option"
  ag_execution_id :: "string option"
  ag_action :: string
  ag_status :: string
  ag_requested_by :: string
  ag_decided_by :: string
  ag_reason :: string
  ag_metadata :: dict
  ag_requested_at :: time
  ag_decided_at :: "time option"
  ag_expires_at :: "time option"

record artifact_row =
  af_id :: string
  af_task_id :: "string option"
  af_execution_id :: "string option"
  af_kind :: string
  af_path :: string
  af_sha256 :: string
  af_size_bytes :: "int option"
  af_mime_type :: string
  af_metadata :: dict
  af_created_at :: time

record lease_row =
  ls_resource_key :: string
  ls_owner_id :: string
  ls_fence_token :: int
  ls_metadata :: dict
  ls_acquired_at :: time
  ls_heartbeat_at :: time
  ls_expires_at :: time

record claim_row =
  cl_task_id :: string
  cl_worker_id :: string
  cl_owner_key :: string
  cl_execution_id :: string
  cl_expires_at :: time
  cl_released :: bool

record result_row =
  rt_execution_id :: string
  rt_task_id :: string
  rt_outcome :: string
  rt_response :: string
  rt_delivery_status :: string
  rt_delivery_error :: string
  rt_created_at :: time
  rt_updated_at :: time

record conversation_row =
  cv_id :: string
  cv_owner_key :: string
  cv_conversation_hash :: string
  cv_workspace_root :: string
  cv_generation :: int
  cv_next_sequence :: int
  cv_pending_task_id :: "string option"
  cv_pending_execution_id :: "string option"
  cv_memory_reset_generation :: int
  cv_created_at :: time
  cv_updated_at :: time

record turn_row =
  tn_task_id :: string
  tn_session_id :: string
  tn_generation :: int
  tn_sequence :: int
  tn_related_task_id :: "string option"
  tn_reply_kind :: string
  tn_completed_execution_id :: "string option"
  tn_created_at :: time
  tn_updated_at :: time

record worker_row =
  wk_id :: string
  wk_heartbeat_at :: time
  wk_closed :: bool

record operation_row =
  op_task_id :: string
  op_spec :: dict
  op_worker_generation :: string
  op_eligible :: bool
  op_attempts :: int
  op_max_attempts :: int
  op_hold_reason :: string
  op_assessment :: dict
  op_diagnosis :: string
  op_parent_task_id :: "string option"

record plan_row =
  pl_id :: string
  pl_task_id :: string
  pl_owner_key :: string
  pl_workspace :: string
  pl_revision :: int
  pl_plan_hash :: string
  pl_changes :: "file_change list"
  pl_status :: string
  pl_expires_at :: time
  pl_decided_by :: string
  pl_created_at :: time

record journal_row =
  jn_plan_id :: string
  jn_ordinal :: int
  jn_path :: string
  jn_before_hash :: "string option"
  jn_after_hash :: "string option"
  jn_before_content :: "string option"
  jn_state :: string

record draft_row =
  dr_id :: string
  dr_owner_key :: string
  dr_workspace :: string
  dr_source_task_id :: string
  dr_session_id :: "string option"
  dr_generation :: "int option"
  dr_paths :: "string list"
  dr_scope_hash :: string
  dr_snapshot :: dict
  dr_status :: string
  dr_plan_id :: "string option"
  dr_open_task_id :: "string option"
  dr_revision :: int
  dr_created_at :: time
  dr_updated_at :: time
  dr_expires_at :: time

record event_row =
  ev_seq :: nat
  ev_task_id :: "string option"
  ev_execution_id :: "string option"
  ev_event_type :: string
  ev_status :: string
  ev_message :: string
  ev_metadata :: dict
  ev_created_at :: time

record audit_row =
  au_actor :: string
  au_action :: string
  au_entity_type :: string
  au_entity_id :: string
  au_detail :: dict
  au_created_at :: time

record ledger =
  agent_requests :: "request_row list"
  hosts :: "host_row list"
  agent_profiles :: "profile_row list"
  execution_projects :: "project_row list"
  codex_sessions :: "codex_row list"
  agent_tasks :: "task_row list"
  executions :: "execution_row list"
  runtime_sessions :: "runtime_row list"
  approvals :: "approval_row list"
  artifacts :: "artifact_row list"
  writer_leases :: "lease_row list"
  task_claims :: "claim_row list"
  task_results :: "result_row list"
  conversation_sessions :: "conversation_row list"
  conversation_turns :: "turn_row list"
  operation_workers :: "worker_row list"
  task_operations :: "operation_row list"
  change_plans :: "plan_row list"
  change_journal :: "journal_row list"
  operation_drafts :: "draft_row list"
  execution_events :: "event_row list"
  audit_logs :: "audit_row list"

section \<open>Keys\<close>

text \<open>The primary keys that foreign keys refer to.\<close>

record keys =
  k_requests :: "string set"
  k_hosts :: "string set"
  k_profiles :: "string set"
  k_projects :: "string set"
  k_codex :: "string set"
  k_tasks :: "string set"
  k_executions :: "string set"
  k_conversations :: "string set"
  k_plans :: "string set"

definition keys :: "ledger \<Rightarrow> keys" where
  "keys db = \<lparr>
     k_requests = rq_id ` set (agent_requests db),
     k_hosts = ho_id ` set (hosts db),
     k_profiles = ap_id ` set (agent_profiles db),
     k_projects = pj_id ` set (execution_projects db),
     k_codex = cx_id ` set (codex_sessions db),
     k_tasks = tk_id ` set (agent_tasks db),
     k_executions = ex_id ` set (executions db),
     k_conversations = cv_id ` set (conversation_sessions db),
     k_plans = pl_id ` set (change_plans db)\<rparr>"

definition keys_le :: "keys \<Rightarrow> keys \<Rightarrow> bool" where
  "keys_le K L \<longleftrightarrow>
     k_requests K \<subseteq> k_requests L \<and>
     k_hosts K \<subseteq> k_hosts L \<and>
     k_profiles K \<subseteq> k_profiles L \<and>
     k_projects K \<subseteq> k_projects L \<and>
     k_codex K \<subseteq> k_codex L \<and>
     k_tasks K \<subseteq> k_tasks L \<and>
     k_executions K \<subseteq> k_executions L \<and>
     k_conversations K \<subseteq> k_conversations L \<and>
     k_plans K \<subseteq> k_plans L"

lemma keys_le_refl [simp]: "keys_le K K"
  by (simp add: keys_le_def)

definition fk :: "string set \<Rightarrow> string option \<Rightarrow> bool" where
  "fk ids x = (case x of None \<Rightarrow> True | Some k \<Rightarrow> k \<in> ids)"

lemma fk_simps [simp]: "fk ids None" "fk ids (Some k) = (k \<in> ids)"
  by (simp_all add: fk_def)

lemma fk_mono: "ids \<subseteq> ids' \<Longrightarrow> fk ids x \<Longrightarrow> fk ids' x"
  by (cases x) auto

section \<open>Tables\<close>

text \<open>A table's invariant: primary key, unique index (rows with \<open>None\<close> are outside it) and row condition.\<close>

definition unique_on :: "('r \<Rightarrow> 'u option) \<Rightarrow> 'r list \<Rightarrow> bool" where
  "unique_on u rows = distinct (List.map_filter u rows)"

definition table_inv :: "('r \<Rightarrow> 'k) \<Rightarrow> ('r \<Rightarrow> 'u option) \<Rightarrow> ('r \<Rightarrow> bool) \<Rightarrow> 'r list \<Rightarrow> bool" where
  "table_inv key u ok rows \<longleftrightarrow>
     distinct (map key rows) \<and> unique_on u rows \<and> (\<forall>r\<in>set rows. ok r)"

definition clash :: "('r \<Rightarrow> 'k) \<Rightarrow> ('r \<Rightarrow> 'u option) \<Rightarrow> 'r list \<Rightarrow> 'r \<Rightarrow> bool" where
  "clash key u rows r \<longleftrightarrow> (\<exists>x\<in>set rows. key x = key r \<or> (u r \<noteq> None \<and> u x = u r))"

definition no_unique :: "'r \<Rightarrow> unit option" where
  "no_unique r = None"

lemma no_unique_simps [simp]: "no_unique r = None"
  by (simp add: no_unique_def)

lemma map_filter_upd: "(\<And>r. u (f r) = u r) \<Longrightarrow> List.map_filter u (upd P f rows) = List.map_filter u rows"
  by (induction rows) (auto simp: List.map_filter_def)

lemma table_inv_upd:
  assumes "table_inv key u ok rows" "\<And>r. key (f r) = key r" "\<And>r. u (f r) = u r"
    "\<And>r. r \<in> set rows \<Longrightarrow> P r \<Longrightarrow> ok r \<Longrightarrow> ok (f r)"
  shows "table_inv key u ok (upd P f rows)"
  using assms by (auto simp: table_inv_def unique_on_def map_filter_upd set_upd)

lemma table_inv_snoc:
  "table_inv key u ok rows \<Longrightarrow> \<not> clash key u rows r \<Longrightarrow> ok r \<Longrightarrow> table_inv key u ok (rows @ [r])"
  by (cases "u r") (auto simp: table_inv_def unique_on_def clash_def List.map_filter_def)

lemma table_inv_mono: "table_inv key u ok rows \<Longrightarrow> (\<And>r. ok r \<Longrightarrow> ok' r) \<Longrightarrow> table_inv key u ok' rows"
  by (auto simp: table_inv_def)

lemma table_inv_filter: "table_inv key u ok rows \<Longrightarrow> table_inv key u ok (filter P rows)"
  unfolding table_inv_def unique_on_def List.map_filter_def filter_filter
  by (auto simp: distinct_map_filter conj_commute [of "P _"] simp flip: filter_filter)

lemma image_upd [simp]: "(\<And>r. key (f r) = key r) \<Longrightarrow> key ` set (upd P f rows) = key ` set rows"
  by (induction rows) auto

section \<open>Row conditions\<close>

definition request_fk :: "keys \<Rightarrow> request_row \<Rightarrow> bool" where
  "request_fk K r \<longleftrightarrow> True"

definition request_ok :: "keys \<Rightarrow> request_row \<Rightarrow> bool" where
  [row_defs]: "request_ok K r \<longleftrightarrow> request_fk K r"

definition host_fk :: "keys \<Rightarrow> host_row \<Rightarrow> bool" where
  "host_fk K r \<longleftrightarrow> True"

definition host_ok :: "keys \<Rightarrow> host_row \<Rightarrow> bool" where
  [row_defs]: "host_ok K r \<longleftrightarrow> host_fk K r \<and> concealed_dict (ho_metadata r)"

definition host_unique :: "host_row \<Rightarrow> string option" where
  "host_unique r = Some (ho_name r)"

definition profile_fk :: "keys \<Rightarrow> profile_row \<Rightarrow> bool" where
  "profile_fk K r \<longleftrightarrow> True"

definition profile_ok :: "keys \<Rightarrow> profile_row \<Rightarrow> bool" where
  [row_defs]: "profile_ok K r \<longleftrightarrow> profile_fk K r \<and> concealed_dict (ap_policy r)"

definition profile_unique :: "profile_row \<Rightarrow> string option" where
  "profile_unique r = Some (ap_name r)"

definition project_fk :: "keys \<Rightarrow> project_row \<Rightarrow> bool" where
  "project_fk K r \<longleftrightarrow> True"

definition project_ok :: "keys \<Rightarrow> project_row \<Rightarrow> bool" where
  [row_defs]: "project_ok K r \<longleftrightarrow> project_fk K r \<and> concealed_dict (pj_metadata r)"

definition project_unique :: "project_row \<Rightarrow> string option" where
  "project_unique r = (if pj_workspace_root r = [] then None else Some (pj_workspace_root r))"

definition codex_fk :: "keys \<Rightarrow> codex_row \<Rightarrow> bool" where
  "codex_fk K r \<longleftrightarrow> cx_project_id r \<in> k_projects K"

definition codex_ok :: "keys \<Rightarrow> codex_row \<Rightarrow> bool" where
  [row_defs]: "codex_ok K r \<longleftrightarrow> codex_fk K r \<and> concealed_dict (cx_metadata r)"

definition codex_unique :: "codex_row \<Rightarrow> (string \<times> string) option" where
  "codex_unique r = Some (cx_project_id r, cx_session_key r)"

definition task_fk :: "keys \<Rightarrow> task_row \<Rightarrow> bool" where
  "task_fk K r \<longleftrightarrow> fk (k_requests K) (tk_source_request_id r) \<and> fk (k_profiles K) (tk_assigned_agent_id r) \<and> fk (k_projects K) (tk_project_id r) \<and> fk (k_codex K) (tk_codex_session_id r)"

definition task_ok :: "keys \<Rightarrow> task_row \<Rightarrow> bool" where
  [row_defs]: "task_ok K r \<longleftrightarrow> task_fk K r \<and> concealed_dict (tk_metadata r)"

definition task_unique :: "task_row \<Rightarrow> string option" where
  "task_unique r = tk_source_request_id r"

definition execution_fk :: "keys \<Rightarrow> execution_row \<Rightarrow> bool" where
  "execution_fk K r \<longleftrightarrow> ex_task_id r \<in> k_tasks K \<and> fk (k_hosts K) (ex_host_id r) \<and> fk (k_profiles K) (ex_agent_profile_id r)"

definition execution_ok :: "keys \<Rightarrow> execution_row \<Rightarrow> bool" where
  [row_defs]: "execution_ok K r \<longleftrightarrow> execution_fk K r \<and> concealed_dict (ex_metadata r)"

definition runtime_fk :: "keys \<Rightarrow> runtime_row \<Rightarrow> bool" where
  "runtime_fk K r \<longleftrightarrow> fk (k_executions K) (rs_execution_id r) \<and> fk (k_hosts K) (rs_host_id r)"

definition runtime_ok :: "keys \<Rightarrow> runtime_row \<Rightarrow> bool" where
  [row_defs]: "runtime_ok K r \<longleftrightarrow> runtime_fk K r \<and> concealed_dict (rs_metadata r)"

definition approval_fk :: "keys \<Rightarrow> approval_row \<Rightarrow> bool" where
  "approval_fk K r \<longleftrightarrow> fk (k_tasks K) (ag_task_id r) \<and> fk (k_executions K) (ag_execution_id r)"

definition approval_ok :: "keys \<Rightarrow> approval_row \<Rightarrow> bool" where
  [row_defs]: "approval_ok K r \<longleftrightarrow> approval_fk K r \<and> concealed_dict (ag_metadata r)"

definition artifact_fk :: "keys \<Rightarrow> artifact_row \<Rightarrow> bool" where
  "artifact_fk K r \<longleftrightarrow> fk (k_tasks K) (af_task_id r) \<and> fk (k_executions K) (af_execution_id r)"

definition artifact_ok :: "keys \<Rightarrow> artifact_row \<Rightarrow> bool" where
  [row_defs]: "artifact_ok K r \<longleftrightarrow> artifact_fk K r \<and> concealed_dict (af_metadata r)"

definition lease_fk :: "keys \<Rightarrow> lease_row \<Rightarrow> bool" where
  "lease_fk K r \<longleftrightarrow> True"

definition lease_ok :: "keys \<Rightarrow> lease_row \<Rightarrow> bool" where
  [row_defs]: "lease_ok K r \<longleftrightarrow> lease_fk K r \<and> concealed_dict (ls_metadata r)"

definition claim_fk :: "keys \<Rightarrow> claim_row \<Rightarrow> bool" where
  "claim_fk K r \<longleftrightarrow> cl_task_id r \<in> k_tasks K \<and> cl_execution_id r \<in> k_executions K"

definition claim_ok :: "keys \<Rightarrow> claim_row \<Rightarrow> bool" where
  [row_defs]: "claim_ok K r \<longleftrightarrow> claim_fk K r"

definition result_fk :: "keys \<Rightarrow> result_row \<Rightarrow> bool" where
  "result_fk K r \<longleftrightarrow> rt_execution_id r \<in> k_executions K \<and> rt_task_id r \<in> k_tasks K"

definition result_ok :: "keys \<Rightarrow> result_row \<Rightarrow> bool" where
  [row_defs]: "result_ok K r \<longleftrightarrow> result_fk K r"

definition conversation_fk :: "keys \<Rightarrow> conversation_row \<Rightarrow> bool" where
  "conversation_fk K r \<longleftrightarrow> fk (k_tasks K) (cv_pending_task_id r) \<and> fk (k_executions K) (cv_pending_execution_id r)"

definition conversation_ok :: "keys \<Rightarrow> conversation_row \<Rightarrow> bool" where
  [row_defs]: "conversation_ok K r \<longleftrightarrow> conversation_fk K r"

definition conversation_unique :: "conversation_row \<Rightarrow> (string \<times> string \<times> string) option" where
  "conversation_unique r = Some (cv_owner_key r, cv_conversation_hash r, cv_workspace_root r)"

definition turn_fk :: "keys \<Rightarrow> turn_row \<Rightarrow> bool" where
  "turn_fk K r \<longleftrightarrow> tn_task_id r \<in> k_tasks K \<and> tn_session_id r \<in> k_conversations K \<and> fk (k_tasks K) (tn_related_task_id r) \<and> fk (k_executions K) (tn_completed_execution_id r)"

definition turn_ok :: "keys \<Rightarrow> turn_row \<Rightarrow> bool" where
  [row_defs]: "turn_ok K r \<longleftrightarrow> turn_fk K r"

definition turn_unique :: "turn_row \<Rightarrow> (string \<times> int \<times> int) option" where
  "turn_unique r = Some (tn_session_id r, tn_generation r, tn_sequence r)"

definition worker_fk :: "keys \<Rightarrow> worker_row \<Rightarrow> bool" where
  "worker_fk K r \<longleftrightarrow> True"

definition worker_ok :: "keys \<Rightarrow> worker_row \<Rightarrow> bool" where
  [row_defs]: "worker_ok K r \<longleftrightarrow> worker_fk K r"

definition operation_fk :: "keys \<Rightarrow> operation_row \<Rightarrow> bool" where
  "operation_fk K r \<longleftrightarrow> op_task_id r \<in> k_tasks K \<and> fk (k_tasks K) (op_parent_task_id r)"

definition operation_ok :: "keys \<Rightarrow> operation_row \<Rightarrow> bool" where
  [row_defs]: "operation_ok K r \<longleftrightarrow> operation_fk K r"

definition plan_fk :: "keys \<Rightarrow> plan_row \<Rightarrow> bool" where
  "plan_fk K r \<longleftrightarrow> pl_task_id r \<in> k_tasks K"

definition plan_ok :: "keys \<Rightarrow> plan_row \<Rightarrow> bool" where
  [row_defs]: "plan_ok K r \<longleftrightarrow> plan_fk K r"

definition journal_fk :: "keys \<Rightarrow> journal_row \<Rightarrow> bool" where
  "journal_fk K r \<longleftrightarrow> jn_plan_id r \<in> k_plans K"

definition journal_ok :: "keys \<Rightarrow> journal_row \<Rightarrow> bool" where
  [row_defs]: "journal_ok K r \<longleftrightarrow> journal_fk K r"

definition draft_fk :: "keys \<Rightarrow> draft_row \<Rightarrow> bool" where
  "draft_fk K r \<longleftrightarrow> dr_source_task_id r \<in> k_tasks K \<and> fk (k_conversations K) (dr_session_id r) \<and> fk (k_plans K) (dr_plan_id r) \<and> fk (k_tasks K) (dr_open_task_id r)"

definition draft_ok :: "keys \<Rightarrow> draft_row \<Rightarrow> bool" where
  [row_defs]: "draft_ok K r \<longleftrightarrow> draft_fk K r"

declare
  request_fk_def [row_defs]
  host_fk_def [row_defs]
  profile_fk_def [row_defs]
  project_fk_def [row_defs]
  codex_fk_def [row_defs]
  task_fk_def [row_defs]
  execution_fk_def [row_defs]
  runtime_fk_def [row_defs]
  approval_fk_def [row_defs]
  artifact_fk_def [row_defs]
  lease_fk_def [row_defs]
  claim_fk_def [row_defs]
  result_fk_def [row_defs]
  conversation_fk_def [row_defs]
  turn_fk_def [row_defs]
  worker_fk_def [row_defs]
  operation_fk_def [row_defs]
  plan_fk_def [row_defs]
  journal_fk_def [row_defs]
  draft_fk_def [row_defs]

text \<open>Events: some task or execution, existing ones, and redacted metadata; the log numbers its rows.\<close>

definition event_fk :: "keys \<Rightarrow> string option \<Rightarrow> string option \<Rightarrow> bool" where
  "event_fk K task_id execution_id \<longleftrightarrow>
     fk (k_tasks K) task_id \<and> fk (k_executions K) execution_id \<and> (task_id \<noteq> None \<or> execution_id \<noteq> None)"

definition event_ok :: "keys \<Rightarrow> event_row \<Rightarrow> bool" where
  [row_defs]: "event_ok K r \<longleftrightarrow> event_fk K (ev_task_id r) (ev_execution_id r) \<and> concealed_dict (ev_metadata r)"

declare event_fk_def [row_defs]

section \<open>The ledger invariant\<close>

text \<open>\<open>inv_at K db\<close>: every table of \<open>db\<close> holds its invariant when the keys \<open>K\<close> are the existing ones.\<close>

definition inv_at :: "keys \<Rightarrow> ledger \<Rightarrow> bool" where
  "inv_at K db \<longleftrightarrow>
     table_inv rq_id no_unique (request_ok K) (agent_requests db) \<and>
     table_inv ho_id host_unique (host_ok K) (hosts db) \<and>
     table_inv ap_id profile_unique (profile_ok K) (agent_profiles db) \<and>
     table_inv pj_id project_unique (project_ok K) (execution_projects db) \<and>
     table_inv cx_id codex_unique (codex_ok K) (codex_sessions db) \<and>
     table_inv tk_id task_unique (task_ok K) (agent_tasks db) \<and>
     table_inv ex_id no_unique (execution_ok K) (executions db) \<and>
     table_inv rs_id no_unique (runtime_ok K) (runtime_sessions db) \<and>
     table_inv ag_id no_unique (approval_ok K) (approvals db) \<and>
     table_inv af_id no_unique (artifact_ok K) (artifacts db) \<and>
     table_inv ls_resource_key no_unique (lease_ok K) (writer_leases db) \<and>
     table_inv cl_task_id no_unique (claim_ok K) (task_claims db) \<and>
     table_inv rt_execution_id no_unique (result_ok K) (task_results db) \<and>
     table_inv cv_id conversation_unique (conversation_ok K) (conversation_sessions db) \<and>
     table_inv tn_task_id turn_unique (turn_ok K) (conversation_turns db) \<and>
     table_inv wk_id no_unique (worker_ok K) (operation_workers db) \<and>
     table_inv op_task_id no_unique (operation_ok K) (task_operations db) \<and>
     table_inv pl_id no_unique (plan_ok K) (change_plans db) \<and>
     table_inv (\<lambda>r. (jn_plan_id r, jn_ordinal r)) no_unique (journal_ok K) (change_journal db) \<and>
     table_inv dr_id no_unique (draft_ok K) (operation_drafts db) \<and>
     (\<forall>e\<in>set (execution_events db). event_ok K e) \<and>
     map ev_seq (execution_events db) = map Suc [0..<length (execution_events db)] \<and>
     (\<forall>a\<in>set (audit_logs db). concealed_dict (au_detail a))"

definition ledger_inv :: "ledger \<Rightarrow> bool" where
  "ledger_inv db \<longleftrightarrow> inv_at (keys db) db"

lemma ok_mono:
  assumes "keys_le K L"
  shows
    "request_ok K r0 \<Longrightarrow> request_ok L r0"
    "host_ok K r1 \<Longrightarrow> host_ok L r1"
    "profile_ok K r2 \<Longrightarrow> profile_ok L r2"
    "project_ok K r3 \<Longrightarrow> project_ok L r3"
    "codex_ok K r4 \<Longrightarrow> codex_ok L r4"
    "task_ok K r5 \<Longrightarrow> task_ok L r5"
    "execution_ok K r6 \<Longrightarrow> execution_ok L r6"
    "runtime_ok K r7 \<Longrightarrow> runtime_ok L r7"
    "approval_ok K r8 \<Longrightarrow> approval_ok L r8"
    "artifact_ok K r9 \<Longrightarrow> artifact_ok L r9"
    "lease_ok K r10 \<Longrightarrow> lease_ok L r10"
    "claim_ok K r11 \<Longrightarrow> claim_ok L r11"
    "result_ok K r12 \<Longrightarrow> result_ok L r12"
    "conversation_ok K r13 \<Longrightarrow> conversation_ok L r13"
    "turn_ok K r14 \<Longrightarrow> turn_ok L r14"
    "worker_ok K r15 \<Longrightarrow> worker_ok L r15"
    "operation_ok K r16 \<Longrightarrow> operation_ok L r16"
    "plan_ok K r17 \<Longrightarrow> plan_ok L r17"
    "journal_ok K r18 \<Longrightarrow> journal_ok L r18"
    "draft_ok K r19 \<Longrightarrow> draft_ok L r19"
    "event_ok K e \<Longrightarrow> event_ok L e"
  using assms unfolding keys_le_def by (auto simp: row_defs intro: fk_mono)

lemma inv_at_mono: "keys_le K L \<Longrightarrow> inv_at K db \<Longrightarrow> inv_at L db"
  unfolding inv_at_def by (auto intro: table_inv_mono ok_mono)

definition extends_logs :: "ledger \<Rightarrow> ledger \<Rightarrow> bool" where
  "extends_logs db db' \<longleftrightarrow>
     prefix (execution_events db) (execution_events db') \<and> prefix (audit_logs db) (audit_logs db')"

definition sound :: "ledger \<Rightarrow> ledger \<Rightarrow> bool" where
  "sound db db' \<longleftrightarrow> extends_logs db db' \<and> (ledger_inv db \<longrightarrow> ledger_inv db')"

lemma sound_refl [simp, intro]: "sound db db"
  by (simp add: sound_def extends_logs_def)

lemma sound_trans [trans]: "sound db db' \<Longrightarrow> sound db' db'' \<Longrightarrow> sound db db''"
  by (auto simp: sound_def extends_logs_def)

lemma soundD: "sound db db' \<Longrightarrow> ledger_inv db \<Longrightarrow> ledger_inv db'"
  by (simp add: sound_def)

section \<open>Statements\<close>

definition add_request :: "request_row \<Rightarrow> ledger \<Rightarrow> ledger" where
  [statement_defs]: "add_request r db = db\<lparr>agent_requests := agent_requests db @ [r]\<rparr>"

definition insert_request :: "request_row \<Rightarrow> ledger \<Rightarrow> ledger result" where
  "insert_request r db = (if clash rq_id no_unique (agent_requests db) r \<or> \<not> request_fk (keys db) r
     then Inl (IntegrityError ''agent_requests'') else Inr (add_request r db))"

definition update_request :: "(request_row \<Rightarrow> bool) \<Rightarrow> (request_row \<Rightarrow> request_row) \<Rightarrow> ledger \<Rightarrow> ledger" where
  [statement_defs]: "update_request P f db = db\<lparr>agent_requests := upd P f (agent_requests db)\<rparr>"

definition add_host :: "host_row \<Rightarrow> ledger \<Rightarrow> ledger" where
  [statement_defs]: "add_host r db = db\<lparr>hosts := hosts db @ [r]\<rparr>"

definition insert_host :: "host_row \<Rightarrow> ledger \<Rightarrow> ledger result" where
  "insert_host r db = (if clash ho_id host_unique (hosts db) r \<or> \<not> host_fk (keys db) r
     then Inl (IntegrityError ''hosts'') else Inr (add_host r db))"

definition update_host :: "(host_row \<Rightarrow> bool) \<Rightarrow> (host_row \<Rightarrow> host_row) \<Rightarrow> ledger \<Rightarrow> ledger" where
  [statement_defs]: "update_host P f db = db\<lparr>hosts := upd P f (hosts db)\<rparr>"

definition add_profile :: "profile_row \<Rightarrow> ledger \<Rightarrow> ledger" where
  [statement_defs]: "add_profile r db = db\<lparr>agent_profiles := agent_profiles db @ [r]\<rparr>"

definition insert_profile :: "profile_row \<Rightarrow> ledger \<Rightarrow> ledger result" where
  "insert_profile r db = (if clash ap_id profile_unique (agent_profiles db) r \<or> \<not> profile_fk (keys db) r
     then Inl (IntegrityError ''agent_profiles'') else Inr (add_profile r db))"

definition update_profile :: "(profile_row \<Rightarrow> bool) \<Rightarrow> (profile_row \<Rightarrow> profile_row) \<Rightarrow> ledger \<Rightarrow> ledger" where
  [statement_defs]: "update_profile P f db = db\<lparr>agent_profiles := upd P f (agent_profiles db)\<rparr>"

definition add_project :: "project_row \<Rightarrow> ledger \<Rightarrow> ledger" where
  [statement_defs]: "add_project r db = db\<lparr>execution_projects := execution_projects db @ [r]\<rparr>"

definition insert_project :: "project_row \<Rightarrow> ledger \<Rightarrow> ledger result" where
  "insert_project r db = (if clash pj_id project_unique (execution_projects db) r \<or> \<not> project_fk (keys db) r
     then Inl (IntegrityError ''execution_projects'') else Inr (add_project r db))"

definition update_project :: "(project_row \<Rightarrow> bool) \<Rightarrow> (project_row \<Rightarrow> project_row) \<Rightarrow> ledger \<Rightarrow> ledger" where
  [statement_defs]: "update_project P f db = db\<lparr>execution_projects := upd P f (execution_projects db)\<rparr>"

definition add_codex :: "codex_row \<Rightarrow> ledger \<Rightarrow> ledger" where
  [statement_defs]: "add_codex r db = db\<lparr>codex_sessions := codex_sessions db @ [r]\<rparr>"

definition insert_codex :: "codex_row \<Rightarrow> ledger \<Rightarrow> ledger result" where
  "insert_codex r db = (if clash cx_id codex_unique (codex_sessions db) r \<or> \<not> codex_fk (keys db) r
     then Inl (IntegrityError ''codex_sessions'') else Inr (add_codex r db))"

definition update_codex :: "(codex_row \<Rightarrow> bool) \<Rightarrow> (codex_row \<Rightarrow> codex_row) \<Rightarrow> ledger \<Rightarrow> ledger" where
  [statement_defs]: "update_codex P f db = db\<lparr>codex_sessions := upd P f (codex_sessions db)\<rparr>"

definition add_task :: "task_row \<Rightarrow> ledger \<Rightarrow> ledger" where
  [statement_defs]: "add_task r db = db\<lparr>agent_tasks := agent_tasks db @ [r]\<rparr>"

definition insert_task :: "task_row \<Rightarrow> ledger \<Rightarrow> ledger result" where
  "insert_task r db = (if clash tk_id task_unique (agent_tasks db) r \<or> \<not> task_fk (keys db) r
     then Inl (IntegrityError ''agent_tasks'') else Inr (add_task r db))"

definition update_task :: "(task_row \<Rightarrow> bool) \<Rightarrow> (task_row \<Rightarrow> task_row) \<Rightarrow> ledger \<Rightarrow> ledger" where
  [statement_defs]: "update_task P f db = db\<lparr>agent_tasks := upd P f (agent_tasks db)\<rparr>"

definition add_execution :: "execution_row \<Rightarrow> ledger \<Rightarrow> ledger" where
  [statement_defs]: "add_execution r db = db\<lparr>executions := executions db @ [r]\<rparr>"

definition insert_execution :: "execution_row \<Rightarrow> ledger \<Rightarrow> ledger result" where
  "insert_execution r db = (if clash ex_id no_unique (executions db) r \<or> \<not> execution_fk (keys db) r
     then Inl (IntegrityError ''executions'') else Inr (add_execution r db))"

definition update_execution :: "(execution_row \<Rightarrow> bool) \<Rightarrow> (execution_row \<Rightarrow> execution_row) \<Rightarrow> ledger \<Rightarrow> ledger" where
  [statement_defs]: "update_execution P f db = db\<lparr>executions := upd P f (executions db)\<rparr>"

definition add_runtime :: "runtime_row \<Rightarrow> ledger \<Rightarrow> ledger" where
  [statement_defs]: "add_runtime r db = db\<lparr>runtime_sessions := runtime_sessions db @ [r]\<rparr>"

definition insert_runtime :: "runtime_row \<Rightarrow> ledger \<Rightarrow> ledger result" where
  "insert_runtime r db = (if clash rs_id no_unique (runtime_sessions db) r \<or> \<not> runtime_fk (keys db) r
     then Inl (IntegrityError ''runtime_sessions'') else Inr (add_runtime r db))"

definition update_runtime :: "(runtime_row \<Rightarrow> bool) \<Rightarrow> (runtime_row \<Rightarrow> runtime_row) \<Rightarrow> ledger \<Rightarrow> ledger" where
  [statement_defs]: "update_runtime P f db = db\<lparr>runtime_sessions := upd P f (runtime_sessions db)\<rparr>"

definition add_approval :: "approval_row \<Rightarrow> ledger \<Rightarrow> ledger" where
  [statement_defs]: "add_approval r db = db\<lparr>approvals := approvals db @ [r]\<rparr>"

definition insert_approval :: "approval_row \<Rightarrow> ledger \<Rightarrow> ledger result" where
  "insert_approval r db = (if clash ag_id no_unique (approvals db) r \<or> \<not> approval_fk (keys db) r
     then Inl (IntegrityError ''approvals'') else Inr (add_approval r db))"

definition update_approval :: "(approval_row \<Rightarrow> bool) \<Rightarrow> (approval_row \<Rightarrow> approval_row) \<Rightarrow> ledger \<Rightarrow> ledger" where
  [statement_defs]: "update_approval P f db = db\<lparr>approvals := upd P f (approvals db)\<rparr>"

definition add_artifact :: "artifact_row \<Rightarrow> ledger \<Rightarrow> ledger" where
  [statement_defs]: "add_artifact r db = db\<lparr>artifacts := artifacts db @ [r]\<rparr>"

definition insert_artifact :: "artifact_row \<Rightarrow> ledger \<Rightarrow> ledger result" where
  "insert_artifact r db = (if clash af_id no_unique (artifacts db) r \<or> \<not> artifact_fk (keys db) r
     then Inl (IntegrityError ''artifacts'') else Inr (add_artifact r db))"

definition update_artifact :: "(artifact_row \<Rightarrow> bool) \<Rightarrow> (artifact_row \<Rightarrow> artifact_row) \<Rightarrow> ledger \<Rightarrow> ledger" where
  [statement_defs]: "update_artifact P f db = db\<lparr>artifacts := upd P f (artifacts db)\<rparr>"

definition add_lease :: "lease_row \<Rightarrow> ledger \<Rightarrow> ledger" where
  [statement_defs]: "add_lease r db = db\<lparr>writer_leases := writer_leases db @ [r]\<rparr>"

definition insert_lease :: "lease_row \<Rightarrow> ledger \<Rightarrow> ledger result" where
  "insert_lease r db = (if clash ls_resource_key no_unique (writer_leases db) r \<or> \<not> lease_fk (keys db) r
     then Inl (IntegrityError ''writer_leases'') else Inr (add_lease r db))"

definition update_lease :: "(lease_row \<Rightarrow> bool) \<Rightarrow> (lease_row \<Rightarrow> lease_row) \<Rightarrow> ledger \<Rightarrow> ledger" where
  [statement_defs]: "update_lease P f db = db\<lparr>writer_leases := upd P f (writer_leases db)\<rparr>"

definition add_claim :: "claim_row \<Rightarrow> ledger \<Rightarrow> ledger" where
  [statement_defs]: "add_claim r db = db\<lparr>task_claims := task_claims db @ [r]\<rparr>"

definition insert_claim :: "claim_row \<Rightarrow> ledger \<Rightarrow> ledger result" where
  "insert_claim r db = (if clash cl_task_id no_unique (task_claims db) r \<or> \<not> claim_fk (keys db) r
     then Inl (IntegrityError ''task_claims'') else Inr (add_claim r db))"

definition update_claim :: "(claim_row \<Rightarrow> bool) \<Rightarrow> (claim_row \<Rightarrow> claim_row) \<Rightarrow> ledger \<Rightarrow> ledger" where
  [statement_defs]: "update_claim P f db = db\<lparr>task_claims := upd P f (task_claims db)\<rparr>"

definition add_result :: "result_row \<Rightarrow> ledger \<Rightarrow> ledger" where
  [statement_defs]: "add_result r db = db\<lparr>task_results := task_results db @ [r]\<rparr>"

definition insert_result :: "result_row \<Rightarrow> ledger \<Rightarrow> ledger result" where
  "insert_result r db = (if clash rt_execution_id no_unique (task_results db) r \<or> \<not> result_fk (keys db) r
     then Inl (IntegrityError ''task_results'') else Inr (add_result r db))"

definition update_result :: "(result_row \<Rightarrow> bool) \<Rightarrow> (result_row \<Rightarrow> result_row) \<Rightarrow> ledger \<Rightarrow> ledger" where
  [statement_defs]: "update_result P f db = db\<lparr>task_results := upd P f (task_results db)\<rparr>"

definition add_conversation :: "conversation_row \<Rightarrow> ledger \<Rightarrow> ledger" where
  [statement_defs]: "add_conversation r db = db\<lparr>conversation_sessions := conversation_sessions db @ [r]\<rparr>"

definition insert_conversation :: "conversation_row \<Rightarrow> ledger \<Rightarrow> ledger result" where
  "insert_conversation r db = (if clash cv_id conversation_unique (conversation_sessions db) r \<or> \<not> conversation_fk (keys db) r
     then Inl (IntegrityError ''conversation_sessions'') else Inr (add_conversation r db))"

definition update_conversation :: "(conversation_row \<Rightarrow> bool) \<Rightarrow> (conversation_row \<Rightarrow> conversation_row) \<Rightarrow> ledger \<Rightarrow> ledger" where
  [statement_defs]: "update_conversation P f db = db\<lparr>conversation_sessions := upd P f (conversation_sessions db)\<rparr>"

definition add_turn :: "turn_row \<Rightarrow> ledger \<Rightarrow> ledger" where
  [statement_defs]: "add_turn r db = db\<lparr>conversation_turns := conversation_turns db @ [r]\<rparr>"

definition insert_turn :: "turn_row \<Rightarrow> ledger \<Rightarrow> ledger result" where
  "insert_turn r db = (if clash tn_task_id turn_unique (conversation_turns db) r \<or> \<not> turn_fk (keys db) r
     then Inl (IntegrityError ''conversation_turns'') else Inr (add_turn r db))"

definition update_turn :: "(turn_row \<Rightarrow> bool) \<Rightarrow> (turn_row \<Rightarrow> turn_row) \<Rightarrow> ledger \<Rightarrow> ledger" where
  [statement_defs]: "update_turn P f db = db\<lparr>conversation_turns := upd P f (conversation_turns db)\<rparr>"

definition add_worker :: "worker_row \<Rightarrow> ledger \<Rightarrow> ledger" where
  [statement_defs]: "add_worker r db = db\<lparr>operation_workers := operation_workers db @ [r]\<rparr>"

definition insert_worker :: "worker_row \<Rightarrow> ledger \<Rightarrow> ledger result" where
  "insert_worker r db = (if clash wk_id no_unique (operation_workers db) r \<or> \<not> worker_fk (keys db) r
     then Inl (IntegrityError ''operation_workers'') else Inr (add_worker r db))"

definition update_worker :: "(worker_row \<Rightarrow> bool) \<Rightarrow> (worker_row \<Rightarrow> worker_row) \<Rightarrow> ledger \<Rightarrow> ledger" where
  [statement_defs]: "update_worker P f db = db\<lparr>operation_workers := upd P f (operation_workers db)\<rparr>"

definition add_operation :: "operation_row \<Rightarrow> ledger \<Rightarrow> ledger" where
  [statement_defs]: "add_operation r db = db\<lparr>task_operations := task_operations db @ [r]\<rparr>"

definition insert_operation :: "operation_row \<Rightarrow> ledger \<Rightarrow> ledger result" where
  "insert_operation r db = (if clash op_task_id no_unique (task_operations db) r \<or> \<not> operation_fk (keys db) r
     then Inl (IntegrityError ''task_operations'') else Inr (add_operation r db))"

definition update_operation :: "(operation_row \<Rightarrow> bool) \<Rightarrow> (operation_row \<Rightarrow> operation_row) \<Rightarrow> ledger \<Rightarrow> ledger" where
  [statement_defs]: "update_operation P f db = db\<lparr>task_operations := upd P f (task_operations db)\<rparr>"

definition add_plan :: "plan_row \<Rightarrow> ledger \<Rightarrow> ledger" where
  [statement_defs]: "add_plan r db = db\<lparr>change_plans := change_plans db @ [r]\<rparr>"

definition insert_plan :: "plan_row \<Rightarrow> ledger \<Rightarrow> ledger result" where
  "insert_plan r db = (if clash pl_id no_unique (change_plans db) r \<or> \<not> plan_fk (keys db) r
     then Inl (IntegrityError ''change_plans'') else Inr (add_plan r db))"

definition update_plan :: "(plan_row \<Rightarrow> bool) \<Rightarrow> (plan_row \<Rightarrow> plan_row) \<Rightarrow> ledger \<Rightarrow> ledger" where
  [statement_defs]: "update_plan P f db = db\<lparr>change_plans := upd P f (change_plans db)\<rparr>"

definition add_journal :: "journal_row \<Rightarrow> ledger \<Rightarrow> ledger" where
  [statement_defs]: "add_journal r db = db\<lparr>change_journal := change_journal db @ [r]\<rparr>"

definition insert_journal :: "journal_row \<Rightarrow> ledger \<Rightarrow> ledger result" where
  "insert_journal r db = (if clash (\<lambda>r. (jn_plan_id r, jn_ordinal r)) no_unique (change_journal db) r \<or> \<not> journal_fk (keys db) r
     then Inl (IntegrityError ''change_journal'') else Inr (add_journal r db))"

definition update_journal :: "(journal_row \<Rightarrow> bool) \<Rightarrow> (journal_row \<Rightarrow> journal_row) \<Rightarrow> ledger \<Rightarrow> ledger" where
  [statement_defs]: "update_journal P f db = db\<lparr>change_journal := upd P f (change_journal db)\<rparr>"

definition add_draft :: "draft_row \<Rightarrow> ledger \<Rightarrow> ledger" where
  [statement_defs]: "add_draft r db = db\<lparr>operation_drafts := operation_drafts db @ [r]\<rparr>"

definition insert_draft :: "draft_row \<Rightarrow> ledger \<Rightarrow> ledger result" where
  "insert_draft r db = (if clash dr_id no_unique (operation_drafts db) r \<or> \<not> draft_fk (keys db) r
     then Inl (IntegrityError ''operation_drafts'') else Inr (add_draft r db))"

definition update_draft :: "(draft_row \<Rightarrow> bool) \<Rightarrow> (draft_row \<Rightarrow> draft_row) \<Rightarrow> ledger \<Rightarrow> ledger" where
  [statement_defs]: "update_draft P f db = db\<lparr>operation_drafts := upd P f (operation_drafts db)\<rparr>"

text \<open>\<open>DELETE FROM task_claims\<close>, the only deletion of the operations modelled here.\<close>

definition delete_claims :: "(claim_row \<Rightarrow> bool) \<Rightarrow> ledger \<Rightarrow> ledger" where
  [statement_defs]: "delete_claims P db = db\<lparr>task_claims := filter (\<lambda>r. \<not> P r) (task_claims db)\<rparr>"

text \<open>\<open>append_event_conn\<close>: the message and the metadata are redacted, the log is append-only (triggers
  \<open>execution_events_no_update\<close> and \<open>execution_events_no_delete\<close>), so \<open>seq\<close> counts its rows.\<close>

definition event_of :: "time \<Rightarrow> string \<Rightarrow> string option \<Rightarrow> string option \<Rightarrow> string \<Rightarrow> string \<Rightarrow> dict \<Rightarrow> nat \<Rightarrow> event_row" where
  "event_of t event_type task_id execution_id status message metadata seq =
     \<lparr>ev_seq = seq, ev_task_id = task_id, ev_execution_id = execution_id, ev_event_type = event_type,
      ev_status = status, ev_message = redact_text message, ev_metadata = redact_dict metadata,
      ev_created_at = whole_second t\<rparr>"

definition add_event :: "event_row \<Rightarrow> ledger \<Rightarrow> ledger" where
  [statement_defs]: "add_event e db = db\<lparr>execution_events := execution_events db @ [e]\<rparr>"

definition append_event :: "time \<Rightarrow> string \<Rightarrow> string option \<Rightarrow> string option \<Rightarrow> string \<Rightarrow> string \<Rightarrow> dict \<Rightarrow> ledger \<Rightarrow> ledger result" where
  "append_event t event_type task_id execution_id status message metadata db =
     (if \<not> event_fk (keys db) task_id execution_id then Inl (IntegrityError ''execution_events'')
      else Inr (add_event (event_of t event_type task_id execution_id status message metadata
                  (Suc (length (execution_events db)))) db))"

text \<open>\<open>database.log_audit\<close>\<close>

definition log_audit :: "time \<Rightarrow> string \<Rightarrow> string \<Rightarrow> string \<Rightarrow> string \<Rightarrow> dict \<Rightarrow> ledger \<Rightarrow> ledger" where
  [statement_defs]: "log_audit t actor action entity_type entity_id detail db =
     db\<lparr>audit_logs := audit_logs db @
       [\<lparr>au_actor = actor, au_action = action, au_entity_type = entity_type, au_entity_id = entity_id,
         au_detail = detail, au_created_at = t\<rparr>]\<rparr>"

section \<open>Every statement is sound\<close>

lemma sound_stepI:
  assumes "sound db0 db"
    and "\<exists>es. execution_events db' = execution_events db @ es"
    and "\<exists>as. audit_logs db' = audit_logs db @ as"
    and "ledger_inv db0 \<Longrightarrow> inv_at (keys db) db \<Longrightarrow> inv_at (keys db') db'"
  shows "sound db0 db'"
  using assms by (auto simp: sound_def extends_logs_def ledger_inv_def prefix_def)

lemma sound_growI:
  assumes "sound db0 db" and le: "keys_le (keys db) (keys db')"
    and "execution_events db' = execution_events db" and "audit_logs db' = audit_logs db"
    and "ledger_inv db0 \<Longrightarrow> inv_at (keys db') db \<Longrightarrow> inv_at (keys db') db'"
  shows "sound db0 db'"
  using assms inv_at_mono [OF le] by (intro sound_stepI [OF assms(1)]) auto


lemma insert_Inr [simp]:
  "insert_request r0 db = Inr db' \<longleftrightarrow> \<not> clash rq_id no_unique (agent_requests db) r0 \<and> request_fk (keys db) r0 \<and> db' = add_request r0 db"
  "insert_host r1 db = Inr db' \<longleftrightarrow> \<not> clash ho_id host_unique (hosts db) r1 \<and> host_fk (keys db) r1 \<and> db' = add_host r1 db"
  "insert_profile r2 db = Inr db' \<longleftrightarrow> \<not> clash ap_id profile_unique (agent_profiles db) r2 \<and> profile_fk (keys db) r2 \<and> db' = add_profile r2 db"
  "insert_project r3 db = Inr db' \<longleftrightarrow> \<not> clash pj_id project_unique (execution_projects db) r3 \<and> project_fk (keys db) r3 \<and> db' = add_project r3 db"
  "insert_codex r4 db = Inr db' \<longleftrightarrow> \<not> clash cx_id codex_unique (codex_sessions db) r4 \<and> codex_fk (keys db) r4 \<and> db' = add_codex r4 db"
  "insert_task r5 db = Inr db' \<longleftrightarrow> \<not> clash tk_id task_unique (agent_tasks db) r5 \<and> task_fk (keys db) r5 \<and> db' = add_task r5 db"
  "insert_execution r6 db = Inr db' \<longleftrightarrow> \<not> clash ex_id no_unique (executions db) r6 \<and> execution_fk (keys db) r6 \<and> db' = add_execution r6 db"
  "insert_runtime r7 db = Inr db' \<longleftrightarrow> \<not> clash rs_id no_unique (runtime_sessions db) r7 \<and> runtime_fk (keys db) r7 \<and> db' = add_runtime r7 db"
  "insert_approval r8 db = Inr db' \<longleftrightarrow> \<not> clash ag_id no_unique (approvals db) r8 \<and> approval_fk (keys db) r8 \<and> db' = add_approval r8 db"
  "insert_artifact r9 db = Inr db' \<longleftrightarrow> \<not> clash af_id no_unique (artifacts db) r9 \<and> artifact_fk (keys db) r9 \<and> db' = add_artifact r9 db"
  "insert_lease r10 db = Inr db' \<longleftrightarrow> \<not> clash ls_resource_key no_unique (writer_leases db) r10 \<and> lease_fk (keys db) r10 \<and> db' = add_lease r10 db"
  "insert_claim r11 db = Inr db' \<longleftrightarrow> \<not> clash cl_task_id no_unique (task_claims db) r11 \<and> claim_fk (keys db) r11 \<and> db' = add_claim r11 db"
  "insert_result r12 db = Inr db' \<longleftrightarrow> \<not> clash rt_execution_id no_unique (task_results db) r12 \<and> result_fk (keys db) r12 \<and> db' = add_result r12 db"
  "insert_conversation r13 db = Inr db' \<longleftrightarrow> \<not> clash cv_id conversation_unique (conversation_sessions db) r13 \<and> conversation_fk (keys db) r13 \<and> db' = add_conversation r13 db"
  "insert_turn r14 db = Inr db' \<longleftrightarrow> \<not> clash tn_task_id turn_unique (conversation_turns db) r14 \<and> turn_fk (keys db) r14 \<and> db' = add_turn r14 db"
  "insert_worker r15 db = Inr db' \<longleftrightarrow> \<not> clash wk_id no_unique (operation_workers db) r15 \<and> worker_fk (keys db) r15 \<and> db' = add_worker r15 db"
  "insert_operation r16 db = Inr db' \<longleftrightarrow> \<not> clash op_task_id no_unique (task_operations db) r16 \<and> operation_fk (keys db) r16 \<and> db' = add_operation r16 db"
  "insert_plan r17 db = Inr db' \<longleftrightarrow> \<not> clash pl_id no_unique (change_plans db) r17 \<and> plan_fk (keys db) r17 \<and> db' = add_plan r17 db"
  "insert_journal r18 db = Inr db' \<longleftrightarrow> \<not> clash (\<lambda>r. (jn_plan_id r, jn_ordinal r)) no_unique (change_journal db) r18 \<and> journal_fk (keys db) r18 \<and> db' = add_journal r18 db"
  "insert_draft r19 db = Inr db' \<longleftrightarrow> \<not> clash dr_id no_unique (operation_drafts db) r19 \<and> draft_fk (keys db) r19 \<and> db' = add_draft r19 db"
  by (auto simp: insert_request_def insert_host_def insert_profile_def insert_project_def insert_codex_def insert_task_def insert_execution_def insert_runtime_def insert_approval_def insert_artifact_def insert_lease_def insert_claim_def insert_result_def insert_conversation_def insert_turn_def insert_worker_def insert_operation_def insert_plan_def insert_journal_def insert_draft_def)

lemma append_event_Inr [simp]:
  "append_event t ty tid eid st msg md db = Inr db' \<longleftrightarrow>
   event_fk (keys db) tid eid \<and>
   db' = add_event (event_of t ty tid eid st msg md (Suc (length (execution_events db)))) db"
  by (auto simp: append_event_def)

lemma event_of_sel [simp]:
  "ev_seq (event_of t ty tid eid st msg md n) = n"
  "ev_task_id (event_of t ty tid eid st msg md n) = tid"
  "ev_execution_id (event_of t ty tid eid st msg md n) = eid"
  "ev_event_type (event_of t ty tid eid st msg md n) = ty"
  "ev_status (event_of t ty tid eid st msg md n) = st"
  "ev_metadata (event_of t ty tid eid st msg md n) = redact_dict md"
  by (simp_all add: event_of_def)

text \<open>What the statements do to the keys.\<close>

lemma keys_add_request [simp]: "keys (add_request r db) = (keys db)\<lparr>k_requests := insert (rq_id r) (k_requests (keys db))\<rparr>"
  by (simp add: keys_def add_request_def)

lemma keys_update_request [simp]: "(\<And>r. rq_id (f r) = rq_id r) \<Longrightarrow> keys (update_request P f db) = keys db"
  by (simp add: keys_def update_request_def)

lemma keys_add_host [simp]: "keys (add_host r db) = (keys db)\<lparr>k_hosts := insert (ho_id r) (k_hosts (keys db))\<rparr>"
  by (simp add: keys_def add_host_def)

lemma keys_update_host [simp]: "(\<And>r. ho_id (f r) = ho_id r) \<Longrightarrow> keys (update_host P f db) = keys db"
  by (simp add: keys_def update_host_def)

lemma keys_add_profile [simp]: "keys (add_profile r db) = (keys db)\<lparr>k_profiles := insert (ap_id r) (k_profiles (keys db))\<rparr>"
  by (simp add: keys_def add_profile_def)

lemma keys_update_profile [simp]: "(\<And>r. ap_id (f r) = ap_id r) \<Longrightarrow> keys (update_profile P f db) = keys db"
  by (simp add: keys_def update_profile_def)

lemma keys_add_project [simp]: "keys (add_project r db) = (keys db)\<lparr>k_projects := insert (pj_id r) (k_projects (keys db))\<rparr>"
  by (simp add: keys_def add_project_def)

lemma keys_update_project [simp]: "(\<And>r. pj_id (f r) = pj_id r) \<Longrightarrow> keys (update_project P f db) = keys db"
  by (simp add: keys_def update_project_def)

lemma keys_add_codex [simp]: "keys (add_codex r db) = (keys db)\<lparr>k_codex := insert (cx_id r) (k_codex (keys db))\<rparr>"
  by (simp add: keys_def add_codex_def)

lemma keys_update_codex [simp]: "(\<And>r. cx_id (f r) = cx_id r) \<Longrightarrow> keys (update_codex P f db) = keys db"
  by (simp add: keys_def update_codex_def)

lemma keys_add_task [simp]: "keys (add_task r db) = (keys db)\<lparr>k_tasks := insert (tk_id r) (k_tasks (keys db))\<rparr>"
  by (simp add: keys_def add_task_def)

lemma keys_update_task [simp]: "(\<And>r. tk_id (f r) = tk_id r) \<Longrightarrow> keys (update_task P f db) = keys db"
  by (simp add: keys_def update_task_def)

lemma keys_add_execution [simp]: "keys (add_execution r db) = (keys db)\<lparr>k_executions := insert (ex_id r) (k_executions (keys db))\<rparr>"
  by (simp add: keys_def add_execution_def)

lemma keys_update_execution [simp]: "(\<And>r. ex_id (f r) = ex_id r) \<Longrightarrow> keys (update_execution P f db) = keys db"
  by (simp add: keys_def update_execution_def)

lemma keys_add_conversation [simp]: "keys (add_conversation r db) = (keys db)\<lparr>k_conversations := insert (cv_id r) (k_conversations (keys db))\<rparr>"
  by (simp add: keys_def add_conversation_def)

lemma keys_update_conversation [simp]: "(\<And>r. cv_id (f r) = cv_id r) \<Longrightarrow> keys (update_conversation P f db) = keys db"
  by (simp add: keys_def update_conversation_def)

lemma keys_add_plan [simp]: "keys (add_plan r db) = (keys db)\<lparr>k_plans := insert (pl_id r) (k_plans (keys db))\<rparr>"
  by (simp add: keys_def add_plan_def)

lemma keys_update_plan [simp]: "(\<And>r. pl_id (f r) = pl_id r) \<Longrightarrow> keys (update_plan P f db) = keys db"
  by (simp add: keys_def update_plan_def)

lemma keys_fields [simp]:
  "keys (db\<lparr>runtime_sessions := runtime_x\<rparr>) = keys db"
  "keys (db\<lparr>approvals := approval_x\<rparr>) = keys db"
  "keys (db\<lparr>artifacts := artifact_x\<rparr>) = keys db"
  "keys (db\<lparr>writer_leases := lease_x\<rparr>) = keys db"
  "keys (db\<lparr>task_claims := claim_x\<rparr>) = keys db"
  "keys (db\<lparr>task_results := result_x\<rparr>) = keys db"
  "keys (db\<lparr>conversation_turns := turn_x\<rparr>) = keys db"
  "keys (db\<lparr>operation_workers := worker_x\<rparr>) = keys db"
  "keys (db\<lparr>task_operations := operation_x\<rparr>) = keys db"
  "keys (db\<lparr>change_journal := journal_x\<rparr>) = keys db"
  "keys (db\<lparr>operation_drafts := draft_x\<rparr>) = keys db"
  "keys (db\<lparr>execution_events := event_x\<rparr>) = keys db"
  "keys (db\<lparr>audit_logs := audit_x\<rparr>) = keys db"
  by (simp_all add: keys_def)

lemma keys_unchanged [simp]:
  "keys (add_runtime runtime_r db) = keys db"
  "keys (update_runtime runtime_P runtime_f db) = keys db"
  "keys (add_approval approval_r db) = keys db"
  "keys (update_approval approval_P approval_f db) = keys db"
  "keys (add_artifact artifact_r db) = keys db"
  "keys (update_artifact artifact_P artifact_f db) = keys db"
  "keys (add_lease lease_r db) = keys db"
  "keys (update_lease lease_P lease_f db) = keys db"
  "keys (add_claim claim_r db) = keys db"
  "keys (update_claim claim_P claim_f db) = keys db"
  "keys (add_result result_r db) = keys db"
  "keys (update_result result_P result_f db) = keys db"
  "keys (add_turn turn_r db) = keys db"
  "keys (update_turn turn_P turn_f db) = keys db"
  "keys (add_worker worker_r db) = keys db"
  "keys (update_worker worker_P worker_f db) = keys db"
  "keys (add_operation operation_r db) = keys db"
  "keys (update_operation operation_P operation_f db) = keys db"
  "keys (add_journal journal_r db) = keys db"
  "keys (update_journal journal_P journal_f db) = keys db"
  "keys (add_draft draft_r db) = keys db"
  "keys (update_draft draft_P draft_f db) = keys db"
  "keys (delete_claims Q db) = keys db"
  "keys (add_event e db) = keys db"
  "keys (log_audit t actor action ety eid detail db) = keys db"
  by (simp_all add: statement_defs)

lemma keys_grow:
  "keys_le (keys db) (keys (add_request r0 db))"
  "keys_le (keys db) (keys (add_host r1 db))"
  "keys_le (keys db) (keys (add_profile r2 db))"
  "keys_le (keys db) (keys (add_project r3 db))"
  "keys_le (keys db) (keys (add_codex r4 db))"
  "keys_le (keys db) (keys (add_task r5 db))"
  "keys_le (keys db) (keys (add_execution r6 db))"
  "keys_le (keys db) (keys (add_runtime r7 db))"
  "keys_le (keys db) (keys (add_approval r8 db))"
  "keys_le (keys db) (keys (add_artifact r9 db))"
  "keys_le (keys db) (keys (add_lease r10 db))"
  "keys_le (keys db) (keys (add_claim r11 db))"
  "keys_le (keys db) (keys (add_result r12 db))"
  "keys_le (keys db) (keys (add_conversation r13 db))"
  "keys_le (keys db) (keys (add_turn r14 db))"
  "keys_le (keys db) (keys (add_worker r15 db))"
  "keys_le (keys db) (keys (add_operation r16 db))"
  "keys_le (keys db) (keys (add_plan r17 db))"
  "keys_le (keys db) (keys (add_journal r18 db))"
  "keys_le (keys db) (keys (add_draft r19 db))"
  by (auto simp: keys_le_def)

lemma sound_add_request [sound_intros]:
  assumes "sound db0 db" "\<not> clash rq_id no_unique (agent_requests db) r" "ledger_inv db0 \<Longrightarrow> request_ok (keys db) r"
  shows "sound db0 (add_request r db)"
  by (rule sound_growI [OF assms(1) keys_grow(1)])
    (use assms(2) ok_mono(1) [OF keys_grow(1) assms(3)] in \<open>auto simp: inv_at_def add_request_def intro: table_inv_snoc\<close>)

lemma sound_update_request [sound_intros]:
  assumes "sound db0 db" "\<And>r. rq_id (f r) = rq_id r"
    "\<And>r. ledger_inv db0 \<Longrightarrow> ledger_inv db \<Longrightarrow> r \<in> set (agent_requests db) \<Longrightarrow> P r \<Longrightarrow> request_ok (keys db) r \<Longrightarrow>
      request_ok (keys db) (f r)"
  shows "sound db0 (update_request P f db)"
  by (rule sound_stepI [OF assms(1)]) (use assms(2-) in \<open>simp_all add: ledger_inv_def inv_at_def update_request_def table_inv_upd keys_update_request [unfolded update_request_def]\<close>)

lemma sound_add_host [sound_intros]:
  assumes "sound db0 db" "\<not> clash ho_id host_unique (hosts db) r" "ledger_inv db0 \<Longrightarrow> host_ok (keys db) r"
  shows "sound db0 (add_host r db)"
  by (rule sound_growI [OF assms(1) keys_grow(2)])
    (use assms(2) ok_mono(2) [OF keys_grow(2) assms(3)] in \<open>auto simp: inv_at_def add_host_def intro: table_inv_snoc\<close>)

lemma sound_update_host [sound_intros]:
  assumes "sound db0 db" "\<And>r. ho_id (f r) = ho_id r"
    "\<And>r. host_unique (f r) = host_unique r"
    "\<And>r. ledger_inv db0 \<Longrightarrow> ledger_inv db \<Longrightarrow> r \<in> set (hosts db) \<Longrightarrow> P r \<Longrightarrow> host_ok (keys db) r \<Longrightarrow>
      host_ok (keys db) (f r)"
  shows "sound db0 (update_host P f db)"
  by (rule sound_stepI [OF assms(1)]) (use assms(2-) in \<open>simp_all add: ledger_inv_def inv_at_def update_host_def table_inv_upd keys_update_host [unfolded update_host_def]\<close>)

lemma sound_add_profile [sound_intros]:
  assumes "sound db0 db" "\<not> clash ap_id profile_unique (agent_profiles db) r" "ledger_inv db0 \<Longrightarrow> profile_ok (keys db) r"
  shows "sound db0 (add_profile r db)"
  by (rule sound_growI [OF assms(1) keys_grow(3)])
    (use assms(2) ok_mono(3) [OF keys_grow(3) assms(3)] in \<open>auto simp: inv_at_def add_profile_def intro: table_inv_snoc\<close>)

lemma sound_update_profile [sound_intros]:
  assumes "sound db0 db" "\<And>r. ap_id (f r) = ap_id r"
    "\<And>r. profile_unique (f r) = profile_unique r"
    "\<And>r. ledger_inv db0 \<Longrightarrow> ledger_inv db \<Longrightarrow> r \<in> set (agent_profiles db) \<Longrightarrow> P r \<Longrightarrow> profile_ok (keys db) r \<Longrightarrow>
      profile_ok (keys db) (f r)"
  shows "sound db0 (update_profile P f db)"
  by (rule sound_stepI [OF assms(1)]) (use assms(2-) in \<open>simp_all add: ledger_inv_def inv_at_def update_profile_def table_inv_upd keys_update_profile [unfolded update_profile_def]\<close>)

lemma sound_add_project [sound_intros]:
  assumes "sound db0 db" "\<not> clash pj_id project_unique (execution_projects db) r" "ledger_inv db0 \<Longrightarrow> project_ok (keys db) r"
  shows "sound db0 (add_project r db)"
  by (rule sound_growI [OF assms(1) keys_grow(4)])
    (use assms(2) ok_mono(4) [OF keys_grow(4) assms(3)] in \<open>auto simp: inv_at_def add_project_def intro: table_inv_snoc\<close>)

lemma sound_update_project [sound_intros]:
  assumes "sound db0 db" "\<And>r. pj_id (f r) = pj_id r"
    "\<And>r. project_unique (f r) = project_unique r"
    "\<And>r. ledger_inv db0 \<Longrightarrow> ledger_inv db \<Longrightarrow> r \<in> set (execution_projects db) \<Longrightarrow> P r \<Longrightarrow> project_ok (keys db) r \<Longrightarrow>
      project_ok (keys db) (f r)"
  shows "sound db0 (update_project P f db)"
  by (rule sound_stepI [OF assms(1)]) (use assms(2-) in \<open>simp_all add: ledger_inv_def inv_at_def update_project_def table_inv_upd keys_update_project [unfolded update_project_def]\<close>)

lemma sound_add_codex [sound_intros]:
  assumes "sound db0 db" "\<not> clash cx_id codex_unique (codex_sessions db) r" "ledger_inv db0 \<Longrightarrow> codex_ok (keys db) r"
  shows "sound db0 (add_codex r db)"
  by (rule sound_growI [OF assms(1) keys_grow(5)])
    (use assms(2) ok_mono(5) [OF keys_grow(5) assms(3)] in \<open>auto simp: inv_at_def add_codex_def intro: table_inv_snoc\<close>)

lemma sound_update_codex [sound_intros]:
  assumes "sound db0 db" "\<And>r. cx_id (f r) = cx_id r"
    "\<And>r. codex_unique (f r) = codex_unique r"
    "\<And>r. ledger_inv db0 \<Longrightarrow> ledger_inv db \<Longrightarrow> r \<in> set (codex_sessions db) \<Longrightarrow> P r \<Longrightarrow> codex_ok (keys db) r \<Longrightarrow>
      codex_ok (keys db) (f r)"
  shows "sound db0 (update_codex P f db)"
  by (rule sound_stepI [OF assms(1)]) (use assms(2-) in \<open>simp_all add: ledger_inv_def inv_at_def update_codex_def table_inv_upd keys_update_codex [unfolded update_codex_def]\<close>)

lemma sound_add_task [sound_intros]:
  assumes "sound db0 db" "\<not> clash tk_id task_unique (agent_tasks db) r" "ledger_inv db0 \<Longrightarrow> task_ok (keys db) r"
  shows "sound db0 (add_task r db)"
  by (rule sound_growI [OF assms(1) keys_grow(6)])
    (use assms(2) ok_mono(6) [OF keys_grow(6) assms(3)] in \<open>auto simp: inv_at_def add_task_def intro: table_inv_snoc\<close>)

lemma sound_update_task [sound_intros]:
  assumes "sound db0 db" "\<And>r. tk_id (f r) = tk_id r"
    "\<And>r. task_unique (f r) = task_unique r"
    "\<And>r. ledger_inv db0 \<Longrightarrow> ledger_inv db \<Longrightarrow> r \<in> set (agent_tasks db) \<Longrightarrow> P r \<Longrightarrow> task_ok (keys db) r \<Longrightarrow>
      task_ok (keys db) (f r)"
  shows "sound db0 (update_task P f db)"
  by (rule sound_stepI [OF assms(1)]) (use assms(2-) in \<open>simp_all add: ledger_inv_def inv_at_def update_task_def table_inv_upd keys_update_task [unfolded update_task_def]\<close>)

lemma sound_add_execution [sound_intros]:
  assumes "sound db0 db" "\<not> clash ex_id no_unique (executions db) r" "ledger_inv db0 \<Longrightarrow> execution_ok (keys db) r"
  shows "sound db0 (add_execution r db)"
  by (rule sound_growI [OF assms(1) keys_grow(7)])
    (use assms(2) ok_mono(7) [OF keys_grow(7) assms(3)] in \<open>auto simp: inv_at_def add_execution_def intro: table_inv_snoc\<close>)

lemma sound_update_execution [sound_intros]:
  assumes "sound db0 db" "\<And>r. ex_id (f r) = ex_id r"
    "\<And>r. ledger_inv db0 \<Longrightarrow> ledger_inv db \<Longrightarrow> r \<in> set (executions db) \<Longrightarrow> P r \<Longrightarrow> execution_ok (keys db) r \<Longrightarrow>
      execution_ok (keys db) (f r)"
  shows "sound db0 (update_execution P f db)"
  by (rule sound_stepI [OF assms(1)]) (use assms(2-) in \<open>simp_all add: ledger_inv_def inv_at_def update_execution_def table_inv_upd keys_update_execution [unfolded update_execution_def]\<close>)

lemma sound_add_runtime [sound_intros]:
  assumes "sound db0 db" "\<not> clash rs_id no_unique (runtime_sessions db) r" "ledger_inv db0 \<Longrightarrow> runtime_ok (keys db) r"
  shows "sound db0 (add_runtime r db)"
  by (rule sound_growI [OF assms(1) keys_grow(8)])
    (use assms(2) ok_mono(8) [OF keys_grow(8) assms(3)] in \<open>auto simp: inv_at_def add_runtime_def intro: table_inv_snoc\<close>)

lemma sound_update_runtime [sound_intros]:
  assumes "sound db0 db" "\<And>r. rs_id (f r) = rs_id r"
    "\<And>r. ledger_inv db0 \<Longrightarrow> ledger_inv db \<Longrightarrow> r \<in> set (runtime_sessions db) \<Longrightarrow> P r \<Longrightarrow> runtime_ok (keys db) r \<Longrightarrow>
      runtime_ok (keys db) (f r)"
  shows "sound db0 (update_runtime P f db)"
  by (rule sound_stepI [OF assms(1)]) (use assms(2-) in \<open>simp_all add: ledger_inv_def inv_at_def update_runtime_def table_inv_upd\<close>)

lemma sound_add_approval [sound_intros]:
  assumes "sound db0 db" "\<not> clash ag_id no_unique (approvals db) r" "ledger_inv db0 \<Longrightarrow> approval_ok (keys db) r"
  shows "sound db0 (add_approval r db)"
  by (rule sound_growI [OF assms(1) keys_grow(9)])
    (use assms(2) ok_mono(9) [OF keys_grow(9) assms(3)] in \<open>auto simp: inv_at_def add_approval_def intro: table_inv_snoc\<close>)

lemma sound_update_approval [sound_intros]:
  assumes "sound db0 db" "\<And>r. ag_id (f r) = ag_id r"
    "\<And>r. ledger_inv db0 \<Longrightarrow> ledger_inv db \<Longrightarrow> r \<in> set (approvals db) \<Longrightarrow> P r \<Longrightarrow> approval_ok (keys db) r \<Longrightarrow>
      approval_ok (keys db) (f r)"
  shows "sound db0 (update_approval P f db)"
  by (rule sound_stepI [OF assms(1)]) (use assms(2-) in \<open>simp_all add: ledger_inv_def inv_at_def update_approval_def table_inv_upd\<close>)

lemma sound_add_artifact [sound_intros]:
  assumes "sound db0 db" "\<not> clash af_id no_unique (artifacts db) r" "ledger_inv db0 \<Longrightarrow> artifact_ok (keys db) r"
  shows "sound db0 (add_artifact r db)"
  by (rule sound_growI [OF assms(1) keys_grow(10)])
    (use assms(2) ok_mono(10) [OF keys_grow(10) assms(3)] in \<open>auto simp: inv_at_def add_artifact_def intro: table_inv_snoc\<close>)

lemma sound_update_artifact [sound_intros]:
  assumes "sound db0 db" "\<And>r. af_id (f r) = af_id r"
    "\<And>r. ledger_inv db0 \<Longrightarrow> ledger_inv db \<Longrightarrow> r \<in> set (artifacts db) \<Longrightarrow> P r \<Longrightarrow> artifact_ok (keys db) r \<Longrightarrow>
      artifact_ok (keys db) (f r)"
  shows "sound db0 (update_artifact P f db)"
  by (rule sound_stepI [OF assms(1)]) (use assms(2-) in \<open>simp_all add: ledger_inv_def inv_at_def update_artifact_def table_inv_upd\<close>)

lemma sound_add_lease [sound_intros]:
  assumes "sound db0 db" "\<not> clash ls_resource_key no_unique (writer_leases db) r" "ledger_inv db0 \<Longrightarrow> lease_ok (keys db) r"
  shows "sound db0 (add_lease r db)"
  by (rule sound_growI [OF assms(1) keys_grow(11)])
    (use assms(2) ok_mono(11) [OF keys_grow(11) assms(3)] in \<open>auto simp: inv_at_def add_lease_def intro: table_inv_snoc\<close>)

lemma sound_update_lease [sound_intros]:
  assumes "sound db0 db" "\<And>r. ls_resource_key (f r) = ls_resource_key r"
    "\<And>r. ledger_inv db0 \<Longrightarrow> ledger_inv db \<Longrightarrow> r \<in> set (writer_leases db) \<Longrightarrow> P r \<Longrightarrow> lease_ok (keys db) r \<Longrightarrow>
      lease_ok (keys db) (f r)"
  shows "sound db0 (update_lease P f db)"
  by (rule sound_stepI [OF assms(1)]) (use assms(2-) in \<open>simp_all add: ledger_inv_def inv_at_def update_lease_def table_inv_upd\<close>)

lemma sound_add_claim [sound_intros]:
  assumes "sound db0 db" "\<not> clash cl_task_id no_unique (task_claims db) r" "ledger_inv db0 \<Longrightarrow> claim_ok (keys db) r"
  shows "sound db0 (add_claim r db)"
  by (rule sound_growI [OF assms(1) keys_grow(12)])
    (use assms(2) ok_mono(12) [OF keys_grow(12) assms(3)] in \<open>auto simp: inv_at_def add_claim_def intro: table_inv_snoc\<close>)

lemma sound_update_claim [sound_intros]:
  assumes "sound db0 db" "\<And>r. cl_task_id (f r) = cl_task_id r"
    "\<And>r. ledger_inv db0 \<Longrightarrow> ledger_inv db \<Longrightarrow> r \<in> set (task_claims db) \<Longrightarrow> P r \<Longrightarrow> claim_ok (keys db) r \<Longrightarrow>
      claim_ok (keys db) (f r)"
  shows "sound db0 (update_claim P f db)"
  by (rule sound_stepI [OF assms(1)]) (use assms(2-) in \<open>simp_all add: ledger_inv_def inv_at_def update_claim_def table_inv_upd\<close>)

lemma sound_add_result [sound_intros]:
  assumes "sound db0 db" "\<not> clash rt_execution_id no_unique (task_results db) r" "ledger_inv db0 \<Longrightarrow> result_ok (keys db) r"
  shows "sound db0 (add_result r db)"
  by (rule sound_growI [OF assms(1) keys_grow(13)])
    (use assms(2) ok_mono(13) [OF keys_grow(13) assms(3)] in \<open>auto simp: inv_at_def add_result_def intro: table_inv_snoc\<close>)

lemma sound_update_result [sound_intros]:
  assumes "sound db0 db" "\<And>r. rt_execution_id (f r) = rt_execution_id r"
    "\<And>r. ledger_inv db0 \<Longrightarrow> ledger_inv db \<Longrightarrow> r \<in> set (task_results db) \<Longrightarrow> P r \<Longrightarrow> result_ok (keys db) r \<Longrightarrow>
      result_ok (keys db) (f r)"
  shows "sound db0 (update_result P f db)"
  by (rule sound_stepI [OF assms(1)]) (use assms(2-) in \<open>simp_all add: ledger_inv_def inv_at_def update_result_def table_inv_upd\<close>)

lemma sound_add_conversation [sound_intros]:
  assumes "sound db0 db" "\<not> clash cv_id conversation_unique (conversation_sessions db) r" "ledger_inv db0 \<Longrightarrow> conversation_ok (keys db) r"
  shows "sound db0 (add_conversation r db)"
  by (rule sound_growI [OF assms(1) keys_grow(14)])
    (use assms(2) ok_mono(14) [OF keys_grow(14) assms(3)] in \<open>auto simp: inv_at_def add_conversation_def intro: table_inv_snoc\<close>)

lemma sound_update_conversation [sound_intros]:
  assumes "sound db0 db" "\<And>r. cv_id (f r) = cv_id r"
    "\<And>r. conversation_unique (f r) = conversation_unique r"
    "\<And>r. ledger_inv db0 \<Longrightarrow> ledger_inv db \<Longrightarrow> r \<in> set (conversation_sessions db) \<Longrightarrow> P r \<Longrightarrow> conversation_ok (keys db) r \<Longrightarrow>
      conversation_ok (keys db) (f r)"
  shows "sound db0 (update_conversation P f db)"
  by (rule sound_stepI [OF assms(1)]) (use assms(2-) in \<open>simp_all add: ledger_inv_def inv_at_def update_conversation_def table_inv_upd keys_update_conversation [unfolded update_conversation_def]\<close>)

lemma sound_add_turn [sound_intros]:
  assumes "sound db0 db" "\<not> clash tn_task_id turn_unique (conversation_turns db) r" "ledger_inv db0 \<Longrightarrow> turn_ok (keys db) r"
  shows "sound db0 (add_turn r db)"
  by (rule sound_growI [OF assms(1) keys_grow(15)])
    (use assms(2) ok_mono(15) [OF keys_grow(15) assms(3)] in \<open>auto simp: inv_at_def add_turn_def intro: table_inv_snoc\<close>)

lemma sound_update_turn [sound_intros]:
  assumes "sound db0 db" "\<And>r. tn_task_id (f r) = tn_task_id r"
    "\<And>r. turn_unique (f r) = turn_unique r"
    "\<And>r. ledger_inv db0 \<Longrightarrow> ledger_inv db \<Longrightarrow> r \<in> set (conversation_turns db) \<Longrightarrow> P r \<Longrightarrow> turn_ok (keys db) r \<Longrightarrow>
      turn_ok (keys db) (f r)"
  shows "sound db0 (update_turn P f db)"
  by (rule sound_stepI [OF assms(1)]) (use assms(2-) in \<open>simp_all add: ledger_inv_def inv_at_def update_turn_def table_inv_upd\<close>)

lemma sound_add_worker [sound_intros]:
  assumes "sound db0 db" "\<not> clash wk_id no_unique (operation_workers db) r" "ledger_inv db0 \<Longrightarrow> worker_ok (keys db) r"
  shows "sound db0 (add_worker r db)"
  by (rule sound_growI [OF assms(1) keys_grow(16)])
    (use assms(2) ok_mono(16) [OF keys_grow(16) assms(3)] in \<open>auto simp: inv_at_def add_worker_def intro: table_inv_snoc\<close>)

lemma sound_update_worker [sound_intros]:
  assumes "sound db0 db" "\<And>r. wk_id (f r) = wk_id r"
    "\<And>r. ledger_inv db0 \<Longrightarrow> ledger_inv db \<Longrightarrow> r \<in> set (operation_workers db) \<Longrightarrow> P r \<Longrightarrow> worker_ok (keys db) r \<Longrightarrow>
      worker_ok (keys db) (f r)"
  shows "sound db0 (update_worker P f db)"
  by (rule sound_stepI [OF assms(1)]) (use assms(2-) in \<open>simp_all add: ledger_inv_def inv_at_def update_worker_def table_inv_upd\<close>)

lemma sound_add_operation [sound_intros]:
  assumes "sound db0 db" "\<not> clash op_task_id no_unique (task_operations db) r" "ledger_inv db0 \<Longrightarrow> operation_ok (keys db) r"
  shows "sound db0 (add_operation r db)"
  by (rule sound_growI [OF assms(1) keys_grow(17)])
    (use assms(2) ok_mono(17) [OF keys_grow(17) assms(3)] in \<open>auto simp: inv_at_def add_operation_def intro: table_inv_snoc\<close>)

lemma sound_update_operation [sound_intros]:
  assumes "sound db0 db" "\<And>r. op_task_id (f r) = op_task_id r"
    "\<And>r. ledger_inv db0 \<Longrightarrow> ledger_inv db \<Longrightarrow> r \<in> set (task_operations db) \<Longrightarrow> P r \<Longrightarrow> operation_ok (keys db) r \<Longrightarrow>
      operation_ok (keys db) (f r)"
  shows "sound db0 (update_operation P f db)"
  by (rule sound_stepI [OF assms(1)]) (use assms(2-) in \<open>simp_all add: ledger_inv_def inv_at_def update_operation_def table_inv_upd\<close>)

lemma sound_add_plan [sound_intros]:
  assumes "sound db0 db" "\<not> clash pl_id no_unique (change_plans db) r" "ledger_inv db0 \<Longrightarrow> plan_ok (keys db) r"
  shows "sound db0 (add_plan r db)"
  by (rule sound_growI [OF assms(1) keys_grow(18)])
    (use assms(2) ok_mono(18) [OF keys_grow(18) assms(3)] in \<open>auto simp: inv_at_def add_plan_def intro: table_inv_snoc\<close>)

lemma sound_update_plan [sound_intros]:
  assumes "sound db0 db" "\<And>r. pl_id (f r) = pl_id r"
    "\<And>r. ledger_inv db0 \<Longrightarrow> ledger_inv db \<Longrightarrow> r \<in> set (change_plans db) \<Longrightarrow> P r \<Longrightarrow> plan_ok (keys db) r \<Longrightarrow>
      plan_ok (keys db) (f r)"
  shows "sound db0 (update_plan P f db)"
  by (rule sound_stepI [OF assms(1)]) (use assms(2-) in \<open>simp_all add: ledger_inv_def inv_at_def update_plan_def table_inv_upd keys_update_plan [unfolded update_plan_def]\<close>)

lemma sound_add_journal [sound_intros]:
  assumes "sound db0 db" "\<not> clash (\<lambda>r. (jn_plan_id r, jn_ordinal r)) no_unique (change_journal db) r" "ledger_inv db0 \<Longrightarrow> journal_ok (keys db) r"
  shows "sound db0 (add_journal r db)"
  by (rule sound_growI [OF assms(1) keys_grow(19)])
    (use assms(2) ok_mono(19) [OF keys_grow(19) assms(3)] in \<open>auto simp: inv_at_def add_journal_def intro: table_inv_snoc\<close>)

lemma sound_update_journal [sound_intros]:
  assumes "sound db0 db" "\<And>r. jn_plan_id (f r) = jn_plan_id r"
    "\<And>r. jn_ordinal (f r) = jn_ordinal r"
    "\<And>r. ledger_inv db0 \<Longrightarrow> ledger_inv db \<Longrightarrow> r \<in> set (change_journal db) \<Longrightarrow> P r \<Longrightarrow> journal_ok (keys db) r \<Longrightarrow>
      journal_ok (keys db) (f r)"
  shows "sound db0 (update_journal P f db)"
  by (rule sound_stepI [OF assms(1)]) (use assms(2-) in \<open>simp_all add: ledger_inv_def inv_at_def update_journal_def table_inv_upd\<close>)

lemma sound_add_draft [sound_intros]:
  assumes "sound db0 db" "\<not> clash dr_id no_unique (operation_drafts db) r" "ledger_inv db0 \<Longrightarrow> draft_ok (keys db) r"
  shows "sound db0 (add_draft r db)"
  by (rule sound_growI [OF assms(1) keys_grow(20)])
    (use assms(2) ok_mono(20) [OF keys_grow(20) assms(3)] in \<open>auto simp: inv_at_def add_draft_def intro: table_inv_snoc\<close>)

lemma sound_update_draft [sound_intros]:
  assumes "sound db0 db" "\<And>r. dr_id (f r) = dr_id r"
    "\<And>r. ledger_inv db0 \<Longrightarrow> ledger_inv db \<Longrightarrow> r \<in> set (operation_drafts db) \<Longrightarrow> P r \<Longrightarrow> draft_ok (keys db) r \<Longrightarrow>
      draft_ok (keys db) (f r)"
  shows "sound db0 (update_draft P f db)"
  by (rule sound_stepI [OF assms(1)]) (use assms(2-) in \<open>simp_all add: ledger_inv_def inv_at_def update_draft_def table_inv_upd\<close>)

lemma sound_delete_claims [sound_intros]: "sound db0 db \<Longrightarrow> sound db0 (delete_claims P db)"
  by (rule sound_stepI [of db0 db]) (simp_all add: inv_at_def delete_claims_def table_inv_filter)

lemma sound_add_event [sound_intros]:
  "sound db0 db \<Longrightarrow> (ledger_inv db0 \<Longrightarrow> event_ok (keys db) e) \<Longrightarrow> ev_seq e = Suc (length (execution_events db)) \<Longrightarrow>
   sound db0 (add_event e db)"
  by (rule sound_stepI [of db0 db]) (simp_all add: inv_at_def add_event_def)

lemma sound_log_audit [sound_intros]:
  "sound db0 db \<Longrightarrow> (ledger_inv db0 \<Longrightarrow> concealed_dict detail) \<Longrightarrow> sound db0 (log_audit t actor action ety eid detail db)"
  by (rule sound_stepI [of db0 db]) (simp_all add: inv_at_def log_audit_def)

text \<open>A statement on a table leaves the event log alone.\<close>

lemma events_unchanged [simp]:
  "execution_events (update_request P0 f0 db) = execution_events db"
  "execution_events (add_request r0 db) = execution_events db"
  "execution_events (update_host P1 f1 db) = execution_events db"
  "execution_events (add_host r1 db) = execution_events db"
  "execution_events (update_profile P2 f2 db) = execution_events db"
  "execution_events (add_profile r2 db) = execution_events db"
  "execution_events (update_project P3 f3 db) = execution_events db"
  "execution_events (add_project r3 db) = execution_events db"
  "execution_events (update_codex P4 f4 db) = execution_events db"
  "execution_events (add_codex r4 db) = execution_events db"
  "execution_events (update_task P5 f5 db) = execution_events db"
  "execution_events (add_task r5 db) = execution_events db"
  "execution_events (update_execution P6 f6 db) = execution_events db"
  "execution_events (add_execution r6 db) = execution_events db"
  "execution_events (update_runtime P7 f7 db) = execution_events db"
  "execution_events (add_runtime r7 db) = execution_events db"
  "execution_events (update_approval P8 f8 db) = execution_events db"
  "execution_events (add_approval r8 db) = execution_events db"
  "execution_events (update_artifact P9 f9 db) = execution_events db"
  "execution_events (add_artifact r9 db) = execution_events db"
  "execution_events (update_lease P10 f10 db) = execution_events db"
  "execution_events (add_lease r10 db) = execution_events db"
  "execution_events (update_claim P11 f11 db) = execution_events db"
  "execution_events (add_claim r11 db) = execution_events db"
  "execution_events (update_result P12 f12 db) = execution_events db"
  "execution_events (add_result r12 db) = execution_events db"
  "execution_events (update_conversation P13 f13 db) = execution_events db"
  "execution_events (add_conversation r13 db) = execution_events db"
  "execution_events (update_turn P14 f14 db) = execution_events db"
  "execution_events (add_turn r14 db) = execution_events db"
  "execution_events (update_worker P15 f15 db) = execution_events db"
  "execution_events (add_worker r15 db) = execution_events db"
  "execution_events (update_operation P16 f16 db) = execution_events db"
  "execution_events (add_operation r16 db) = execution_events db"
  "execution_events (update_plan P17 f17 db) = execution_events db"
  "execution_events (add_plan r17 db) = execution_events db"
  "execution_events (update_journal P18 f18 db) = execution_events db"
  "execution_events (add_journal r18 db) = execution_events db"
  "execution_events (update_draft P19 f19 db) = execution_events db"
  "execution_events (add_draft r19 db) = execution_events db"
  "execution_events (delete_claims P db) = execution_events db"
  "execution_events (log_audit tm ac an ety eid de db) = execution_events db"
  "execution_events (add_event e db) = execution_events db @ [e]"
  by (simp_all add: statement_defs)

text \<open>The ledger of a new database\<close>

definition empty_ledger :: ledger where
  "empty_ledger = \<lparr>agent_requests = [], hosts = [], agent_profiles = [], execution_projects = [], codex_sessions = [], agent_tasks = [], executions = [], runtime_sessions = [], approvals = [], artifacts = [], writer_leases = [], task_claims = [], task_results = [], conversation_sessions = [], conversation_turns = [], operation_workers = [], task_operations = [], change_plans = [], change_journal = [], operation_drafts = [], execution_events = [], audit_logs = []\<rparr>"

lemma empty_ledger_inv: "ledger_inv empty_ledger"
  by (simp add: ledger_inv_def inv_at_def table_inv_def empty_ledger_def unique_on_def)

lemma event_ok_event_of [simp]:
  "event_ok K (event_of t ty tid eid st msg md n) = event_fk K tid eid"
  by (simp add: event_ok_def)

end
