(* ===== verification/Machines.thy ===== *)
theory Machines
  imports Main
begin

text \<open>
  Three contracts that the components of the ledger are instances of. The lemmas about runs are proved
  once here; each component interprets the locale on its own step relation.
\<close>

section \<open>Invariants and history\<close>

text \<open>Every step keeps an invariant and extends a history; then so does every run.\<close>

locale recorded_system =
  fixes step :: "'s \<Rightarrow> 's \<Rightarrow> bool"
    and inv :: "'s \<Rightarrow> bool"
    and extends :: "'s \<Rightarrow> 's \<Rightarrow> bool"
  assumes step_inv: "step s t \<Longrightarrow> inv s \<Longrightarrow> inv t"
    and step_extends: "step s t \<Longrightarrow> extends s t"
    and extends_refl: "extends s s"
    and extends_trans: "extends s t \<Longrightarrow> extends t u \<Longrightarrow> extends s u"
begin

lemma run_inv: "step\<^sup>*\<^sup>* s t \<Longrightarrow> inv s \<Longrightarrow> inv t"
  by (induction rule: rtranclp_induct) (auto dest: step_inv)

lemma run_extends: "step\<^sup>*\<^sup>* s t \<Longrightarrow> extends s t"
  by (induction rule: rtranclp_induct) (auto intro: extends_refl extends_trans step_extends)

end

section \<open>Status machines\<close>

text \<open>
  Each key has at most one status; a step moves it along \<open>allowed\<close>, and a key never loses its status.
  A status without a successor is then final in every run.
\<close>

locale status_machine =
  fixes step :: "'s \<Rightarrow> 's \<Rightarrow> bool"
    and status :: "'s \<Rightarrow> 'k \<Rightarrow> 'v option"
    and allowed :: "'v \<Rightarrow> 'v \<Rightarrow> bool"
  assumes step_status: "step s t \<Longrightarrow> status s k = Some a \<Longrightarrow> \<exists>b. status t k = Some b \<and> (a = b \<or> allowed a b)"
begin

lemma run_status:
  "step\<^sup>*\<^sup>* s t \<Longrightarrow> status s k = Some a \<Longrightarrow> \<exists>b. status t k = Some b \<and> allowed\<^sup>*\<^sup>* a b"
proof (induction rule: rtranclp_induct)
  case base
  then show ?case by blast
next
  case (step y z)
  then obtain b where b: "status y k = Some b" "allowed\<^sup>*\<^sup>* a b" by blast
  from step_status [OF step.hyps(2) b(1)] obtain c where "status z k = Some c" "b = c \<or> allowed b c" by blast
  with b(2) show ?case by (metis rtranclp.rtrancl_into_rtrancl)
qed

lemma final_status:
  assumes "step\<^sup>*\<^sup>* s t" "status s k = Some a" "\<And>b. \<not> allowed a b"
  shows "status t k = Some a"
proof -
  from run_status [OF assms(1,2)] obtain b where b: "status t k = Some b" "allowed\<^sup>*\<^sup>* a b" by blast
  from b(2) have "b = a" by (cases rule: converse_rtranclpE) (use assms(3) in auto)
  with b(1) show ?thesis by simp
qed

end

section \<open>Fencing tokens\<close>

text \<open>
  Each resource has a token that no step lowers, and an operation is admitted only with the current
  token. Then a token that has been superseded is never admitted again.
\<close>

locale fenced_resource = recorded_system +
  fixes token :: "'s \<Rightarrow> 'k \<Rightarrow> int option"
    and admitted :: "'s \<Rightarrow> 'k \<Rightarrow> int \<Rightarrow> bool"
  assumes step_token: "step s t \<Longrightarrow> token s k = Some n \<Longrightarrow> \<exists>m. token t k = Some m \<and> n \<le> m"
    and admitted_token: "inv s \<Longrightarrow> admitted s k n \<Longrightarrow> token s k = Some n"
begin

lemma run_token: "step\<^sup>*\<^sup>* s t \<Longrightarrow> token s k = Some n \<Longrightarrow> \<exists>m. token t k = Some m \<and> n \<le> m"
proof (induction rule: rtranclp_induct)
  case (step y z)
  then obtain m where m: "token y k = Some m" "n \<le> m" by blast
  from step_token [OF step.hyps(2) m(1)] m(2) show ?case by force
qed simp

lemma superseded:
  assumes "inv s" "step\<^sup>*\<^sup>* s t" "token s k = Some m" "n < m"
  shows "\<not> admitted t k n"
proof
  assume "admitted t k n"
  with run_inv [OF assms(2,1)] have "token t k = Some n" by (rule admitted_token)
  with run_token [OF assms(2,3)] \<open>n < m\<close> show False by simp
qed

end

end
