(* ===== verification/Sample_Ledger.thy ===== *)
theory Sample_Ledger
  imports Schema
begin

text \<open>
  A small ledger that holds the invariant: one host, one project, one task at work with its current
  execution, one approval waiting for a decision. The witnesses of the properties evaluate the
  operations on it. Every row was written at time 0.
\<close>

definition sample_host :: host_row where
  "sample_host = \<lparr>ho_id = ''h1'', ho_name = ''mac'', ho_role = ''worker'', ho_platform = ''darwin'',
     ho_architecture = ''arm64'', ho_tailscale_name = [], ho_status = ''online'', ho_capabilities = [],
     ho_metadata = [], ho_last_heartbeat_at = Some 0, ho_created_at = 0, ho_updated_at = 0\<rparr>"

definition sample_project :: project_row where
  "sample_project = \<lparr>pj_id = ''p1'', pj_name = ''site'', pj_owner = ''u1'', pj_workspace_root = ''/w'',
     pj_status = ''active'', pj_description = [], pj_metadata = [], pj_created_at = 0, pj_updated_at = 0\<rparr>"

definition sample_task :: task_row where
  "sample_task = \<lparr>tk_id = ''t1'', tk_source_request_id = None, tk_title = ''build'', tk_prompt = ''build it'',
     tk_status = ''running'', tk_priority = 100, tk_requested_by = ''u1'', tk_assigned_agent_id = None,
     tk_current_execution_id = Some ''e1'', tk_metadata = [], tk_created_at = 0, tk_updated_at = 0,
     tk_completed_at = None, tk_project_id = Some ''p1'', tk_codex_session_id = None\<rparr>"

definition sample_execution :: execution_row where
  "sample_execution = \<lparr>ex_id = ''e1'', ex_task_id = ''t1'', ex_host_id = Some ''h1'', ex_agent_profile_id = None,
     ex_adapter_type = ''codex'', ex_status = ''running'', ex_status_confidence = 1, ex_command_summary = [],
     ex_workdir = ''/w'', ex_exit_code = None, ex_error = [], ex_metadata = [], ex_created_at = 0,
     ex_started_at = Some 0, ex_ended_at = None, ex_last_heartbeat_at = Some 0, ex_updated_at = 0\<rparr>"

definition sample_approval :: approval_row where
  "sample_approval = \<lparr>ag_id = ''a1'', ag_task_id = Some ''t1'', ag_execution_id = Some ''e1'',
     ag_action = ''workspace.write'', ag_status = ''pending'', ag_requested_by = ''u1'', ag_decided_by = [],
     ag_reason = [], ag_metadata = [(''authorized_actor'', JStr ''u1''), (''scope_hash'', JStr ''s'')],
     ag_requested_at = 0, ag_decided_at = None, ag_expires_at = Some (seconds 600)\<rparr>"

definition sample_ledger :: ledger where
  "sample_ledger = empty_ledger\<lparr>hosts := [sample_host], execution_projects := [sample_project], agent_tasks := [sample_task],
     executions := [sample_execution], approvals := [sample_approval]\<rparr>"

named_theorems sample_defs \<open>the rows of the sample\<close>
declare sample_host_def [sample_defs] sample_project_def [sample_defs] sample_task_def [sample_defs] sample_execution_def [sample_defs]
  sample_approval_def [sample_defs] sample_ledger_def [sample_defs] empty_ledger_def [sample_defs]

lemma not_secret_approval_keys: "\<not> secret_key ''authorized_actor''" "\<not> secret_key ''scope_hash''"
  by code_simp+

lemma sample_ledger_inv: "ledger_inv sample_ledger"
  by (simp add: ledger_inv_def inv_at_def table_inv_def unique_on_def keys_def sample_defs row_defs
      List.map_filter_def host_unique_def project_unique_def task_unique_def not_secret_approval_keys)

section \<open>A ledger with operations\<close>

text \<open>
  One worker that is alive at time 0; the request task \<open>t2\<close> of user \<open>u1\<close> waiting for it, bound to the
  conversation \<open>c1\<close>; the task \<open>t3\<close>, whose change plan \<open>p3\<close> has been approved.
\<close>

definition sample_metadata :: dict where
  "sample_metadata = [(''owner_key'', JStr ''u1''), (''workspace_root'', JStr ''/w'')]"

definition sample_task2 :: task_row where
  "sample_task2 = sample_task\<lparr>tk_id := ''t2'', tk_status := ''queued'', tk_current_execution_id := None,
     tk_metadata := sample_metadata, tk_project_id := None\<rparr>"

definition sample_task3 :: task_row where
  "sample_task3 = sample_task2\<lparr>tk_id := ''t3'', tk_status := ''awaiting_approval''\<rparr>"

definition sample_spec :: dict where
  "sample_spec = [(''draft_id'', JStr []), (''kind'', JStr ''request''), (''plan_id'', JStr []), (''profile'', JStr ''auto''),
     (''prompt'', JStr ''build it''), (''timeout_seconds'', JInt 600), (''version'', JInt 1), (''workspace'', JStr ''/w'')]"

definition sample_operation :: operation_row where
  "sample_operation = \<lparr>op_task_id = ''t2'', op_spec = sample_spec, op_worker_generation = ''w1'', op_eligible = True,
     op_attempts = 0, op_max_attempts = 3, op_hold_reason = [], op_assessment = [], op_diagnosis = [],
     op_parent_task_id = None\<rparr>"

definition sample_worker :: worker_row where
  "sample_worker = \<lparr>wk_id = ''w1'', wk_heartbeat_at = 0, wk_closed = False\<rparr>"

definition sample_conversation :: conversation_row where
  "sample_conversation = \<lparr>cv_id = ''c1'', cv_owner_key = ''u1'', cv_conversation_hash = ''k'', cv_workspace_root = ''/w'',
     cv_generation = 1, cv_next_sequence = 2, cv_pending_task_id = None, cv_pending_execution_id = None,
     cv_memory_reset_generation = 0, cv_created_at = 0, cv_updated_at = 0\<rparr>"

definition sample_turn :: turn_row where
  "sample_turn = \<lparr>tn_task_id = ''t2'', tn_session_id = ''c1'', tn_generation = 1, tn_sequence = 1,
     tn_related_task_id = None, tn_reply_kind = ''answer'', tn_completed_execution_id = None, tn_created_at = 0,
     tn_updated_at = 0\<rparr>"

definition sample_plan :: plan_row where
  "sample_plan = \<lparr>pl_id = ''p3'', pl_task_id = ''t3'', pl_owner_key = ''u1'', pl_workspace = ''/w'', pl_revision = 1,
     pl_plan_hash = ''h3'', pl_changes = [\<lparr>fc_path = ''a.txt'', fc_action = ''create'', fc_reason = ''new'',
       fc_content = ''A'', fc_before_hash = None, fc_before_content = [], fc_after_hash = Some ''A''\<rparr>],
     pl_status = ''approved'', pl_expires_at = seconds 3600, pl_decided_by = ''u1'', pl_created_at = 0\<rparr>"

definition sample_operations :: ledger where
  "sample_operations = sample_ledger\<lparr>agent_tasks := [sample_task, sample_task2, sample_task3],
     task_operations := [sample_operation, sample_operation\<lparr>op_task_id := ''t3''\<rparr>],
     operation_workers := [sample_worker], conversation_sessions := [sample_conversation],
     conversation_turns := [sample_turn], change_plans := [sample_plan]\<rparr>"

declare sample_metadata_def [sample_defs] sample_task2_def [sample_defs] sample_task3_def [sample_defs]
  sample_spec_def [sample_defs] sample_operation_def [sample_defs] sample_worker_def [sample_defs]
  sample_conversation_def [sample_defs] sample_turn_def [sample_defs] sample_plan_def [sample_defs]
  sample_operations_def [sample_defs]

lemma not_secret_owner_key: "\<not> secret_key ''owner_key''" "\<not> secret_key ''workspace_root''"
  by code_simp+

lemma sample_operations_inv: "ledger_inv sample_operations"
  by (simp add: ledger_inv_def inv_at_def table_inv_def unique_on_def keys_def sample_defs row_defs
      List.map_filter_def host_unique_def project_unique_def task_unique_def turn_unique_def
      conversation_unique_def not_secret_approval_keys not_secret_owner_key)

definition sample_request :: request_row where
  "sample_request = \<lparr>rq_id = ''r1'', rq_source = ''discord'', rq_guild_id = [], rq_channel_id = ''c1'',
     rq_channel_name = [], rq_user_id = ''7'', rq_trigger = [], rq_command = ''build'', rq_mode = ''auto'',
     rq_provider = [], rq_model = [], rq_prompt = ''build it'', rq_status = ''running'', rq_result_summary = [],
     rq_error = [], rq_prompt_tokens = None, rq_completion_tokens = None, rq_total_tokens = None,
     rq_started_at = None, rq_ended_at = None, rq_duration_ms = None, rq_metadata = [], rq_created_at = 1,
     rq_updated_at = 2\<rparr>"

end
