(* ===== verification/Ledger_Leases.thy ===== *)
theory Ledger_Leases
  imports Schema Machines Sample_Ledger
begin

text \<open>
  Writer leases of \<open>src/nyanya_agent/execution_store.py\<close>: a lock per resource key with an expiry and a
  fencing token. \<open>acquire_writer_lease\<close> answers \<open>None\<close> while another owner's lease runs.
\<close>

definition fetch_lease :: "ledger \<Rightarrow> string \<Rightarrow> lease_row option" where
  "fetch_lease db k = List.find (\<lambda>l. ls_resource_key l = k) (writer_leases db)"

text \<open>\<open>INSERT ... ON CONFLICT(resource_key) DO UPDATE SET\<close> every other column\<close>

definition upsert_lease :: "lease_row \<Rightarrow> ledger \<Rightarrow> ledger" where
  "upsert_lease r db =
     (if fetch_lease db (ls_resource_key r) = None then add_lease r db
      else update_lease (\<lambda>l. ls_resource_key l = ls_resource_key r) (\<lambda>l. r) db)"

definition acquire_writer_lease ::
  "time \<Rightarrow> string \<Rightarrow> string \<Rightarrow> int \<Rightarrow> dict \<Rightarrow> ledger \<Rightarrow> lease_row option \<times> ledger" where
  "acquire_writer_lease t resource_key owner_id ttl_seconds metadata db =
     (let now = whole_second t;
          expires = now + seconds (max 10 ttl_seconds);
          current = fetch_lease db resource_key in
      if (case current of None \<Rightarrow> False | Some c \<Rightarrow> ls_owner_id c \<noteq> owner_id \<and> ls_expires_at c > now)
      then (None, db)
      else
        (let row = \<lparr>ls_resource_key = resource_key, ls_owner_id = owner_id,
               ls_fence_token = (case current of None \<Rightarrow> 1 | Some c \<Rightarrow> ls_fence_token c + 1),
               ls_metadata = redact_dict metadata,
               ls_acquired_at = (case current of None \<Rightarrow> now
                                 | Some c \<Rightarrow> if ls_owner_id c = owner_id then ls_acquired_at c else now),
               ls_heartbeat_at = now, ls_expires_at = expires\<rparr>
         in (Some row, upsert_lease row db)))"

definition renew_writer_lease ::
  "time \<Rightarrow> string \<Rightarrow> string \<Rightarrow> int \<Rightarrow> int \<Rightarrow> ledger \<Rightarrow> lease_row option \<times> ledger" where
  "renew_writer_lease t resource_key owner_id fence_token ttl_seconds db =
     (let now = whole_second t;
          P = (\<lambda>l. ls_resource_key l = resource_key \<and> ls_owner_id l = owner_id \<and>
                   ls_fence_token l = fence_token \<and> ls_expires_at l > now) in
      if hits P (writer_leases db) = 0 then (None, db)
      else
        (let db1 = update_lease P (\<lambda>l. l\<lparr>ls_heartbeat_at := now,
                     ls_expires_at := now + seconds (max 10 ttl_seconds)\<rparr>) db
         in (fetch_lease db1 resource_key, db1)))"

text \<open>Releasing sets the expiry to 1970-01-01; the row and its token stay.\<close>

definition release_writer_lease :: "string \<Rightarrow> string \<Rightarrow> int \<Rightarrow> ledger \<Rightarrow> bool \<times> ledger" where
  "release_writer_lease resource_key owner_id fence_token db =
     (let P = (\<lambda>l. ls_resource_key l = resource_key \<and> ls_owner_id l = owner_id \<and> ls_fence_token l = fence_token)
      in (0 < hits P (writer_leases db), update_lease P (\<lambda>l. l\<lparr>ls_expires_at := 0\<rparr>) db))"

inductive lease_step :: "ledger \<Rightarrow> ledger \<Rightarrow> bool" where
  acquire: "lease_step db (snd (acquire_writer_lease t k owner ttl md db))"
| renew: "lease_step db (snd (renew_writer_lease t k owner fence ttl db))"
| release: "lease_step db (snd (release_writer_lease k owner fence db))"

inductive_cases lease_stepE: "lease_step db db'"

section \<open>Looking a lease up after each operation\<close>

lemma fetch_leaseD: "fetch_lease db k = Some l \<Longrightarrow> l \<in> set (writer_leases db) \<and> ls_resource_key l = k"
  by (auto simp: fetch_lease_def dest: find_SomeD)

lemma fetch_update_lease:
  "(\<And>l. ls_resource_key (f l) = ls_resource_key l) \<Longrightarrow>
   fetch_lease (update_lease P f db) k = map_option (\<lambda>l. if P l then f l else l) (fetch_lease db k)"
  by (simp add: fetch_lease_def update_lease_def find_key_upd)

lemma fetch_upsert_lease:
  "fetch_lease (upsert_lease r db) k = (if k = ls_resource_key r then Some r else fetch_lease db k)"
proof (cases "fetch_lease db (ls_resource_key r) = None")
  case True
  then show ?thesis
    by (auto simp: upsert_lease_def fetch_lease_def add_lease_def find_key_append split: option.splits)
next
  case False
  have "List.find (\<lambda>l. ls_resource_key l = k) (upd (\<lambda>l. ls_resource_key l = ls_resource_key r) (\<lambda>l. r) rows) =
      map_option (\<lambda>l. if ls_resource_key l = ls_resource_key r then r else l)
        (List.find (\<lambda>l. ls_resource_key l = k) rows)" for rows
    by (induction rows) auto
  with False show ?thesis
    by (cases "List.find (\<lambda>l. ls_resource_key l = k) (writer_leases db)")
       (auto simp: upsert_lease_def fetch_lease_def update_lease_def dest: find_SomeD)
qed

lemma fetch_acquire:
  "acquire_writer_lease t k owner ttl md db = (Some r, db') \<Longrightarrow>
   fetch_lease db' j = (if j = k then Some r else fetch_lease db j)"
  by (auto simp: acquire_writer_lease_def Let_def fetch_upsert_lease split: if_splits)

lemma acquire_None: "acquire_writer_lease t k owner ttl md db = (None, db') \<Longrightarrow> db' = db"
  by (auto simp: acquire_writer_lease_def Let_def split: if_splits)

lemma acquire_token:
  "acquire_writer_lease t k owner ttl md db = (Some r, db') \<Longrightarrow>
   ls_fence_token r = (case fetch_lease db k of None \<Rightarrow> 1 | Some c \<Rightarrow> ls_fence_token c + 1) \<and>
   ls_owner_id r = owner \<and> ls_resource_key r = k \<and> ls_expires_at r = whole_second t + seconds (max 10 ttl)"
  by (auto simp: acquire_writer_lease_def Let_def split: if_splits)

lemma fetch_renew:
  "fetch_lease (snd (renew_writer_lease t k owner fence ttl db)) j =
   map_option (\<lambda>l. if ls_resource_key l = k \<and> ls_owner_id l = owner \<and> ls_fence_token l = fence \<and>
                      ls_expires_at l > whole_second t
                   then l\<lparr>ls_heartbeat_at := whole_second t,
                          ls_expires_at := whole_second t + seconds (max 10 ttl)\<rparr> else l) (fetch_lease db j)"
proof (cases "hits (\<lambda>l. ls_resource_key l = k \<and> ls_owner_id l = owner \<and> ls_fence_token l = fence \<and>
                      ls_expires_at l > whole_second t) (writer_leases db) = 0")
  case True
  then have "\<not> (ls_resource_key l = k \<and> ls_owner_id l = owner \<and> ls_fence_token l = fence \<and>
      ls_expires_at l > whole_second t)" if "l \<in> set (writer_leases db)" for l
    using that hits_pos [of _ "writer_leases db"] by (metis (mono_tags, lifting) less_numeral_extra(3))
  with True show ?thesis
    by (cases "fetch_lease db j") (auto simp: renew_writer_lease_def Let_def dest: fetch_leaseD)
qed (simp add: renew_writer_lease_def Let_def fetch_update_lease)

lemma fetch_release:
  "fetch_lease (snd (release_writer_lease k owner fence db)) j =
   map_option (\<lambda>l. if ls_resource_key l = k \<and> ls_owner_id l = owner \<and> ls_fence_token l = fence
                   then l\<lparr>ls_expires_at := 0\<rparr> else l) (fetch_lease db j)"
  by (simp add: release_writer_lease_def Let_def fetch_update_lease)

section \<open>Soundness\<close>

lemma lease_unchanged_key: "fetch_lease db k = Some c \<Longrightarrow> ls_resource_key c = k"
  by (auto dest: fetch_leaseD)

lemma upsert_lease_sound: "concealed_dict (ls_metadata r) \<Longrightarrow> sound db (upsert_lease r db)"
proof (cases "fetch_lease db (ls_resource_key r) = None")
  case True
  assume "concealed_dict (ls_metadata r)"
  moreover have "\<not> clash ls_resource_key no_unique (writer_leases db) r"
    using True by (auto simp: clash_def fetch_lease_def find_None_iff)
  ultimately show ?thesis
    using True by (simp add: upsert_lease_def) (intro sound_intros, simp_all add: row_defs)
next
  case False
  have eq: "update_lease (\<lambda>l. ls_resource_key l = ls_resource_key r) (\<lambda>l. r) db =
      update_lease (\<lambda>l. ls_resource_key l = ls_resource_key r) (\<lambda>l. r\<lparr>ls_resource_key := ls_resource_key l\<rparr>) db"
    by (auto simp: update_lease_def upd_def)
  assume "concealed_dict (ls_metadata r)"
  then have "sound db (update_lease (\<lambda>l. ls_resource_key l = ls_resource_key r)
      (\<lambda>l. r\<lparr>ls_resource_key := ls_resource_key l\<rparr>) db)"
    by (intro sound_intros) (simp_all add: row_defs)
  with False show ?thesis
    by (auto simp: upsert_lease_def eq)
qed

lemma lease_step_sound: "lease_step db db' \<Longrightarrow> sound db db'"
proof (induction rule: lease_step.induct)
  case (acquire db t k owner ttl md)
  show ?case by (auto simp: acquire_writer_lease_def Let_def intro: upsert_lease_sound)
next
  case (renew db t k owner fence ttl)
  show ?case by (auto simp: renew_writer_lease_def Let_def row_defs intro!: sound_intros)
next
  case (release db k owner fence)
  show ?case by (auto simp: release_writer_lease_def Let_def row_defs intro!: sound_intros)
qed

section \<open>The fencing contract\<close>

definition lease_token :: "ledger \<Rightarrow> string \<Rightarrow> int option" where
  "lease_token db k = map_option ls_fence_token (fetch_lease db k)"

definition lease_admits :: "ledger \<Rightarrow> string \<Rightarrow> int \<Rightarrow> bool" where
  "lease_admits db k fence \<longleftrightarrow>
     (\<exists>t owner ttl. fst (renew_writer_lease t k owner fence ttl db) \<noteq> None) \<or>
     (\<exists>owner. fst (release_writer_lease k owner fence db))"

lemma lease_keyed: "ledger_inv db \<Longrightarrow> l \<in> set (writer_leases db) \<Longrightarrow> fetch_lease db (ls_resource_key l) = Some l"
  by (simp add: ledger_inv_def inv_at_def table_inv_def fetch_lease_def find_key_unique)

lemma lease_admits_token:
  assumes "ledger_inv db" "lease_admits db k fence"
  shows "lease_token db k = Some fence"
proof -
  have "\<exists>l\<in>set (writer_leases db). ls_resource_key l = k \<and> ls_fence_token l = fence"
    using assms(2) hits_pos [where rows = "writer_leases db"]
    by (auto simp: lease_admits_def renew_writer_lease_def release_writer_lease_def Let_def split: if_splits)
  then show ?thesis using lease_keyed [OF assms(1)] by (auto simp: lease_token_def)
qed

lemma lease_step_token:
  assumes "lease_step db db'" "lease_token db k = Some n"
  shows "\<exists>m. lease_token db' k = Some m \<and> n \<le> m"
  using assms
proof (induction rule: lease_step.induct)
  case (acquire db t j owner ttl md)
  show ?case
  proof (cases "fst (acquire_writer_lease t j owner ttl md db)")
    case None
    then have "snd (acquire_writer_lease t j owner ttl md db) = db" by (metis acquire_None prod.collapse)
    with acquire show ?thesis by simp
  next
    case (Some r)
    then obtain db' where "acquire_writer_lease t j owner ttl md db = (Some r, db')" by (metis prod.collapse)
    with acquire fetch_acquire [OF this] acquire_token [OF this] show ?thesis
      by (auto simp: lease_token_def)
  qed
next
  case (renew db t j owner fence ttl)
  then show ?case by (cases "fetch_lease db k") (simp_all add: lease_token_def fetch_renew)
next
  case (release db j owner fence)
  then show ?case by (cases "fetch_lease db k") (simp_all add: lease_token_def fetch_release)
qed

interpretation lease: fenced_resource lease_step ledger_inv extends_logs lease_token lease_admits
proof unfold_locales
  fix s t assume "lease_step s t"
  then show "ledger_inv s \<Longrightarrow> ledger_inv t" and "extends_logs s t"
    using lease_step_sound by (auto simp: sound_def)
qed (auto simp: extends_logs_def intro: lease_step_token lease_admits_token)

section \<open>Properties\<close>

text \<open>Once a writer lease has been granted, nobody else is granted the same resource before it expires: the
  answer is \<open>None\<close> and the ledger is untouched. The grant lasts at least ten seconds and carries a fencing
  token above the one any earlier holder had.\<close>

theorem lease_excludes_others:
  assumes "acquire_writer_lease t k a ttl md db = (Some r, db1)"
    and "b \<noteq> a" and "whole_second t' < whole_second t + seconds (max 10 ttl)"
  shows "acquire_writer_lease t' k b ttl' md' db1 = (None, db1) \<and> ls_expires_at r \<ge> whole_second t + seconds 10 \<and>
    (\<forall>c. fetch_lease db k = Some c \<longrightarrow> ls_fence_token c < ls_fence_token r)"
proof (intro conjI)
  note r = acquire_token [OF assms(1)] and look = fetch_acquire [OF assms(1), of k]
  show "acquire_writer_lease t' k b ttl' md' db1 = (None, db1)"
    using r look assms(2,3) by (simp add: acquire_writer_lease_def [of t'] Let_def)
  show "ls_expires_at r \<ge> whole_second t + seconds 10" using r by (simp add: seconds_def)
  show "\<forall>c. fetch_lease db k = Some c \<longrightarrow> ls_fence_token c < ls_fence_token r" using r by simp
qed

lemma lease_excludes_others_witness:
  "\<exists>r db1. acquire_writer_lease 0 ''k'' ''a'' 60 [] sample_ledger = (Some r, db1) \<and>
     acquire_writer_lease 59000000 ''k'' ''b'' 60 [] db1 = (None, db1)"
proof -
  obtain r db1 where got: "acquire_writer_lease 0 ''k'' ''a'' 60 [] sample_ledger = (Some r, db1)"
    by (simp add: acquire_writer_lease_def Let_def fetch_lease_def sample_defs)
  have "acquire_writer_lease 59000000 ''k'' ''b'' 60 [] db1 = (None, db1)"
    by (rule lease_excludes_others [OF got, THEN conjunct1]) (simp_all add: whole_second_def seconds_def)
  with got show ?thesis by blast
qed

text \<open>C10. Fencing: when a lease that somebody held is granted anew, the old token is dead for ever. After any
  sequence of acquisitions, renewals and releases by anybody, a renewal with the old token answers
  \<open>None\<close> and a release with it reports \<open>False\<close>, whatever owner presents it and whenever.\<close>

theorem superseded_token_is_dead:
  assumes "ledger_inv db" "fetch_lease db k = Some c" "acquire_writer_lease t k b ttl md db = (Some r, db1)"
    and "lease_step\<^sup>*\<^sup>* db1 db2"
  shows "fst (renew_writer_lease t' k a (ls_fence_token c) ttl' db2) = None \<and>
    \<not> fst (release_writer_lease k a (ls_fence_token c) db2)"
proof -
  have "lease_step db db1" using lease_step.acquire [of db t k b ttl md] assms(3) by simp
  then have inv: "ledger_inv db1" using assms(1) lease_step_sound by (auto simp: sound_def)
  have tok: "lease_token db1 k = Some (ls_fence_token c + 1)"
    using acquire_token [OF assms(3)] fetch_acquire [OF assms(3), of k] assms(2) by (simp add: lease_token_def)
  have "\<not> lease_admits db2 k (ls_fence_token c)"
    by (rule lease.superseded [OF inv assms(4) tok]) simp
  then show ?thesis unfolding lease_admits_def by blast
qed

definition sample_lease :: lease_row where
  "sample_lease = \<lparr>ls_resource_key = ''k'', ls_owner_id = ''a'', ls_fence_token = 1, ls_metadata = [],
     ls_acquired_at = 0, ls_heartbeat_at = 0, ls_expires_at = seconds 60\<rparr>"

lemma superseded_token_is_dead_witness:
  "\<exists>r db1. acquire_writer_lease 61000000 ''k'' ''b'' 60 [] (add_lease sample_lease sample_ledger) = (Some r, db1) \<and>
     fst (renew_writer_lease 61000000 ''k'' ''a'' 1 60 db1) = None"
proof -
  let ?db = "add_lease sample_lease sample_ledger"
  have "sound sample_ledger ?db"
    by (intro sound_intros) (simp_all add: clash_def sample_lease_def sample_defs row_defs)
  then have inv: "ledger_inv ?db" using sample_ledger_inv by (simp add: sound_def)
  have held: "fetch_lease ?db ''k'' = Some sample_lease"
    by (simp add: fetch_lease_def add_lease_def sample_lease_def sample_defs)
  then obtain r db1 where got: "acquire_writer_lease 61000000 ''k'' ''b'' 60 [] ?db = (Some r, db1)"
    by (simp add: acquire_writer_lease_def Let_def sample_lease_def whole_second_def seconds_def)
  from superseded_token_is_dead [OF inv held got rtranclp.rtrancl_refl] got show ?thesis
    by (auto simp: sample_lease_def)
qed

end
