(* ===== verification/Ledger_Registry.thy ===== *)
theory Ledger_Registry
  imports Schema
begin

text \<open>
  Hosts, agent profiles, projects and Codex sessions of \<open>src/nyanya_agent/execution_store.py\<close>. Every
  operation takes the reading \<open>t\<close> of the clock during the call and, where the code draws a random
  identifier, that identifier; \<open>now_iso()\<close> is \<open>whole_second t\<close>. A call returns the row the code
  re-reads and the new ledger, or the exception (and then the transaction is rolled back).
\<close>

section \<open>Liveness of a heartbeat\<close>

text \<open>\<open>max(0, int((now - heartbeat).total_seconds()))\<close>\<close>

definition heartbeat_age :: "time \<Rightarrow> time \<Rightarrow> int" where
  "heartbeat_age now hb = max 0 ((now - hb) div 1000000)"

definition observed_status :: "int \<Rightarrow> int \<Rightarrow> time \<Rightarrow> time option \<Rightarrow> string \<Rightarrow> string" where
  "observed_status stale_after offline_after now hb status =
     (case hb of None \<Rightarrow> status
      | Some b \<Rightarrow>
          if heartbeat_age now b \<ge> offline_after then ''offline''
          else if heartbeat_age now b \<ge> stale_after then ''stale''
          else status)"

section \<open>Hosts\<close>

definition fetch_host :: "ledger \<Rightarrow> string \<Rightarrow> host_row option" where
  "fetch_host db i = List.find (\<lambda>h. ho_id h = i) (hosts db)"

definition changed_host_fields :: "host_row \<Rightarrow> host_row \<Rightarrow> json list" where
  "changed_host_fields old new =
     (if ho_role old \<noteq> ho_role new then [JStr ''role''] else []) @
     (if ho_platform old \<noteq> ho_platform new then [JStr ''platform''] else []) @
     (if ho_architecture old \<noteq> ho_architecture new then [JStr ''architecture''] else []) @
     (if ho_tailscale_name old \<noteq> ho_tailscale_name new then [JStr ''tailscale_name''] else []) @
     (if ho_status old \<noteq> ho_status new then [JStr ''status''] else []) @
     (if \<not> same_json (ho_capabilities old) (ho_capabilities new) then [JStr ''capabilities''] else []) @
     (if \<not> same_json (ho_metadata old) (ho_metadata new) then [JStr ''metadata''] else [])"

definition register_host ::
  "time \<Rightarrow> string \<Rightarrow> string \<Rightarrow> string \<Rightarrow> string \<Rightarrow> string \<Rightarrow> string \<Rightarrow> string \<Rightarrow> dict \<Rightarrow> dict \<Rightarrow> ledger
     \<Rightarrow> (host_row \<times> ledger) result" where
  "register_host t host_id name role platform architecture tailscale_name status capabilities metadata db =
     (let timestamp = whole_second t;
          values = (\<lambda>h. h\<lparr>ho_role := role, ho_platform := platform, ho_architecture := architecture,
                          ho_tailscale_name := tailscale_name, ho_status := status,
                          ho_capabilities := capabilities, ho_metadata := redact_dict metadata,
                          ho_last_heartbeat_at := Some timestamp, ho_updated_at := timestamp\<rparr>)
      in case List.find (\<lambda>h. ho_name h = name) (hosts db) of
           Some existing \<Rightarrow>
             (let changed = changed_host_fields existing (values existing);
                  db1 = update_host (\<lambda>h. ho_id h = ho_id existing) values db;
                  db2 = (if changed \<noteq> []
                         then log_audit t ''nyanya-agent'' ''host.updated'' ''host'' (ho_id existing)
                                [(''changed_fields'', JList changed)] db1
                         else db1)
              in Inr (values existing, db2))
         | None \<Rightarrow>
             (let row = \<lparr>ho_id = host_id, ho_name = name, ho_role = role, ho_platform = platform,
                         ho_architecture = architecture, ho_tailscale_name = tailscale_name,
                         ho_status = status, ho_capabilities = capabilities,
                         ho_metadata = redact_dict metadata, ho_last_heartbeat_at = Some timestamp,
                         ho_created_at = timestamp, ho_updated_at = timestamp\<rparr>
              in try_bind (insert_host row db) (\<lambda>db1.
                   Inr (row, log_audit t ''nyanya-agent'' ''host.registered'' ''host'' host_id [] db1))))"

definition list_hosts :: "int \<Rightarrow> int \<Rightarrow> time \<Rightarrow> ledger \<Rightarrow> (host_row \<times> string) list" where
  "list_hosts stale_after offline_after now db =
     map (\<lambda>h. (h, observed_status stale_after offline_after now (ho_last_heartbeat_at h) (ho_status h)))
       (order_by ho_name (hosts db))"

section \<open>Agent profiles\<close>

definition upsert_agent_profile ::
  "time \<Rightarrow> string \<Rightarrow> string \<Rightarrow> string \<Rightarrow> string \<Rightarrow> string \<Rightarrow> bool \<Rightarrow> dict \<Rightarrow> dict \<Rightarrow> ledger
     \<Rightarrow> (profile_row \<times> ledger) result" where
  "upsert_agent_profile t profile_id name adapter_type model workspace_root enabled capabilities policy db =
     (let timestamp = whole_second t;
          values = (\<lambda>p. p\<lparr>ap_adapter_type := adapter_type, ap_model := model,
                          ap_workspace_root := workspace_root, ap_enabled := enabled,
                          ap_capabilities := capabilities, ap_policy := redact_dict policy,
                          ap_updated_at := timestamp\<rparr>)
      in case List.find (\<lambda>p. ap_name p = name) (agent_profiles db) of
           Some existing \<Rightarrow>
             Inr (values existing, update_profile (\<lambda>p. ap_id p = ap_id existing) values db)
         | None \<Rightarrow>
             (let row = \<lparr>ap_id = profile_id, ap_name = name, ap_adapter_type = adapter_type,
                         ap_model = model, ap_workspace_root = workspace_root, ap_enabled = enabled,
                         ap_capabilities = capabilities, ap_policy = redact_dict policy,
                         ap_created_at = timestamp, ap_updated_at = timestamp\<rparr>
              in try_bind (insert_profile row db) (\<lambda>db1. Inr (row, db1))))"

definition list_agent_profiles :: "ledger \<Rightarrow> profile_row list" where
  "list_agent_profiles db = order_by ap_name (agent_profiles db)"

section \<open>Projects\<close>

type_synonym project_view = "project_row \<times> nat \<times> nat"

definition project_view :: "ledger \<Rightarrow> project_row \<Rightarrow> project_view" where
  "project_view db p =
     (p, hits (\<lambda>k. tk_project_id k = Some (pj_id p)) (agent_tasks db),
         hits (\<lambda>s. cx_project_id s = pj_id p) (codex_sessions db))"

definition get_project :: "string \<Rightarrow> ledger \<Rightarrow> project_view option" where
  "get_project project_id db =
     map_option (project_view db) (List.find (\<lambda>p. pj_id p = project_id) (execution_projects db))"

definition find_project_by_workspace :: "string \<Rightarrow> ledger \<Rightarrow> project_view option" where
  "find_project_by_workspace workspace_root db =
     map_option (project_view db)
       (List.find (\<lambda>p. pj_workspace_root p = strip workspace_root) (execution_projects db))"

definition list_projects :: "string option \<Rightarrow> int \<Rightarrow> ledger \<Rightarrow> project_view list" where
  "list_projects status n db =
     map (project_view db)
       (limit n (order_desc pj_updated_at
          (if truthy_text status then filter (\<lambda>p. Some (pj_status p) = status) (execution_projects db)
           else execution_projects db)))"

definition create_project ::
  "time \<Rightarrow> string \<Rightarrow> string \<Rightarrow> string \<Rightarrow> string \<Rightarrow> string \<Rightarrow> string \<Rightarrow> dict \<Rightarrow> ledger
     \<Rightarrow> (project_view \<times> ledger) result" where
  "create_project t project_id raw_name owner workspace_root status description metadata db =
     (let name = strip raw_name; timestamp = whole_second t in
      if name = [] then Inl (ValueError ''Project name cannot be empty'')
      else if status \<notin> set [''active'', ''paused'', ''archived'']
        then Inl (ValueError (''Unknown project status: '' @ status))
      else
        (let row = \<lparr>pj_id = project_id, pj_name = name, pj_owner = owner, pj_workspace_root = workspace_root,
                    pj_status = status, pj_description = description, pj_metadata = redact_dict metadata,
                    pj_created_at = timestamp, pj_updated_at = timestamp\<rparr>
         in try_bind (insert_project row db) (\<lambda>db1.
              (let db2 = log_audit t owner ''project.created'' ''execution_project'' project_id
                           (redact_dict [(''name'', JStr name), (''workspace_root'', JStr workspace_root)]) db1
               in case get_project project_id db2 of
                    None \<Rightarrow> Inl (RuntimeError (''Project was not created: '' @ project_id))
                  | Some p \<Rightarrow> Inr (p, db2)))))"

section \<open>Codex sessions\<close>

definition get_codex_session :: "string \<Rightarrow> ledger \<Rightarrow> codex_row option" where
  "get_codex_session session_id db = List.find (\<lambda>s. cx_id s = session_id) (codex_sessions db)"

definition list_codex_sessions :: "string option \<Rightarrow> string option \<Rightarrow> int \<Rightarrow> ledger \<Rightarrow> codex_row list" where
  "list_codex_sessions project_id status n db =
     limit n (order_desc cx_last_activity_at
       (filter (\<lambda>s. (truthy_text project_id \<longrightarrow> Some (cx_project_id s) = project_id) \<and>
                     (truthy_text status \<longrightarrow> Some (cx_status s) = status)) (codex_sessions db)))"

definition create_codex_session ::
  "time \<Rightarrow> string \<Rightarrow> string \<Rightarrow> string \<Rightarrow> string \<Rightarrow> string \<Rightarrow> string \<Rightarrow> string \<Rightarrow> string \<Rightarrow> dict \<Rightarrow> ledger
     \<Rightarrow> (codex_row \<times> ledger) result" where
  "create_codex_session t new_session_id project_id raw_key raw_name external_session_id status
      workspace_root model metadata db =
     (let session_key = strip raw_key; name = strip raw_name; timestamp = whole_second t in
      if session_key = [] \<or> name = [] then Inl (ValueError ''Codex session key and name cannot be empty'')
      else if status \<notin> set [''active'', ''paused'', ''closed'']
        then Inl (ValueError (''Unknown Codex session status: '' @ status))
      else if List.find (\<lambda>p. pj_id p = project_id) (execution_projects db) = None then Inl (KeyError project_id)
      else
        (let values = (\<lambda>s. s\<lparr>cx_name := name, cx_external_session_id := external_session_id,
                              cx_status := status, cx_workspace_root := workspace_root, cx_model := model,
                              cx_metadata := redact_dict metadata, cx_updated_at := timestamp,
                              cx_last_activity_at := timestamp\<rparr>);
             existing = List.find (\<lambda>s. cx_project_id s = project_id \<and> cx_session_key s = session_key)
                          (codex_sessions db);
             session_id = (case existing of None \<Rightarrow> new_session_id | Some s \<Rightarrow> cx_id s)
         in try_bind
              (case existing of
                 Some s \<Rightarrow> Inr (update_codex (\<lambda>x. cx_id x = session_id) values db)
               | None \<Rightarrow> insert_codex
                   \<lparr>cx_id = session_id, cx_project_id = project_id, cx_session_key = session_key, cx_name = name,
                    cx_external_session_id = external_session_id, cx_status = status,
                    cx_workspace_root = workspace_root, cx_model = model, cx_metadata = redact_dict metadata,
                    cx_created_at = timestamp, cx_updated_at = timestamp, cx_last_activity_at = timestamp\<rparr> db)
              (\<lambda>db1.
                (let db2 = log_audit t ''nyanya-agent'' ''codex_session.upserted'' ''codex_session'' session_id
                             (redact_dict [(''project_id'', JStr project_id), (''session_key'', JStr session_key)]) db1
                 in case get_codex_session session_id db2 of
                      None \<Rightarrow> Inl (RuntimeError (''Codex session was not created: '' @ session_id))
                    | Some s \<Rightarrow> Inr (s, db2)))))"

section \<open>Monitoring summary\<close>

text \<open>\<open>SELECT status, COUNT( * ) ... GROUP BY status\<close>: one entry per status, in order of the statuses.\<close>

definition group_counts :: "string list \<Rightarrow> (string \<times> nat) list" where
  "group_counts ss = map (\<lambda>s. (s, hits (\<lambda>x. x = s) ss)) (sort (remdups ss))"

record summary =
  sm_projects :: nat
  sm_codex_sessions :: nat
  sm_task_counts :: "(string \<times> nat) list"
  sm_execution_counts :: "(string \<times> nat) list"

definition ledger_summary :: "ledger \<Rightarrow> summary" where
  "ledger_summary db =
     \<lparr>sm_projects = hits (\<lambda>p. pj_status p \<noteq> ''archived'') (execution_projects db),
      sm_codex_sessions = hits (\<lambda>s. cx_status s \<noteq> ''closed'') (codex_sessions db),
      sm_task_counts = group_counts (map tk_status (agent_tasks db)),
      sm_execution_counts = group_counts (map ex_status (executions db))\<rparr>"

section \<open>Soundness\<close>

lemma not_secret_changed_fields [simp]: "\<not> secret_key ''changed_fields''"
  by code_simp

lemma concealed_changed: "x \<in> set (changed_host_fields a b) \<Longrightarrow> concealed x"
  by (auto simp: changed_host_fields_def)

lemma register_host_sound:
  "register_host t hid nm ro pf ar ts st cap md db = Inr (h, db') \<Longrightarrow> sound db db'"
  by (auto simp: register_host_def Let_def row_defs host_unique_def dest: concealed_changed
      split: option.splits if_splits intro!: sound_intros)

lemma upsert_agent_profile_sound:
  "upsert_agent_profile t pid nm ad mo wr en cap pol db = Inr (p, db') \<Longrightarrow> sound db db'"
  by (auto simp: upsert_agent_profile_def Let_def row_defs profile_unique_def
      split: option.splits intro!: sound_intros)

lemma create_project_sound:
  "create_project t pid nm ow wr st de md db = Inr (p, db') \<Longrightarrow> sound db db'"
  by (auto simp: create_project_def Let_def row_defs
      split: option.splits if_splits intro!: sound_intros)

lemma create_codex_session_sound:
  "create_codex_session t sid pid k nm ex st wr mo md db = Inr (s, db') \<Longrightarrow> sound db db'"
  by (auto simp: create_codex_session_def Let_def row_defs codex_unique_def
      split: option.splits if_splits intro!: sound_intros)

section \<open>Properties\<close>

text \<open>The liveness a list shows for a recorded heartbeat, with thresholds in order: offline from
  \<open>offline_after\<close> whole seconds without a heartbeat, stale from \<open>stale_after\<close>, otherwise the recorded
  status; a heartbeat from the future counts as fresh. Without a heartbeat the recorded status is shown.\<close>

theorem observed_status_thresholds:
  assumes "0 < stale" "stale \<le> offline"
  shows "observed_status stale offline now None st = st \<and>
    observed_status stale offline now (Some hb) st =
      (if seconds offline \<le> now - hb then ''offline'' else if seconds stale \<le> now - hb then ''stale'' else st)"
proof (intro conjI)
  have age: "n \<le> heartbeat_age now hb \<longleftrightarrow> seconds n \<le> now - hb" if "0 < n" for n
    using that by (auto simp: heartbeat_age_def seconds_def pos_imp_zdiv_nonneg_iff)
  show "observed_status stale offline now None st = st" by (simp add: observed_status_def)
  show "observed_status stale offline now (Some hb) st =
      (if seconds offline \<le> now - hb then ''offline'' else if seconds stale \<le> now - hb then ''stale'' else st)"
    using assms by (simp add: observed_status_def age)
qed

lemma observed_status_thresholds_witness:
  "observed_status 60 300 (seconds 61) (Some 0) ''online'' = ''stale''"
  using observed_status_thresholds [of 60 300 "seconds 61" "''online''" 0] by (simp add: seconds_def)

end
