(* ===== verification/Ledger_Tasks.thy ===== *)
theory Ledger_Tasks
  imports Ledger_Registry Machines Sample_Ledger
begin

text \<open>
  Tasks and executions of \<open>src/nyanya_agent/execution_store.py\<close>: the two state machines
  (\<open>TASK_TRANSITIONS\<close>, \<open>EXECUTION_TRANSITIONS\<close>), creation, transitions, runtime sessions and the read
  operations over them.
\<close>

section \<open>The state machines\<close>

definition TASK_TERMINAL_STATUSES :: "string list" where
  "TASK_TERMINAL_STATUSES = [''completed'', ''failed'', ''cancelled'']"

definition EXECUTION_TERMINAL_STATUSES :: "string list" where
  "EXECUTION_TERMINAL_STATUSES = [''succeeded'', ''failed'', ''cancelled'', ''timed_out'', ''lost'']"

definition TASK_TRANSITIONS :: "(string \<times> string list) list" where
  "TASK_TRANSITIONS =
     [(''queued'', [''running'', ''awaiting_approval'', ''blocked'', ''completed'', ''failed'', ''cancelled'']),
      (''running'', [''awaiting_approval'', ''blocked'', ''completed'', ''failed'', ''cancelled'']),
      (''awaiting_approval'', [''queued'', ''running'', ''blocked'', ''failed'', ''cancelled'']),
      (''blocked'', [''queued'', ''running'', ''failed'', ''cancelled'']),
      (''completed'', []),
      (''failed'', [''queued'']),
      (''cancelled'', [''queued''])]"

definition EXECUTION_TRANSITIONS :: "(string \<times> string list) list" where
  "EXECUTION_TRANSITIONS =
     [(''pending'', [''starting'', ''running'', ''awaiting_approval'', ''cancelled'', ''failed'']),
      (''starting'', [''running'', ''awaiting_approval'', ''cancelling'', ''failed'', ''cancelled'', ''timed_out'']),
      (''running'', [''awaiting_approval'', ''cancelling'', ''succeeded'', ''failed'', ''cancelled'', ''timed_out'', ''stale'']),
      (''awaiting_approval'', [''running'', ''cancelling'', ''failed'', ''cancelled'', ''timed_out'']),
      (''cancelling'', [''cancelled'', ''failed'', ''timed_out'', ''lost'']),
      (''stale'', [''running'', ''cancelling'', ''failed'', ''cancelled'', ''lost'']),
      (''succeeded'', []), (''failed'', []), (''cancelled'', []), (''timed_out'', []), (''lost'', [])]"

text \<open>\<open>TRANSITIONS.get(current, set())\<close>\<close>

definition successors :: "(string \<times> string list) list \<Rightarrow> string \<Rightarrow> string list" where
  "successors table s = (case map_of table s of None \<Rightarrow> [] | Some xs \<Rightarrow> xs)"

definition fetch_task :: "ledger \<Rightarrow> string \<Rightarrow> task_row option" where
  "fetch_task db i = List.find (\<lambda>k. tk_id k = i) (agent_tasks db)"

definition fetch_execution :: "ledger \<Rightarrow> string \<Rightarrow> execution_row option" where
  "fetch_execution db i = List.find (\<lambda>e. ex_id e = i) (executions db)"

definition completion :: "string \<Rightarrow> time \<Rightarrow> time option" where
  "completion status t = (if status \<in> set TASK_TERMINAL_STATUSES then Some t else None)"

section \<open>Tasks\<close>

record task_view =
  tv_task :: task_row
  tv_executions :: "execution_row list"
  tv_approvals :: "approval_row list"
  tv_artifacts :: "artifact_row list"

definition get_task :: "string \<Rightarrow> ledger \<Rightarrow> task_view option" where
  "get_task task_id db = map_option (\<lambda>k.
     \<lparr>tv_task = k,
      tv_executions = order_desc ex_created_at (filter (\<lambda>e. ex_task_id e = task_id) (executions db)),
      tv_approvals = order_desc ag_requested_at (filter (\<lambda>a. ag_task_id a = Some task_id) (approvals db)),
      tv_artifacts = order_desc af_created_at (filter (\<lambda>a. af_task_id a = Some task_id) (artifacts db))\<rparr>)
     (fetch_task db task_id)"

text \<open>The scope checks shared by \<open>create_task\<close> and \<open>update_task_context\<close>: the project to record.\<close>

definition resolve_scope :: "string option \<Rightarrow> string option \<Rightarrow> ledger \<Rightarrow> string option result" where
  "resolve_scope project_id codex_session_id db =
     (if truthy_text project_id \<and> List.find (\<lambda>p. Some (pj_id p) = project_id) (execution_projects db) = None
      then Inl (KeyError (the project_id))
      else if truthy_text codex_session_id then
        (case List.find (\<lambda>s. Some (cx_id s) = codex_session_id) (codex_sessions db) of
           None \<Rightarrow> Inl (KeyError (the codex_session_id))
         | Some s \<Rightarrow>
             if truthy_text project_id \<and> Some (cx_project_id s) \<noteq> project_id
             then Inl (ValueError ''Codex session does not belong to the supplied project'')
             else Inr (if truthy_text project_id then project_id else Some (cx_project_id s)))
      else Inr project_id)"

definition create_task ::
  "time \<Rightarrow> string \<Rightarrow> string \<Rightarrow> string \<Rightarrow> string \<Rightarrow> int \<Rightarrow> string \<Rightarrow> string option \<Rightarrow> string option \<Rightarrow>
   string option \<Rightarrow> string option \<Rightarrow> dict \<Rightarrow> ledger \<Rightarrow> (task_view \<times> ledger) result" where
  "create_task t task_id title prompt status priority requested_by assigned_agent_id source_request_id
      project_id codex_session_id metadata db =
     (let timestamp = whole_second t in
      if map_of TASK_TRANSITIONS status = None then Inl (ValueError (''Unknown task status: '' @ status))
      else try_bind (resolve_scope project_id codex_session_id db) (\<lambda>project.
        try_bind (insert_task
          \<lparr>tk_id = task_id, tk_source_request_id = source_request_id, tk_title = title, tk_prompt = prompt,
           tk_status = status, tk_priority = priority, tk_requested_by = requested_by,
           tk_assigned_agent_id = assigned_agent_id, tk_current_execution_id = None,
           tk_metadata = redact_dict metadata, tk_created_at = timestamp, tk_updated_at = timestamp,
           tk_completed_at = completion status timestamp, tk_project_id = project,
           tk_codex_session_id = codex_session_id\<rparr> db) (\<lambda>db1.
        try_bind (append_event t ''task.created'' (Some task_id) None status ''Task created''
          [(''requested_by'', JStr requested_by), (''priority'', JInt priority)] db1) (\<lambda>db2.
        (let db3 = log_audit t requested_by ''task.created'' ''agent_task'' task_id
               (redact_dict [(''status'', JStr status), (''source_request_id'', jstr_opt source_request_id)]) db2
         in case get_task task_id db3 of
              None \<Rightarrow> Inl (RuntimeError (''Task was not created: '' @ task_id))
            | Some v \<Rightarrow> Inr (v, db3))))))"

definition transition_task ::
  "time \<Rightarrow> string \<Rightarrow> string \<Rightarrow> string \<Rightarrow> string \<Rightarrow> dict \<Rightarrow> bool \<Rightarrow> ledger \<Rightarrow> (task_row \<times> ledger) result" where
  "transition_task t task_id status actor message metadata force db =
     (case fetch_task db task_id of
        None \<Rightarrow> Inl (KeyError task_id)
      | Some current \<Rightarrow>
         (let old = tk_status current; timestamp = whole_second t;
              change = (\<lambda>k. k\<lparr>tk_status := status, tk_updated_at := timestamp,
                              tk_completed_at := completion status timestamp\<rparr>) in
          if status \<noteq> old \<and> \<not> force \<and> status \<notin> set (successors TASK_TRANSITIONS old)
          then Inl (ValueError (''Invalid task transition: '' @ old @ '' -> '' @ status))
          else
            (let db1 = update_task (\<lambda>k. tk_id k = task_id) change db in
             if status = old then Inr (change current, db1)
             else try_bind (append_event t ''task.status'' (Some task_id) None status
                     (if message = [] then ''Task status changed from '' @ old @ '' to '' @ status else message)
                     metadata db1) (\<lambda>db2.
                  Inr (change current,
                       log_audit t actor ''task.status_changed'' ''agent_task'' task_id
                         (redact_dict (dict_update [(''from'', JStr old), (''to'', JStr status)] metadata)) db2)))))"

definition update_task_context ::
  "time \<Rightarrow> string \<Rightarrow> string option \<Rightarrow> string option \<Rightarrow> dict \<Rightarrow> ledger \<Rightarrow> (task_row \<times> ledger) result" where
  "update_task_context t task_id project_id codex_session_id metadata db =
     (case fetch_task db task_id of
        None \<Rightarrow> Inl (KeyError task_id)
      | Some k \<Rightarrow> try_bind (resolve_scope project_id codex_session_id db) (\<lambda>project.
         (let change = (\<lambda>r. r\<lparr>tk_project_id := (if project \<noteq> None then project else tk_project_id k),
                tk_codex_session_id := (if codex_session_id \<noteq> None then codex_session_id else tk_codex_session_id k),
                tk_metadata := dict_update (tk_metadata k) (redact_dict metadata),
                tk_updated_at := whole_second t\<rparr>) in
          if \<not> task_fk (keys db) (change k) then Inl (IntegrityError ''agent_tasks'')
          else Inr (change k, update_task (\<lambda>r. tk_id r = task_id) change db))))"

definition attach_codex_session ::
  "time \<Rightarrow> string \<Rightarrow> string \<Rightarrow> string \<Rightarrow> string \<Rightarrow> ledger \<Rightarrow> (task_row \<times> ledger) result" where
  "attach_codex_session t task_id project_id session_id actor db =
     (case fetch_task db task_id of
        None \<Rightarrow> Inl (KeyError task_id)
      | Some k \<Rightarrow>
         (case get_codex_session session_id db of
            None \<Rightarrow> Inl (ValueError ''Codex session does not belong to the supplied project'')
          | Some s \<Rightarrow>
             if cx_project_id s \<noteq> project_id
             then Inl (ValueError ''Codex session does not belong to the supplied project'')
             else if tk_project_id k \<noteq> None \<and> tk_project_id k \<noteq> Some project_id
             then Inl (ValueError ''Task project does not match the Codex session project'')
             else
               (let timestamp = whole_second t;
                    change = (\<lambda>r. r\<lparr>tk_project_id := Some project_id, tk_codex_session_id := Some session_id,
                                    tk_updated_at := timestamp\<rparr>);
                    db1 = update_task (\<lambda>r. tk_id r = task_id) change db;
                    db2 = update_codex (\<lambda>r. cx_id r = session_id)
                            (\<lambda>r. r\<lparr>cx_updated_at := timestamp, cx_last_activity_at := timestamp\<rparr>) db1
                in if \<not> task_fk (keys db) (change k) then Inl (IntegrityError ''agent_tasks'')
                   else try_bind (append_event t ''task.codex_session_attached'' (Some task_id) None []
                     ''Codex session attached to task''
                     [(''project_id'', JStr project_id), (''codex_session_id'', JStr session_id),
                      (''actor'', JStr actor)] db2) (\<lambda>db3. Inr (change k, db3)))))"

definition find_task_by_source_request :: "string \<Rightarrow> ledger \<Rightarrow> task_view option" where
  "find_task_by_source_request source_request_id db =
     (case List.find (\<lambda>k. tk_source_request_id k = Some source_request_id) (agent_tasks db) of
        None \<Rightarrow> None | Some k \<Rightarrow> get_task (tk_id k) db)"

definition list_tasks :: "string option \<Rightarrow> string option \<Rightarrow> string option \<Rightarrow> int \<Rightarrow> ledger \<Rightarrow> task_row list" where
  "list_tasks status project_id codex_session_id n db =
     (let rows = filter (\<lambda>k. (truthy_text status \<longrightarrow> Some (tk_status k) = status) \<and>
                   (truthy_text project_id \<longrightarrow> tk_project_id k = project_id) \<and>
                   (truthy_text codex_session_id \<longrightarrow> tk_codex_session_id k = codex_session_id)) (agent_tasks db)
      in limit n
        (if truthy_text status \<or> truthy_text project_id \<or> truthy_text codex_session_id
         then order_by tk_priority (order_desc tk_created_at rows)
         else order_desc tk_created_at rows))"

section \<open>Executions\<close>

record execution_view =
  xv_execution :: execution_row
  xv_sessions :: "runtime_row list"
  xv_events :: "event_row list"

definition get_execution :: "string \<Rightarrow> ledger \<Rightarrow> execution_view option" where
  "get_execution execution_id db = map_option (\<lambda>e.
     \<lparr>xv_execution = e,
      xv_sessions = order_desc rs_started_at
        (filter (\<lambda>s. rs_execution_id s = Some execution_id) (runtime_sessions db)),
      xv_events = order_by ev_seq
        (filter (\<lambda>v. ev_execution_id v = Some execution_id) (execution_events db))\<rparr>)
     (fetch_execution db execution_id)"

definition create_execution ::
  "time \<Rightarrow> string \<Rightarrow> string \<Rightarrow> string \<Rightarrow> string option \<Rightarrow> string option \<Rightarrow> string \<Rightarrow> string \<Rightarrow> string \<Rightarrow> dict \<Rightarrow>
   ledger \<Rightarrow> (execution_view \<times> ledger) result" where
  "create_execution t execution_id task_id adapter_type host_id agent_profile_id status command_summary
      workdir metadata db =
     (let timestamp = whole_second t;
          started_at = (if status \<in> {''starting'', ''running''} then Some timestamp else None);
          ended_at = (if status \<in> set EXECUTION_TERMINAL_STATUSES then Some timestamp else None) in
      if map_of EXECUTION_TRANSITIONS status = None then Inl (ValueError (''Unknown execution status: '' @ status))
      else if fetch_task db task_id = None then Inl (KeyError task_id)
      else try_bind (insert_execution
          \<lparr>ex_id = execution_id, ex_task_id = task_id, ex_host_id = host_id, ex_agent_profile_id = agent_profile_id,
           ex_adapter_type = adapter_type, ex_status = status, ex_status_confidence = 1,
           ex_command_summary = command_summary, ex_workdir = workdir, ex_exit_code = None, ex_error = [],
           ex_metadata = redact_dict metadata, ex_created_at = timestamp, ex_started_at = started_at,
           ex_ended_at = ended_at, ex_last_heartbeat_at = started_at, ex_updated_at = timestamp\<rparr> db) (\<lambda>db1.
        (let db2 = update_task (\<lambda>k. tk_id k = task_id)
               (\<lambda>k. k\<lparr>tk_current_execution_id := Some execution_id, tk_updated_at := timestamp\<rparr>) db1
         in try_bind (append_event t ''execution.created'' (Some task_id) (Some execution_id) status
              ''Execution created'' [(''adapter_type'', JStr adapter_type), (''host_id'', jstr_opt host_id)] db2) (\<lambda>db3.
            case get_execution execution_id db3 of
              None \<Rightarrow> Inl (RuntimeError (''Execution was not created: '' @ execution_id))
            | Some v \<Rightarrow> Inr (v, db3)))))"

text \<open>The status an execution's task takes with it; the other execution statuses leave the task alone.\<close>

definition task_status_of :: "string \<Rightarrow> string option" where
  "task_status_of status = map_of
     [(''starting'', ''running''), (''running'', ''running''), (''awaiting_approval'', ''awaiting_approval''),
      (''stale'', ''blocked''), (''succeeded'', ''completed''), (''failed'', ''failed''), (''timed_out'', ''failed''),
      (''lost'', ''failed''), (''cancelled'', ''cancelled'')] status"

record transition_args =
  xa_actor :: string
  xa_message :: string
  xa_exit_code :: "int option"
  xa_error :: "string option"
  xa_status_confidence :: "rat option"
  xa_metadata :: dict
  xa_force :: bool

definition execution_change :: "time \<Rightarrow> string \<Rightarrow> transition_args \<Rightarrow> execution_row \<Rightarrow> execution_row" where
  "execution_change timestamp status a e = e
     \<lparr>ex_status := status, ex_updated_at := timestamp,
      ex_started_at := (if status \<in> {''starting'', ''running''} \<and> ex_started_at e = None
                        then Some timestamp else ex_started_at e),
      ex_last_heartbeat_at := (if status = ''running'' then Some timestamp else ex_last_heartbeat_at e),
      ex_ended_at := (if status \<in> set EXECUTION_TERMINAL_STATUSES then Some timestamp else ex_ended_at e),
      ex_exit_code := (case xa_exit_code a of None \<Rightarrow> ex_exit_code e | Some c \<Rightarrow> Some c),
      ex_error := (case xa_error a of None \<Rightarrow> ex_error e | Some m \<Rightarrow> take_cp 1200 (redact_text m)),
      ex_status_confidence := (case xa_status_confidence a of None \<Rightarrow> ex_status_confidence e
                                | Some c \<Rightarrow> max 0 (min 1 c)),
      ex_metadata := (if xa_metadata a = [] then ex_metadata e
                      else dict_update (ex_metadata e) (redact_dict (xa_metadata a)))\<rparr>"

definition transition_execution ::
  "time \<Rightarrow> string \<Rightarrow> string \<Rightarrow> transition_args \<Rightarrow> ledger \<Rightarrow> (execution_row \<times> ledger) result" where
  "transition_execution t execution_id status a db =
     (case fetch_execution db execution_id of
        None \<Rightarrow> Inl (KeyError execution_id)
      | Some current \<Rightarrow>
     (case fetch_task db (ex_task_id current) of
        None \<Rightarrow> Inl (TypeError ''owner'')
      | Some owner \<Rightarrow>
     (let old = ex_status current; task_id = ex_task_id current; timestamp = whole_second t in
      if tk_current_execution_id owner \<noteq> Some execution_id
        then Inl (ValueError ''Stale execution cannot change the current task'')
      else if old \<in> set EXECUTION_TERMINAL_STATUSES \<and> status \<noteq> old
        then Inl (TerminalExecutionTransitionError ''Invalid execution transition from a terminal attempt'')
      else if status \<noteq> old \<and> \<not> xa_force a \<and> status \<notin> set (successors EXECUTION_TRANSITIONS old)
        then Inl (ValueError (''Invalid execution transition: '' @ old @ '' -> '' @ status))
      else
        (let db1 = update_execution (\<lambda>e. ex_id e = execution_id)
                     (\<lambda>e. execution_change timestamp status a e) db
         in try_bind
              (if status = old then Inr db1
               else append_event t ''execution.status'' (Some task_id) (Some execution_id) status
                 (if xa_message a = [] then ''Execution status changed from '' @ old @ '' to '' @ status
                  else xa_message a) (xa_metadata a) db1)
              (\<lambda>db2.
                (let db3 = (case task_status_of status of
                       None \<Rightarrow> db2
                     | Some ts \<Rightarrow> update_task (\<lambda>k. tk_id k = task_id)
                         (\<lambda>k. k\<lparr>tk_status := ts, tk_completed_at := completion ts timestamp,
                                tk_updated_at := timestamp\<rparr>) db2)
                 in Inr (execution_change timestamp status a current,
                      log_audit t (xa_actor a) ''execution.status_changed'' ''execution'' execution_id
                        (redact_dict [(''from'', JStr old), (''to'', JStr status),
                                      (''exit_code'', jint_opt (xa_exit_code a))]) db3)))))))"

definition list_executions :: "string option \<Rightarrow> int \<Rightarrow> ledger \<Rightarrow> execution_row list" where
  "list_executions status n db =
     limit n (order_desc ex_created_at
       (if truthy_text status then filter (\<lambda>e. Some (ex_status e) = status) (executions db)
        else executions db))"

definition list_events :: "int \<Rightarrow> int \<Rightarrow> ledger \<Rightarrow> event_row list" where
  "list_events after_seq n db =
     limit n (order_by ev_seq (filter (\<lambda>e. int (ev_seq e) > max 0 after_seq) (execution_events db)))"

section \<open>Runtime sessions\<close>

definition heartbeat_runtime_session ::
  "time \<Rightarrow> string \<Rightarrow> string \<Rightarrow> string \<Rightarrow> string option \<Rightarrow> string option \<Rightarrow> string \<Rightarrow> int option \<Rightarrow> string \<Rightarrow> dict \<Rightarrow>
   ledger \<Rightarrow> (runtime_row \<times> ledger) result" where
  "heartbeat_runtime_session t session_id adapter_type status execution_id host_id external_id pid
      tmux_session metadata db =
     (let timestamp = whole_second t;
          ended_at = (if status \<in> {''stopped'', ''failed'', ''cancelled''} then Some timestamp else None);
          current = List.find (\<lambda>s. rs_id s = session_id) (runtime_sessions db);
          row = \<lparr>rs_id = session_id, rs_execution_id = execution_id, rs_host_id = host_id,
                 rs_adapter_type = adapter_type, rs_external_id = external_id, rs_status = status, rs_pid = pid,
                 rs_tmux_session = tmux_session, rs_metadata = redact_dict metadata,
                 rs_started_at = (case current of None \<Rightarrow> timestamp | Some s \<Rightarrow> rs_started_at s),
                 rs_last_heartbeat_at = timestamp, rs_ended_at = ended_at, rs_updated_at = timestamp\<rparr>
      in try_bind
          (case current of
             None \<Rightarrow> insert_runtime row db
           | Some s \<Rightarrow> if runtime_fk (keys db) row
                        then Inr (update_runtime (\<lambda>s. rs_id s = session_id)
                          (\<lambda>s. row\<lparr>rs_id := rs_id s, rs_started_at := rs_started_at s\<rparr>) db)
                        else Inl (IntegrityError ''runtime_sessions''))
          (\<lambda>db1.
            (let db2 = (if truthy_text host_id
                   then update_host (\<lambda>h. Some (ho_id h) = host_id)
                     (\<lambda>h. h\<lparr>ho_status := ''online'', ho_last_heartbeat_at := Some timestamp,
                            ho_updated_at := timestamp\<rparr>) db1 else db1);
                 db3 = (if truthy_text execution_id
                   then update_execution (\<lambda>e. Some (ex_id e) = execution_id)
                     (\<lambda>e. e\<lparr>ex_last_heartbeat_at := Some timestamp, ex_updated_at := timestamp\<rparr>) db2 else db2)
             in Inr (row, db3))))"

definition list_runtime_sessions :: "int \<Rightarrow> int \<Rightarrow> time \<Rightarrow> ledger \<Rightarrow> (runtime_row \<times> string) list" where
  "list_runtime_sessions stale_after offline_after now db =
     map (\<lambda>s. (s, if rs_status s \<in> {''stopped'', ''failed''} then rs_status s
                  else observed_status stale_after offline_after now (Some (rs_last_heartbeat_at s)) (rs_status s)))
       (order_desc rs_updated_at (runtime_sessions db))"

section \<open>Soundness\<close>

lemma fetch_taskD: "fetch_task db i = Some k \<Longrightarrow> k \<in> set (agent_tasks db) \<and> tk_id k = i"
  by (auto simp: fetch_task_def dest: find_SomeD)

lemma fetch_executionD: "fetch_execution db i = Some e \<Longrightarrow> e \<in> set (executions db) \<and> ex_id e = i"
  by (auto simp: fetch_execution_def dest: find_SomeD)

lemma ledger_inv_rows:
  assumes "ledger_inv db"
  shows "k \<in> set (agent_tasks db) \<Longrightarrow> task_ok (keys db) k"
    and "e \<in> set (executions db) \<Longrightarrow> execution_ok (keys db) e"
    and "distinct (map tk_id (agent_tasks db))"
    and "distinct (map ex_id (executions db))"
  using assms by (auto simp: ledger_inv_def inv_at_def table_inv_def)

lemma fetch_task_unique:
  "ledger_inv db \<Longrightarrow> k \<in> set (agent_tasks db) \<Longrightarrow> fetch_task db (tk_id k) = Some k"
  by (simp add: fetch_task_def find_key_unique ledger_inv_rows)

lemma fetch_execution_unique:
  "ledger_inv db \<Longrightarrow> e \<in> set (executions db) \<Longrightarrow> fetch_execution db (ex_id e) = Some e"
  by (simp add: fetch_execution_def find_key_unique ledger_inv_rows)

lemma task_metadata_concealed:
  "ledger_inv db \<Longrightarrow> fetch_task db i = Some k \<Longrightarrow> concealed_dict (tk_metadata k)"
  by (auto dest!: fetch_taskD dest: ledger_inv_rows(1) simp: row_defs)

lemma create_task_sound:
  "create_task t i ti pr st pri rb ag src pj cx md db = Inr (v, db') \<Longrightarrow> sound db db'"
  by (auto simp: create_task_def Let_def row_defs task_unique_def
      split: option.splits if_splits intro!: sound_intros)

lemma transition_task_sound:
  "transition_task t i st ac ms md fo db = Inr (k, db') \<Longrightarrow> sound db db'"
  by (auto simp: transition_task_def Let_def row_defs task_unique_def
      split: option.splits if_splits intro!: sound_intros)

lemma update_task_context_sound:
  "update_task_context t i pj cx md db = Inr (k, db') \<Longrightarrow> sound db db'"
proof -
  assume "update_task_context t i pj cx md db = Inr (k, db')"
  then obtain old project where old: "fetch_task db i = Some old"
    and fk: "task_fk (keys db) k"
    and db': "db' = update_task (\<lambda>r. tk_id r = i) (\<lambda>r. r\<lparr>tk_project_id := tk_project_id k,
        tk_codex_session_id := tk_codex_session_id k,
        tk_metadata := dict_update (tk_metadata old) (redact_dict md), tk_updated_at := whole_second t\<rparr>) db"
    by (auto simp: update_task_context_def Let_def split: option.splits if_splits)
  have "concealed_dict (dict_update (tk_metadata old) (redact_dict md))" if "ledger_inv db"
    using task_metadata_concealed [OF that old] by (simp add: concealed_dict_update)
  with fk show "sound db db'"
    by (auto simp: db' row_defs task_unique_def intro!: sound_intros)
qed

lemma attach_codex_session_sound:
  "attach_codex_session t i pj si ac db = Inr (k, db') \<Longrightarrow> sound db db'"
  by (auto simp: attach_codex_session_def Let_def row_defs task_unique_def codex_unique_def
      split: option.splits if_splits intro!: sound_intros)

lemma create_execution_sound:
  "create_execution t i ti ad ho ap st cs wd md db = Inr (v, db') \<Longrightarrow> sound db db'"
  by (auto simp: create_execution_def Let_def row_defs task_unique_def
      split: option.splits if_splits intro!: sound_intros)

lemma heartbeat_runtime_session_sound:
  "heartbeat_runtime_session t si ad st ex ho xt pid tm md db = Inr (r, db') \<Longrightarrow> sound db db'"
  by (auto simp: heartbeat_runtime_session_def Let_def row_defs host_unique_def
      split: option.splits if_splits intro!: sound_intros)

lemma execution_change_sel [simp]:
  "ex_id (execution_change t st a e) = ex_id e"
  "ex_task_id (execution_change t st a e) = ex_task_id e"
  "ex_status (execution_change t st a e) = st"
  by (simp_all add: execution_change_def)

lemma execution_ok_change: "execution_ok K e \<Longrightarrow> execution_ok K (execution_change t st a e)"
  by (simp add: row_defs execution_change_def concealed_dict_update)

lemma transition_execution_sound:
  "transition_execution t i st a db = Inr (e, db') \<Longrightarrow> sound db db'"
  by (auto simp: transition_execution_def Let_def task_ok_def task_fk_def event_fk_def task_unique_def execution_ok_change
      split: option.splits if_splits intro!: sound_intros)

section \<open>Looking rows up after a statement\<close>

lemma fetch_task_update:
  "(\<And>k. tk_id (f k) = tk_id k) \<Longrightarrow>
   fetch_task (update_task P f db) i = map_option (\<lambda>k. if P k then f k else k) (fetch_task db i)"
  by (simp add: fetch_task_def update_task_def find_key_upd)

lemma fetch_execution_update:
  "(\<And>e. ex_id (f e) = ex_id e) \<Longrightarrow>
   fetch_execution (update_execution P f db) i = map_option (\<lambda>e. if P e then f e else e) (fetch_execution db i)"
  by (simp add: fetch_execution_def update_execution_def find_key_upd)

lemma fetch_task_add:
  "fetch_task (add_task r db) i =
   (case fetch_task db i of Some k \<Rightarrow> Some k | None \<Rightarrow> if tk_id r = i then Some r else None)"
  by (simp add: fetch_task_def add_task_def find_key_append split: option.splits)

lemma fetch_execution_add:
  "fetch_execution (add_execution r db) i =
   (case fetch_execution db i of Some e \<Rightarrow> Some e | None \<Rightarrow> if ex_id r = i then Some r else None)"
  by (simp add: fetch_execution_def add_execution_def find_key_append split: option.splits)

lemma fetch_frame [simp]:
  "fetch_task (update_execution P1 f1 db) i = fetch_task db i"
  "fetch_task (update_codex P2 f2 db) i = fetch_task db i"
  "fetch_task (update_host P3 f3 db) i = fetch_task db i"
  "fetch_task (update_approval P4 f4 db) i = fetch_task db i"
  "fetch_task (add_execution r1 db) i = fetch_task db i"
  "fetch_task (add_approval r2 db) i = fetch_task db i"
  "fetch_task (add_event e db) i = fetch_task db i"
  "fetch_task (log_audit t ac an ety eid de db) i = fetch_task db i"
  "fetch_execution (update_task Q1 g1 db) i = fetch_execution db i"
  "fetch_execution (update_codex Q2 g2 db) i = fetch_execution db i"
  "fetch_execution (update_host Q3 g3 db) i = fetch_execution db i"
  "fetch_execution (update_runtime Q4 g4 db) i = fetch_execution db i"
  "fetch_execution (update_approval Q5 g5 db) i = fetch_execution db i"
  "fetch_execution (add_task r3 db) i = fetch_execution db i"
  "fetch_execution (add_runtime r4 db) i = fetch_execution db i"
  "fetch_execution (add_approval r5 db) i = fetch_execution db i"
  "fetch_execution (add_event e db) i = fetch_execution db i"
  "fetch_execution (log_audit t ac an ety eid de db) i = fetch_execution db i"
  by (simp_all add: fetch_task_def fetch_execution_def statement_defs)

lemma fetch_task_update_key [simp]:
  "(\<And>k. tk_id (f k) = tk_id k) \<Longrightarrow>
   fetch_task (update_task (\<lambda>k. tk_id k = j) f db) i = (if i = j then map_option f (fetch_task db i) else fetch_task db i)"
  "(\<And>k. tk_id (f k) = tk_id k) \<Longrightarrow>
   fetch_task (update_task (\<lambda>k. Some (tk_id k) = x) f db) i =
   (if Some i = x then map_option f (fetch_task db i) else fetch_task db i)"
  by (cases "fetch_task db i"; auto simp: fetch_task_update dest: fetch_taskD)+

lemma fetch_execution_update_key [simp]:
  "(\<And>e. ex_id (f e) = ex_id e) \<Longrightarrow>
   fetch_execution (update_execution (\<lambda>e. ex_id e = j) f db) i =
   (if i = j then map_option f (fetch_execution db i) else fetch_execution db i)"
  "(\<And>e. ex_id (f e) = ex_id e) \<Longrightarrow>
   fetch_execution (update_execution (\<lambda>e. Some (ex_id e) = x) f db) i =
   (if Some i = x then map_option f (fetch_execution db i) else fetch_execution db i)"
  by (cases "fetch_execution db i"; auto simp: fetch_execution_update dest: fetch_executionD)+

section \<open>Runs of task and execution operations\<close>

inductive task_step :: "ledger \<Rightarrow> ledger \<Rightarrow> bool" where
  create_task: "create_task t i ti pr st py rb ag src pj cx md db = Inr (v, db') \<Longrightarrow> task_step db db'"
| transition_task: "transition_task t i st ac ms md fo db = Inr (k, db') \<Longrightarrow> task_step db db'"
| update_context: "update_task_context t i pj cx md db = Inr (k, db') \<Longrightarrow> task_step db db'"
| attach: "attach_codex_session t i pj si ac db = Inr (k, db') \<Longrightarrow> task_step db db'"
| create_execution: "create_execution t i ti ad ho ap st cs wd md db = Inr (x, db') \<Longrightarrow> task_step db db'"
| transition_execution: "transition_execution t i st a db = Inr (e, db') \<Longrightarrow> task_step db db'"
| heartbeat: "heartbeat_runtime_session t si ad st ex ho xt pid tm md db = Inr (r, db') \<Longrightarrow> task_step db db'"

lemma task_step_sound: "task_step db db' \<Longrightarrow> sound db db'"
  by (induction rule: task_step.induct)
     (blast intro: create_task_sound transition_task_sound update_task_context_sound attach_codex_session_sound
       create_execution_sound transition_execution_sound heartbeat_runtime_session_sound)+

definition execution_status :: "ledger \<Rightarrow> string \<Rightarrow> string option" where
  "execution_status db i = map_option ex_status (fetch_execution db i)"

definition execution_allowed :: "string \<Rightarrow> string \<Rightarrow> bool" where
  "execution_allowed a b \<longleftrightarrow> a \<notin> set EXECUTION_TERMINAL_STATUSES"

text \<open>The shape of a successful \<open>transition_execution\<close>\<close>

definition task_follows :: "time \<Rightarrow> string \<Rightarrow> task_row \<Rightarrow> task_row" where
  "task_follows timestamp status k =
     (case task_status_of status of None \<Rightarrow> k
      | Some ts \<Rightarrow> k\<lparr>tk_status := ts, tk_completed_at := completion ts timestamp, tk_updated_at := timestamp\<rparr>)"

lemma transition_executionE:
  assumes "transition_execution t i st a db = Inr (e', db')"
  obtains e k where "fetch_execution db i = Some e" "fetch_task db (ex_task_id e) = Some k"
    "tk_current_execution_id k = Some i"
    "st = ex_status e \<or> ex_status e \<notin> set EXECUTION_TERMINAL_STATUSES \<and>
       (xa_force a \<or> st \<in> set (successors EXECUTION_TRANSITIONS (ex_status e)))"
    "e' = execution_change (whole_second t) st a e"
    "\<And>j. fetch_execution db' j = (if j = i then Some e' else fetch_execution db j)"
    "\<And>j. fetch_task db' j = (if j = ex_task_id e then Some (task_follows (whole_second t) st k) else fetch_task db j)"
    "length (execution_events db') = length (execution_events db) + (if st = ex_status e then 0 else 1)"
proof -
  obtain e where e: "fetch_execution db i = Some e"
    using assms by (auto simp: transition_execution_def split: option.splits)
  obtain k where k: "fetch_task db (ex_task_id e) = Some k"
    using assms e by (auto simp: transition_execution_def split: option.splits)
  have cur: "tk_current_execution_id k = Some i"
    and ok: "st = ex_status e \<or> ex_status e \<notin> set EXECUTION_TERMINAL_STATUSES \<and>
       (xa_force a \<or> st \<in> set (successors EXECUTION_TRANSITIONS (ex_status e)))"
    and e': "e' = execution_change (whole_second t) st a e"
    using assms e k by (auto simp: transition_execution_def Let_def split: if_splits)
  have exs: "fetch_execution db' j = (if j = i then Some e' else fetch_execution db j)" for j
    using assms e k cur e'
    by (auto simp: transition_execution_def Let_def split: if_splits option.splits)
  have tks: "fetch_task db' j = (if j = ex_task_id e then Some (task_follows (whole_second t) st k) else fetch_task db j)" for j
    using assms e k cur
    by (auto simp: transition_execution_def Let_def task_follows_def split: if_splits option.splits)
  have "length (execution_events db') = length (execution_events db) + (if st = ex_status e then 0 else 1)"
    using assms e k cur by (auto simp: transition_execution_def Let_def split: if_splits option.splits)
  with e k cur ok e' exs tks show ?thesis by (rule that)
qed

lemma transition_execution_frame:
  assumes "transition_execution t i st a db = Inr (e', db')"
  shows "keys db' = keys db" "approvals db' = approvals db"
proof -
  show "keys db' = keys db"
    using assms by (auto simp: transition_execution_def Let_def split: if_splits option.splits)
  have "approvals (update_execution P f d) = approvals d" "approvals (update_task Q g d) = approvals d"
    "approvals (add_event ev d) = approvals d" "approvals (log_audit tm ac an ety eid de d) = approvals d"
    for P f Q g ev tm ac an ety eid de d by (simp_all add: statement_defs)
  with assms show "approvals db' = approvals db"
    by (auto simp: transition_execution_def Let_def split: if_splits option.splits)
qed

lemma execution_status_frame:
  "create_task tm i ti pr st py rb ag src pj cx md db = Inr (v, db1) \<Longrightarrow> execution_status db1 j = execution_status db j"
  "transition_task tm i st ac ms md fo db = Inr (k, db2) \<Longrightarrow> execution_status db2 j = execution_status db j"
  "update_task_context tm i pj cx md db = Inr (k, db3) \<Longrightarrow> execution_status db3 j = execution_status db j"
  "attach_codex_session tm i pjs si ac db = Inr (k, db4) \<Longrightarrow> execution_status db4 j = execution_status db j"
  by (auto simp: execution_status_def create_task_def transition_task_def update_task_context_def
      attach_codex_session_def Let_def split: option.splits if_splits)

lemma create_execution_status:
  "create_execution t i ti ad ho ap st cs wd md db = Inr (x, db') \<Longrightarrow> execution_status db j = Some a \<Longrightarrow>
   execution_status db' j = Some a"
  by (auto simp: create_execution_def execution_status_def Let_def fetch_execution_add split: option.splits if_splits)

lemma heartbeat_status:
  "heartbeat_runtime_session t si ad st ex ho xt pid tm md db = Inr (r, db') \<Longrightarrow>
   execution_status db' j = execution_status db j"
  by (cases "fetch_execution db j")
     (auto simp: heartbeat_runtime_session_def execution_status_def Let_def split: option.splits if_splits)

lemma transition_execution_status:
  "transition_execution t i st a db = Inr (e, db') \<Longrightarrow> execution_status db j = Some b \<Longrightarrow>
   \<exists>c. execution_status db' j = Some c \<and> (b = c \<or> execution_allowed b c)"
  by (erule transition_executionE) (auto simp: execution_status_def execution_allowed_def)

interpretation tasks: recorded_system task_step ledger_inv extends_logs
  by unfold_locales (auto dest!: task_step_sound simp: sound_def extends_logs_def)

interpretation execution_life: status_machine task_step execution_status execution_allowed
proof
  fix s t k a
  assume "task_step s t" "execution_status s k = Some a"
  then show "\<exists>b. execution_status t k = Some b \<and> (a = b \<or> execution_allowed a b)"
    by (induction rule: task_step.induct)
       (auto simp: execution_status_frame heartbeat_status dest: create_execution_status transition_execution_status)
qed

section \<open>On the sample ledger\<close>

definition sample_args :: transition_args where
  "sample_args = \<lparr>xa_actor = ''u1'', xa_message = [], xa_exit_code = Some 0, xa_error = None,
     xa_status_confidence = None, xa_metadata = [], xa_force = False\<rparr>"

lemma sample_fetch:
  "fetch_task sample_ledger ''t1'' = Some sample_task"
  "fetch_execution sample_ledger ''e1'' = Some sample_execution"
  by (simp_all add: fetch_task_def fetch_execution_def sample_defs)

lemma sample_keys: "k_tasks (keys sample_ledger) = {''t1''}" "k_executions (keys sample_ledger) = {''e1''}"
  by (simp_all add: keys_def sample_defs)

lemmas sample_step_simps = transition_task_def transition_execution_def Let_def sample_fetch sample_keys
  append_event_def event_fk_def sample_task_def sample_execution_def

lemma sample_transition:
  obtains e' db' where
    "transition_execution 5000000 ''e1'' ''succeeded'' sample_args sample_ledger = Inr (e', db')"
  by (simp add: sample_step_simps sample_args_def successors_def EXECUTION_TRANSITIONS_def
      EXECUTION_TERMINAL_STATUSES_def task_status_of_def)

section \<open>Properties\<close>

text \<open>A task transition that is not forced succeeds exactly for the current status and the successors that
  \<open>TASK_TRANSITIONS\<close> lists, whatever the ledger holds; the exception is \<open>KeyError\<close> for an unknown task and
  \<open>ValueError\<close> naming both statuses otherwise.\<close>

theorem task_transition_table:
  "transition_task t i st ac ms md False db =
     (case fetch_task db i of
        None \<Rightarrow> Inl (KeyError i)
      | Some k \<Rightarrow>
          if st = tk_status k \<or> st \<in> set (successors TASK_TRANSITIONS (tk_status k))
          then transition_task t i st ac ms md True db
          else Inl (ValueError (''Invalid task transition: '' @ tk_status k @ '' -> '' @ st)))"
  by (simp add: transition_task_def Let_def split: option.split)

text \<open>A successful task transition sets exactly the status, the update time and the completion time of
  the task: a terminal status is completed now, any other status (a retry too) clears the completion time.
  Other tasks and every execution keep their rows, and a real change of status adds one event and one
  audit entry, a repeated status none.\<close>

theorem task_transition_effect:
  assumes "ledger_inv db" "transition_task t i st ac ms md fo db = Inr (k', db')"
  shows "\<exists>k. fetch_task db i = Some k \<and>
     k' = k\<lparr>tk_status := st, tk_updated_at := whole_second t,
            tk_completed_at := if st \<in> {''completed'', ''failed'', ''cancelled''} then Some (whole_second t) else None\<rparr> \<and>
     agent_tasks db' = map (\<lambda>r. if tk_id r = i then k' else r) (agent_tasks db) \<and>
     executions db' = executions db \<and>
     length (execution_events db') = length (execution_events db) + (if st = tk_status k then 0 else 1) \<and>
     length (audit_logs db') = length (audit_logs db) + (if st = tk_status k then 0 else 1) \<and> ledger_inv db'"
proof -
  have inv: "ledger_inv db'" using transition_task_sound [OF assms(2)] assms(1) by (simp add: sound_def)
  obtain k where k: "fetch_task db i = Some k"
    using assms(2) by (auto simp: transition_task_def split: option.splits)
  let ?f = "\<lambda>k. k\<lparr>tk_status := st, tk_updated_at := whole_second t, tk_completed_at := completion st (whole_second t)\<rparr>"
  have same: "r = k" if "r \<in> set (agent_tasks db)" "tk_id r = i" for r
    using fetch_task_unique [OF assms(1) that(1)] that(2) k by simp
  have k': "k' = ?f k"
    and rows: "agent_tasks db' = upd (\<lambda>k. tk_id k = i) ?f (agent_tasks db)"
    and rest: "executions db' = executions db"
      "length (execution_events db') = length (execution_events db) + (if st = tk_status k then 0 else 1)"
      "length (audit_logs db') = length (audit_logs db) + (if st = tk_status k then 0 else 1)"
    using assms(2) k by (auto simp: transition_task_def Let_def statement_defs split: if_splits)
  from rows have rows': "agent_tasks db' = map (\<lambda>r. if tk_id r = i then k' else r) (agent_tasks db)"
    using same by (auto simp: upd_def k')
  have completed: "completion st (whole_second t) =
      (if st \<in> {''completed'', ''failed'', ''cancelled''} then Some (whole_second t) else None)"
    by (simp add: completion_def TASK_TERMINAL_STATUSES_def)
  show ?thesis
    by (intro exI [of _ k] conjI k rows' rest inv) (simp only: k' completed)
qed

lemma task_transition_effect_witness:
  "\<exists>k' db'. transition_task 5000000 ''t1'' ''completed'' ''u1'' [] [] False sample_ledger = Inr (k', db') \<and>
     tk_completed_at k' = Some 5000000 \<and> agent_tasks db' = [k'] \<and> ledger_inv db'"
proof -
  obtain k' db' where step: "transition_task 5000000 ''t1'' ''completed'' ''u1'' [] [] False sample_ledger = Inr (k', db')"
    by (simp add: sample_step_simps successors_def TASK_TRANSITIONS_def)
  from task_transition_effect [OF sample_ledger_inv step] show ?thesis
    by (intro exI [of _ k'] exI [of _ db'] conjI step) (auto simp: sample_defs whole_second_def)
qed

text \<open>An execution transition, forced or not, never leaves a terminal status and is accepted only for the
  execution its task currently points to; otherwise it must follow \<open>EXECUTION_TRANSITIONS\<close> or be forced.
  When it succeeds, exactly that execution changes, its task takes the status that belongs to the new
  execution status, every other task and execution keeps its row, and one event is logged unless the
  status is repeated.\<close>

theorem execution_transition_effect:
  assumes "transition_execution t i st a db = Inr (e', db')"
  shows "\<exists>e k. fetch_execution db i = Some e \<and> fetch_task db (ex_task_id e) = Some k \<and>
     tk_current_execution_id k = Some i \<and>
     (st = ex_status e \<or> ex_status e \<notin> {''succeeded'', ''failed'', ''cancelled'', ''timed_out'', ''lost''} \<and>
        (xa_force a \<or> st \<in> set (successors EXECUTION_TRANSITIONS (ex_status e)))) \<and>
     e' = execution_change (whole_second t) st a e \<and>
     (\<forall>j. fetch_execution db' j = (if j = i then Some e' else fetch_execution db j)) \<and>
     (\<forall>j. fetch_task db' j =
        (if j = ex_task_id e then Some (task_follows (whole_second t) st k) else fetch_task db j)) \<and>
     length (execution_events db') = length (execution_events db) + (if st = ex_status e then 0 else 1)"
  using assms by (rule transition_executionE) (auto simp: EXECUTION_TERMINAL_STATUSES_def)

lemma execution_transition_effect_witness:
  "\<exists>e' db'. transition_execution 5000000 ''e1'' ''succeeded'' sample_args sample_ledger = Inr (e', db') \<and>
     fetch_execution db' ''e1'' = Some e' \<and> ex_status e' = ''succeeded'' \<and>
     map_option tk_status (fetch_task db' ''t1'') = Some ''completed''"
proof -
  obtain e' db' where step: "transition_execution 5000000 ''e1'' ''succeeded'' sample_args sample_ledger = Inr (e', db')"
    by (rule sample_transition)
  from execution_transition_effect [OF step] show ?thesis
    by (intro exI [of _ e'] exI [of _ db'] conjI step)
       (auto simp: sample_fetch task_follows_def task_status_of_def sample_execution_def)
qed

text \<open>C3. Over any run of the task and execution operations, forced transitions included, an execution that
  has succeeded, failed, been cancelled, timed out or been lost keeps that status for ever.\<close>

theorem terminal_execution_is_final:
  assumes "task_step\<^sup>*\<^sup>* db db'" "fetch_execution db i = Some e"
    "ex_status e \<in> {''succeeded'', ''failed'', ''cancelled'', ''timed_out'', ''lost''}"
  shows "\<exists>e'. fetch_execution db' i = Some e' \<and> ex_status e' = ex_status e"
proof -
  have "execution_status db i = Some (ex_status e)" using assms(2) by (simp add: execution_status_def)
  then have "execution_status db' i = Some (ex_status e)"
    using assms(3) by (intro execution_life.final_status [OF assms(1)])
      (auto simp: execution_allowed_def EXECUTION_TERMINAL_STATUSES_def)
  then show ?thesis by (auto simp: execution_status_def)
qed

lemma terminal_execution_is_final_witness:
  "\<exists>db2 k. task_step\<^sup>*\<^sup>* sample_ledger db2 \<and> fetch_task db2 ''t1'' = Some k \<and> tk_status k = ''queued'' \<and>
     map_option ex_status (fetch_execution db2 ''e1'') = Some ''succeeded''"
proof -
  obtain e' db1 where step: "transition_execution 5000000 ''e1'' ''succeeded'' sample_args sample_ledger = Inr (e', db1)"
    by (rule sample_transition)
  then have e': "fetch_execution db1 ''e1'' = Some e'" "ex_status e' = ''succeeded''"
    by (auto elim!: transition_executionE)
  from step have k: "fetch_task db1 ''t1'' = Some (task_follows 5000000 ''succeeded'' sample_task)"
  proof (rule transition_executionE)
    fix e k assume e: "fetch_execution sample_ledger ''e1'' = Some e" and k: "fetch_task sample_ledger (ex_task_id e) = Some k"
      and new: "\<And>j. fetch_task db1 j = (if j = ex_task_id e
        then Some (task_follows (whole_second 5000000) ''succeeded'' k) else fetch_task sample_ledger j)"
    from e have "ex_task_id e = ''t1''" by (auto simp: sample_fetch sample_execution_def)
    with k new show ?thesis by (simp add: sample_fetch whole_second_def)
  qed
  moreover from step have "''t1'' \<in> k_tasks (keys db1)"
    using find_SomeD k by (force simp: keys_def fetch_task_def)
  ultimately obtain k2 db2 where retry:
      "transition_task 6000000 ''t1'' ''queued'' ''u1'' [] [] True db1 = Inr (k2, db2)"
      "fetch_task db2 ''t1'' = Some k2" "tk_status k2 = ''queued''"
    by (simp add: transition_task_def Let_def append_event_def event_fk_def task_follows_def task_status_of_def
        sample_task_def)
  from task_step.transition_task [OF retry(1)] have run: "task_step\<^sup>*\<^sup>* db1 db2" by blast
  from terminal_execution_is_final [OF run e'(1)] e'(2)
  have "map_option ex_status (fetch_execution db2 ''e1'') = Some ''succeeded''" by auto
  moreover have "task_step\<^sup>*\<^sup>* sample_ledger db2"
    using task_step.transition_execution [OF step] run by (rule converse_rtranclp_into_rtranclp)
  ultimately show ?thesis using retry by blast
qed

end
