(* ===== verification/Ledger_Approvals.thy ===== *)
theory Ledger_Approvals
  imports Ledger_Tasks Machines
begin

text \<open>
  Approvals and artifacts of \<open>src/nyanya_agent/execution_store.py\<close>, and the single-use command approval of
  \<open>src/nyanya_agent/approval_contract.py\<close>.
\<close>

definition fetch_approval :: "ledger \<Rightarrow> string \<Rightarrow> approval_row option" where
  "fetch_approval db i = List.find (\<lambda>a. ag_id a = i) (approvals db)"

section \<open>Requesting\<close>

definition request_approval ::
  "time \<Rightarrow> string \<Rightarrow> string \<Rightarrow> string \<Rightarrow> string option \<Rightarrow> string option \<Rightarrow> string \<Rightarrow> int \<Rightarrow> dict \<Rightarrow> ledger
     \<Rightarrow> (approval_row \<times> ledger) result" where
  "request_approval t approval_id action requested_by task_id execution_id reason ttl_seconds metadata db =
     (let timestamp = whole_second t;
          row = \<lparr>ag_id = approval_id, ag_task_id = task_id, ag_execution_id = execution_id, ag_action = action,
                 ag_status = ''pending'', ag_requested_by = requested_by, ag_decided_by = [],
                 ag_reason = redact_text reason, ag_metadata = redact_dict metadata,
                 ag_requested_at = timestamp, ag_decided_at = None,
                 ag_expires_at = Some (timestamp + seconds (max 60 ttl_seconds))\<rparr> in
      if \<not> truthy_text task_id \<and> \<not> truthy_text execution_id
      then Inl (ValueError ''task_id or execution_id is required'')
      else try_bind (insert_approval row db) (\<lambda>db1.
        (let db2 = (if truthy_text task_id
               then update_task (\<lambda>k. Some (tk_id k) = task_id)
                      (\<lambda>k. k\<lparr>tk_status := ''awaiting_approval'', tk_updated_at := timestamp\<rparr>) db1 else db1);
             db3 = (if truthy_text execution_id
               then update_execution (\<lambda>e. Some (ex_id e) = execution_id)
                      (\<lambda>e. e\<lparr>ex_status := ''awaiting_approval'', ex_updated_at := timestamp\<rparr>) db2 else db2)
         in try_bind (append_event t ''approval.requested'' task_id execution_id ''pending'' reason
              [(''approval_id'', JStr approval_id), (''action'', JStr action)] db3) (\<lambda>db4.
            Inr (row, log_audit t requested_by ''approval.requested'' ''approval'' approval_id
              (redact_dict [(''action'', JStr action), (''task_id'', jstr_opt task_id),
                            (''execution_id'', jstr_opt execution_id)]) db4)))))"

section \<open>Deciding\<close>

text \<open>\<open>decided_by != authorized_actor\<close>, for an \<open>authorized_actor\<close> that is present and true.\<close>

definition actor_mismatch :: "dict \<Rightarrow> string \<Rightarrow> bool" where
  "actor_mismatch metadata actor =
     (case map_of metadata ''authorized_actor'' of
        None \<Rightarrow> False | Some v \<Rightarrow> truthy v \<and> v \<noteq> JStr actor)"

text \<open>
  \<open>decide_approval\<close> once the approval is known to be pending. An expired approval is marked and committed
  before the exception is raised, so the outcome pairs the exception with the changed ledger; every other
  exception leaves the ledger as it was.
\<close>

definition decide_pending ::
  "time \<Rightarrow> string \<Rightarrow> string \<Rightarrow> string \<Rightarrow> string \<Rightarrow> approval_row \<Rightarrow> ledger \<Rightarrow> approval_row result \<times> ledger" where
  "decide_pending t approval_id decision decided_by reason current db =
     (let timestamp = whole_second t in
      if (case ag_expires_at current of None \<Rightarrow> False | Some x \<Rightarrow> x \<le> timestamp) then
        (case append_event t ''approval.expired'' (ag_task_id current) (ag_execution_id current) ''expired''
           ''Approval expired'' []
           (update_approval (\<lambda>a. ag_id a = approval_id)
              (\<lambda>a. a\<lparr>ag_status := ''expired'', ag_decided_at := Some timestamp\<rparr>) db) of
           Inl e \<Rightarrow> (Inl e, db)
         | Inr db1 \<Rightarrow> (Inl (ValueError ''Approval expired''), db1))
      else
        (let change = (\<lambda>a. a\<lparr>ag_status := decision, ag_decided_by := decided_by,
                             ag_reason := redact_text reason, ag_decided_at := Some timestamp\<rparr>);
             db1 = update_approval (\<lambda>a. ag_id a = approval_id) change db
         in case append_event t ''approval.decided'' (ag_task_id current) (ag_execution_id current) decision reason
              [(''approval_id'', JStr approval_id), (''decided_by'', JStr decided_by)] db1 of
              Inl e \<Rightarrow> (Inl e, db)
            | Inr db2 \<Rightarrow>
                (let db3 = (if decision = ''rejected'' \<and> truthy_text (ag_task_id current)
                       then update_task (\<lambda>k. Some (tk_id k) = ag_task_id current)
                         (\<lambda>k. k\<lparr>tk_status := ''blocked'', tk_updated_at := timestamp\<rparr>) db2 else db2)
                 in (Inr (change current),
                     log_audit t decided_by (''approval.'' @ decision) ''approval'' approval_id
                       [(''decision'', JStr decision)] db3))))"

definition decide_approval ::
  "time \<Rightarrow> string \<Rightarrow> string \<Rightarrow> string \<Rightarrow> string \<Rightarrow> ledger \<Rightarrow> approval_row result \<times> ledger" where
  "decide_approval t approval_id decision decided_by reason db =
     (if decision \<notin> {''approved'', ''rejected''}
        then (Inl (ValueError ''decision must be approved or rejected''), db)
      else case fetch_approval db approval_id of
        None \<Rightarrow> (Inl (KeyError approval_id), db)
      | Some current \<Rightarrow>
         if ag_action current = ''discord.upload.pii''
           then (Inl (ValueError ''Use the dedicated document upload confirmation flow''), db)
         else if actor_mismatch (ag_metadata current) decided_by
           then (Inl (ValueError ''Approval actor mismatch''), db)
         else if ag_status current \<noteq> ''pending'' then
           (if ag_status current = decision then (Inr current, db)
            else (Inl (ValueError (''Approval already decided: '' @ ag_status current)), db))
         else decide_pending t approval_id decision decided_by reason current db)"

definition list_approvals :: "string option \<Rightarrow> int \<Rightarrow> ledger \<Rightarrow> approval_row list" where
  "list_approvals status n db =
     limit n (order_desc ag_requested_at
       (if truthy_text status then filter (\<lambda>a. Some (ag_status a) = status) (approvals db) else approvals db))"

definition get_approval :: "string \<Rightarrow> ledger \<Rightarrow> approval_row option" where
  "get_approval approval_id db = fetch_approval db approval_id"

section \<open>The command approval contract\<close>

definition check_approval ::
  "time \<Rightarrow> string \<Rightarrow> string \<Rightarrow> string \<Rightarrow> string option \<Rightarrow> ledger \<Rightarrow> ledger result" where
  "check_approval t approval_id task_id scope_hash execution_id db =
     (case fetch_approval db approval_id of
        None \<Rightarrow> Inl (PermissionError ''A persisted approval is required'')
      | Some row \<Rightarrow>
         (let actor = map_of (ag_metadata row) ''authorized_actor'' in
          if ag_status row \<noteq> ''approved'' \<or> ag_task_id row \<noteq> Some task_id \<or> ag_action row \<noteq> ''workspace.write''
             \<or> (case ag_expires_at row of None \<Rightarrow> True | Some x \<Rightarrow> x \<le> t)
             \<or> (case actor of None \<Rightarrow> True | Some v \<Rightarrow> \<not> truthy v \<or> v \<noteq> JStr (ag_decided_by row))
             \<or> map_of (ag_metadata row) ''scope_hash'' \<noteq> Some (JStr scope_hash)
          then Inl (PermissionError
                 ''Approval is expired, consumed, or does not match this actor and command scope'')
          else if \<not> truthy_text execution_id then Inr db
          else if \<not> fk (k_executions (keys db)) execution_id then Inl (IntegrityError ''approvals'')
          else append_event t ''approval.consumed'' (Some task_id) execution_id ''consumed''
                 ''Bound approval consumed'' []
                 (update_approval (\<lambda>a. ag_id a = approval_id)
                    (\<lambda>a. a\<lparr>ag_status := ''consumed'', ag_execution_id := execution_id\<rparr>) db)))"

section \<open>Artifacts\<close>

definition add_artifact_row ::
  "time \<Rightarrow> string \<Rightarrow> string \<Rightarrow> string option \<Rightarrow> string option \<Rightarrow> string \<Rightarrow> string \<Rightarrow> int option \<Rightarrow> string \<Rightarrow> dict \<Rightarrow>
   ledger \<Rightarrow> (artifact_row \<times> ledger) result" where
  "add_artifact_row t artifact_id path task_id execution_id kind sha256 size_bytes mime_type metadata db =
     (if \<not> truthy_text task_id \<and> \<not> truthy_text execution_id
      then Inl (ValueError ''task_id or execution_id is required'')
      else
        (let row = \<lparr>af_id = artifact_id, af_task_id = task_id, af_execution_id = execution_id, af_kind = kind,
                    af_path = path, af_sha256 = sha256, af_size_bytes = size_bytes, af_mime_type = mime_type,
                    af_metadata = redact_dict metadata, af_created_at = whole_second t\<rparr>
         in try_bind (insert_artifact row db) (\<lambda>db1.
            try_bind (append_event t ''artifact.created'' task_id execution_id ''available'' path
              [(''artifact_id'', JStr artifact_id), (''kind'', JStr kind), (''sha256'', JStr sha256)] db1) (\<lambda>db2.
            Inr (row, db2)))))"

section \<open>The life of an approval\<close>

inductive approval_step :: "ledger \<Rightarrow> ledger \<Rightarrow> bool" where
  request: "request_approval t i act rb tid eid rsn ttl md db = Inr (r, db') \<Longrightarrow> approval_step db db'"
| decide: "approval_step db (snd (decide_approval t i d by rsn db))"
| consume: "check_approval t i tid sh eid db = Inr db' \<Longrightarrow> approval_step db db'"

definition approval_status :: "ledger \<Rightarrow> string \<Rightarrow> string option" where
  "approval_status db i = map_option ag_status (fetch_approval db i)"

definition approval_allowed :: "string \<Rightarrow> string \<Rightarrow> bool" where
  "approval_allowed a b \<longleftrightarrow>
     (a = ''pending'' \<and> b \<in> {''approved'', ''rejected'', ''expired''}) \<or> (a = ''approved'' \<and> b = ''consumed'')"

section \<open>Lemmas\<close>

lemma fetch_approvalD: "fetch_approval db i = Some a \<Longrightarrow> a \<in> set (approvals db) \<and> ag_id a = i"
  by (auto simp: fetch_approval_def dest: find_SomeD)

lemma fetch_update_approval [simp]:
  "(\<And>a. ag_id (f a) = ag_id a) \<Longrightarrow>
   fetch_approval (update_approval P f db) i = map_option (\<lambda>a. if P a then f a else a) (fetch_approval db i)"
  by (simp add: fetch_approval_def update_approval_def find_key_upd)

lemma fetch_approval_frame [simp]:
  "fetch_approval (update_task P1 f1 db) i = fetch_approval db i"
  "fetch_approval (update_execution P2 f2 db) i = fetch_approval db i"
  "fetch_approval (add_event e db) i = fetch_approval db i"
  "fetch_approval (log_audit t ac an ety eid de db) i = fetch_approval db i"
  by (simp_all add: fetch_approval_def statement_defs)

lemma fetch_add_approval:
  "fetch_approval (add_approval r db) i =
   (case fetch_approval db i of Some a \<Rightarrow> Some a | None \<Rightarrow> if ag_id r = i then Some r else None)"
  by (simp add: fetch_approval_def add_approval_def find_key_append split: option.splits)

lemma request_approval_sound:
  "request_approval t i act rb tid eid rsn ttl md db = Inr (r, db') \<Longrightarrow> sound db db'"
  by (auto simp: request_approval_def Let_def row_defs task_unique_def
      split: option.splits if_splits intro!: sound_intros)

lemma not_secret_decision [simp]: "\<not> secret_key ''decision''"
  by code_simp

text \<open>
  A decision leaves the ledger alone, marks an expired approval, or records the decision; the last blocks
  the task of a rejected approval.
\<close>

definition decided_ledger :: "time \<Rightarrow> string \<Rightarrow> (approval_row \<Rightarrow> approval_row) \<Rightarrow> event_row \<Rightarrow> ledger \<Rightarrow> ledger" where
  "decided_ledger t i f e db = add_event e (update_approval (\<lambda>a. ag_id a = i) f db)"

lemma decide_pending_cases:
  assumes "decide_pending t i d by rsn a db = (out, db')"
  obtains (refused) e where "out = Inl e" "db' = db"
  | (expired) e x where "ag_expires_at a = Some x" "x \<le> whole_second t"
      "event_ok (keys db) e" "ev_seq e = Suc (length (execution_events db))"
      "out = Inl (ValueError ''Approval expired'')"
      "db' = decided_ledger t i (\<lambda>a. a\<lparr>ag_status := ''expired'', ag_decided_at := Some (whole_second t)\<rparr>) e db"
  | (decided) e change where "\<And>x. ag_expires_at a = Some x \<Longrightarrow> whole_second t < x"
      "event_ok (keys db) e" "ev_seq e = Suc (length (execution_events db))"
      "change = (\<lambda>a. a\<lparr>ag_status := d, ag_decided_by := by, ag_reason := redact_text rsn,
                       ag_decided_at := Some (whole_second t)\<rparr>)"
      "out = Inr (change a)"
      "db' = log_audit t by (''approval.'' @ d) ''approval'' i [(''decision'', JStr d)]
         (if d = ''rejected'' \<and> truthy_text (ag_task_id a)
          then update_task (\<lambda>k. Some (tk_id k) = ag_task_id a)
                 (\<lambda>k. k\<lparr>tk_status := ''blocked'', tk_updated_at := whole_second t\<rparr>) (decided_ledger t i change e db)
          else decided_ledger t i change e db)"
proof (cases "event_fk (keys db) (ag_task_id a) (ag_execution_id a)")
  case False
  with assms show ?thesis
    by (intro refused) (auto simp: decide_pending_def Let_def append_event_def split: if_splits)
next
  case fk: True
  show ?thesis
  proof (cases "case ag_expires_at a of None \<Rightarrow> False | Some x \<Rightarrow> x \<le> whole_second t")
    case True
    then obtain x where "ag_expires_at a = Some x" "x \<le> whole_second t" by (auto split: option.splits)
    with assms fk show ?thesis
      by (intro expired [of x "event_of t ''approval.expired'' (ag_task_id a) (ag_execution_id a) ''expired''
            ''Approval expired'' [] (Suc (length (execution_events db)))"])
        (simp_all add: decide_pending_def Let_def append_event_def decided_ledger_def)
  next
    case False
    with assms fk show ?thesis
      by (intro decided [of "event_of t ''approval.decided'' (ag_task_id a) (ag_execution_id a) d rsn
            [(''approval_id'', JStr i), (''decided_by'', JStr by)] (Suc (length (execution_events db)))", OF _ _ _ refl])
        (auto simp: decide_pending_def Let_def append_event_def decided_ledger_def)
  qed
qed

lemma decide_approval_cases:
  assumes "decide_approval t i d by rsn db = (out, db')"
  obtains (refused) e where "out = Inl e" "db' = db"
  | (repeated) a where "fetch_approval db i = Some a" "ag_action a \<noteq> ''discord.upload.pii''"
      "\<not> actor_mismatch (ag_metadata a) by" "d \<in> {''approved'', ''rejected''}" "ag_status a = d"
      "out = Inr a" "db' = db"
  | (expired) a e x where "fetch_approval db i = Some a" "ag_status a = ''pending''"
      "ag_expires_at a = Some x" "x \<le> whole_second t"
      "event_ok (keys db) e" "ev_seq e = Suc (length (execution_events db))"
      "out = Inl (ValueError ''Approval expired'')"
      "db' = decided_ledger t i (\<lambda>a. a\<lparr>ag_status := ''expired'', ag_decided_at := Some (whole_second t)\<rparr>) e db"
  | (decided) a e change where "fetch_approval db i = Some a" "ag_status a = ''pending''"
      "d \<in> {''approved'', ''rejected''}" "\<not> actor_mismatch (ag_metadata a) by"
      "ag_action a \<noteq> ''discord.upload.pii''" "\<And>x. ag_expires_at a = Some x \<Longrightarrow> whole_second t < x"
      "event_ok (keys db) e" "ev_seq e = Suc (length (execution_events db))"
      "change = (\<lambda>a. a\<lparr>ag_status := d, ag_decided_by := by, ag_reason := redact_text rsn,
                       ag_decided_at := Some (whole_second t)\<rparr>)"
      "out = Inr (change a)"
      "db' = log_audit t by (''approval.'' @ d) ''approval'' i [(''decision'', JStr d)]
         (if d = ''rejected'' \<and> truthy_text (ag_task_id a)
          then update_task (\<lambda>k. Some (tk_id k) = ag_task_id a)
                 (\<lambda>k. k\<lparr>tk_status := ''blocked'', tk_updated_at := whole_second t\<rparr>) (decided_ledger t i change e db)
          else decided_ledger t i change e db)"
proof -
  show ?thesis
  proof (cases "d \<in> {''approved'', ''rejected''} \<and> (\<exists>a. fetch_approval db i = Some a \<and>
      ag_action a \<noteq> ''discord.upload.pii'' \<and> \<not> actor_mismatch (ag_metadata a) by \<and> ag_status a \<in> {''pending'', d})")
    case False
    with assms have "(\<exists>e. out = Inl e) \<and> db' = db"
      by (cases "fetch_approval db i") (force simp: decide_approval_def split: if_splits)+
    then show ?thesis by (elim conjE exE) (rule refused)
  next
    case True
    then obtain a where d: "d \<in> {''approved'', ''rejected''}" and a: "fetch_approval db i = Some a"
      "ag_action a \<noteq> ''discord.upload.pii''" "\<not> actor_mismatch (ag_metadata a) by" "ag_status a \<in> {''pending'', d}"
      by blast
    show ?thesis
    proof (cases "ag_status a = ''pending''")
      case False
      with assms d a show ?thesis by (intro repeated [of a]) (auto simp: decide_approval_def)
    next
      case True
      with d a assms have "decide_pending t i d by rsn a db = (out, db')"
        by (simp add: decide_approval_def)
      then show ?thesis
      proof (cases rule: decide_pending_cases)
        case (expired e x)
        then show ?thesis by (intro that(3) [OF a(1) True])
      next
        case (decided e change)
        then show ?thesis by (intro that(4) [OF a(1) True d a(3,2)])
      qed (rule refused)
    qed
  qed
qed

lemma decided_ledger_sound:
  assumes "event_ok (keys db) e" "ev_seq e = Suc (length (execution_events db))"
    "\<And>a. ag_id (f a) = ag_id a" "\<And>a. approval_ok (keys db) a \<Longrightarrow> approval_ok (keys db) (f a)"
  shows "sound db (decided_ledger t i f e db)"
  unfolding decided_ledger_def
  by (intro sound_intros) (simp_all add: assms update_approval_def)

lemma decide_approval_sound: "sound db (snd (decide_approval t i d by rsn db))"
proof (cases "decide_approval t i d by rsn db")
  case (Pair out db')
  then have "sound db db'"
  proof (cases rule: decide_approval_cases)
    case (expired a e x)
    then show ?thesis by (auto simp: row_defs intro!: decided_ledger_sound)
  next
    case (decided a e change)
    have "sound db (decided_ledger t i change e db)"
      by (rule decided_ledger_sound) (simp_all add: decided(7-9) approval_ok_def approval_fk_def)
    then show ?thesis
      unfolding decided(11)
      by (intro sound_log_audit) (auto simp: row_defs task_unique_def intro!: sound_update_task)
  qed simp_all
  with Pair show ?thesis by simp
qed

lemma check_approval_sound: "check_approval t i tid sh eid db = Inr db' \<Longrightarrow> sound db db'"
  by (auto simp: check_approval_def Let_def row_defs
      split: option.splits if_splits intro!: sound_intros)

lemma add_artifact_row_sound:
  "add_artifact_row t i pa tid eid ki sh si mt md db = Inr (r, db') \<Longrightarrow> sound db db'"
  by (auto simp: add_artifact_row_def Let_def row_defs
      split: option.splits if_splits intro!: sound_intros)

lemma approval_step_sound: "approval_step db db' \<Longrightarrow> sound db db'"
  by (induction rule: approval_step.induct)
     (auto dest: request_approval_sound check_approval_sound intro: decide_approval_sound)

lemma request_approval_status:
  "request_approval t j act rb tid eid rsn ttl md db = Inr (r, db') \<Longrightarrow> approval_status db i = Some a \<Longrightarrow>
   approval_status db' i = Some a"
  by (auto simp: request_approval_def Let_def approval_status_def fetch_add_approval
      split: option.splits if_splits)

lemma approval_status_update_key:
  "(\<And>a. ag_id (f a) = ag_id a) \<Longrightarrow>
   approval_status (update_approval (\<lambda>a. ag_id a = j) f db) i =
   (if i = j then map_option (\<lambda>a. ag_status (f a)) (fetch_approval db i) else approval_status db i)"
  by (cases "fetch_approval db i") (auto simp: approval_status_def dest: fetch_approvalD)

lemma approval_status_frame [simp]:
  "approval_status (update_task P1 f1 db) i = approval_status db i"
  "approval_status (update_execution P2 f2 db) i = approval_status db i"
  "approval_status (add_event e db) i = approval_status db i"
  "approval_status (log_audit t ac an ety eid de db) i = approval_status db i"
  by (simp_all add: approval_status_def)

lemma decide_approval_status:
  assumes "approval_status db i = Some a"
  shows "\<exists>b. approval_status (snd (decide_approval t j d by rsn db)) i = Some b \<and> (a = b \<or> approval_allowed a b)"
proof (cases "decide_approval t j d by rsn db")
  case (Pair out db')
  then have "\<exists>b. approval_status db' i = Some b \<and> (a = b \<or> approval_allowed a b)"
    using assms
    by (cases rule: decide_approval_cases; cases "i = j")
       (auto simp: decided_ledger_def approval_status_update_key approval_allowed_def approval_status_def [of db])
  with Pair show ?thesis by simp
qed

lemma check_approvalD:
  "check_approval t j tid sh eid db = Inr db' \<Longrightarrow>
   \<exists>a. fetch_approval db j = Some a \<and> ag_status a = ''approved'' \<and> ag_task_id a = Some tid \<and>
     ag_action a = ''workspace.write'' \<and> (\<exists>x. ag_expires_at a = Some x \<and> t < x) \<and>
     map_of (ag_metadata a) ''authorized_actor'' = Some (JStr (ag_decided_by a)) \<and> ag_decided_by a \<noteq> [] \<and>
     map_of (ag_metadata a) ''scope_hash'' = Some (JStr sh)"
  by (auto simp: check_approval_def Let_def split: option.splits if_splits)

lemma approval_status_after_check:
  assumes "check_approval t j tid sh eid db = Inr db'"
  shows "approval_status db' i = (if truthy_text eid \<and> i = j then Some ''consumed'' else approval_status db i)"
proof (cases "truthy_text eid")
  case False
  with assms have "db' = db" by (auto simp: check_approval_def Let_def split: option.splits if_splits)
  with False show ?thesis by simp
next
  case True
  with assms check_approvalD [OF assms] show ?thesis
    by (auto simp: check_approval_def Let_def approval_status_update_key split: if_splits)
qed

lemma check_approval_status:
  assumes "check_approval t j tid sh eid db = Inr db'" "approval_status db i = Some a"
  shows "\<exists>b. approval_status db' i = Some b \<and> (a = b \<or> approval_allowed a b)"
  unfolding approval_status_after_check [OF assms(1)]
  using check_approvalD [OF assms(1)] assms(2)
  by (auto simp: approval_allowed_def approval_status_def)

interpretation approval: recorded_system approval_step ledger_inv extends_logs
  by unfold_locales (auto dest!: approval_step_sound simp: sound_def extends_logs_def)

interpretation approval_life: status_machine approval_step approval_status approval_allowed
proof
  fix s t k a
  assume "approval_step s t" "approval_status s k = Some a"
  then show "\<exists>b. approval_status t k = Some b \<and> (a = b \<or> approval_allowed a b)"
    by (induction rule: approval_step.induct)
       (blast intro: request_approval_status decide_approval_status check_approval_status)+
qed

section \<open>On the sample ledger\<close>

lemma sample_fetch_approval: "fetch_approval sample_ledger ''a1'' = Some sample_approval"
  by (simp add: fetch_approval_def sample_defs)

lemma sample_decision:
  obtains a' db1 where
    "decide_approval 5000000 ''a1'' ''approved'' ''u1'' [] sample_ledger = (Inr a', db1)"
  by (simp add: decide_approval_def decide_pending_def Let_def sample_fetch_approval sample_approval_def
      actor_mismatch_def truthy.simps append_event_def event_fk_def sample_keys whole_second_def seconds_def)

section \<open>Properties\<close>

text \<open>The life of an approval, over every sequence of requests, decisions and uses of command approvals:
  a rejected, expired or consumed approval keeps its status for ever, and an approved one stays approved
  or has been consumed. In particular no approval is decided twice.\<close>

theorem approval_outcome_is_final:
  assumes "approval_step\<^sup>*\<^sup>* db db'" "fetch_approval db i = Some a" "ag_status a \<noteq> ''pending''"
  shows "\<exists>a'. fetch_approval db' i = Some a' \<and>
    (ag_status a' = ag_status a \<or> ag_status a = ''approved'' \<and> ag_status a' = ''consumed'')"
proof -
  from assms(2) have "approval_status db i = Some (ag_status a)" by (simp add: approval_status_def)
  from approval_life.run_status [OF assms(1) this]
  obtain b where b: "approval_status db' i = Some b" "approval_allowed\<^sup>*\<^sup>* (ag_status a) b" by blast
  from b(2) have "b = ag_status a \<or> ag_status a = ''approved'' \<and> b = ''consumed''"
    using assms(3) by (induction rule: rtranclp_induct) (auto simp: approval_allowed_def)
  with b(1) show ?thesis by (auto simp: approval_status_def)
qed

lemma approval_outcome_is_final_witness:
  "\<exists>a' db1. decide_approval 5000000 ''a1'' ''approved'' ''u1'' [] sample_ledger = (Inr a', db1) \<and>
     map_option ag_status (fetch_approval (snd (decide_approval 6000000 ''a1'' ''rejected'' ''u1'' [] db1)) ''a1'')
       \<in> {Some ''approved'', Some ''consumed''}"
proof -
  obtain a' db1 where d: "decide_approval 5000000 ''a1'' ''approved'' ''u1'' [] sample_ledger = (Inr a', db1)"
    by (rule sample_decision)
  then have a': "fetch_approval db1 ''a1'' = Some a'" "ag_status a' = ''approved''"
    by (cases rule: decide_approval_cases;
        auto simp: decided_ledger_def sample_fetch_approval sample_approval_def)+
  have "approval_step\<^sup>*\<^sup>* db1 (snd (decide_approval 6000000 ''a1'' ''rejected'' ''u1'' [] db1))"
    using approval_step.decide by blast
  from approval_outcome_is_final [OF this a'(1)] a'(2) d show ?thesis by auto
qed

text \<open>What a returned decision means: the approval was not an upload approval, the decider is the authorized
  actor when one is named, and either the same decision had already been recorded (and nothing changes) or
  the approval was pending and had not expired, and it now carries the decision, the decider and the
  redacted reason. A rejection blocks the task of the approval, an approval leaves every task alone.\<close>

theorem decision_is_authorized:
  assumes "decide_approval t i d by rsn db = (Inr a', db')"
  shows "\<exists>a. fetch_approval db i = Some a \<and> ag_action a \<noteq> ''discord.upload.pii'' \<and>
     \<not> actor_mismatch (ag_metadata a) by \<and> d \<in> {''approved'', ''rejected''} \<and>
     (a' = a \<and> db' = db \<and> ag_status a = d \<or>
      ag_status a = ''pending'' \<and> (\<forall>x. ag_expires_at a = Some x \<longrightarrow> whole_second t < x) \<and>
      a' = a\<lparr>ag_status := d, ag_decided_by := by, ag_reason := redact_text rsn, ag_decided_at := Some (whole_second t)\<rparr> \<and>
      fetch_approval db' i = Some a' \<and>
      (\<forall>j. fetch_task db' j =
        (if d = ''rejected'' \<and> truthy_text (ag_task_id a) \<and> ag_task_id a = Some j
         then map_option (\<lambda>k. k\<lparr>tk_status := ''blocked'', tk_updated_at := whole_second t\<rparr>) (fetch_task db j)
         else fetch_task db j)))"
  using assms
proof (cases rule: decide_approval_cases)
  case (repeated a)
  then show ?thesis by auto
next
  case (decided a e change)
  then have "fetch_approval db' i = Some a'" by (auto simp: decided_ledger_def dest: fetch_approvalD)
  moreover have "fetch_task db' j = (if d = ''rejected'' \<and> truthy_text (ag_task_id a) \<and> ag_task_id a = Some j
      then map_option (\<lambda>k. k\<lparr>tk_status := ''blocked'', tk_updated_at := whole_second t\<rparr>) (fetch_task db j)
      else fetch_task db j)" for j
    unfolding decided(10,11) by (auto simp: decided_ledger_def)
  ultimately show ?thesis using decided(1-6,9,10)
    by (intro exI [of _ a] conjI disjI2 allI) auto
qed simp_all

lemma decision_is_authorized_witness:
  "\<exists>a' db1. decide_approval 5000000 ''a1'' ''approved'' ''u1'' [] sample_ledger = (Inr a', db1) \<and>
     fetch_approval db1 ''a1'' = Some a' \<and> ag_decided_by a' = ''u1''"
proof -
  obtain a' db1 where d: "decide_approval 5000000 ''a1'' ''approved'' ''u1'' [] sample_ledger = (Inr a', db1)"
    by (rule sample_decision)
  from decision_is_authorized [OF d] have "fetch_approval db1 ''a1'' = Some a'" "ag_decided_by a' = ''u1''"
    by (auto simp: sample_fetch_approval sample_approval_def)
  with d show ?thesis by blast
qed



text \<open>Asking for an approval parks the work whatever state it is in: the named execution and task end up
  \<open>awaiting_approval\<close> even when they had already finished, so a request for a finished execution reopens it,
  which no transition of \<open>EXECUTION_TRANSITIONS\<close> can do.\<close>

theorem approval_request_parks:
  assumes "request_approval t i act rb (Some k) (Some x) rsn ttl md db = Inr (r, db')" "k \<noteq> []" "x \<noteq> []"
  shows "map_option ex_status (fetch_execution db' x) = map_option (\<lambda>e. ''awaiting_approval'') (fetch_execution db x) \<and>
    map_option tk_status (fetch_task db' k) = map_option (\<lambda>e. ''awaiting_approval'') (fetch_task db k) \<and>
    ag_status r = ''pending'' \<and> (\<exists>e. ag_expires_at r = Some e \<and> whole_second t + seconds 60 \<le> e)"
  using assms
  by (auto simp: request_approval_def Let_def option.map_comp comp_def seconds_def split: if_splits)

lemma approval_request_parks_witness:
  "\<exists>e db1 r db2. transition_execution 5000000 ''e1'' ''succeeded'' sample_args sample_ledger = Inr (e, db1) \<and>
     ex_status e = ''succeeded'' \<and>
     request_approval 6000000 ''a2'' ''push'' ''u1'' (Some ''t1'') (Some ''e1'') [] 600 [] db1 = Inr (r, db2) \<and>
     map_option ex_status (fetch_execution db2 ''e1'') = Some ''awaiting_approval''"
proof -
  obtain e db1 where s: "transition_execution 5000000 ''e1'' ''succeeded'' sample_args sample_ledger = Inr (e, db1)"
    by (rule sample_transition)
  then have e: "fetch_execution db1 ''e1'' = Some e" "ex_status e = ''succeeded''" by (auto elim!: transition_executionE)
  have k: "keys db1 = keys sample_ledger" "approvals db1 = [sample_approval]"
    using transition_execution_frame [OF s] by (simp_all add: sample_ledger_def)
  then obtain r db2 where q:
    "request_approval 6000000 ''a2'' ''push'' ''u1'' (Some ''t1'') (Some ''e1'') [] 600 [] db1 = Inr (r, db2)"
    by (simp add: request_approval_def Let_def insert_approval_def clash_def sample_approval_def approval_fk_def
        sample_keys append_event_def event_fk_def)
  from approval_request_parks [OF q] s e q show ?thesis by auto
qed

end
