(* ===== verification/Legacy_Mirror.thy ===== *)
theory Legacy_Mirror
  imports Ledger_Tasks
begin

text \<open>
  The import of messenger requests into the ledger: \<open>mirror_legacy_request\<close> and
  \<open>reconcile_legacy_requests\<close> of \<open>src/nyanya_agent/execution_store.py\<close>, with \<open>safe_summary\<close> of
  \<open>src/nyanya_agent/database.py\<close>. The SHA-256 hex digest of a request id is the parameter \<open>H\<close>. The
  column defaults of the two \<open>INSERT\<close> statements are those of the tables.
\<close>

definition ELLIPSIS :: string where
  "ELLIPSIS = '' ...[truncated]''"

text \<open>\<open>safe_summary(text, limit)\<close> for a limit of at least the 15 characters of the mark.\<close>

definition safe_summary :: "string \<Rightarrow> nat \<Rightarrow> string" where
  "safe_summary s n =
     (let compact = join_with '' '' (split_ws s) in
      if len_cp compact \<le> n then compact else rstrip (take_cp (n - 15) compact) @ ELLIPSIS)"

definition legacy_ids :: "(string \<Rightarrow> string) \<Rightarrow> string \<Rightarrow> string \<times> string" where
  "legacy_ids H request_id =
     (let digest = take 16 (H request_id) in (''task_legacy_'' @ digest, ''exec_legacy_'' @ digest))"

definition lookup_or :: "(string \<times> string) list \<Rightarrow> string \<Rightarrow> string \<Rightarrow> string" where
  "lookup_or table k dflt = (case map_of table k of None \<Rightarrow> dflt | Some v \<Rightarrow> v)"

definition legacy_task_status :: "string \<Rightarrow> string" where
  "legacy_task_status s = lookup_or
     [(''received'', ''queued''), (''queued'', ''queued''), (''running'', ''running''), (''completed'', ''completed''),
      (''failed'', ''failed''), (''cancelled'', ''cancelled''), (''ignored'', ''cancelled'')] s ''blocked''"

definition legacy_execution_status :: "string \<Rightarrow> string" where
  "legacy_execution_status s = lookup_or
     [(''received'', ''pending''), (''queued'', ''pending''), (''running'', ''running''), (''completed'', ''succeeded''),
      (''failed'', ''failed''), (''cancelled'', ''cancelled''), (''ignored'', ''cancelled'')] s ''lost''"

definition legacy_skipped :: "request_row \<Rightarrow> bool" where
  "legacy_skipped r \<longleftrightarrow> rq_mode r \<in> {''control'', ''access_control'', ''ignored''}"

definition first_text :: "string list \<Rightarrow> string" where
  "first_text xs = (case dropWhile (\<lambda>x. x = []) xs of [] \<Rightarrow> [] | x # _ \<Rightarrow> x)"

definition legacy_title :: "request_row \<Rightarrow> string" where
  "legacy_title r = safe_summary (first_text [rq_command r, rq_prompt r, ''Messenger request'']) 120"

definition legacy_completed :: "request_row \<Rightarrow> string \<Rightarrow> time option" where
  "legacy_completed r status = (if status \<in> set TASK_TERMINAL_STATUSES then rq_ended_at r else None)"

definition source_metadata :: "string \<Rightarrow> dict" where
  "source_metadata request_id = [(''source_request_id'', JStr request_id)]"

text \<open>The task half: imported, brought up to date, or left alone.\<close>

definition mirror_task :: "time \<Rightarrow> string \<Rightarrow> request_row \<Rightarrow> ledger \<Rightarrow> ledger result" where
  "mirror_task t task_id r db =
     (let status = legacy_task_status (rq_status r); request_id = rq_id r in
      case fetch_task db task_id of
        None \<Rightarrow>
          try_bind (insert_task
            \<lparr>tk_id = task_id, tk_source_request_id = Some request_id, tk_title = legacy_title r,
             tk_prompt = rq_prompt r, tk_status = status, tk_priority = 100,
             tk_requested_by = (if rq_user_id r \<noteq> [] then rq_source r @ ''-user:'' @ rq_user_id r else ''operator''),
             tk_assigned_agent_id = None, tk_current_execution_id = None,
             tk_metadata = [(''legacy'', JBool True), (''channel_id'', JStr (rq_channel_id r))],
             tk_created_at = rq_created_at r, tk_updated_at = rq_updated_at r,
             tk_completed_at = legacy_completed r status, tk_project_id = None, tk_codex_session_id = None\<rparr> db) (\<lambda>db1.
          append_event t ''legacy.request_imported'' (Some task_id) None status
            ''Legacy messenger request imported'' (source_metadata request_id) db1)
      | Some k \<Rightarrow>
          if tk_status k \<noteq> status then
            append_event t ''legacy.request_status'' (Some task_id) None status
              (''Legacy request status synchronized to '' @ status) (source_metadata request_id)
              (update_task (\<lambda>k. tk_id k = task_id)
                 (\<lambda>k. k\<lparr>tk_status := status, tk_updated_at := rq_updated_at r,
                        tk_completed_at := legacy_completed r status\<rparr>) db)
          else Inr db)"

definition mirror_execution :: "time \<Rightarrow> string \<Rightarrow> string \<Rightarrow> request_row \<Rightarrow> ledger \<Rightarrow> ledger result" where
  "mirror_execution t task_id execution_id r db =
     (let status = legacy_execution_status (rq_status r); request_id = rq_id r in
      case fetch_execution db execution_id of
        None \<Rightarrow>
          try_bind (insert_execution
            \<lparr>ex_id = execution_id, ex_task_id = task_id, ex_host_id = None, ex_agent_profile_id = None,
             ex_adapter_type = first_text [rq_provider r, rq_mode r, ''messenger''], ex_status = status,
             ex_status_confidence = 1, ex_command_summary = legacy_title r, ex_workdir = [], ex_exit_code = None,
             ex_error = [], ex_metadata = [(''legacy'', JBool True), (''source_request_id'', JStr request_id)],
             ex_created_at = rq_created_at r, ex_started_at = rq_started_at r, ex_ended_at = rq_ended_at r,
             ex_last_heartbeat_at = Some (rq_updated_at r), ex_updated_at = rq_updated_at r\<rparr> db) (\<lambda>db1.
          append_event t ''legacy.execution_imported'' (Some task_id) (Some execution_id) status
            ''Legacy execution imported'' (source_metadata request_id)
            (update_task (\<lambda>k. tk_id k = task_id) (\<lambda>k. k\<lparr>tk_current_execution_id := Some execution_id\<rparr>) db1))
      | Some e \<Rightarrow>
          if ex_status e \<noteq> status then
            append_event t ''legacy.execution_status'' (Some task_id) (Some execution_id) status
              (''Legacy execution synchronized to '' @ status) (source_metadata request_id)
              (update_execution (\<lambda>e. ex_id e = execution_id)
                 (\<lambda>e. e\<lparr>ex_status := status, ex_exit_code := (if status = ''succeeded'' then Some 0 else None),
                        ex_error := redact_text (rq_error r), ex_started_at := rq_started_at r,
                        ex_ended_at := rq_ended_at r, ex_last_heartbeat_at := Some (rq_updated_at r),
                        ex_updated_at := rq_updated_at r\<rparr>) db)
          else Inr db)"

definition mirror_legacy_request ::
  "(string \<Rightarrow> string) \<Rightarrow> time \<Rightarrow> string \<Rightarrow> ledger \<Rightarrow> (string option \<times> ledger) result" where
  "mirror_legacy_request H t request_id db =
     (let (task_id, execution_id) = legacy_ids H request_id in
      case List.find (\<lambda>r. rq_id r = request_id) (agent_requests db) of
        None \<Rightarrow> Inr (None, db)
      | Some r \<Rightarrow>
          if legacy_skipped r then Inr (None, db)
          else (case List.find (\<lambda>k. tk_source_request_id k = Some request_id) (agent_tasks db) of
                  Some adopted \<Rightarrow> Inr (Some (tk_id adopted), db)
                | None \<Rightarrow>
                    try_bind (mirror_task t task_id r db) (\<lambda>db1.
                    try_bind (mirror_execution t task_id execution_id r db1) (\<lambda>db2.
                    Inr (Some task_id, update_task (\<lambda>k. tk_id k = task_id)
                      (\<lambda>k. k\<lparr>tk_updated_at := rq_updated_at r\<rparr>) db2)))))"

text \<open>
  Each request is mirrored in a transaction of its own, so a failing one ends the pass with the earlier
  ones committed; the outcome pairs the exception or the two counts with the ledger.
\<close>

fun mirror_all :: "(string \<Rightarrow> string) \<Rightarrow> time \<Rightarrow> string list \<Rightarrow> nat \<Rightarrow> ledger \<Rightarrow> nat result \<times> ledger" where
  "mirror_all H t [] imported db = (Inr imported, db)"
| "mirror_all H t (i # is) imported db =
     (case mirror_legacy_request H t i db of
        Inl e \<Rightarrow> (Inl e, db)
      | Inr (task_id, db1) \<Rightarrow> mirror_all H t is (if truthy_text task_id then Suc imported else imported) db1)"

definition unmirrored :: "ledger \<Rightarrow> request_row list" where
  "unmirrored db = filter (\<lambda>r. \<not> legacy_skipped r \<and>
     \<not> (\<exists>k\<in>set (agent_tasks db). tk_source_request_id k = Some (rq_id r))) (agent_requests db)"

definition reconcile_legacy_requests ::
  "(string \<Rightarrow> string) \<Rightarrow> time \<Rightarrow> int \<Rightarrow> ledger \<Rightarrow> (nat \<times> nat) result \<times> ledger" where
  "reconcile_legacy_requests H t n db =
     (let request_ids = map rq_id (limit n (order_by rq_created_at (unmirrored db))) in
      case mirror_all H t request_ids 0 db of
        (Inl e, db1) \<Rightarrow> (Inl e, db1)
      | (Inr imported, db1) \<Rightarrow> (Inr (length request_ids, imported), db1))"

section \<open>Lemmas\<close>

lemma not_secret_legacy [simp]: "\<not> secret_key ''legacy''" "\<not> secret_key ''channel_id''"
  "\<not> secret_key ''source_request_id''"
  by code_simp+

lemma mirror_task_sound: "mirror_task t i r db = Inr db' \<Longrightarrow> sound db db'"
  by (auto simp: mirror_task_def Let_def row_defs task_unique_def split: option.splits if_splits intro!: sound_intros)

lemma mirror_execution_sound: "mirror_execution t i x r db = Inr db' \<Longrightarrow> sound db db'"
  by (auto simp: mirror_execution_def Let_def row_defs task_unique_def split: option.splits if_splits intro!: sound_intros)

lemma mirror_legacy_request_sound: "mirror_legacy_request H t i db = Inr (k, db') \<Longrightarrow> sound db db'"
  by (auto simp: mirror_legacy_request_def task_unique_def row_defs split: prod.splits option.splits if_splits
      dest!: mirror_task_sound mirror_execution_sound intro!: sound_update_task elim: sound_trans)

text \<open>Who was imported from which request: all that the search for unmirrored requests depends on.\<close>

definition sources :: "ledger \<Rightarrow> (string \<times> string option) list" where
  "sources db = map (\<lambda>k. (tk_id k, tk_source_request_id k)) (agent_tasks db)"

lemma unmirrored_alt:
  "unmirrored db = filter (\<lambda>r. \<not> legacy_skipped r \<and> Some (rq_id r) \<notin> snd ` set (sources db)) (agent_requests db)"
  unfolding unmirrored_def by (rule filter_cong) (force simp: sources_def)+

lemma fetch_task_None: "fetch_task db i = None \<longleftrightarrow> i \<notin> fst ` set (sources db)"
  by (force simp: fetch_task_def find_None_iff sources_def)

lemma sources_frame [simp]:
  "sources (update_execution P f db) = sources db"
  "sources (add_execution r db) = sources db"
  "sources (add_event e db) = sources db"
  "sources (add_task k db) = sources db @ [(tk_id k, tk_source_request_id k)]"
  "(\<And>k. tk_id (g k) = tk_id k \<and> tk_source_request_id (g k) = tk_source_request_id k) \<Longrightarrow>
     sources (update_task Q g db) = sources db"
  "agent_requests (update_execution P f db) = agent_requests db"
  "agent_requests (add_execution r db) = agent_requests db"
  "agent_requests (add_event e db) = agent_requests db"
  "agent_requests (add_task k db) = agent_requests db"
  "agent_requests (update_task Q g db) = agent_requests db"
  by (simp_all add: sources_def statement_defs)

lemma mirror_execution_frame:
  "mirror_execution t i x r db = Inr db' \<Longrightarrow> agent_requests db' = agent_requests db \<and> sources db' = sources db"
  by (auto simp: mirror_execution_def Let_def split: option.splits if_splits)

abbreviation legacy_task_id :: "(string \<Rightarrow> string) \<Rightarrow> string \<Rightarrow> string" where
  "legacy_task_id H i \<equiv> fst (legacy_ids H i)"

lemma mirror_fresh:
  assumes "mirror_legacy_request H t i db = Inr (x, db1)" "ledger_inv db"
    and "r \<in> set (unmirrored db)" "rq_id r = i" "legacy_task_id H i \<notin> fst ` set (sources db)"
  shows "x = Some (legacy_task_id H i) \<and> agent_requests db1 = agent_requests db \<and>
    sources db1 = sources db @ [(legacy_task_id H i, Some i)]"
proof -
  from assms(2) have "distinct (map rq_id (agent_requests db))"
    by (simp add: ledger_inv_def inv_at_def table_inv_def)
  then have r: "List.find (\<lambda>r. rq_id r = i) (agent_requests db) = Some r"
    using assms(3,4) find_key_unique by (fastforce simp: unmirrored_def)
  have new: "List.find (\<lambda>k. tk_source_request_id k = Some i) (agent_tasks db) = None" "\<not> legacy_skipped r"
    using assms(3,4) by (auto simp: find_None_iff unmirrored_def)
  have fresh: "fetch_task db (legacy_task_id H i) = None" using assms(5) by (simp add: fetch_task_None)
  with assms(1) r new assms(4) show ?thesis
    by (auto simp: mirror_legacy_request_def mirror_task_def Let_def split_beta dest!: mirror_execution_frame)
qed

lemma mirror_all_fresh:
  assumes "mirror_all H t is m db = (Inr m', db')" "ledger_inv db"
    and "set is \<subseteq> rq_id ` set (unmirrored db)" "distinct is" "inj_on (legacy_task_id H) (set is)"
    and "legacy_task_id H ` set is \<inter> fst ` set (sources db) = {}"
  shows "m' = m + length is \<and> agent_requests db' = agent_requests db \<and>
    sources db' = sources db @ map (\<lambda>i. (legacy_task_id H i, Some i)) is"
  using assms
proof (induction H t "is" m db rule: mirror_all.induct)
  case (2 H t i "is" m db)
  then obtain x db1 where step: "mirror_legacy_request H t i db = Inr (x, db1)" by (auto split: sum.splits)
  from 2(4) obtain r where r: "r \<in> set (unmirrored db)" "rq_id r = i" by auto
  from mirror_fresh [OF step 2(3) r] 2(7) have
    one: "x = Some (legacy_task_id H i)" "agent_requests db1 = agent_requests db"
      "sources db1 = sources db @ [(legacy_task_id H i, Some i)]" by auto
  have inv: "ledger_inv db1" using mirror_legacy_request_sound [OF step] 2(3) by (simp add: sound_def)
  have "legacy_task_id H i \<noteq> []" by (simp add: legacy_ids_def Let_def)
  then have rest: "mirror_all H t is (Suc m) db1 = (Inr m', db')" using 2(2) step one(1) by simp
  have ne: "j \<noteq> i" "legacy_task_id H j \<noteq> legacy_task_id H i" if "j \<in> set is" for j
    using 2(5,6) that by (auto simp: inj_on_def)
  have "set is \<subseteq> rq_id ` set (unmirrored db1)"
  proof
    fix j assume j: "j \<in> set is"
    then obtain q where "q \<in> set (unmirrored db)" "rq_id q = j" using 2(4) by auto
    with ne(1) [OF j] show "j \<in> rq_id ` set (unmirrored db1)"
      by (auto simp: unmirrored_alt one(2,3) intro!: rev_image_eqI [of q])
  qed
  moreover have "legacy_task_id H ` set is \<inter> fst ` set (sources db1) = {}"
    using 2(7) by (auto simp: one(3) dest: ne(2))
  moreover have "distinct is" "inj_on (legacy_task_id H) (set is)" using 2(5,6) by (auto simp: inj_on_def)
  ultimately have "m' = Suc m + length is \<and> agent_requests db' = agent_requests db1 \<and>
      sources db' = sources db1 @ map (\<lambda>i. (legacy_task_id H i, Some i)) is"
    using 2(1) [OF step refl] rest inv one(1) \<open>legacy_task_id H i \<noteq> []\<close> by simp
  with one show ?case by simp
qed simp

lemma len_cp_append [simp]: "len_cp (xs @ ys) = len_cp xs + len_cp ys"
  by (simp add: len_cp_def)

lemma len_cp_rev [simp]: "len_cp (rev xs) = len_cp xs"
  by (simp add: len_cp_def rev_filter [symmetric])

lemma len_cp_dropWhile: "len_cp (dropWhile P xs) \<le> len_cp xs"
  by (induction xs) (auto simp: len_cp_def)

lemma len_cp_rstrip: "len_cp (rstrip s) \<le> len_cp s"
  using len_cp_dropWhile [of is_space "rev s"] by (simp add: rstrip_def)

section \<open>Properties\<close>

text \<open>A summary has at most the characters asked for, the truncation mark included, for every text and every
  limit that has room for the mark.\<close>

theorem safe_summary_bound:
  assumes "15 \<le> n"
  shows "len_cp (safe_summary s n) \<le> n"
proof -
  have "len_cp (rstrip (take_cp (n - 15) c)) \<le> n - 15" for c
    using len_cp_rstrip len_take_cp le_trans by blast
  moreover have "len_cp ELLIPSIS = 15" by code_simp
  ultimately show ?thesis using assms by (auto simp: safe_summary_def Let_def simp flip: le_diff_conv2)
qed

lemma safe_summary_bound_witness:
  "len_cp (safe_summary ''a  long text of a request'' 20) \<le> 20 \<and>
   safe_summary ''a  long text of a request'' 20 = ''a lon ...[truncated]''"
proof (intro conjI)
  show "len_cp (safe_summary ''a  long text of a request'' 20) \<le> 20" by (rule safe_summary_bound) simp
  show "safe_summary ''a  long text of a request'' 20 = ''a lon ...[truncated]''" by code_simp
qed

text \<open>Draining the backlog makes progress. When the digests of the scanned requests differ and their task
  ids are not in use, a pass of \<open>reconcile_legacy_requests\<close> that returns imports every request it
  scanned, and the backlog shrinks by exactly that many; so the loop that repeats the pass until nothing
  is scanned ends after at most as many passes as there are requests waiting.\<close>

theorem reconcile_progress:
  assumes "reconcile_legacy_requests H t n db = (Inr (scanned, imported), db')" "ledger_inv db"
    and "inj_on (legacy_task_id H) (rq_id ` set (unmirrored db))"
    and "legacy_task_id H ` rq_id ` set (unmirrored db) \<inter> tk_id ` set (agent_tasks db) = {}"
  shows "imported = scanned \<and> length (unmirrored db') + scanned = length (unmirrored db) \<and>
    agent_requests db' = agent_requests db \<and> (n \<noteq> 0 \<longrightarrow> unmirrored db \<noteq> [] \<longrightarrow> 0 < scanned)"
proof -
  define chosen where "chosen = limit n (order_by rq_created_at (unmirrored db))"
  let ?is = "map rq_id chosen"
  have sub: "set chosen \<subseteq> set (unmirrored db)" using set_limit by (fastforce simp: chosen_def)
  have dist: "distinct (map rq_id (agent_requests db))"
    using assms(2) by (simp add: ledger_inv_def inv_at_def table_inv_def)
  then have distu: "distinct (map rq_id (unmirrored db))" by (simp add: unmirrored_def distinct_map_filter)
  have "distinct (map rq_id (order_by rq_created_at (unmirrored db)))"
    using distu by (simp add: distinct_map order_by_def)
  then have distc: "distinct ?is" by (auto simp: chosen_def limit_def take_map [symmetric])
  from assms(1) have all: "mirror_all H t ?is 0 db = (Inr imported, db')" and sc: "scanned = length chosen"
    by (auto simp: reconcile_legacy_requests_def Let_def chosen_def split: prod.splits sum.splits)
  have "imported = length chosen \<and> agent_requests db' = agent_requests db \<and>
      sources db' = sources db @ map (\<lambda>i. (legacy_task_id H i, Some i)) ?is"
    using mirror_all_fresh [OF all assms(2) _ distc] sub inj_on_subset [OF assms(3), of "rq_id ` set chosen"]
      assms(4) by (fastforce simp: sources_def image_image)
  then have imp: "imported = length chosen" and rq: "agent_requests db' = agent_requests db"
    and src: "sources db' = sources db @ map (\<lambda>i. (legacy_task_id H i, Some i)) ?is" by auto
  have left: "unmirrored db' = filter (\<lambda>r. rq_id r \<notin> set ?is) (unmirrored db)"
    unfolding unmirrored_alt rq src filter_filter
    by (rule filter_cong) (auto simp: image_Un image_image)
  have "set (filter (\<lambda>r. rq_id r \<in> set ?is) (unmirrored db)) = set chosen"
    using sub distu by (auto simp: distinct_map inj_on_def)
  moreover have "distinct chosen" "distinct (unmirrored db)" using distc distu by (auto simp: distinct_map)
  ultimately have "length (filter (\<lambda>r. rq_id r \<in> set ?is) (unmirrored db)) = length chosen"
    by (metis distinct_card distinct_filter)
  then have "length (unmirrored db') + scanned = length (unmirrored db)"
    using sum_length_filter_compl [of "\<lambda>r. rq_id r \<in> set ?is" "unmirrored db"] by (simp add: left sc)
  moreover have "0 < scanned" if "n \<noteq> 0" "unmirrored db \<noteq> []"
    using that by (cases "unmirrored db") (auto simp: sc chosen_def limit_def order_by_def)
  ultimately show ?thesis using imp sc rq by blast
qed

lemma reconcile_progress_witness:
  "\<exists>db'. reconcile_legacy_requests (\<lambda>s. s) 5 500 (add_request sample_request sample_ledger) = (Inr (1, 1), db') \<and>
     unmirrored db' = []"
proof -
  let ?db = "add_request sample_request sample_ledger"
  have rid: "rq_id sample_request = ''r1''" by (simp add: sample_request_def)
  have waiting: "unmirrored ?db = [sample_request]" by code_simp
  have "\<exists>db'. mirror_legacy_request (\<lambda>s. s) 5 ''r1'' ?db = Inr (Some ''task_legacy_r1'', db')"
    by (simp add: mirror_legacy_request_def legacy_ids_def Let_def mirror_task_def mirror_execution_def
        fetch_task_def fetch_execution_def insert_task_def insert_execution_def append_event_def clash_def
        event_fk_def task_fk_def execution_fk_def task_unique_def legacy_skipped_def statement_defs keys_def
        sample_defs sample_request_def)
  then obtain db' where step: "reconcile_legacy_requests (\<lambda>s. s) 5 500 ?db = (Inr (1, 1), db')"
    by (auto simp: reconcile_legacy_requests_def waiting order_by_def limit_def rid Let_def)
  have "sound sample_ledger ?db"
    by (intro sound_intros) (simp_all add: clash_def sample_defs row_defs)
  then have inv: "ledger_inv ?db" using sample_ledger_inv by (simp add: sound_def)
  have tasks: "agent_tasks ?db = [sample_task]" by (simp add: add_request_def sample_ledger_def)
  from reconcile_progress [OF step inv] have "length (unmirrored db') + 1 = length (unmirrored ?db)"
    by (simp add: waiting tasks legacy_ids_def Let_def sample_task_def rid)
  with step show ?thesis by (simp add: waiting)
qed

end
