(* ===== verification/Json_Text.thy ===== *)
theory Json_Text
  imports Json_Values
begin

text \<open>
  The text of a JSON value: \<open>json.dumps(value, ensure_ascii=False, sort_keys=True)\<close>, which writes it, and
  \<open>json.loads\<close>, which reads it, both on UTF-8 bytes. The reader takes every document of the format but floats, which
  the values of the model do not have and which it refuses; a dictionary keeps the last value of a repeated key, an
  escaped surrogate pair is one character. The recursion takes a bound, twice the length of the text, which is always enough (\<open>json_enough\<close>).
\<close>

section \<open>Writing\<close>

abbreviation quote :: char where "quote \<equiv> CHR 0x22"

abbreviation backslash :: char where "backslash \<equiv> CHR 0x5C"

definition hex_digit :: "nat \<Rightarrow> char" where
  "hex_digit n = (if n < 10 then char_of (48 + n) else char_of (87 + n))"

definition escape_char :: "char \<Rightarrow> string" where
  "escape_char c = (let n = (of_char c :: nat) in
     if n = 34 then [char_of (92::nat), char_of (34::nat)]
     else if n = 92 then [char_of (92::nat), char_of (92::nat)]
     else if n = 10 then char_of (92::nat) # ''n''
     else if n = 13 then char_of (92::nat) # ''r''
     else if n = 9 then char_of (92::nat) # ''t''
     else if n = 12 then char_of (92::nat) # ''f''
     else if n = 8 then char_of (92::nat) # ''b''
     else if n < 32 then char_of (92::nat) # ''u00'' @ [hex_digit (n div 16), hex_digit (n mod 16)]
     else [c])"

definition json_string :: "string \<Rightarrow> string" where
  "json_string s = char_of (34::nat) # concat (map escape_char s) @ [char_of (34::nat)]"

fun digits_of :: "nat \<Rightarrow> string" where
  "digits_of n = (if n < 10 then [char_of (48 + n)] else digits_of (n div 10) @ [char_of (48 + n mod 10)])"

declare digits_of.simps [simp del]

definition show_int :: "int \<Rightarrow> string" where
  "show_int i = (if i < 0 then ''-'' @ digits_of (nat (- i)) else digits_of (nat i))"

fun dumps_json :: "json \<Rightarrow> string" where
  "dumps_json JNull = ''null''"
| "dumps_json (JBool b) = (if b then ''true'' else ''false'')"
| "dumps_json (JInt i) = show_int i"
| "dumps_json (JStr s) = json_string s"
| "dumps_json (JList xs) = ''['' @ join_with '', '' (map dumps_json xs) @ '']''"
| "dumps_json (JObj d) = ''{'' @ join_with '', ''
     (map (\<lambda>(k, s). json_string k @ '': '' @ s) (sort_key fst (map (\<lambda>(k, v). (k, dumps_json v)) d))) @ ''}''"

section \<open>Reading\<close>

text \<open>Whitespace and digits\<close>

definition skip_ws :: "string \<Rightarrow> string" where
  "skip_ws s = dropWhile (\<lambda>c. c \<in> {CHR '' '', CHR 0x09, CHR 0x0A, CHR 0x0D}) s"

definition is_digit :: "char \<Rightarrow> bool" where
  "is_digit c \<longleftrightarrow> (let n = (of_char c :: nat) in 48 \<le> n \<and> n \<le> 57)"

definition digits_value :: "string \<Rightarrow> nat" where
  "digits_value s = foldl (\<lambda>n c. 10 * n + (of_char c - 48)) 0 s"

definition hex_value :: "char \<Rightarrow> nat option" where
  "hex_value c = (let n = (of_char c :: nat) in
     if 48 \<le> n \<and> n \<le> 57 then Some (n - 48)
     else if 65 \<le> n \<and> n \<le> 70 then Some (n - 55)
     else if 97 \<le> n \<and> n \<le> 102 then Some (n - 87) else None)"

fun hex4 :: "string \<Rightarrow> (nat \<times> string) option" where
  "hex4 (a # b # c # d # s) =
     (case (hex_value a, hex_value b, hex_value c, hex_value d) of
        (Some w, Some x, Some y, Some z) \<Rightarrow> Some (w * 4096 + x * 256 + y * 16 + z, s)
      | _ \<Rightarrow> None)"
| "hex4 _ = None"

text \<open>The bytes of a code point; a lone surrogate, which Python keeps, is encoded as the code point it is.\<close>

definition encode_cp :: "nat \<Rightarrow> string" where
  "encode_cp n =
     (if n < 128 then [char_of n]
      else if n < 2048 then [char_of (192 + n div 64), char_of (128 + n mod 64)]
      else if n < 65536 then [char_of (224 + n div 4096), char_of (128 + n div 64 mod 64), char_of (128 + n mod 64)]
      else [char_of (240 + n div 262144), char_of (128 + n div 4096 mod 64), char_of (128 + n div 64 mod 64),
            char_of (128 + n mod 64)])"

definition read_unicode :: "string \<Rightarrow> (string \<times> string) option" where
  "read_unicode s = (case hex4 s of None \<Rightarrow> None
     | Some (n, r) \<Rightarrow>
         if 55296 \<le> n \<and> n \<le> 56319 \<and> starts_with [backslash, CHR ''u''] r
         then (case hex4 (drop 2 r) of None \<Rightarrow> None
           | Some (m, q) \<Rightarrow>
               if 56320 \<le> m \<and> m \<le> 57343 then Some (encode_cp (65536 + (n - 55296) * 1024 + (m - 56320)), q)
               else Some (encode_cp n, r))
         else Some (encode_cp n, r))"

definition ESCAPES :: "(char \<times> char) list" where
  "ESCAPES = [(quote, quote), (backslash, backslash), (CHR ''/'', CHR ''/''), (CHR ''b'', CHR 0x08), (CHR ''f'', CHR 0x0C),
     (CHR ''n'', CHR 0x0A), (CHR ''r'', CHR 0x0D), (CHR ''t'', CHR 0x09)]"

text \<open>One character of a text, or one escape: what it stands for and what follows it. Control characters are refused.\<close>

definition read_unit :: "char \<Rightarrow> string \<Rightarrow> (string \<times> string) option" where
  "read_unit c s =
     (if (of_char c :: nat) < 32 then None
      else if c \<noteq> backslash then Some ([c], s)
      else (case s of [] \<Rightarrow> None
        | e # r \<Rightarrow> if e = CHR ''u'' then read_unicode r
            else (case map_of ESCAPES e of None \<Rightarrow> None | Some x \<Rightarrow> Some ([x], r))))"

lemma hex4_length: "hex4 s = Some (n, r) \<Longrightarrow> length r < length s"
  by (induction s rule: hex4.induct) (auto split: option.splits)

lemma read_unit_length: "read_unit c s = Some (u, r) \<Longrightarrow> length r \<le> length s"
  by (auto simp: read_unit_def read_unicode_def split: if_splits list.splits option.splits prod.splits dest!: hex4_length)

function read_chars :: "string \<Rightarrow> (string \<times> string) option" where
  "read_chars [] = None"
| "read_chars (c # s) =
     (if c = quote then Some ([], s)
      else (case read_unit c s of None \<Rightarrow> None
        | Some (u, r) \<Rightarrow> (case read_chars r of None \<Rightarrow> None | Some (v, q) \<Rightarrow> Some (u @ v, q))))"
  by pat_completeness auto
termination
  by (relation "measure length") (auto simp: less_Suc_eq_le dest: read_unit_length)

text \<open>A number: an integer without leading zeros. A fraction or an exponent makes it a float.\<close>

definition float_tail :: "string \<Rightarrow> bool" where
  "float_tail s = (case s of
       c # d # r \<Rightarrow> (c = CHR ''.'' \<and> is_digit d) \<or>
         (c \<in> {CHR ''e'', CHR ''E''} \<and> (is_digit d \<or> d \<in> {CHR ''+'', CHR ''-''} \<and> r \<noteq> [] \<and> is_digit (hd r)))
     | _ \<Rightarrow> False)"

definition read_digits :: "string \<Rightarrow> (int \<times> string) option" where
  "read_digits s =
     (let ds = (if starts_with ''0'' s then ''0'' else takeWhile is_digit s); q = drop (length ds) s
      in if ds = [] \<or> float_tail q then None else Some (int (digits_value ds), q))"

definition read_atom :: "string \<Rightarrow> (json \<times> string) option" where
  "read_atom s =
     (if starts_with ''null'' s then Some (JNull, drop 4 s)
      else if starts_with ''true'' s then Some (JBool True, drop 4 s)
      else if starts_with ''false'' s then Some (JBool False, drop 5 s)
      else if starts_with ''-'' s then map_option (\<lambda>(i, q). (JInt (- i), q)) (read_digits (drop 1 s))
      else map_option (\<lambda>(i, q). (JInt i, q)) (read_digits s))"

fun json_value :: "nat \<Rightarrow> string \<Rightarrow> (json \<times> string) option"
and json_items :: "nat \<Rightarrow> string \<Rightarrow> (json list \<times> string) option"
and json_members :: "nat \<Rightarrow> string \<Rightarrow> (dict \<times> string) option" where
  "json_value 0 s = None"
| "json_value (Suc n) s =
     (case s of [] \<Rightarrow> None
      | c # r \<Rightarrow>
          if c = quote then map_option (\<lambda>(t, q). (JStr t, q)) (read_chars r)
          else if c = CHR ''['' then
            (if starts_with '']'' (skip_ws r) then Some (JList [], tl (skip_ws r))
             else map_option (\<lambda>(vs, q). (JList vs, q)) (json_items n (skip_ws r)))
          else if c = CHR ''{'' then
            (if starts_with ''}'' (skip_ws r) then Some (JObj [], tl (skip_ws r))
             else map_option (\<lambda>(d, q). (JObj (dict_update [] d), q)) (json_members n (skip_ws r)))
          else read_atom s)"
| "json_items 0 s = None"
| "json_items (Suc n) s =
     (case json_value n s of None \<Rightarrow> None
      | Some (v, r) \<Rightarrow>
          (case skip_ws r of [] \<Rightarrow> None
           | c # q \<Rightarrow>
               if c = CHR '','' then map_option (\<lambda>(vs, q). (v # vs, q)) (json_items n (skip_ws q))
               else if c = CHR '']'' then Some ([v], q) else None))"
| "json_members 0 s = None"
| "json_members (Suc n) s =
     (if \<not> starts_with [quote] s then None
      else (case read_chars (tl s) of None \<Rightarrow> None
        | Some (k, r) \<Rightarrow>
            if \<not> starts_with '':'' (skip_ws r) then None
            else (case json_value n (skip_ws (tl (skip_ws r))) of None \<Rightarrow> None
              | Some (v, r) \<Rightarrow>
                  (case skip_ws r of [] \<Rightarrow> None
                   | c # q \<Rightarrow>
                       if c = CHR '','' then map_option (\<lambda>(d, q). ((k, v) # d, q)) (json_members n (skip_ws q))
                       else if c = CHR ''}'' then Some ([(k, v)], q) else None))))"

text \<open>\<open>json.loads\<close>; \<open>JSONDecodeError\<close> is a \<open>ValueError\<close>.\<close>

definition loads_json :: "string \<Rightarrow> json result" where
  "loads_json s = (case json_value (2 * length s) (skip_ws s) of
       None \<Rightarrow> Inl (ValueError ''Expecting value'')
     | Some (v, r) \<Rightarrow> if skip_ws r = [] then Inr v else Inl (ValueError ''Extra data''))"

section \<open>The reader consumes its text\<close>

lemma skip_ws_length: "length (skip_ws s) \<le> length s"
  by (simp add: skip_ws_def length_dropWhile_le)

lemma tl_skip_ws: "skip_ws s \<noteq> [] \<Longrightarrow> length (tl (skip_ws s)) < length s"
  using skip_ws_length [of s] by (cases "skip_ws s") auto

lemma starts_with_nonempty: "starts_with (c # p) s \<Longrightarrow> s \<noteq> []"
  by auto

lemma read_chars_length: "read_chars s = Some (v, r) \<Longrightarrow> length r < length s"
proof (induction s arbitrary: v rule: read_chars.induct)
  case (2 c s)
  then show ?case
    by (fastforce split: if_splits option.splits prod.splits dest: read_unit_length)
qed simp

lemma read_digits_length: "read_digits s = Some (i, q) \<Longrightarrow> length q < length s"
  by (cases s) (auto simp: read_digits_def Let_def split: if_splits)

lemma read_atom_length: "read_atom s = Some (v, r) \<Longrightarrow> length r < length s"
  by (cases s) (auto simp: read_atom_def split: if_splits dest: read_digits_length)

lemma json_value_length:
  "json_value n s = Some (v, r) \<Longrightarrow> length r < length s"
  "json_items n s = Some (vs, r) \<Longrightarrow> length r < length s"
  "json_members n s = Some (d, r) \<Longrightarrow> length r < length s"
proof (induction n s and n s and n s arbitrary: v r and vs r and d r rule: json_value_json_items_json_members.induct)
  case (2 n s)
  show ?case
  proof (cases s)
    case (Cons c t)
    have w: "length (skip_ws t) \<le> length t" by (rule skip_ws_length)
    show ?thesis using "2.prems" "2.IH" [OF Cons] w tl_skip_ws [of t]
      by (auto simp: Cons split: if_splits dest!: read_chars_length read_atom_length starts_with_nonempty)
  qed (use "2.prems" in simp)
next
  case (4 n s)
  then obtain v1 r1 c q where v: "json_value n s = Some (v1, r1)" and c: "skip_ws r1 = c # q" 
    by (auto split: option.splits prod.splits list.splits)
  from "4.IH"(1) [OF v] skip_ws_length [of r1] have l: "length q < length s" by (simp add: c)
  show ?case using "4.prems" "4.IH"(2) [OF v refl c] l skip_ws_length [of q]
    by (force simp: v c split: if_splits)
next
  case (6 n s)
  then obtain k r1 where k: "\<not> \<not> starts_with [quote] s" "read_chars (tl s) = Some (k, r1)" "\<not> \<not> starts_with '':'' (skip_ws r1)"
    by (auto split: if_splits option.splits prod.splits)
  with "6.prems" obtain v1 r2 c q where v: "json_value n (skip_ws (tl (skip_ws r1))) = Some (v1, r2)" and c: "skip_ws r2 = c # q"
    by (auto split: option.splits prod.splits list.splits)
  have "length r1 < length s" using read_chars_length [OF k(2)] by simp
  moreover have "length (tl (skip_ws r1)) < length r1" using k(3) by (intro tl_skip_ws) auto
  moreover have "length r2 < length (skip_ws (tl (skip_ws r1)))" by (rule "6.IH"(1) [OF k(1,2) refl k(3) v])
  moreover have "length q < length r2" using skip_ws_length [of r2] by (simp add: c)
  ultimately have l: "length q < length s" using skip_ws_length [of "tl (skip_ws r1)"] by linarith
  show ?case using "6.prems" "6.IH"(2) [OF k(1,2) refl k(3) v refl c] l skip_ws_length [of q] k
    by (force simp: v c split: if_splits)
qed simp_all

section \<open>The bound is always enough\<close>

lemma json_enough:
  "2 * length s \<le> n \<Longrightarrow> json_value (Suc n) s = json_value n s"
  "2 * length s < n \<Longrightarrow> json_items (Suc n) s = json_items n s"
  "2 * length s < n \<Longrightarrow> json_members (Suc n) s = json_members n s"
proof (induction n s and n s and n s rule: json_value_json_items_json_members.induct)
  case (2 n s)
  show ?case
  proof (cases s)
    case (Cons c t)
    then have l: "2 * length (skip_ws t) < n" using "2.prems" skip_ws_length [of t] by simp
    have "c = CHR ''['' \<Longrightarrow> \<not> starts_with '']'' (skip_ws t) \<Longrightarrow> json_items (Suc n) (skip_ws t) = json_items n (skip_ws t)"
      and "c = CHR ''{'' \<Longrightarrow> \<not> starts_with ''}'' (skip_ws t) \<Longrightarrow> json_members (Suc n) (skip_ws t) = json_members n (skip_ws t)"
      using "2.IH" [OF Cons] l by (simp_all del: json_items.simps json_members.simps)
    then show ?thesis by (simp add: Cons del: json_items.simps json_members.simps)
  qed simp
next
  case (4 n s)
  then have v: "json_value (Suc n) s = json_value n s" by simp
  have "json_items (Suc n) (skip_ws q) = json_items n (skip_ws q)"
    if "json_value n s = Some (a, r)" "skip_ws r = CHR '','' # q" for a r q
  proof (rule "4.IH"(2) [OF that(1) refl that(2) refl])
    show "2 * length (skip_ws q) < n"
      using json_value_length(1) [OF that(1)] skip_ws_length [of r] skip_ws_length [of q] "4.prems" by (simp add: that(2))
  qed
  then show ?case
    by (subst json_items.simps, subst (2) json_items.simps) (auto simp: v split: option.splits list.splits simp del: json_items.simps json_value.simps)
next
  case (6 n s)
  have v: "json_value (Suc n) (skip_ws (tl (skip_ws r))) = json_value n (skip_ws (tl (skip_ws r)))"
    if "\<not> \<not> starts_with [quote] s" "read_chars (tl s) = Some (k, r)" "\<not> \<not> starts_with '':'' (skip_ws r)" for k r
  proof (rule "6.IH"(1) [OF that(1,2) refl that(3)])
    show "2 * length (skip_ws (tl (skip_ws r))) \<le> n"
      using read_chars_length [OF that(2)] skip_ws_length [of r] skip_ws_length [of "tl (skip_ws r)"] "6.prems" by simp
  qed
  have m: "json_members (Suc n) (skip_ws q) = json_members n (skip_ws q)"
    if "\<not> \<not> starts_with [quote] s" "read_chars (tl s) = Some (k, r)" "\<not> \<not> starts_with '':'' (skip_ws r)"
      "json_value n (skip_ws (tl (skip_ws r))) = Some (a, r')" "skip_ws r' = CHR '','' # q" for k r a r' q
  proof (rule "6.IH"(2) [OF that(1,2) refl that(3,4) refl that(5) refl])
    show "2 * length (skip_ws q) < n"
      using read_chars_length [OF that(2)] skip_ws_length [of r] skip_ws_length [of "tl (skip_ws r)"] "6.prems"
        json_value_length(1) [OF that(4)] skip_ws_length [of r'] skip_ws_length [of q] by (simp add: that(5))
  qed
  show ?case
    by (subst json_members.simps, subst (2) json_members.simps)
      (auto simp: v m split: option.splits list.splits simp del: json_members.simps json_value.simps)
qed simp_all

lemma json_bound: "2 * length s \<le> n \<Longrightarrow> json_value n s = json_value (2 * length s) s"
proof (induction n)
  case (Suc n)
  then show ?case using json_enough(1) [of s n] by (cases "2 * length s = Suc n") auto
qed simp

section \<open>What is written is read back\<close>

fun keyed :: "json \<Rightarrow> bool" where
  "keyed (JList xs) = list_all keyed xs"
| "keyed (JObj d) = (distinct (map fst d) \<and> list_all (\<lambda>(k, v). keyed v) d)"
| "keyed _ = True"

lemma hex_value_digit: "k < 16 \<Longrightarrow> hex_value (hex_digit k) = Some k"
  by (auto simp: hex_value_def hex_digit_def Let_def)

lemma char_codes: "char_of (34 :: nat) = quote" "char_of (92 :: nat) = backslash" "(of_char backslash :: nat) = 92"
    "(of_char quote :: nat) = 34"
  by code_simp+

lemma control_codes: "of_char c \<in> {8, 9, 10, 12, 13 :: nat} \<Longrightarrow> c \<in> {CHR 0x08, CHR 0x09, CHR 0x0A, CHR 0x0C, CHR 0x0D}"
proof -
  have "char_of (8 :: nat) = CHR 0x08" "char_of (9 :: nat) = CHR 0x09" "char_of (10 :: nat) = CHR 0x0A"
    "char_of (12 :: nat) = CHR 0x0C" "char_of (13 :: nat) = CHR 0x0D" by code_simp+
  then show "of_char c \<in> {8, 9, 10, 12, 13 :: nat} \<Longrightarrow> ?thesis" by (metis char_of_char insertE insertI1 insertI2 empty_iff)
qed

lemma read_unit_escape:
  "\<exists>d u. escape_char c = d # u \<and> d \<noteq> quote \<and> read_unit d (u @ rest) = Some ([c], rest)"
proof -
  let ?n = "of_char c :: nat"
  consider "?n < 32" "?n \<notin> {8, 9, 10, 12, 13}" | "c \<in> {CHR 0x08, CHR 0x09, CHR 0x0A, CHR 0x0C, CHR 0x0D, quote, backslash}"
    | "32 \<le> ?n" "c \<noteq> quote" "c \<noteq> backslash"
    using control_codes [of c] not_less [of ?n 32] by blast
  then show ?thesis
  proof cases
    case 1
    then have "?n div 16 < 16" by auto
    moreover have "hex_value (CHR ''0'') = Some 0" by code_simp
    moreover have "char_of ?n = c" by simp
    ultimately show ?thesis using 1
      by (auto simp: escape_char_def Let_def read_unit_def read_unicode_def hex_value_digit encode_cp_def char_codes)
  next
    case 2
    then show ?thesis by (auto simp: escape_char_def Let_def read_unit_def ESCAPES_def char_codes)
  next
    case 3
    then have "?n \<noteq> 34" "?n \<noteq> 92" by (metis char_codes(1,2) char_of_char)+
    with 3 show ?thesis by (auto simp: escape_char_def Let_def read_unit_def)
  qed
qed

lemma read_chars_written: "read_chars (concat (map escape_char s) @ quote # rest) = Some (s, rest)"
proof (induction s)
  case (Cons c s)
  obtain d u where "escape_char c = d # u" "d \<noteq> quote"
      "read_unit d (u @ concat (map escape_char s) @ quote # rest) = Some ([c], concat (map escape_char s) @ quote # rest)"
    using read_unit_escape by blast
  with Cons show ?case by simp
qed simp

text \<open>What may follow a value inside a document.\<close>

definition stops :: "string \<Rightarrow> bool" where
  "stops s \<longleftrightarrow> s = [] \<or> hd s \<in> {CHR '','', CHR '']'', CHR ''}''}"

lemma digit_codes: "n < 10 \<Longrightarrow> of_char (char_of (48 + n) :: char) = 48 + n" for n :: nat
  by (simp add: of_char_of)

lemma is_digit_code: "n < 10 \<Longrightarrow> is_digit (char_of (48 + n))" for n :: nat
  by (simp add: is_digit_def digit_codes)

lemma digits_of_written: "list_all is_digit (digits_of n) \<and> digits_value (digits_of n) = n \<and> digits_of n \<noteq> []"
proof (induction n rule: digits_of.induct)
  case (1 n)
  show ?case
  proof (cases "n < 10")
    case True
    then show ?thesis by (simp add: digits_of.simps [of n] is_digit_code digits_value_def digit_codes)
  next
    case False
    then have "digits_of n = digits_of (n div 10) @ [char_of (48 + n mod 10)]" by (simp add: digits_of.simps [of n])
    with 1 [OF False] False show ?thesis by (auto simp: digits_value_def is_digit_code digit_codes)
  qed
qed

lemma digits_of_zero: "starts_with ''0'' (digits_of n) \<Longrightarrow> n = 0"
proof (induction n rule: digits_of.induct)
  case (1 n)
  show ?case
  proof (cases "n < 10")
    case True
    with "1.prems" have "CHR ''0'' = char_of (48 + n)" by (simp add: digits_of.simps [of n])
    then have "(of_char (CHR ''0'') :: nat) = 48 + n" using digit_codes [OF True] by simp
    then show ?thesis by simp
  next
    case False
    then have "starts_with ''0'' (digits_of (n div 10))"
      using "1.prems" digits_of_written [of "n div 10"] by (cases "digits_of (n div 10)") (auto simp: digits_of.simps [of n])
    with 1(1) [OF False] False show ?thesis by simp
  qed
qed

lemma stops_tail: "stops s \<Longrightarrow> \<not> float_tail s \<and> takeWhile is_digit s = []"
proof (cases s)
  case (Cons c t)
  moreover have "\<not> is_digit (CHR '','')" "\<not> is_digit (CHR '']'')" "\<not> is_digit (CHR ''}'')" by code_simp+
  moreover assume "stops s"
  ultimately show ?thesis by (cases t) (auto simp: stops_def float_tail_def)
qed (simp add: float_tail_def)

lemma read_digits_written:
  assumes "stops rest"
  shows "read_digits (digits_of n @ rest) = Some (int n, rest)"
proof -
  have d: "list_all is_digit (digits_of n)" "digits_value (digits_of n) = n" "digits_of n \<noteq> []"
    using digits_of_written by auto
  have "(if starts_with ''0'' (digits_of n @ rest) then ''0'' else takeWhile is_digit (digits_of n @ rest)) = digits_of n"
  proof (cases "n = 0")
    case True
    have "digits_of 0 = ''0''" by code_simp
    with True show ?thesis by simp
  next
    case False
    with digits_of_zero [of n] d(3) have "\<not> starts_with ''0'' (digits_of n @ rest)" by (cases "digits_of n") auto
    moreover have "takeWhile is_digit (digits_of n @ rest) = digits_of n"
      using d(1) stops_tail [OF assms] by (auto simp: list_all_iff takeWhile_append)
    ultimately show ?thesis by simp
  qed
  with d stops_tail [OF assms] show ?thesis by (simp add: read_digits_def)
qed

lemma is_digit_head:
  "\<exists>c t. digits_of n = c # t \<and> is_digit c"
  using digits_of_written [of n] by (cases "digits_of n") auto

lemma not_digits: "\<not> is_digit (CHR ''-'')" "\<not> is_digit (CHR ''n'')" "\<not> is_digit (CHR ''t'')" "\<not> is_digit (CHR ''f'')"
    "\<not> is_digit (CHR ''['')" "\<not> is_digit (CHR ''{'')" "\<not> is_digit quote" "\<not> is_digit (CHR '']'')" "\<not> is_digit (CHR '' '')"
    "\<not> is_digit (CHR 0x09)" "\<not> is_digit (CHR 0x0A)" "\<not> is_digit (CHR 0x0D)" "\<not> is_digit (CHR ''}'')"
  by code_simp+

lemma read_atom_int:
  assumes "stops rest"
  shows "read_atom (show_int i @ rest) = Some (JInt i, rest)"
proof -
  obtain c t where c: "digits_of (nat i) = c # t" "is_digit c" using is_digit_head by blast
  then have "c \<noteq> CHR ''-''" "c \<noteq> CHR ''n''" "c \<noteq> CHR ''t''" "c \<noteq> CHR ''f''" using not_digits by metis+
  then show ?thesis
    using c read_digits_written [OF assms, of "nat i"] read_digits_written [OF assms, of "nat (- i)"]
    by (auto simp: read_atom_def show_int_def)
qed

lemma dumps_head: "\<exists>c t. dumps_json v = c # t \<and> c \<notin> {CHR '' '', CHR 0x09, CHR 0x0A, CHR 0x0D, CHR '']''}"
proof (cases v)
  case (JInt i)
  obtain c t d u where c: "digits_of (nat i) = c # t" "is_digit c" "digits_of (nat (- i)) = d # u"
    using is_digit_head by (meson)
  then show ?thesis using not_digits by (auto simp: JInt show_int_def)
qed (auto simp: json_string_def char_codes)

lemma skip_ws_dumps [simp]: "skip_ws (dumps_json v @ rest) = dumps_json v @ rest"
  using dumps_head [of v] by (auto simp: skip_ws_def)


lemma skip_ws_simps [simp]:
  "skip_ws [] = []" "skip_ws (CHR '' '' # s) = skip_ws s" "skip_ws (CHR '','' # s) = CHR '','' # s"
  "skip_ws (CHR '']'' # s) = CHR '']'' # s" "skip_ws (CHR ''}'' # s) = CHR ''}'' # s" "skip_ws (CHR '':'' # s) = CHR '':'' # s"
  "skip_ws (quote # s) = quote # s"
  by (simp_all add: skip_ws_def)

lemma stops_simps [simp]: "stops []" "stops (CHR '','' # s)" "stops (CHR '']'' # s)" "stops (CHR ''}'' # s)"
  by (simp_all add: stops_def)

definition reads :: "json \<Rightarrow> bool" where
  "reads v \<longleftrightarrow> (\<forall>n rest. stops rest \<longrightarrow> 2 * length (dumps_json v @ rest) \<le> n \<longrightarrow>
     json_value n (dumps_json v @ rest) = Some (canon v, rest))"

lemma readsD: "reads v \<Longrightarrow> stops rest \<Longrightarrow> 2 * length (dumps_json v @ rest) \<le> n \<Longrightarrow>
    json_value n (dumps_json v @ rest) = Some (canon v, rest)"
  by (simp add: reads_def)

lemma reads_atom:
  assumes "\<And>rest. stops rest \<Longrightarrow> read_atom (dumps_json v @ rest) = Some (canon v, rest)"
    and "\<And>c t. dumps_json v = c # t \<Longrightarrow> c \<notin> {quote, CHR ''['', CHR ''{''}"
  shows "reads v"
  unfolding reads_def
proof (intro allI impI)
  fix n rest assume "stops rest" "2 * length (dumps_json v @ rest) \<le> n"
  moreover obtain c t where "dumps_json v = c # t" using dumps_head by blast
  ultimately show "json_value n (dumps_json v @ rest) = Some (canon v, rest)"
    using assms(1) [of rest] assms(2) [of c t] by (cases n) auto
qed

lemma items_written:
  assumes "xs \<noteq> []" "\<And>x. x \<in> set xs \<Longrightarrow> reads x"
    and "2 * length (join_with '', '' (map dumps_json xs) @ CHR '']'' # rest) < n"
  shows "json_items n (join_with '', '' (map dumps_json xs) @ CHR '']'' # rest) = Some (map canon xs, rest)"
  using assms
proof (induction xs arbitrary: n)
  case (Cons x xs)
  then obtain m where n: "n = Suc m" by (cases n) auto
  show ?case
  proof (cases xs)
    case Nil
    with Cons.prems n readsD [of x "CHR '']'' # rest" m] show ?thesis by simp
  next
    case (Cons y ys)
    let ?more = "join_with '', '' (map dumps_json xs) @ CHR '']'' # rest"
    have "json_items m ?more = Some (map canon xs, rest)"
      using Cons.prems Cons n by (intro Cons.IH) auto
    moreover have "json_value m (dumps_json x @ '', '' @ ?more) = Some (canon x, '', '' @ ?more)"
      using Cons.prems Cons n by (intro readsD) auto
    moreover have "skip_ws ?more = ?more" using skip_ws_dumps [of y] by (cases ys) (auto simp: Cons)
    ultimately show ?thesis by (simp add: n Cons del: json_value.simps)
  qed
qed simp

definition member_text :: "string \<times> json \<Rightarrow> string" where
  "member_text p = json_string (fst p) @ '': '' @ dumps_json (snd p)"

lemma json_string_chars: "json_string s @ rest = quote # concat (map escape_char s) @ quote # rest"
  by (simp add: json_string_def char_codes)

lemma members_written:
  assumes "d \<noteq> []" "\<And>p. p \<in> set d \<Longrightarrow> reads (snd p)"
    and "2 * length (join_with '', '' (map member_text d) @ CHR ''}'' # rest) < n"
  shows "json_members n (join_with '', '' (map member_text d) @ CHR ''}'' # rest) =
    Some (map (\<lambda>(k, v). (k, canon v)) d, rest)"
  using assms
proof (induction d arbitrary: n)
  case (Cons p d)
  then obtain m where n: "n = Suc m" by (cases n) auto
  obtain k v where p: "p = (k, v)" by (cases p)
  then have mt: "member_text (k, v) = json_string k @ '': '' @ dumps_json v" by (simp add: member_text_def)
  show ?case
  proof (cases d)
    case Nil
    with Cons.prems n readsD [of v "CHR ''}'' # rest" m] show ?thesis
      by (simp add: p member_text_def json_string_chars read_chars_written del: json_value.simps)
  next
    case (Cons y ys)
    let ?more = "join_with '', '' (map member_text d) @ CHR ''}'' # rest"
    have "json_members m ?more = Some (map (\<lambda>(k, v). (k, canon v)) d, rest)"
      using Cons.prems Cons n by (intro Cons.IH) auto
    moreover have "json_value m (dumps_json v @ '', '' @ ?more) = Some (canon v, '', '' @ ?more)"
      using Cons.prems(2) [of p] Cons.prems(3) Cons n by (intro readsD) (simp_all add: p mt)
    moreover have "skip_ws ?more = ?more"
      by (cases ys) (auto simp: Cons member_text_def json_string_def char_codes)
    moreover have "join_with '', '' (map member_text (p # d)) @ CHR ''}'' # rest =
        quote # concat (map escape_char k) @ quote # '': '' @ dumps_json v @ '', '' @ ?more"
      by (simp add: Cons p mt json_string_def char_codes)
    ultimately show ?thesis
      by (simp add: n p read_chars_written del: json_value.simps)
  qed
qed simp

lemma insort_map: "insort_key fst (k, f v) (map (\<lambda>(k, v). (k, f v)) d) = map (\<lambda>(k, v). (k, f v)) (insort_key fst (k, v) d)"
  by (induction d) auto

lemma sort_map: "sort_key fst (map (\<lambda>(k, v). (k, f v)) d) = map (\<lambda>(k, v). (k, f v)) (sort_key fst d)"
proof (induction d)
  case (Cons p d)
  then show ?case using insort_map [of "fst p" f "snd p" "sort_key fst d"] by (cases p) simp
qed simp

lemma dumps_obj: "dumps_json (JObj d) = ''{'' @ join_with '', '' (map member_text (sort_key fst d)) @ ''}''"
proof -
  have "map (\<lambda>(k, s). json_string k @ '': '' @ s) (map (\<lambda>(k, v). (k, dumps_json v)) e) = map member_text e" for e
    by (auto simp: member_text_def)
  from this [of "sort_key fst d"] show ?thesis by (simp add: sort_map del: map_map)
qed

lemma dict_put_new: "k \<notin> fst ` set d \<Longrightarrow> dict_put k v d = d @ [(k, v)]"
  by (induction k v d rule: dict_put.induct) auto

lemma dict_update_new: "distinct (map fst (d @ e)) \<Longrightarrow> dict_update d e = d @ e"
proof (induction d e rule: dict_update.induct)
  case (2 d k v e)
  then have "k \<notin> fst ` set d" by auto
  then have "dict_put k v d = d @ [(k, v)]" by (rule dict_put_new)
  with 2 show ?case by simp
qed simp

lemma reads_keyed: "keyed v \<Longrightarrow> reads v"
proof (induction v)
  case (JInt i)
  show ?case
  proof (rule reads_atom)
    show "read_atom (dumps_json (JInt i) @ rest) = Some (canon (JInt i), rest)" if "stops rest" for rest
      using read_atom_int [OF that] by simp
    show "c \<notin> {quote, CHR ''['', CHR ''{''}" if "dumps_json (JInt i) = c # t" for c t
      using that is_digit_head [of "nat i"] not_digits by (auto simp: show_int_def split: if_splits)
  qed
next
  case (JStr s)
  have "json_value n (quote # concat (map escape_char s) @ quote # rest) = Some (JStr s, rest)" if "0 < n" for n rest
    using that by (cases n) (simp_all add: read_chars_written)
  then show ?case by (auto simp: reads_def json_string_chars simp del: json_value.simps)
next
  case (JList xs)
  show ?case unfolding reads_def
  proof (intro allI impI)
    fix n rest assume n: "2 * length (dumps_json (JList xs) @ rest) \<le> n"
    then obtain m where m: "n = Suc m" by (cases n) auto
    show "json_value n (dumps_json (JList xs) @ rest) = Some (canon (JList xs), rest)"
    proof (cases xs)
      case (Cons y ys)
      have i: "json_items m (join_with '', '' (map dumps_json xs) @ CHR '']'' # rest) = Some (map canon xs, rest)"
        using JList n Cons by (intro items_written) (auto simp: m list_all_iff)
      obtain c t where "dumps_json y = c # t" "c \<noteq> CHR '']''" using dumps_head [of y] by blast
      then have "\<not> starts_with '']'' (join_with '', '' (map dumps_json xs) @ CHR '']'' # rest)"
        and "skip_ws (join_with '', '' (map dumps_json xs) @ CHR '']'' # rest) = join_with '', '' (map dumps_json xs) @ CHR '']'' # rest"
        using skip_ws_dumps [of y] by (cases ys; simp add: Cons)+
      with i show ?thesis by (simp add: m)
    qed (simp add: m)
  qed
next
  case (JObj d)
  show ?case unfolding reads_def
  proof (intro allI impI)
    fix n rest assume n: "2 * length (dumps_json (JObj d) @ rest) \<le> n"
    then obtain m where m: "n = Suc m" by (cases n) (auto simp: dumps_obj)
    let ?d = "sort_key fst d"
    show "json_value n (dumps_json (JObj d) @ rest) = Some (canon (JObj d), rest)"
    proof (cases ?d)
      case Nil
      then have "d = []" by (metis length_0_conv length_sort)
      then show ?thesis by (simp add: m)
    next
      case (Cons y ys)
      have "reads (snd p)" if "p \<in> set ?d" for p
        using that JObj.IH [of p "snd p"] JObj.prems by (auto simp: list_all_iff snds.simps)
      then have i: "json_members m (join_with '', '' (map member_text ?d) @ CHR ''}'' # rest) = Some (map (\<lambda>(k, v). (k, canon v)) ?d, rest)"
        using n Cons by (intro members_written) (auto simp: m dumps_obj simp del: dumps_json.simps)
      have "distinct (map fst d)" using JObj.prems by simp
      then have "distinct (map fst ?d)" by (metis distinct_map distinct_sort set_sort)
      then have "dict_update [] (map (\<lambda>(k, v). (k, canon v)) ?d) = map (\<lambda>(k, v). (k, canon v)) ?d"
        by (subst dict_update_new) (auto simp: comp_def case_prod_unfold)
      moreover obtain t where "join_with '', '' (map member_text ?d) @ CHR ''}'' # rest = quote # t"
        by (cases ys) (auto simp: Cons member_text_def json_string_def char_codes)
      ultimately show ?thesis using i by (simp add: m dumps_obj sort_map del: dumps_json.simps)
    qed
  qed
next
  case (JBool b)
  show ?case by (rule reads_atom; cases b) (auto simp: read_atom_def)
qed (auto intro!: reads_atom simp: read_atom_def)

theorem loads_dumps: "keyed v \<Longrightarrow> loads_json (dumps_json v) = Inr (canon v)"
  using readsD [OF reads_keyed, of v "[]" "2 * length (dumps_json v)"] skip_ws_dumps [of v "[]"]
  by (simp add: loads_json_def)

end
