(* ===== verification/Texts.thy ===== *)
theory Texts
  imports Prelude
begin

text \<open>
  The messages of the source that are not ASCII, byte for byte. Each is preceded by its meaning.
\<close>

text \<open>the time limit was exceeded; check the execution before resuming\<close>

definition TIMED_OUT_TEXT :: string where
  "TIMED_OUT_TEXT = utf8 [236, 139, 164, 237, 150, 137, 32, 236, 160, 156, 237, 149, 156, 32, 236,
     139, 156, 234, 176, 132, 236, 157, 132, 32, 236, 180, 136, 234, 179, 188, 237, 150, 136, 236,
     138, 181, 235, 139, 136, 235, 139, 164, 46, 32, 236, 139, 164, 237, 150, 137, 32, 236, 131,
     129, 237, 131, 156, 235, 165, 188, 32, 237, 153, 149, 236, 157, 184, 237, 149, 156, 32, 235,
     146, 164, 32, 236, 158, 172, 234, 176, 156, 32, 236, 151, 172, 235, 182, 128, 235, 165, 188,
     32, 234, 178, 176, 236, 160, 149, 237, 149, 152, 236, 132, 184, 236, 154, 148, 46]"

text \<open>the task failed (\<close>

definition FAILED_TEXT_PREFIX :: string where
  "FAILED_TEXT_PREFIX = utf8 [236, 158, 145, 236, 151, 133, 32, 236, 139, 164, 237, 150, 137, 236,
     151, 144, 32, 236, 139, 164, 237, 140, 168, 237, 150, 136, 236, 138, 181, 235, 139, 136, 235,
     139, 164, 32, 40]"

text \<open>). check the local environment\<close>

definition FAILED_TEXT_SUFFIX :: string where
  "FAILED_TEXT_SUFFIX = ''). '' @ utf8 [235, 161, 156, 236, 187, 172, 32, 236, 139, 164, 237, 150,
     137, 32, 237, 153, 152, 234, 178, 189, 236, 157, 132, 32, 236, 160, 144, 234, 178, 128, 237,
     149, 152, 236, 132, 184, 236, 154, 148, 46]"

text \<open>apply the approved file changes\<close>

definition APPLY_PROMPT :: string where
  "APPLY_PROMPT = utf8 [236, 138, 185, 236, 157, 184, 235, 144, 156, 32, 237, 140, 140, 236, 157,
     188, 32, 235, 179, 128, 234, 178, 189, 236, 149, 136, 32, 236, 160, 129, 236, 154, 169]"

text \<open>the worker could not start (\<close>

definition START_FAILURE_PREFIX :: string where
  "START_FAILURE_PREFIX = ''Worker '' @ utf8 [236, 139, 156, 236, 158, 145, 32, 236, 139, 164, 237,
     140, 168, 32, 40]"

text \<open>). check the environment and resume\<close>

definition START_FAILURE_SUFFIX :: string where
  "START_FAILURE_SUFFIX = ''). '' @ utf8 [236, 139, 164, 237, 150, 137, 32, 237, 153, 152, 234, 178,
     189, 236, 157, 132, 32, 237, 153, 149, 236, 157, 184, 237, 149, 156, 32, 235, 146,
     164] @ '' resume '' @ utf8 [236, 158, 145, 236, 151, 133, 73, 68, 235, 161, 156, 32, 236, 158,
     172, 234, 176, 156, 237, 149, 152, 236, 132, 184, 236, 154, 148, 46]"

text \<open>original request:\<close>

definition ORIGINAL_REQUEST :: string where
  "ORIGINAL_REQUEST = utf8 [236, 155, 144, 235, 158, 152, 32, 236, 154, 148, 236, 178, 173, 58, 32]"

text \<open>the worker ended or its lease expired; the external process is not confirmed to have stopped\<close>

definition INTERRUPTED_TEXT :: string where
  "INTERRUPTED_TEXT = utf8 [236, 139, 164, 237, 150, 137] @ '' worker'' @ utf8 [234, 176, 128, 32,
     236, 162, 133, 235, 163, 140, 235, 144, 152, 236, 151, 136, 234, 177, 176, 235, 130,
     152] @ '' heartbeat/claim lease'' @ utf8 [234, 176, 128, 32, 235, 167, 140, 235, 163, 140, 235,
     144, 152, 236, 151, 136, 236, 138, 181, 235, 139, 136, 235, 139, 164, 46, 32, 236, 139, 164,
     236, 160, 156, 32, 236, 153, 184, 235, 182, 128, 32, 236, 139, 164, 237, 150, 137, 32, 236,
     162, 133, 235, 163, 140, 32, 236, 151, 172, 235, 182, 128, 235, 138, 148, 32, 237, 153, 149,
     236, 157, 184, 235, 144, 152, 236, 167, 128, 32, 236, 149, 138, 236, 149, 152, 236, 138, 181,
     235, 139, 136, 235, 139, 164, 46]"

text \<open>no such task of this user\<close>

definition TASK_NOT_FOUND :: string where
  "TASK_NOT_FOUND = utf8 [237, 149, 180, 235, 139, 185, 32, 236, 130, 172, 236, 154, 169, 236, 158,
     144, 236, 157, 152, 32, 236, 158, 145, 236, 151, 133, 236, 157, 132, 32, 236, 176, 190, 236,
     167, 128, 32, 235, 170, 187, 237, 150, 136, 236, 138, 181, 235, 139, 136, 235, 139, 164, 46]"

text \<open>waiting to run\<close>

definition WHY_QUEUED :: string where
  "WHY_QUEUED = utf8 [236, 139, 164, 237, 150, 137, 32, 235, 140, 128, 234, 184, 176, 32, 236, 164,
     145, 236, 158, 133, 235, 139, 136, 235, 139, 164, 46]"

text \<open>still running\<close>

definition WHY_RUNNING :: string where
  "WHY_RUNNING = utf8 [236, 149, 132, 236, 167, 129, 32, 236, 139, 164, 237, 150, 137, 32, 236, 164,
     145, 236, 158, 133, 235, 139, 136, 235, 139, 164, 46]"

text \<open>waiting for the approval of the file changes\<close>

definition WHY_AWAITING :: string where
  "WHY_AWAITING = utf8 [237, 140, 140, 236, 157, 188, 235, 179, 132, 32, 235, 179, 128, 234, 178,
     189, 236, 149, 136, 236, 151, 144, 32, 235, 140, 128, 237, 149, 156, 32, 236, 138, 185, 236,
     157, 184, 236, 157, 132, 32, 234, 184, 176, 235, 139, 164, 235, 166, 189, 235, 139, 136, 235,
     139, 164, 46]"

text \<open>the record alone does not tell the reason\<close>

definition WHY_UNKNOWN :: string where
  "WHY_UNKNOWN = utf8 [234, 184, 176, 235, 161, 157, 235, 167, 140, 236, 156, 188, 235, 161, 156,
     32, 236, 155, 144, 236, 157, 184, 236, 157, 132, 32, 237, 153, 149, 236, 160, 149, 237, 149,
     160, 32, 236, 136, 152, 32, 236, 151, 134, 236, 138, 181, 235, 139, 136, 235, 139, 164, 46]"

text \<open>the change plan was withdrawn or expired; waiting has ended\<close>

definition PLAN_WITHDRAWN :: string where
  "PLAN_WITHDRAWN = utf8 [235, 179, 128, 234, 178, 189, 236, 149, 136, 236, 157, 180, 32, 236, 178,
     160, 237, 154, 140, 235, 144, 152, 234, 177, 176, 235, 130, 152, 32, 235, 167, 140, 235, 163,
     140, 235, 144, 152, 236, 150, 180, 32, 236, 138, 185, 236, 157, 184, 32, 235, 140, 128, 234,
     184, 176, 235, 165, 188, 32, 236, 162, 133, 235, 163, 140, 237, 150, 136, 236, 138, 181, 235,
     139, 136, 235, 139, 164, 46]"

text \<open>the run was stopped but external effects must be checked with reconcile\<close>

definition EFFECTS_TO_CHECK :: string where
  "EFFECTS_TO_CHECK = utf8 [236, 139, 164, 237, 150, 137, 236, 157, 128, 32, 236, 164, 145, 235,
     139, 168, 237, 150, 136, 236, 156, 188, 235, 130, 152, 32, 236, 153, 184, 235, 182, 128, 32,
     237, 154, 168, 234, 179, 188, 32, 237, 153, 149, 236, 157, 184, 236, 157, 180, 32, 237, 149,
     132, 236, 154, 148, 237, 149, 169, 235, 139, 136, 235, 139, 164] @ ''. reconcile'' @ utf8 [235,
     161, 156, 32, 237, 153, 149, 236, 157, 184, 237, 149, 152, 236, 132, 184, 236, 154, 148, 46]"

text \<open>cancellation was not confirmed; check the execution\<close>

definition CANCEL_UNCONFIRMED :: string where
  "CANCEL_UNCONFIRMED = utf8 [10, 236, 183, 168, 236, 134, 140, 32, 236, 153, 132, 235, 163, 140,
     235, 165, 188, 32, 237, 153, 149, 236, 157, 184, 237, 149, 152, 236, 167, 128, 32, 235, 170,
     187, 237, 150, 136, 236, 138, 181, 235, 139, 136, 235, 139, 164, 46, 32, 236, 139, 164, 237,
     150, 137, 32, 236, 131, 129, 237, 131, 156, 32, 237, 153, 149, 236, 157, 184, 236, 157, 180,
     32, 237, 149, 132, 236, 154, 148, 237, 149, 169, 235, 139, 136, 235, 139, 164, 46]"

end
