(* ===== verification/Operation_Spec.thy ===== *)
theory Operation_Spec
  imports Json_Text Texts
begin

text \<open>
  Data-only operations: \<open>OperationSpec\<close> of \<open>src/nyanya_agent/operation_spec.py\<close>, the outcomes of
  \<open>src/nyanya_agent/task_outcomes.py\<close> and the choice of a model in \<open>route\<close> of
  \<open>src/nyanya_agent/model_routing.py\<close>. The fields of a specification hold any JSON value, as those of the
  dataclass do when it is built from stored JSON; \<open>validate\<close> checks their types.
\<close>

section \<open>OperationSpec\<close>

record operation_spec =
  os_version :: json
  os_kind :: json
  os_prompt :: json
  os_workspace :: json
  os_profile :: json
  os_timeout_seconds :: json
  os_plan_id :: json
  os_draft_id :: json

definition default_spec :: operation_spec where
  "default_spec = \<lparr>os_version = JInt 1, os_kind = JStr ''request'', os_prompt = JStr [], os_workspace = JStr [],
     os_profile = JStr ''auto'', os_timeout_seconds = JInt 600, os_plan_id = JStr [], os_draft_id = JStr []\<rparr>"

definition OPERATION_PROFILES :: "string list" where
  "OPERATION_PROFILES = [''auto'', ''flash'', ''luna'', ''sol'', ''astra'']"

text \<open>Membership in a set of texts; a list or dictionary is not hashable and raises.\<close>

fun text_among :: "json \<Rightarrow> string list \<Rightarrow> bool result" where
  "text_among (JStr s) xs = Inr (s \<in> set xs)"
| "text_among (JList _) xs = Inl (TypeError ''unhashable type: list'')"
| "text_among (JObj _) xs = Inl (TypeError ''unhashable type: dict'')"
| "text_among _ xs = Inr False"

text \<open>\<open>str.isalnum\<close> on ASCII; bytes of other scripts are taken as not alphanumeric.\<close>

definition is_alnum :: "string \<Rightarrow> bool" where
  "is_alnum s \<longleftrightarrow> s \<noteq> [] \<and> list_all (\<lambda>c. let n = (of_char c :: nat) in
     (48 \<le> n \<and> n \<le> 57) \<or> (65 \<le> n \<and> n \<le> 90) \<or> (97 \<le> n \<and> n \<le> 122)) s"

definition unsupported :: "operation_spec \<Rightarrow> bool result" where
  "unsupported s =
     (if os_version s \<noteq> JInt 1 then Inr True
      else try_bind (text_among (os_kind s) [''request'', ''apply'']) (\<lambda>known. Inr (\<not> known)))"

definition prompt_fits :: "operation_spec \<Rightarrow> bool" where
  "prompt_fits s = (case os_prompt s of JStr p \<Rightarrow> int (length p) \<le> 60000 | _ \<Rightarrow> False)"

definition timeout_ok :: "operation_spec \<Rightarrow> bool" where
  "timeout_ok s = (case os_timeout_seconds s of JInt n \<Rightarrow> 1 \<le> n \<and> n \<le> 3600 | _ \<Rightarrow> False)"

definition draft_identity_ok :: "operation_spec \<Rightarrow> bool" where
  "draft_identity_ok s = (case os_draft_id s of
       JStr d \<Rightarrow> len_cp d \<le> 80 \<and>
         (d = [] \<or> os_kind s = JStr ''request'' \<and> starts_with ''draft_'' d \<and> is_alnum (drop 6 d))
     | _ \<Rightarrow> False)"

definition is_absolute :: "string \<Rightarrow> bool" where
  "is_absolute p = starts_with ''/'' p"

definition spec_validate :: "operation_spec \<Rightarrow> operation_spec result" where
  "spec_validate s = try_bind (unsupported s) (\<lambda>bad.
     if bad then Inl (SafeOperationError ''Unsupported operation version or kind'')
     else if \<not> (case os_profile s of JStr p \<Rightarrow> p \<in> set OPERATION_PROFILES | _ \<Rightarrow> False)
       then Inl (SafeOperationError ''Unknown model profile'')
     else if \<not> prompt_fits s then Inl (SafeOperationError ''Prompt exceeds operation limit'')
     else if \<not> timeout_ok s then Inl (SafeOperationError ''Invalid timeout'')
     else (case os_workspace s of
         JStr w \<Rightarrow>
           if \<not> is_absolute w then Inl (SafeOperationError ''An absolute registered workspace is required'')
           else if os_kind s = JStr ''apply'' \<and> \<not> truthy (os_plan_id s)
             then Inl (SafeOperationError ''Apply requires a persisted plan'')
           else if \<not> draft_identity_ok s then Inl (SafeOperationError ''Invalid draft identity'')
           else Inr s
       | _ \<Rightarrow> Inl (TypeError ''argument should be a str or an os.PathLike object'')))"

text \<open>\<open>asdict\<close>, in the order \<open>sort_keys\<close> gives the stored text\<close>

definition asdict :: "operation_spec \<Rightarrow> dict" where
  "asdict s = [(''draft_id'', os_draft_id s), (''kind'', os_kind s), (''plan_id'', os_plan_id s),
     (''profile'', os_profile s), (''prompt'', os_prompt s), (''timeout_seconds'', os_timeout_seconds s),
     (''version'', os_version s), (''workspace'', os_workspace s)]"

definition spec_dumps :: "operation_spec \<Rightarrow> string result" where
  "spec_dumps s = try_bind (spec_validate s) (\<lambda>s. Inr (dumps_json (JObj (asdict s))))"

definition field_or :: "dict \<Rightarrow> string \<Rightarrow> json \<Rightarrow> json" where
  "field_or d k dflt = (case map_of d k of None \<Rightarrow> dflt | Some v \<Rightarrow> v)"

definition spec_of :: "dict \<Rightarrow> operation_spec" where
  "spec_of d = \<lparr>os_version = field_or d ''version'' (JInt 1), os_kind = field_or d ''kind'' (JStr ''request''),
     os_prompt = field_or d ''prompt'' (JStr []), os_workspace = field_or d ''workspace'' (JStr []),
     os_profile = field_or d ''profile'' (JStr ''auto''),
     os_timeout_seconds = field_or d ''timeout_seconds'' (JInt 600),
     os_plan_id = field_or d ''plan_id'' (JStr []), os_draft_id = field_or d ''draft_id'' (JStr [])\<rparr>"

definition SPEC_FIELDS :: "string list" where
  "SPEC_FIELDS = [''version'', ''kind'', ''prompt'', ''workspace'', ''profile'', ''timeout_seconds'', ''plan_id'', ''draft_id'']"

definition known_fields :: "dict \<Rightarrow> bool" where
  "known_fields d \<longleftrightarrow> list_all (\<lambda>(k, v). k \<in> set SPEC_FIELDS) d"

definition spec_loads :: "string \<Rightarrow> operation_spec result" where
  "spec_loads value =
     (if int (len_cp value) > 500000 then Inl (SafeOperationError ''Operation too large'')
      else try_bind (loads_json value) (\<lambda>v. case v of
          JObj d \<Rightarrow> if \<not> known_fields d then Inl (TypeError ''unexpected keyword argument'') else spec_validate (spec_of d)
        | _ \<Rightarrow> Inl (TypeError ''argument after ** must be a mapping'')))"

text \<open>
  The column \<open>spec_json\<close> of the ledger holds the dictionary of the text, as every JSON column of the model does (SQL reads
  it with \<open>json_extract\<close>, Python with \<open>json.loads\<close>). \<open>spec_stored\<close> and \<open>spec_restored\<close> are \<open>dumps\<close> and \<open>loads\<close> over
  such a column; \<open>spec_dumps_stored\<close> and \<open>spec_loads_stored\<close> say so.
\<close>

definition spec_stored :: "operation_spec \<Rightarrow> dict result" where
  "spec_stored s = try_bind (spec_validate s) (\<lambda>s. Inr (asdict s))"

definition spec_restored :: "dict \<Rightarrow> operation_spec result" where
  "spec_restored d =
     (if int (len_cp (dumps_json (JObj d))) > 500000 then Inl (SafeOperationError ''Operation too large'')
      else if \<not> known_fields d then Inl (TypeError ''unexpected keyword argument'')
      else spec_validate (spec_of d))"

lemma spec_dumps_stored: "spec_dumps s = try_bind (spec_stored s) (\<lambda>d. Inr (dumps_json (JObj d)))"
  by (cases "spec_validate s") (simp_all add: spec_dumps_def spec_stored_def)

lemma spec_loads_stored:
  assumes "keyed (JObj d)" "canon (JObj d) = JObj d"
  shows "spec_loads (dumps_json (JObj d)) = spec_restored d"
  using loads_dumps [OF assms(1)] assms(2) by (simp add: spec_loads_def spec_restored_def del: dumps_json.simps keyed.simps canon.simps)

section \<open>Outcomes\<close>

record task_outcome =
  oc_status :: string
  oc_text :: string

definition OUTCOMES :: "string list" where
  "OUTCOMES = [''succeeded'', ''failed'', ''timed_out'', ''cancelled'', ''awaiting_approval'', ''blocked'']"

definition make_outcome :: "string \<Rightarrow> string \<Rightarrow> task_outcome result" where
  "make_outcome status txt =
     (if status \<notin> set OUTCOMES then Inl (ValueError ''Unknown task outcome'')
      else Inr \<lparr>oc_status = status, oc_text = txt\<rparr>)"

text \<open>What a runner may raise: a signal that carries an outcome, a safe error, a timeout, anything else.\<close>

datatype run_exception =
    OutcomeSignal task_outcome
  | SafeError string
  | TimeoutExpired
  | OtherException string string  \<comment> \<open>type name, text\<close>

definition outcome_from_error :: "run_exception \<Rightarrow> task_outcome" where
  "outcome_from_error e = (case e of
       OutcomeSignal oc \<Rightarrow> oc
     | SafeError m \<Rightarrow> \<lparr>oc_status = ''blocked'', oc_text = m\<rparr>
     | TimeoutExpired \<Rightarrow> \<lparr>oc_status = ''timed_out'', oc_text = TIMED_OUT_TEXT\<rparr>
     | OtherException name m \<Rightarrow>
         \<lparr>oc_status = ''failed'', oc_text = FAILED_TEXT_PREFIX @ name @ FAILED_TEXT_SUFFIX\<rparr>)"

section \<open>Routing\<close>

definition score :: "dict \<Rightarrow> string \<Rightarrow> int option" where
  "score a k = (case map_of a k of Some (JInt n) \<Rightarrow> if 1 \<le> n \<and> n \<le> 5 then Some n else None | _ \<Rightarrow> None)"

definition route :: "dict \<Rightarrow> string result" where
  "route a = try_bind (text_among (field_or a ''task_kind'' (JStr ''work''))
       [''work'', ''analysis'', ''code'', ''document'', ''data'']) (\<lambda>known.
     if \<not> known then Inl (SafeOperationError ''Invalid task kind'')
     else (case (score a ''importance'', score a ''impact'', score a ''complexity'') of
         (Some importance, Some impact, Some complexity) \<Rightarrow>
           (case map_of a ''reason'' of
              Some (JStr r) \<Rightarrow>
                if int (len_cp r) > 2000 then Inl (SafeOperationError ''Invalid routing reason'')
                else if impact \<ge> 4 \<or> importance \<ge> 4 \<or> complexity \<ge> 5 then Inr ''sol''
                else if complexity \<ge> 3 then Inr ''luna'' else Inr ''flash''
            | _ \<Rightarrow> Inl (SafeOperationError ''Invalid routing reason''))
       | _ \<Rightarrow> Inl (SafeOperationError ''Invalid routing score'')))"

section \<open>Lemmas\<close>

lemma text_among_known [simp]: "text_among v xs = Inr True \<longleftrightarrow> (\<exists>s\<in>set xs. v = JStr s)"
  by (cases v) auto

lemma spec_of_asdict [simp]: "spec_of (asdict s) = s"
  by (simp add: spec_of_def asdict_def field_or_def)

lemma asdict_fields: "known_fields (asdict s)"
  by (simp add: known_fields_def asdict_def SPEC_FIELDS_def)

lemma truthy_canon [simp]: "truthy (canon v) = truthy v"
  by (cases v) (auto, metis length_0_conv length_map length_sort)

lemma spec_validate_same: "spec_validate s = Inr s' \<Longrightarrow> s' = s"
  by (auto simp: spec_validate_def split: json.splits if_splits)

lemma unsupported_False [simp]:
  "unsupported s = Inr False \<longleftrightarrow> os_version s = JInt 1 \<and> os_kind s \<in> {JStr ''request'', JStr ''apply''}"
  by (cases "os_kind s") (auto simp: unsupported_def)

lemma spec_validate_Inr:
  "spec_validate s = Inr s' \<longleftrightarrow> s' = s \<and> os_version s = JInt 1 \<and> os_kind s \<in> {JStr ''request'', JStr ''apply''} \<and>
     (\<exists>p\<in>set OPERATION_PROFILES. os_profile s = JStr p) \<and> prompt_fits s \<and> timeout_ok s \<and>
     (\<exists>w. os_workspace s = JStr w \<and> is_absolute w) \<and>
     (os_kind s = JStr ''apply'' \<longrightarrow> truthy (os_plan_id s)) \<and> draft_identity_ok s"
proof -
  have "spec_validate s = Inr s' \<longleftrightarrow> unsupported s = Inr False \<and> s' = s \<and>
     (\<exists>p\<in>set OPERATION_PROFILES. os_profile s = JStr p) \<and> prompt_fits s \<and> timeout_ok s \<and>
     (\<exists>w. os_workspace s = JStr w \<and> is_absolute w) \<and>
     (os_kind s = JStr ''apply'' \<longrightarrow> truthy (os_plan_id s)) \<and> draft_identity_ok s"
    unfolding spec_validate_def try_bind_Inr
    by (cases "os_profile s"; cases "os_workspace s") (auto split: if_splits)
  then show ?thesis by auto
qed

lemma asdict_keyed: "spec_validate s = Inr s' \<Longrightarrow> keyed (os_plan_id s) \<Longrightarrow> keyed (JObj (asdict s))"
  by (auto simp: spec_validate_Inr asdict_def prompt_fits_def timeout_ok_def draft_identity_ok_def split: json.splits)

lemma asdict_canon:
  assumes "spec_validate s = Inr s'"
  shows "canon (JObj (asdict s)) = JObj (asdict (s\<lparr>os_plan_id := canon (os_plan_id s)\<rparr>))"
proof -
  let ?c = "map (\<lambda>(k, v). (k, canon v)) (asdict s)"
  have "map fst ?c = [''draft_id'', ''kind'', ''plan_id'', ''profile'', ''prompt'', ''timeout_seconds'', ''version'', ''workspace'']"
    by (simp add: asdict_def)
  moreover have "sorted [''draft_id'', ''kind'', ''plan_id'', ''profile'', ''prompt'', ''timeout_seconds'', ''version'', ''workspace'']"
    by code_simp
  ultimately have "sorted (map fst ?c)" by (simp only:)
  then have "sort_key fst ?c = ?c" by (rule sort_key_id_if_sorted)
  moreover have "?c = asdict (s\<lparr>os_plan_id := canon (os_plan_id s)\<rparr>)" using assms
    by (auto simp: spec_validate_Inr asdict_def prompt_fits_def timeout_ok_def draft_identity_ok_def split: json.splits)
  ultimately show ?thesis by simp
qed

lemma route_tier:
  assumes "route a = Inr p" "score a ''importance'' = Some i" "score a ''impact'' = Some j" "score a ''complexity'' = Some k"
  shows "p = (if j \<ge> 4 \<or> i \<ge> 4 \<or> k \<ge> 5 then ''sol'' else if k \<ge> 3 then ''luna'' else ''flash'')"
proof -
  from assms(1) obtain r where "map_of a ''reason'' = Some (JStr r)" "int (len_cp r) \<le> 2000"
    and "text_among (field_or a ''task_kind'' (JStr ''work''))
       [''work'', ''analysis'', ''code'', ''document'', ''data''] = Inr True"
    unfolding route_def assms(2-4) try_bind_Inr by (auto split: if_splits option.splits json.splits)
  with assms show ?thesis by (auto simp: route_def split: if_split_asm)
qed

section \<open>Properties\<close>

text \<open>What an operation row can hold. Whatever dictionary is loaded successfully, the specification has
  version 1, is a request or an apply, names one of the profiles, has a prompt of at most 60000 bytes, a
  timeout between one second and one hour and an absolute workspace; an apply has a plan, and only a
  request may continue a draft.\<close>

theorem loaded_spec_is_bounded:
  assumes "spec_restored d = Inr s"
  shows "os_version s = JInt 1 \<and> os_kind s \<in> {JStr ''request'', JStr ''apply''} \<and>
    (\<exists>p. os_profile s = JStr p \<and> p \<in> {''auto'', ''flash'', ''luna'', ''sol'', ''astra''}) \<and>
    (\<exists>p. os_prompt s = JStr p \<and> length p \<le> 60000) \<and>
    (\<exists>n. os_timeout_seconds s = JInt n \<and> 1 \<le> n \<and> n \<le> 3600) \<and>
    (\<exists>w. os_workspace s = JStr (''/'' @ w)) \<and>
    (os_kind s = JStr ''apply'' \<longrightarrow> truthy (os_plan_id s) \<and> os_draft_id s = JStr [])"
proof -
  from assms have v: "spec_validate (spec_of d) = Inr s" by (auto simp: spec_restored_def split: if_splits)
  then have "spec_of d = s" using spec_validate_same by blast
  with v have ok: "spec_validate s = Inr s" by simp
  then have "prompt_fits s" "timeout_ok s" "draft_identity_ok s" by (auto simp: spec_validate_Inr)
  then have "(\<exists>p. os_prompt s = JStr p \<and> length p \<le> 60000)" "(\<exists>n. os_timeout_seconds s = JInt n \<and> 1 \<le> n \<and> n \<le> 3600)"
    "os_kind s = JStr ''apply'' \<longrightarrow> os_draft_id s = JStr []"
    by (auto simp: prompt_fits_def timeout_ok_def draft_identity_ok_def split: json.splits)
  with ok show ?thesis
    by (auto simp: spec_validate_Inr OPERATION_PROFILES_def is_absolute_def starts_with_append)
qed

lemma loaded_spec_is_bounded_witness:
  "\<exists>s. spec_restored [(''workspace'', JStr ''/w''), (''prompt'', JStr ''hi'')] = Inr s \<and> os_timeout_seconds s = JInt 600 \<and>
     os_version s = JInt 1"
proof -
  let ?d = "[(''workspace'', JStr ''/w''), (''prompt'', JStr ''hi'')]"
  have eq: "spec_restored ?d = Inr (default_spec\<lparr>os_workspace := JStr ''/w'', os_prompt := JStr ''hi''\<rparr>)"
    by code_simp
  from loaded_spec_is_bounded [OF eq] eq show ?thesis by (auto simp: default_spec_def)
qed

text \<open>C39. Storing and loading are inverse. The text written for a valid specification, unless it is longer than 500000
  characters, is read back as that specification, its fields escaped, quoted and parsed on the way; only the items of
  a dictionary given as plan id come back in the order of their keys, which Python's equality ignores. It is the text of
  the dictionary that the ledger keeps, and reading that column gives the specification too.\<close>

theorem spec_roundtrip:
  assumes "spec_dumps s = Inr t" "int (len_cp t) \<le> 500000" "keyed (os_plan_id s)"
  shows "spec_loads t = Inr (s\<lparr>os_plan_id := canon (os_plan_id s)\<rparr>) \<and>
    (\<exists>d. spec_stored s = Inr d \<and> t = dumps_json (JObj d) \<and> spec_restored d = Inr s)"
proof -
  from assms(1) have v: "spec_validate s = Inr s" and t: "t = dumps_json (JObj (asdict s))"
    using spec_validate_same by (auto simp: spec_dumps_def simp del: dumps_json.simps)
  let ?s = "s\<lparr>os_plan_id := canon (os_plan_id s)\<rparr>"
  have "loads_json t = Inr (JObj (asdict ?s))"
    using loads_dumps [OF asdict_keyed [OF v assms(3)]] by (simp only: t asdict_canon [OF v])
  moreover have "spec_validate ?s = Inr ?s"
    using v by (cases "os_draft_id s") (auto simp: spec_validate_Inr prompt_fits_def timeout_ok_def draft_identity_ok_def)
  ultimately show ?thesis using assms(2) v
    by (simp add: spec_loads_def spec_stored_def spec_restored_def asdict_fields not_less t del: dumps_json.simps)
qed

lemma spec_roundtrip_witness:
  "\<exists>t. spec_dumps (default_spec\<lparr>os_workspace := JStr ''/w'', os_prompt := JStr [quote, CHR 0x0A, backslash], os_kind := JStr ''apply'',
       os_plan_id := JStr ''p1''\<rparr>) = Inr t \<and> length t = 146 \<and>
     spec_loads t = Inr (default_spec\<lparr>os_workspace := JStr ''/w'', os_prompt := JStr [quote, CHR 0x0A, backslash],
       os_kind := JStr ''apply'', os_plan_id := JStr ''p1''\<rparr>)"
proof -
  let ?s = "default_spec\<lparr>os_workspace := JStr ''/w'', os_prompt := JStr [quote, CHR 0x0A, backslash], os_kind := JStr ''apply'',
    os_plan_id := JStr ''p1''\<rparr>"
  have d: "spec_dumps ?s = Inr (dumps_json (JObj (asdict ?s)))" by code_simp
  have len: "int (len_cp (dumps_json (JObj (asdict ?s)))) \<le> 500000" "length (dumps_json (JObj (asdict ?s))) = 146" by code_simp+
  have k: "keyed (os_plan_id ?s)" by simp
  from spec_roundtrip [OF d len(1) k] d len(2) show ?thesis by simp
qed

definition tier :: "string \<Rightarrow> nat" where
  "tier p = (if p = ''sol'' then 2 else if p = ''luna'' then 1 else 0)"

text \<open>Routing is monotone: of two assessments that are routed, the one whose importance, impact and
  complexity are all at least as high never gets a smaller model (flash, luna, sol in this order).\<close>

theorem route_monotone:
  assumes "route a = Inr p" "route b = Inr q"
    and "score a ''importance'' = Some i" "score b ''importance'' = Some i'" "i \<le> i'"
    and "score a ''impact'' = Some j" "score b ''impact'' = Some j'" "j \<le> j'"
    and "score a ''complexity'' = Some k" "score b ''complexity'' = Some k'" "k \<le> k'"
  shows "tier p \<le> tier q \<and> p \<in> {''flash'', ''luna'', ''sol''}"
  using assms route_tier [of a p] route_tier [of b q] by (simp add: tier_def)

lemma route_monotone_witness:
  "\<exists>p q. route [(''importance'', JInt 1), (''impact'', JInt 2), (''complexity'', JInt 3), (''reason'', JStr [])] = Inr p \<and>
     route [(''importance'', JInt 1), (''impact'', JInt 4), (''complexity'', JInt 3), (''reason'', JStr [])] = Inr q \<and>
     tier p \<le> tier q \<and> p \<noteq> q"
proof -
  let ?a = "[(''importance'', JInt 1), (''impact'', JInt 2), (''complexity'', JInt 3), (''reason'', JStr [])]"
  let ?b = "[(''importance'', JInt 1), (''impact'', JInt 4), (''complexity'', JInt 3), (''reason'', JStr [])]"
  have ab: "route ?a = Inr ''luna''" "route ?b = Inr ''sol''" by code_simp+
  have "tier ''luna'' \<le> tier ''sol''"
    by (rule route_monotone [OF ab, where i = 1 and i' = 1 and j = 2 and j' = 4 and k = 3 and k' = 3, THEN conjunct1])
      (simp_all add: score_def)
  with ab show ?thesis by (intro exI [of _ "''luna''"] exI [of _ "''sol''"]) simp
qed

end
