(* ===== verification/Conversations.thy ===== *)
theory Conversations
  imports Ledger_Tasks Operation_Spec
begin

text \<open>
  Conversation order: \<open>bind_conn\<close>, \<open>has_earlier_work_conn\<close>, \<open>complete_conn\<close> and \<open>reset\<close> of
  \<open>src/nyanya_agent/conversation_store.py\<close>. A session numbers its turns within a generation; a reset opens
  a new generation and leaves every row in place. The SHA-256 digest is the parameter \<open>H\<close>.
\<close>

definition conversation_hash :: "(string \<Rightarrow> string) \<Rightarrow> string \<Rightarrow> string result" where
  "conversation_hash H key =
     (if key = [] \<or> int (length key) > 4096 then Inl (SafeOperationError ''Invalid conversation key'') else Inr (H key))"

definition fetch_conversation :: "ledger \<Rightarrow> string \<Rightarrow> conversation_row option" where
  "fetch_conversation db i = List.find (\<lambda>s. cv_id s = i) (conversation_sessions db)"

definition fetch_turn :: "ledger \<Rightarrow> string \<Rightarrow> turn_row option" where
  "fetch_turn db i = List.find (\<lambda>c. tn_task_id c = i) (conversation_turns db)"

definition fetch_operation :: "ledger \<Rightarrow> string \<Rightarrow> operation_row option" where
  "fetch_operation db i = List.find (\<lambda>q. op_task_id q = i) (task_operations db)"

definition fetch_result :: "ledger \<Rightarrow> string \<Rightarrow> result_row option" where
  "fetch_result db i = List.find (\<lambda>r. rt_execution_id r = i) (task_results db)"

definition find_session :: "ledger \<Rightarrow> string \<Rightarrow> string \<Rightarrow> string \<Rightarrow> conversation_row option" where
  "find_session db owner hashed workspace =
     List.find (\<lambda>s. conversation_unique s = Some (owner, hashed, workspace)) (conversation_sessions db)"

text \<open>\<open>INSERT ... ON CONFLICT(owner_key,conversation_hash,workspace_root) DO NOTHING\<close>, then the row\<close>

definition session_conn ::
  "(string \<Rightarrow> string) \<Rightarrow> time \<Rightarrow> string \<Rightarrow> string \<Rightarrow> string \<Rightarrow> string \<Rightarrow> ledger \<Rightarrow> (conversation_row \<times> ledger) result" where
  "session_conn H t new_id owner conversation_key workspace db =
     try_bind (conversation_hash H conversation_key) (\<lambda>hashed.
       case find_session db owner hashed workspace of
         Some s \<Rightarrow> Inr (s, db)
       | None \<Rightarrow>
           (let s = \<lparr>cv_id = new_id, cv_owner_key = owner, cv_conversation_hash = hashed, cv_workspace_root = workspace,
                     cv_generation = 1, cv_next_sequence = 1, cv_pending_task_id = None,
                     cv_pending_execution_id = None, cv_memory_reset_generation = 0,
                     cv_created_at = t, cv_updated_at = t\<rparr>
            in try_bind (insert_conversation s db) (\<lambda>db1. Inr (s, db1))))"

definition last_turn :: "ledger \<Rightarrow> conversation_row \<Rightarrow> turn_row option" where
  "last_turn db s =
     (case order_desc tn_sequence (filter (\<lambda>c. tn_session_id c = cv_id s \<and> tn_generation c = cv_generation s)
             (conversation_turns db)) of [] \<Rightarrow> None | c # _ \<Rightarrow> Some c)"

definition bind_conn ::
  "(string \<Rightarrow> string) \<Rightarrow> time \<Rightarrow> string \<Rightarrow> string \<Rightarrow> string \<Rightarrow> string \<Rightarrow> string \<Rightarrow> ledger \<Rightarrow> (turn_row \<times> ledger) result" where
  "bind_conn H t new_id task_id owner conversation_key workspace db =
     (case (fetch_task db task_id, fetch_operation db task_id) of
        (Some task, Some operation) \<Rightarrow>
          if tk_requested_by task \<noteq> owner then Inl (PermissionError ''Conversation task owner mismatch'')
          else if map_of (op_spec operation) ''kind'' \<noteq> Some (JStr ''request'') \<or>
                  map_of (op_spec operation) ''workspace'' \<noteq> Some (JStr workspace)
          then Inl (PermissionError ''Conversation task workspace or kind mismatch'')
          else (case fetch_turn db task_id of
              Some prior \<Rightarrow>
                (case fetch_conversation db (tn_session_id prior) of
                   None \<Rightarrow> Inl (TypeError ''scope'')
                 | Some scope \<Rightarrow> try_bind (conversation_hash H conversation_key) (\<lambda>hashed.
                     if conversation_unique scope \<noteq> Some (owner, hashed, workspace)
                     then Inl (PermissionError ''Conversation intake scope mismatch'') else Inr (prior, db)))
            | None \<Rightarrow>
                try_bind (session_conn H t new_id owner conversation_key workspace db) (\<lambda>(session, db1).
                  (let turn = \<lparr>tn_task_id = task_id, tn_session_id = cv_id session,
                         tn_generation = cv_generation session, tn_sequence = cv_next_sequence session,
                         tn_related_task_id = map_option tn_task_id (last_turn db1 session),
                         tn_reply_kind = ''answer'', tn_completed_execution_id = None,
                         tn_created_at = t, tn_updated_at = t\<rparr>
                   in try_bind (insert_turn turn db1) (\<lambda>db2.
                      Inr (turn, update_conversation (\<lambda>s. cv_id s = cv_id session)
                        (\<lambda>s. s\<lparr>cv_next_sequence := cv_next_sequence s + 1, cv_updated_at := t,
                               cv_pending_task_id := None, cv_pending_execution_id := None\<rparr>) db2)))))
      | _ \<Rightarrow> Inl (PermissionError ''Conversation task owner mismatch''))"

definition eligible_now :: "operation_row \<Rightarrow> bool" where
  "eligible_now q \<longleftrightarrow> op_eligible q \<and> op_attempts q < op_max_attempts q"

definition has_earlier_work_conn :: "ledger \<Rightarrow> string \<Rightarrow> bool" where
  "has_earlier_work_conn db task_id =
     list_ex (\<lambda>current. tn_task_id current = task_id \<and>
       list_ex (\<lambda>earlier. tn_session_id earlier = tn_session_id current \<and> tn_generation earlier = tn_generation current \<and>
         tn_task_id earlier \<noteq> tn_task_id current \<and>
         list_ex (\<lambda>k. tk_id k = tn_task_id earlier \<and>
           list_ex (\<lambda>q. op_task_id q = tk_id k \<and>
             (tk_status k \<in> {''running'', ''cancelling''} \<or>
              tn_sequence earlier < tn_sequence current \<and> tk_status k = ''queued'' \<and> eligible_now q))
             (task_operations db)) (agent_tasks db)) (conversation_turns db)) (conversation_turns db)"

text \<open>What a worker carries: the claim it holds, the specification it runs, the kind of its reply.\<close>

record claim_record =
  cr_task_id :: string
  cr_worker_id :: string
  cr_execution_id :: string
  cr_spec :: "operation_spec option"
  cr_owner :: string
  cr_reply_kind :: "string option"

definition complete_conn :: "time \<Rightarrow> claim_record \<Rightarrow> task_outcome \<Rightarrow> ledger \<Rightarrow> ledger" where
  "complete_conn t r oc db =
     (let task_id = cr_task_id r; execution_id = cr_execution_id r in
      case (fetch_turn db task_id, fetch_task db task_id, fetch_result db execution_id) of
        (Some turn, Some task, Some _) \<Rightarrow>
          (case fetch_conversation db (tn_session_id turn) of
             None \<Rightarrow> db
           | Some session \<Rightarrow>
               if tk_current_execution_id task \<noteq> Some execution_id \<or> tn_generation turn \<noteq> cv_generation session then db
               else
                 (let kind = (case cr_reply_kind r of None \<Rightarrow> ''answer''
                              | Some k \<Rightarrow> if k \<in> {''answer'', ''question''} then k else ''answer'');
                      db1 = update_turn (\<lambda>c. tn_task_id c = task_id)
                        (\<lambda>c. c\<lparr>tn_reply_kind := kind, tn_completed_execution_id := Some execution_id,
                               tn_updated_at := t\<rparr>) db;
                      question = (oc_status oc = ''succeeded'' \<and> kind = ''question'')
                  in if tn_sequence turn = cv_next_sequence session - 1
                     then update_conversation (\<lambda>s. cv_id s = tn_session_id turn \<and> cv_generation s = tn_generation turn)
                       (\<lambda>s. s\<lparr>cv_pending_task_id := (if question then Some task_id else None),
                              cv_pending_execution_id := (if question then Some execution_id else None),
                              cv_updated_at := t\<rparr>) db1
                     else db1))
      | _ \<Rightarrow> db)"

definition reset_conversation ::
  "(string \<Rightarrow> string) \<Rightarrow> time \<Rightarrow> string \<Rightarrow> string \<Rightarrow> string \<Rightarrow> string \<Rightarrow> ledger \<Rightarrow> (int \<times> ledger) result" where
  "reset_conversation H t new_id owner conversation_key workspace db =
     try_bind (session_conn H t new_id owner conversation_key workspace db) (\<lambda>(session, db1).
       Inr (cv_generation session + 1, update_conversation (\<lambda>s. cv_id s = cv_id session)
         (\<lambda>s. s\<lparr>cv_generation := cv_generation s + 1, cv_memory_reset_generation := cv_generation s + 1,
                cv_next_sequence := 1, cv_pending_task_id := None, cv_pending_execution_id := None,
                cv_updated_at := t\<rparr>) db1))"

section \<open>Soundness\<close>

lemma fetch_conversationD: "fetch_conversation db i = Some s \<Longrightarrow> s \<in> set (conversation_sessions db) \<and> cv_id s = i"
  by (auto simp: fetch_conversation_def dest: find_SomeD)

lemma fetch_turnD: "fetch_turn db i = Some c \<Longrightarrow> c \<in> set (conversation_turns db) \<and> tn_task_id c = i"
  by (auto simp: fetch_turn_def dest: find_SomeD)

lemma fetch_operationD: "fetch_operation db i = Some x \<Longrightarrow> x \<in> set (task_operations db) \<and> op_task_id x = i"
  by (auto simp: fetch_operation_def dest: find_SomeD)

lemma fetch_resultD: "fetch_result db i = Some x \<Longrightarrow> x \<in> set (task_results db) \<and> rt_execution_id x = i"
  by (auto simp: fetch_result_def dest: find_SomeD)

lemma session_conn_sound: "session_conn H t i ow k w db = Inr (s, db') \<Longrightarrow> sound db db'"
  by (auto simp: session_conn_def Let_def row_defs split: option.splits intro!: sound_intros)

lemma bind_conn_sound: "bind_conn H t i k ow ck w db = Inr (c, db') \<Longrightarrow> sound db db'"
  by (auto simp: bind_conn_def Let_def row_defs conversation_unique_def
      split: option.splits if_splits intro!: sound_intros dest: session_conn_sound)

lemma fetch_keys:
  "fetch_task db i = Some k \<Longrightarrow> i \<in> k_tasks (keys db)"
  "fetch_result db x = Some r \<Longrightarrow> ledger_inv db \<Longrightarrow> x \<in> k_executions (keys db)"
  by (auto simp: keys_def ledger_inv_def inv_at_def table_inv_def row_defs
      dest!: fetch_taskD fetch_resultD)

lemma complete_conn_sound: "sound db (complete_conn t r oc db)"
  by (auto dest: fetch_keys(2) simp: complete_conn_def Let_def row_defs conversation_unique_def turn_unique_def fetch_keys
      split: option.splits intro!: sound_intros)

lemma reset_conversation_sound: "reset_conversation H t i ow k w db = Inr (g, db') \<Longrightarrow> sound db db'"
  by (auto simp: reset_conversation_def row_defs conversation_unique_def intro!: sound_intros dest: session_conn_sound)

section \<open>Numbering\<close>

text \<open>The turns of the live generation of every session are numbered 1, 2, ... up to the next number, and no
  turn belongs to a generation that has not begun.\<close>

definition turn_key :: "turn_row \<Rightarrow> string \<times> int \<times> int" where
  "turn_key c = (tn_session_id c, tn_generation c, tn_sequence c)"

definition numbered :: "(string \<times> int \<times> int) set \<Rightarrow> conversation_row \<Rightarrow> bool" where
  "numbered ks s \<longleftrightarrow> 1 \<le> cv_next_sequence s \<and>
     (\<forall>g n. (cv_id s, g, n) \<in> ks \<longrightarrow> g \<le> cv_generation s \<and>
        (g = cv_generation s \<longrightarrow> 1 \<le> n \<and> n < cv_next_sequence s)) \<and>
     (\<forall>n. 1 \<le> n \<longrightarrow> n < cv_next_sequence s \<longrightarrow> (cv_id s, cv_generation s, n) \<in> ks)"

definition conversation_inv :: "ledger \<Rightarrow> bool" where
  "conversation_inv db \<longleftrightarrow> (\<forall>s\<in>set (conversation_sessions db). numbered (turn_key ` set (conversation_turns db)) s)"

lemma conversation_keys:
  assumes "ledger_inv db"
  shows "distinct (map cv_id (conversation_sessions db))"
    and "c \<in> set (conversation_turns db) \<Longrightarrow> tn_session_id c \<in> cv_id ` set (conversation_sessions db)"
    and "distinct (map tn_task_id (conversation_turns db))"
  using assms by (auto simp: ledger_inv_def inv_at_def table_inv_def row_defs keys_def)

lemma session_connE:
  assumes "session_conn H t i ow k w db = Inr (s, db1)"
  obtains (old) hashed where "conversation_hash H k = Inr hashed" "find_session db ow hashed w = Some s" "db1 = db"
  | (new) hashed where "conversation_hash H k = Inr hashed" "find_session db ow hashed w = None"
      "conversation_unique s = Some (ow, hashed, w)"
      "db1 = add_conversation s db" "cv_next_sequence s = 1" "cv_generation s = 1" "cv_id s = i"
      "cv_id s \<notin> cv_id ` set (conversation_sessions db)"
proof -
  from assms obtain hashed where h: "conversation_hash H k = Inr hashed" by (auto simp: session_conn_def)
  show ?thesis
  proof (cases "find_session db ow hashed w")
    case None
    with assms h show ?thesis by (intro new [OF h]) (auto simp: session_conn_def Let_def clash_def conversation_unique_def)
  next
    case (Some s')
    with assms h show ?thesis by (intro old [OF h]) (auto simp: session_conn_def)
  qed
qed

lemma session_conn_total:
  assumes "conversation_hash H key = Inr h" "\<And>x. x \<in> set (conversation_sessions db) \<Longrightarrow> cv_id x \<noteq> new_id"
  obtains s db1 where "session_conn H t new_id owner key w db = Inr (s, db1)"
proof (cases "find_session db owner h w")
  case None
  then have "conversation_unique x \<noteq> Some (owner, h, w)" if "x \<in> set (conversation_sessions db)" for x
    using that unfolding find_session_def by (rule find_NoneD)
  with assms None show thesis
    by (intro that) (simp add: session_conn_def Let_def insert_conversation_def clash_def conversation_fk_def;
      auto simp: conversation_unique_def)
next
  case (Some s)
  with assms(1) show thesis by (intro that) (simp add: session_conn_def)
qed

lemma find_sessionD: "find_session db ow h w = Some s \<Longrightarrow> s \<in> set (conversation_sessions db)"
  by (auto simp: find_session_def dest: find_SomeD)

lemma session_conn_numbered:
  assumes "session_conn H t i ow k w db = Inr (s, db1)" "ledger_inv db" "conversation_inv db"
  shows "conversation_inv db1 \<and> s \<in> set (conversation_sessions db1) \<and> conversation_turns db1 = conversation_turns db"
  using assms(1)
proof (cases rule: session_connE)
  case old
  with assms(3) show ?thesis by (auto dest: find_sessionD)
next
  case new
  have "(cv_id s, g, n) \<notin> turn_key ` set (conversation_turns db)" for g n
    using conversation_keys(2) [OF assms(2)] new(8) by (auto simp: turn_key_def)
  with new have "numbered (turn_key ` set (conversation_turns db)) s" by (simp add: numbered_def)
  with assms(3) new show ?thesis by (auto simp: conversation_inv_def add_conversation_def)
qed

lemma numbered_other:
  "numbered ks s \<Longrightarrow> i \<noteq> cv_id s \<Longrightarrow> numbered (insert (i, g, n) ks) s"
  unfolding numbered_def by auto

lemma numbered_next:
  assumes "numbered ks s" "cv_id s' = cv_id s" "cv_generation s' = cv_generation s"
    and "cv_next_sequence s' = cv_next_sequence s + 1"
  shows "numbered (insert (cv_id s, cv_generation s, cv_next_sequence s) ks) s'"
  using assms unfolding numbered_def by (auto; force)

lemma bind_conn_inv:
  assumes "bind_conn H t i k ow ck w db = Inr (c, db')" "ledger_inv db" "conversation_inv db"
  shows "conversation_inv db'"
proof (cases "fetch_turn db k")
  case (Some prior)
  with assms show ?thesis by (auto simp: bind_conn_def split: option.splits if_splits)
next
  case None
  with assms(1) obtain s db1 where s: "session_conn H t i ow ck w db = Inr (s, db1)"
    and c: "tn_session_id c = cv_id s" "tn_generation c = cv_generation s" "tn_sequence c = cv_next_sequence s"
    and db': "db' = update_conversation (\<lambda>x. cv_id x = cv_id s)
        (\<lambda>x. x\<lparr>cv_next_sequence := cv_next_sequence x + 1, cv_updated_at := t,
               cv_pending_task_id := None, cv_pending_execution_id := None\<rparr>) (add_turn c db1)"
    by (auto simp: bind_conn_def Let_def split: option.splits if_splits)
  from session_conn_sound [OF s] assms(2) have "ledger_inv db1" by (simp add: sound_def)
  then have dist: "distinct (map cv_id (conversation_sessions db1))" by (rule conversation_keys)
  from session_conn_numbered [OF s assms(2,3)] have inv: "conversation_inv db1" and mem: "s \<in> set (conversation_sessions db1)"
    by auto
  let ?g = "\<lambda>x. if cv_id x = cv_id s then x\<lparr>cv_next_sequence := cv_next_sequence x + 1,
      cv_updated_at := t, cv_pending_task_id := None, cv_pending_execution_id := None\<rparr> else x"
  have num: "numbered (insert (turn_key c) (turn_key ` set (conversation_turns db1))) (?g x)" if x: "x \<in> set (conversation_sessions db1)" for x
  proof (cases "cv_id x = cv_id s")
    case True
    with dist x mem have "x = s" by (metis distinct_map inj_onD)
    with inv mem c show ?thesis by (auto simp: conversation_inv_def turn_key_def intro: numbered_next)
  next
    case False
    with inv x c(1) show ?thesis by (auto simp: conversation_inv_def turn_key_def intro: numbered_other)
  qed
  have "conversation_sessions db' = map ?g (conversation_sessions db1)"
    "turn_key ` set (conversation_turns db') = insert (turn_key c) (turn_key ` set (conversation_turns db1))"
    by (simp_all add: db' statement_defs upd_def)
  with num show ?thesis unfolding conversation_inv_def by (simp only: set_map) blast
qed

lemma conversation_inv_cong:
  assumes "map turn_key (conversation_turns db') = map turn_key (conversation_turns db)"
    and "map (\<lambda>s. (cv_id s, cv_generation s, cv_next_sequence s)) (conversation_sessions db') =
      map (\<lambda>s. (cv_id s, cv_generation s, cv_next_sequence s)) (conversation_sessions db)"
    and "conversation_inv db"
  shows "conversation_inv db'"
  unfolding conversation_inv_def
proof
  fix s' assume "s' \<in> set (conversation_sessions db')"
  then have "(cv_id s', cv_generation s', cv_next_sequence s') \<in>
      set (map (\<lambda>s. (cv_id s, cv_generation s, cv_next_sequence s)) (conversation_sessions db))"
    unfolding assms(2) [symmetric] by auto
  then obtain s where s: "s \<in> set (conversation_sessions db)" "cv_id s' = cv_id s"
    "cv_generation s' = cv_generation s" "cv_next_sequence s' = cv_next_sequence s" by auto
  have "turn_key ` set (conversation_turns db') = turn_key ` set (conversation_turns db)"
    using arg_cong [OF assms(1), of set] by simp
  with s assms(3) show "numbered (turn_key ` set (conversation_turns db')) s'"
    by (simp add: conversation_inv_def numbered_def)
qed

lemma complete_conn_inv: "conversation_inv db \<Longrightarrow> conversation_inv (complete_conn t r oc db)"
  by (rule conversation_inv_cong)
     (simp_all add: complete_conn_def Let_def statement_defs turn_key_def split: option.split)

lemma reset_conversation_inv:
  assumes "reset_conversation H t i ow k w db = Inr (g, db')" "ledger_inv db" "conversation_inv db"
  shows "conversation_inv db'"
proof -
  from assms(1) obtain s db1 where s: "session_conn H t i ow k w db = Inr (s, db1)"
    and db': "db' = update_conversation (\<lambda>x. cv_id x = cv_id s)
         (\<lambda>s. s\<lparr>cv_generation := cv_generation s + 1, cv_memory_reset_generation := cv_generation s + 1,
                cv_next_sequence := 1, cv_pending_task_id := None, cv_pending_execution_id := None,
                cv_updated_at := t\<rparr>) db1"
    by (auto simp: reset_conversation_def)
  from session_conn_numbered [OF s assms(2,3)] have inv: "conversation_inv db1" by simp
  have "numbered ks x \<Longrightarrow> numbered ks (x\<lparr>cv_generation := cv_generation x + 1,
      cv_memory_reset_generation := cv_generation x + 1, cv_next_sequence := 1, cv_pending_task_id := None,
      cv_pending_execution_id := None, cv_updated_at := t\<rparr>)" for ks x
    unfolding numbered_def by force
  with inv show ?thesis
    by (auto simp: db' conversation_inv_def statement_defs upd_def)
qed

inductive conversation_step :: "ledger \<Rightarrow> ledger \<Rightarrow> bool" where
  bind: "bind_conn H t i k ow ck w db = Inr (c, db') \<Longrightarrow> conversation_step db db'"
| complete: "conversation_step db (complete_conn t r oc db)"
| reset: "reset_conversation H t i ow ck w db = Inr (g, db') \<Longrightarrow> conversation_step db db'"

lemma conversation_step_sound: "conversation_step db db' \<Longrightarrow> sound db db'"
  by (induction rule: conversation_step.induct)
     (auto dest: bind_conn_sound reset_conversation_sound intro: complete_conn_sound)

lemma conversation_step_inv:
  "conversation_step db db' \<Longrightarrow> ledger_inv db \<Longrightarrow> conversation_inv db \<Longrightarrow> conversation_inv db'"
  by (induction rule: conversation_step.induct)
     (auto dest: bind_conn_inv reset_conversation_inv intro: complete_conn_inv)

interpretation conversations: recorded_system conversation_step "\<lambda>db. ledger_inv db \<and> conversation_inv db" extends_logs
proof unfold_locales
  fix s t assume "conversation_step s t"
  then show "ledger_inv s \<and> conversation_inv s \<Longrightarrow> ledger_inv t \<and> conversation_inv t" and "extends_logs s t"
    using conversation_step_sound conversation_step_inv by (auto simp: sound_def)
qed (auto simp: extends_logs_def)

section \<open>Properties\<close>

lemma last_turnD: "last_turn db s = Some c \<Longrightarrow> c \<in> set (conversation_turns db)"
proof -
  let ?P = "\<lambda>c. tn_session_id c = cv_id s \<and> tn_generation c = cv_generation s"
  assume "last_turn db s = Some c"
  then obtain cs where "order_desc tn_sequence (filter ?P (conversation_turns db)) = c # cs"
    by (auto simp: last_turn_def split: list.splits)
  then have "c \<in> set (order_desc tn_sequence (filter ?P (conversation_turns db)))" by (simp only: list.set_intros)
  then show ?thesis by (simp only: set_order set_filter) blast
qed

lemma insert_next_turn:
  assumes "ledger_inv db" "conversation_inv db" "s \<in> set (conversation_sessions db)"
    and "fetch_turn db k = None" "k \<in> k_tasks (keys db)"
    and "tn_task_id c = k" "tn_session_id c = cv_id s" "tn_generation c = cv_generation s"
    and "tn_sequence c = cv_next_sequence s" "tn_related_task_id c = map_option tn_task_id (last_turn db s)"
    and "tn_completed_execution_id c = None"
  shows "insert_turn c db = Inr (add_turn c db)"
proof -
  have "numbered (turn_key ` set (conversation_turns db)) s" using assms(2,3) by (simp add: conversation_inv_def)
  then have "turn_key c \<notin> turn_key ` set (conversation_turns db)"
    using assms(7-9) by (auto simp: numbered_def turn_key_def image_iff)
  moreover have "tn_task_id x \<noteq> k" if "x \<in> set (conversation_turns db)" for x
    using assms(4) that by (auto simp: fetch_turn_def find_None_iff)
  ultimately have "\<not> clash tn_task_id turn_unique (conversation_turns db) c"
    using assms(6) by (auto simp: clash_def turn_unique_def turn_key_def image_iff)
  moreover have "tn_task_id x \<in> k_tasks (keys db)" if "x \<in> set (conversation_turns db)" for x
    using assms(1) that by (auto simp: ledger_inv_def inv_at_def table_inv_def row_defs)
  then have "fk (k_tasks (keys db)) (map_option tn_task_id (last_turn db s))"
    by (cases "last_turn db s") (auto dest: last_turnD)
  then have "turn_fk (keys db) c"
    using assms(3,5-7,10,11) by (auto simp: turn_fk_def keys_def)
  ultimately show ?thesis by simp
qed

text \<open>A conversation takes every request in order. In any ledger that holds the invariants, binding a request
  task of the owner and workspace that is not bound yet, with a usable conversation key and a fresh session
  id, succeeds: it never hits the uniqueness of turn numbers, the new turn comes after every turn of the
  live generation, and no reply is pending any more.\<close>

theorem bind_takes_next_number:
  assumes "ledger_inv db" "conversation_inv db"
    and "fetch_task db k = Some task" "tk_requested_by task = owner" "fetch_operation db k = Some q"
    and "map_of (op_spec q) ''kind'' = Some (JStr ''request'')" "map_of (op_spec q) ''workspace'' = Some (JStr w)"
    and "fetch_turn db k = None" "key \<noteq> []" "int (length key) \<le> 4096" "fetch_conversation db new_id = None"
  shows "\<exists>c db'. bind_conn H t new_id k owner key w db = Inr (c, db') \<and> tn_task_id c = k \<and> ledger_inv db' \<and>
    conversation_inv db' \<and> conversation_turns db' = conversation_turns db @ [c] \<and>
    list_all (\<lambda>x. turn_key x \<notin> {tn_session_id c} \<times> {tn_generation c} \<times> {tn_sequence c..}) (conversation_turns db) \<and>
    list_ex (\<lambda>s. cv_id s = tn_session_id c \<and> cv_generation s = tn_generation c \<and> cv_next_sequence s = tn_sequence c + 1 \<and>
      cv_pending_task_id s = None) (conversation_sessions db')"
proof -
  have h: "conversation_hash H key = Inr (H key)" using assms(9,10) by (simp add: conversation_hash_def)
  have "cv_id x \<noteq> new_id" if "x \<in> set (conversation_sessions db)" for x
    using assms(11) that by (auto simp: fetch_conversation_def find_None_iff)
  then obtain s db1 where s: "session_conn H t new_id owner key w db = Inr (s, db1)"
    by (rule session_conn_total [OF h])
  from session_conn_numbered [OF s assms(1,2)] have inv1: "conversation_inv db1" and mem: "s \<in> set (conversation_sessions db1)"
    and turns: "conversation_turns db1 = conversation_turns db" by auto
  from session_conn_sound [OF s] assms(1) have linv1: "ledger_inv db1" by (simp add: sound_def)
  define c where "c = \<lparr>tn_task_id = k, tn_session_id = cv_id s, tn_generation = cv_generation s,
      tn_sequence = cv_next_sequence s, tn_related_task_id = map_option tn_task_id (last_turn db1 s),
      tn_reply_kind = ''answer'', tn_completed_execution_id = None, tn_created_at = t, tn_updated_at = t\<rparr>"
  have "k \<in> k_tasks (keys db)" using assms(3) by (rule fetch_keys)
  with s have "k \<in> k_tasks (keys db1)"
    by (cases rule: session_connE) (auto simp: keys_def statement_defs)
  then have ins: "insert_turn c db1 = Inr (add_turn c db1)"
    using assms(8) by (intro insert_next_turn [OF linv1 inv1 mem]) (simp_all add: c_def fetch_turn_def turns)
  define db' where "db' = update_conversation (\<lambda>x. cv_id x = cv_id s)
      (\<lambda>s. s\<lparr>cv_next_sequence := cv_next_sequence s + 1, cv_updated_at := t,
             cv_pending_task_id := None, cv_pending_execution_id := None\<rparr>) (add_turn c db1)"
  have bind: "bind_conn H t new_id k owner key w db = Inr (c, db')"
    using assms(3-8) s ins by (simp add: bind_conn_def Let_def c_def [symmetric] db'_def del: insert_Inr)
  have "numbered (turn_key ` set (conversation_turns db)) s" using inv1 mem by (simp add: conversation_inv_def turns)
  then have "turn_key x \<notin> {cv_id s} \<times> {cv_generation s} \<times> {cv_next_sequence s..}" if "x \<in> set (conversation_turns db)" for x
    using that by (force simp: numbered_def turn_key_def)
  moreover have "ledger_inv db'" using bind_conn_sound [OF bind] assms(1) by (simp add: sound_def)
  moreover have "conversation_inv db'" by (rule bind_conn_inv [OF bind assms(1,2)])
  moreover have "conversation_turns db' = conversation_turns db @ [c]" by (simp add: db'_def statement_defs turns)
  moreover have "list_ex (\<lambda>x. cv_id x = cv_id s \<and> cv_generation x = cv_generation s \<and>
      cv_next_sequence x = cv_next_sequence s + 1 \<and> cv_pending_task_id x = None) (conversation_sessions db')"
    unfolding db'_def by (simp add: statement_defs) (rule list_ex_updI [OF mem], simp_all)
  ultimately show ?thesis using bind by (auto simp: c_def list_all_iff)
qed

text \<open>A reset cuts off the past. After the reset of a conversation, the result of a task bound before it
  changes nothing in the conversation, whatever the result is.\<close>

theorem reset_ignores_late_results:
  assumes "reset_conversation H t new_id owner key w db = Inr (g, db')" "ledger_inv db" "conversation_inv db"
    and "conversation_hash H key = Inr h" "find_session db owner h w = Some s"
    and "fetch_turn db (cr_task_id r) = Some c" "tn_session_id c = cv_id s"
  shows "complete_conn t' r oc db' = db' \<and> g = cv_generation s + 1"
proof -
  from assms(1,4,5) have g: "g = cv_generation s + 1"
    and db': "db' = update_conversation (\<lambda>x. cv_id x = cv_id s)
         (\<lambda>s. s\<lparr>cv_generation := cv_generation s + 1, cv_memory_reset_generation := cv_generation s + 1,
                cv_next_sequence := 1, cv_pending_task_id := None, cv_pending_execution_id := None,
                cv_updated_at := t\<rparr>) db"
    by (auto simp: reset_conversation_def session_conn_def)
  have mem: "s \<in> set (conversation_sessions db)" using assms(5) by (rule find_sessionD)
  have c: "fetch_turn db' (cr_task_id r) = Some c" using assms(6) by (simp add: db' fetch_turn_def statement_defs)
  have "distinct (map cv_id (conversation_sessions db))" using assms(2) by (rule conversation_keys)
  then have "fetch_conversation db (cv_id s) = Some s" using mem by (simp add: fetch_conversation_def find_key_unique)
  then obtain s' where "fetch_conversation db' (tn_session_id c) = Some s'" "cv_generation s' = cv_generation s + 1"
    by (auto simp: db' fetch_conversation_def update_conversation_def find_key_upd assms(7))
  moreover have "tn_generation c \<le> cv_generation s"
    using assms(3,6,7) mem by (force simp: conversation_inv_def numbered_def turn_key_def dest: fetch_turnD)
  ultimately show ?thesis using c g by (auto simp: complete_conn_def Let_def split: option.split)
qed

lemma sample_conversation_inv: "conversation_inv sample_operations"
  by (auto simp: conversation_inv_def numbered_def turn_key_def sample_defs)

lemma sample_conversation_fetch:
  "fetch_task sample_operations ''t3'' = Some sample_task3"
  "fetch_operation sample_operations ''t3'' = Some (sample_operation\<lparr>op_task_id := ''t3''\<rparr>)"
  "fetch_turn sample_operations ''t3'' = None" "fetch_conversation sample_operations ''c9'' = None"
  "fetch_turn sample_operations ''t2'' = Some sample_turn"
  "find_session sample_operations ''u1'' ''k'' ''/w'' = Some sample_conversation"
  by (simp_all add: fetch_task_def fetch_operation_def fetch_turn_def fetch_conversation_def find_session_def
      conversation_unique_def sample_defs)

lemma bind_takes_next_number_witness:
  "\<exists>c db'. bind_conn (\<lambda>s. s) 5 ''c9'' ''t3'' ''u1'' ''k'' ''/w'' sample_operations = Inr (c, db') \<and>
     conversation_inv db' \<and> conversation_turns db' = [sample_turn, c]"
proof -
  have f: "map_of (op_spec (sample_operation\<lparr>op_task_id := ''t3''\<rparr>)) ''kind'' = Some (JStr ''request'')"
    "map_of (op_spec (sample_operation\<lparr>op_task_id := ''t3''\<rparr>)) ''workspace'' = Some (JStr ''/w'')"
    "tk_requested_by sample_task3 = ''u1''" by (simp_all add: sample_defs)
  have "conversation_turns sample_operations = [sample_turn]" by (simp add: sample_operations_def)
  with bind_takes_next_number [OF sample_operations_inv sample_conversation_inv sample_conversation_fetch(1) f(3)
      sample_conversation_fetch(2) f(1,2) sample_conversation_fetch(3), of "''k''" "''c9''" "\<lambda>s. s" 5]
  show ?thesis by (auto simp: sample_conversation_fetch(4))
qed

definition sample_record :: claim_record where
  "sample_record = \<lparr>cr_task_id = ''t2'', cr_worker_id = ''w1'', cr_execution_id = ''e1'', cr_spec = None,
     cr_owner = ''u1'', cr_reply_kind = None\<rparr>"

lemma reset_ignores_late_results_witness:
  "\<exists>db'. reset_conversation (\<lambda>s. s) 5 ''c9'' ''u1'' ''k'' ''/w'' sample_operations = Inr (2, db') \<and>
     complete_conn 6 sample_record \<lparr>oc_status = ''succeeded'', oc_text = []\<rparr> db' = db'"
proof -
  have h: "conversation_hash (\<lambda>s. s) ''k'' = Inr ''k''" by (simp add: conversation_hash_def)
  then obtain db' where r: "reset_conversation (\<lambda>s. s) 5 ''c9'' ''u1'' ''k'' ''/w'' sample_operations = Inr (2, db')"
    by (simp add: reset_conversation_def session_conn_def sample_conversation_fetch sample_conversation_def)
  have "fetch_turn sample_operations (cr_task_id sample_record) = Some sample_turn"
    by (simp add: sample_record_def sample_conversation_fetch)
  from reset_ignores_late_results [OF r sample_operations_inv sample_conversation_inv h
      sample_conversation_fetch(6) this] r
  show ?thesis by (auto simp: sample_turn_def sample_conversation_def)
qed

end
