(* ===== verification/Workspaces.thy ===== *)
theory Workspaces
  imports Prelude "HOL-Library.Sublist"
begin

text \<open>
  Which directories a task may use: the workspace functions of \<open>src/nyanya_agent/bridge_policy.py\<close>, \<open>check_workspace\<close> of \<open>src/nyanya_agent/operation_store.py\<close> and
  \<open>scoped_path\<close> of \<open>src/nyanya_agent/workspace_paths.py\<close>. The file system is a parameter: what
  \<open>Path.resolve\<close> answers with and without \<open>strict\<close>, whether a path is a directory, what
  \<open>expanduser\<close> gives; so are the configured roots and the registration file.
\<close>

record workspace_env =
  we_resolve :: "string \<Rightarrow> string option"  \<comment> \<open>\<open>Path.resolve(strict=True)\<close>; \<open>None\<close> raises\<close>
  we_resolve_any :: "string \<Rightarrow> string"     \<comment> \<open>\<open>Path.resolve(strict=False)\<close>\<close>
  we_expanduser :: "string \<Rightarrow> string"
  we_is_dir :: "string \<Rightarrow> bool"
  we_home :: string                       \<comment> \<open>\<open>Path.home()\<close>\<close>
  we_raw_roots :: string                  \<comment> \<open>\<open>NYANYA_WORKSPACE_ROOTS\<close>\<close>
  we_raw_root :: string                   \<comment> \<open>\<open>NYANYA_WORKSPACE_ROOT\<close>\<close>
  we_raw_trusted :: string                \<comment> \<open>\<open>NYANYA_TRUSTED_WORKSPACE_ROOTS\<close>\<close>
  we_users :: "(string \<times> string) list"    \<comment> \<open>\<open>users.<owner>.workspace\<close> of the registration file\<close>

fun split_on :: "char \<Rightarrow> string \<Rightarrow> string list" where
  "split_on c [] = [[]]"
| "split_on c (x # xs) =
     (if x = c then [] # split_on c xs
      else (case split_on c xs of [] \<Rightarrow> [[x]] | y # ys \<Rightarrow> (x # y) # ys))"

text \<open>The components of an absolute path; empty ones do not count.\<close>

definition path_parts :: "string \<Rightarrow> string list" where
  "path_parts p = filter (\<lambda>x. x \<noteq> []) (split_on (CHR ''/'') p)"

text \<open>\<open>p.relative_to(root)\<close> succeeds, \<open>p.is_relative_to(root)\<close>: for absolute paths\<close>

definition relative_to :: "string \<Rightarrow> string \<Rightarrow> bool" where
  "relative_to root p = prefix (path_parts root) (path_parts p)"

definition resolve_configured_path :: "workspace_env \<Rightarrow> string \<Rightarrow> string" where
  "resolve_configured_path env v =
     (let path = we_expanduser env v in
      we_resolve_any env (if starts_with ''/'' path then path else we_home env @ ''/'' @ path))"

text \<open>The items of a comma-separated setting, resolved; the root directory and repetitions are dropped.\<close>

definition configured_items :: "workspace_env \<Rightarrow> string \<Rightarrow> string list" where
  "configured_items env raw =
     map (\<lambda>item. resolve_configured_path env (strip item))
       (filter (\<lambda>item. strip item \<noteq> []) (split_on (CHR '','') raw))"

fun unique_roots :: "string list \<Rightarrow> string list \<Rightarrow> string list" where
  "unique_roots acc [] = acc"
| "unique_roots acc (r # rs) = unique_roots (if r = ''/'' \<or> r \<in> set acc then acc else acc @ [r]) rs"

definition workspace_roots :: "workspace_env \<Rightarrow> string list" where
  "workspace_roots env =
     (let raw_roots = strip (we_raw_roots env); raw = strip (we_raw_root env) in
      unique_roots []
        (if raw_roots \<noteq> [] then configured_items env raw_roots
         else if raw \<noteq> [] then [resolve_configured_path env raw] else []))"

definition trusted_workspace_roots :: "workspace_env \<Rightarrow> string list" where
  "trusted_workspace_roots env =
     (let raw_roots = strip (we_raw_trusted env) in
      unique_roots [] (if raw_roots \<noteq> [] then configured_items env raw_roots else []))"

definition is_allowed_workspace_path :: "workspace_env \<Rightarrow> string \<Rightarrow> bool" where
  "is_allowed_workspace_path env p =
     (let resolved = we_resolve_any env (we_expanduser env p)
      in list_ex (\<lambda>root. relative_to root resolved) (workspace_roots env))"

definition is_trusted_workspace_path :: "workspace_env \<Rightarrow> string \<Rightarrow> bool" where
  "is_trusted_workspace_path env p =
     (let resolved = we_resolve_any env (we_expanduser env p)
      in list_ex (\<lambda>root. relative_to root resolved) (trusted_workspace_roots env))"

definition workspace_risk_tier :: "workspace_env \<Rightarrow> string \<Rightarrow> string" where
  "workspace_risk_tier env p =
     (if \<not> is_allowed_workspace_path env p then ''blocked''
      else if is_trusted_workspace_path env p then ''trusted'' else ''extended'')"

definition messenger_user :: "string \<Rightarrow> bool" where
  "messenger_user owner \<longleftrightarrow> starts_with ''discord-user:'' owner \<or> starts_with ''telegram-user:'' owner"

definition resolve_strict :: "workspace_env \<Rightarrow> string \<Rightarrow> string result" where
  "resolve_strict env p = (case we_resolve env p of None \<Rightarrow> Inl (OSError p) | Some r \<Rightarrow> Inr r)"

definition check_workspace :: "workspace_env \<Rightarrow> string \<Rightarrow> string \<Rightarrow> string result" where
  "check_workspace env workspace owner =
     try_bind (resolve_strict env workspace) (\<lambda>root.
       if \<not> we_is_dir env root \<or> root = ''/'' \<or> \<not> is_allowed_workspace_path env root
       then Inl (SafeOperationError ''Workspace is not explicitly allowed'')
       else if messenger_user owner then
         (let assigned = (case map_of (we_users env) owner of None \<Rightarrow> [] | Some w \<Rightarrow> w) in
          if assigned = [] then Inl (PermissionError ''Workspace registration does not match task owner'')
          else try_bind (resolve_strict env assigned) (\<lambda>r.
            if r \<noteq> root then Inl (PermissionError ''Workspace registration does not match task owner'')
            else Inr root))
       else Inr root)"

definition scoped_path :: "workspace_env \<Rightarrow> string \<Rightarrow> string \<Rightarrow> string result" where
  "scoped_path env workspace p =
     try_bind (resolve_strict env (we_expanduser env workspace)) (\<lambda>root.
       if \<not> we_is_dir env root \<or> root = ''/'' then Inl (ValueError ''Invalid workspace'')
       else
         (let given = we_expanduser env p;
              candidate = (if starts_with ''/'' given then given else root @ ''/'' @ given);
              resolved = we_resolve_any env candidate
          in if \<not> relative_to root resolved then Inl (ValueError ''Path is outside the assigned workspace'')
             else Inr resolved))"

section \<open>Lemmas\<close>

lemma check_workspaceD:
  assumes "check_workspace env w owner = Inr root"
  shows "we_resolve env w = Some root" "we_is_dir env root" "root \<noteq> ''/''" "is_allowed_workspace_path env root"
    "messenger_user owner \<Longrightarrow> \<exists>a. map_of (we_users env) owner = Some a \<and> a \<noteq> [] \<and> we_resolve env a = Some root"
  using assms
  by (auto simp: check_workspace_def resolve_strict_def Let_def split: option.splits if_splits)

lemma split_on_nonempty [simp]: "split_on c xs \<noteq> []"
  by (induction xs) (auto split: list.splits)

lemma split_on_append:
  "split_on c (xs @ c # ys) = split_on c xs @ split_on c ys"
  by (induction xs) (auto split: list.splits)

lemma path_parts_child: "path_parts (root @ ''/'' @ rest) = path_parts root @ path_parts rest"
  by (simp add: path_parts_def split_on_append)

lemma unique_roots_set: "r \<in> set (unique_roots acc rs) \<Longrightarrow> r \<in> set acc \<or> r \<in> set rs \<and> r \<noteq> ''/''"
  by (induction acc rs rule: unique_roots.induct) (auto split: if_splits)

lemma workspace_root_not_slash: "r \<in> set (workspace_roots env) \<Longrightarrow> r \<noteq> ''/''"
  unfolding workspace_roots_def Let_def by (drule unique_roots_set) simp

section \<open>Properties\<close>

text \<open>A messenger user works only in the directory registered for that user. Whatever path the task names, the
  directory that \<open>check_workspace\<close> admits is an existing directory other than the root directory, lies
  component by component under a configured root, and is the one the user's registration resolves to; so
  two users that are admitted to one directory are registered for the same directory.\<close>

theorem messenger_workspace_is_registered:
  assumes "check_workspace env w u = Inr root" "check_workspace env w' v = Inr root"
    and "messenger_user u" "messenger_user v"
  shows "we_is_dir env root \<and> root \<noteq> ''/'' \<and>
    (\<exists>r\<in>set (workspace_roots env). r \<noteq> ''/'' \<and> prefix (path_parts r) (path_parts (we_resolve_any env (we_expanduser env root)))) \<and>
    (\<exists>a b. map_of (we_users env) u = Some a \<and> map_of (we_users env) v = Some b \<and>
       we_resolve env a = Some root \<and> we_resolve env b = Some root)"
  using check_workspaceD [OF assms(1)] check_workspaceD [OF assms(2)] assms(3,4) workspace_root_not_slash
  by (fastforce simp: is_allowed_workspace_path_def relative_to_def Let_def list_ex_iff)

definition sample_env :: workspace_env where
  "sample_env = \<lparr>we_resolve = (\<lambda>p. if p \<in> {''/w'', ''/w/a''} then Some p else None), we_resolve_any = (\<lambda>p. p),
     we_expanduser = (\<lambda>p. p), we_is_dir = (\<lambda>p. True), we_home = ''/h'', we_raw_roots = ''/w'', we_raw_root = [],
     we_raw_trusted = [],
     we_users = [(''discord-user:1'', ''/w/a'')]\<rparr>"

lemma messenger_workspace_is_registered_witness:
  "check_workspace sample_env ''/w/a'' ''discord-user:1'' = Inr ''/w/a'' \<and>
   map_of (we_users sample_env) ''discord-user:1'' = Some ''/w/a''"
proof -
  have c: "check_workspace sample_env ''/w/a'' ''discord-user:1'' = Inr ''/w/a''" "messenger_user ''discord-user:1''"
    by code_simp+
  from messenger_workspace_is_registered [OF c(1) c(1) c(2) c(2)] c(1) show ?thesis
    by (auto simp: sample_env_def split: if_splits)
qed

text \<open>A scoped path never leaves its workspace: what \<open>scoped_path\<close> returns is the workspace itself or lies
  under it, component by component. A sibling whose name merely starts like the workspace is outside.\<close>

theorem scoped_path_stays_inside:
  assumes "scoped_path env w p = Inr q"
  shows "\<exists>root rest. we_resolve env (we_expanduser env w) = Some root \<and> we_is_dir env root \<and> root \<noteq> ''/'' \<and>
    path_parts q = path_parts root @ rest"
  using assms
  by (auto simp: scoped_path_def resolve_strict_def relative_to_def Let_def prefix_def split: option.splits if_splits)

lemma scoped_path_stays_inside_witness:
  "scoped_path sample_env ''/w'' ''a/x'' = Inr ''/w/a/x'' \<and>
   (\<exists>m. scoped_path sample_env ''/w'' ''/w-old/x'' = Inl (ValueError m)) \<and>
   (\<exists>rest. path_parts ''/w/a/x'' = path_parts ''/w'' @ rest)"
proof -
  have c: "scoped_path sample_env ''/w'' ''a/x'' = Inr ''/w/a/x''" by code_simp
  have d: "scoped_path sample_env ''/w'' ''/w-old/x'' = Inl (ValueError ''Path is outside the assigned workspace'')"
    by code_simp
  from scoped_path_stays_inside [OF c] have "\<exists>rest. path_parts ''/w/a/x'' = path_parts ''/w'' @ rest"
    by (auto simp: sample_env_def)
  with c d show ?thesis by blast
qed

end
