(* ===== verification/Effects.thy ===== *)
theory Effects
  imports Conversations Workspaces
begin

text \<open>
  What may still be going on outside the ledger: \<open>_unresolved_effects\<close> of
  \<open>src/nyanya_agent/operation_store.py\<close>. A task has unresolved effects when one of its executions (or of
  the apply children it owns) may still run or was lost, unless a \<open>plan.resolved\<close> event names it, or when a
  file plan was left half applied.
\<close>

definition fetch_plan :: "ledger \<Rightarrow> string \<Rightarrow> plan_row option" where
  "fetch_plan db i = List.find (\<lambda>p. pl_id p = i) (change_plans db)"

definition fetch_worker :: "ledger \<Rightarrow> string \<Rightarrow> worker_row option" where
  "fetch_worker db i = List.find (\<lambda>w. wk_id w = i) (operation_workers db)"

definition fetch_claim :: "ledger \<Rightarrow> string \<Rightarrow> claim_row option" where
  "fetch_claim db i = List.find (\<lambda>c. cl_task_id c = i) (task_claims db)"

text \<open>\<open>json_extract(spec_json, '$.key') = value\<close> for a text value, and the rows of \<open>json_each\<close>\<close>

definition json_is :: "dict \<Rightarrow> string \<Rightarrow> string \<Rightarrow> bool" where
  "json_is d k v \<longleftrightarrow> map_of d k = Some (JStr v)"

fun json_each :: "json \<Rightarrow> json list" where
  "json_each (JList xs) = xs"
| "json_each (JObj d) = map snd d"
| "json_each v = [v]"

definition resolution_owner :: "ledger \<Rightarrow> string \<Rightarrow> string" where
  "resolution_owner db task_id =
     (case fetch_operation db task_id of
        None \<Rightarrow> task_id
      | Some q \<Rightarrow> (case op_parent_task_id q of
            None \<Rightarrow> task_id
          | Some p \<Rightarrow> if json_is (op_spec q) ''kind'' ''apply'' \<and> p \<noteq> [] then p else task_id))"

definition open_effect_statuses :: "bool \<Rightarrow> string list" where
  "open_effect_statuses include_lost =
     (if include_lost then [''lost'', ''stale'', ''starting'', ''running'', ''cancelling'']
      else [''stale'', ''starting'', ''running'', ''cancelling''])"

definition attempt_resolved :: "ledger \<Rightarrow> string \<Rightarrow> string \<Rightarrow> bool" where
  "attempt_resolved db owner_task execution_id =
     list_ex (\<lambda>v. ev_task_id v = Some owner_task \<and> ev_event_type v = ''plan.resolved'' \<and>
        list_ex (\<lambda>p. json_is (ev_metadata v) ''plan_id'' (pl_id p) \<and> pl_task_id p = owner_task \<and>
          pl_status p \<in> {''applied'', ''reconciled''}) (change_plans db) \<and>
        (case map_of (ev_metadata v) ''resolved_execution_ids'' of
           None \<Rightarrow> False | Some ids \<Rightarrow> JStr execution_id \<in> set (json_each ids)))
       (execution_events db)"

definition open_attempt :: "ledger \<Rightarrow> bool \<Rightarrow> string \<Rightarrow> execution_row \<Rightarrow> bool" where
  "open_attempt db include_lost owner_task e \<longleftrightarrow> ex_status e \<in> set (open_effect_statuses include_lost) \<and>
     (ex_status e \<noteq> ''lost'' \<or> \<not> attempt_resolved db owner_task (ex_id e))"

definition half_applied :: "ledger \<Rightarrow> string \<Rightarrow> bool" where
  "half_applied db task_id \<longleftrightarrow>
     list_ex (\<lambda>p. pl_task_id p = task_id \<and> pl_status p \<in> {''applying'', ''uncertain''}) (change_plans db) \<or>
     list_ex (\<lambda>j. list_ex (\<lambda>p. pl_id p = jn_plan_id j \<and> pl_task_id p = task_id \<and>
       pl_status p \<notin> {''applied'', ''reconciled''}) (change_plans db)) (change_journal db)"

definition unresolved_effects :: "ledger \<Rightarrow> string \<Rightarrow> bool \<Rightarrow> bool" where
  "unresolved_effects db task_id include_lost =
     (let owner_task = resolution_owner db task_id;
          ids = task_id # (if owner_task = task_id
            then map op_task_id (filter (\<lambda>q. op_parent_task_id q = Some task_id) (task_operations db)) else [])
      in list_ex (\<lambda>current.
           list_ex (\<lambda>e. ex_task_id e = current \<and> open_attempt db include_lost owner_task e) (executions db) \<or>
           half_applied db current) ids)"

section \<open>Lemmas\<close>

lemma fetch_planD: "fetch_plan db i = Some p \<Longrightarrow> p \<in> set (change_plans db) \<and> pl_id p = i"
  by (auto simp: fetch_plan_def dest: find_SomeD)

lemma fetch_workerD: "fetch_worker db i = Some w \<Longrightarrow> w \<in> set (operation_workers db) \<and> wk_id w = i"
  by (auto simp: fetch_worker_def dest: find_SomeD)

lemma fetch_claimD: "fetch_claim db i = Some c \<Longrightarrow> c \<in> set (task_claims db) \<and> cl_task_id c = i"
  by (auto simp: fetch_claim_def dest: find_SomeD)

lemma plan_keys:
  assumes "ledger_inv db"
  shows "distinct (map pl_id (change_plans db))" "distinct (map op_task_id (task_operations db))"
    "distinct (map cl_task_id (task_claims db))" "distinct (map rt_execution_id (task_results db))"
    "distinct (map wk_id (operation_workers db))"
  using assms by (auto simp: ledger_inv_def inv_at_def table_inv_def)

lemma fetch_plan_unique: "ledger_inv db \<Longrightarrow> p \<in> set (change_plans db) \<Longrightarrow> fetch_plan db (pl_id p) = Some p"
  by (simp add: fetch_plan_def find_key_unique plan_keys)

lemma plan_task_key: "ledger_inv db \<Longrightarrow> p \<in> set (change_plans db) \<Longrightarrow> pl_task_id p \<in> k_tasks (keys db)"
  by (auto simp: ledger_inv_def inv_at_def table_inv_def row_defs)

lemma task_key: "k \<in> set (agent_tasks db) \<Longrightarrow> tk_id k \<in> k_tasks (keys db)"
  by (simp add: keys_def)

lemma execution_key: "e \<in> set (executions db) \<Longrightarrow> ex_id e \<in> k_executions (keys db)"
  by (simp add: keys_def)

text \<open>The loop over fetched rows is sound when its body is, for rows that stay known.\<close>

lemma for_each_sound:
  assumes "for_each f rs db = Inr db'" "sound db0 db"
    and "\<And>r x y. r \<in> set rs \<Longrightarrow> sound db0 x \<Longrightarrow> f r x = Inr y \<Longrightarrow> sound db0 y"
  shows "sound db0 db'"
  using assms by (rule for_each_inv)

text \<open>A task without unresolved effects has no execution that runs, no lost execution without a recorded
  resolution and no half-applied plan, and neither have its apply children.\<close>

lemma no_unresolved_effects:
  assumes "\<not> unresolved_effects db task_id True" "e \<in> set (executions db)" "ex_task_id e = task_id"
  shows "ex_status e \<notin> {''stale'', ''starting'', ''running'', ''cancelling''}"
    and "ex_status e = ''lost'' \<Longrightarrow> attempt_resolved db (resolution_owner db task_id) (ex_id e)"
    and "p \<in> set (change_plans db) \<Longrightarrow> pl_task_id p = task_id \<Longrightarrow> pl_status p \<notin> {''applying'', ''uncertain''}"
  using assms by (auto simp: unresolved_effects_def Let_def list_ex_iff open_attempt_def open_effect_statuses_def half_applied_def)

text \<open>What the effects of a task depend on. When two ledgers agree on operations, plans, journal and recorded
  resolutions, an open attempt of one that the other has with the same status carries them over.\<close>

definition op_view :: "operation_row \<Rightarrow> string \<times> string option \<times> dict" where
  "op_view q = (op_task_id q, op_parent_task_id q, op_spec q)"

definition resolved_log :: "ledger \<Rightarrow> event_row list" where
  "resolved_log db = filter (\<lambda>v. ev_event_type v = ''plan.resolved'') (execution_events db)"

definition same_evidence :: "ledger \<Rightarrow> ledger \<Rightarrow> bool" where
  "same_evidence db db' \<longleftrightarrow> map op_view (task_operations db') = map op_view (task_operations db) \<and>
     change_plans db' = change_plans db \<and> change_journal db' = change_journal db \<and> resolved_log db' = resolved_log db"

lemma same_evidence_refl [simp, intro]: "same_evidence db db"
  by (simp add: same_evidence_def)

lemma same_evidence_sym: "same_evidence db db' \<Longrightarrow> same_evidence db' db"
  by (simp add: same_evidence_def)

lemma same_evidence_trans [trans]: "same_evidence db db' \<Longrightarrow> same_evidence db' db'' \<Longrightarrow> same_evidence db db''"
  by (simp add: same_evidence_def)

lemma resolution_owner_view:
  "resolution_owner db task_id =
     (case List.find (\<lambda>(i, p, s). i = task_id) (map op_view (task_operations db)) of
        None \<Rightarrow> task_id
      | Some (i, p, s) \<Rightarrow> (case p of None \<Rightarrow> task_id
          | Some p \<Rightarrow> if json_is s ''kind'' ''apply'' \<and> p \<noteq> [] then p else task_id))"
proof -
  have "List.find (\<lambda>(i, p, s). i = task_id) (map op_view rows) =
      map_option op_view (List.find (\<lambda>q. op_task_id q = task_id) rows)" for rows
    by (induction rows) (auto simp: op_view_def)
  then show ?thesis
    by (auto simp: resolution_owner_def fetch_operation_def op_view_def split: option.splits)
qed

lemma attempt_resolved_log:
  "attempt_resolved db i x \<longleftrightarrow> list_ex (\<lambda>v. ev_task_id v = Some i \<and>
        list_ex (\<lambda>p. json_is (ev_metadata v) ''plan_id'' (pl_id p) \<and> pl_task_id p = i \<and>
          pl_status p \<in> {''applied'', ''reconciled''}) (change_plans db) \<and>
        (case map_of (ev_metadata v) ''resolved_execution_ids'' of
           None \<Rightarrow> False | Some ids \<Rightarrow> JStr x \<in> set (json_each ids))) (resolved_log db)"
  by (auto simp: attempt_resolved_def resolved_log_def list_ex_iff)

lemma same_evidence_cong:
  assumes "same_evidence db db'"
  shows "resolution_owner db' k = resolution_owner db k" "attempt_resolved db' i x = attempt_resolved db i x"
    "half_applied db' k = half_applied db k"
    "map op_task_id (filter (\<lambda>q. op_parent_task_id q = Some k) (task_operations db')) =
     map op_task_id (filter (\<lambda>q. op_parent_task_id q = Some k) (task_operations db))"
proof -
  have children: "map op_task_id (filter (\<lambda>q. op_parent_task_id q = Some k) rows) =
      map fst (filter (\<lambda>(i, p, s). p = Some k) (map op_view rows))" for rows
    by (induction rows) (auto simp: op_view_def)
  from assms show "resolution_owner db' k = resolution_owner db k" "attempt_resolved db' i x = attempt_resolved db i x"
    "half_applied db' k = half_applied db k"
    "map op_task_id (filter (\<lambda>q. op_parent_task_id q = Some k) (task_operations db')) =
     map op_task_id (filter (\<lambda>q. op_parent_task_id q = Some k) (task_operations db))"
    by (simp_all add: same_evidence_def resolution_owner_view attempt_resolved_log half_applied_def children)
qed

lemma unresolved_effects_carry:
  assumes ev: "same_evidence db db'" and un: "unresolved_effects db' k b"
    and "\<And>e'. e' \<in> set (executions db') \<Longrightarrow> ex_status e' \<in> set (open_effect_statuses b) \<Longrightarrow>
      \<exists>e\<in>set (executions db). ex_task_id e = ex_task_id e' \<and> ex_id e = ex_id e' \<and> ex_status e = ex_status e'"
  shows "unresolved_effects db k b"
proof -
  have "open_attempt db' b i e' \<Longrightarrow> e' \<in> set (executions db') \<Longrightarrow>
      \<exists>e\<in>set (executions db). ex_task_id e = ex_task_id e' \<and> open_attempt db b i e" for i e'
    using assms(3) [of e'] unfolding open_attempt_def by (force simp: same_evidence_cong [OF ev])
  with un show ?thesis
    unfolding unresolved_effects_def Let_def same_evidence_cong [OF ev] list_ex_iff by metis
qed

lemma open_effect_statuses_mono: "set (open_effect_statuses False) \<subseteq> set (open_effect_statuses b)"
  by (auto simp: open_effect_statuses_def)

lemma awaiting_not_open [simp]: "''awaiting_approval'' \<notin> set (open_effect_statuses b)" "''cancelled'' \<notin> set (open_effect_statuses b)"
  by (auto simp: open_effect_statuses_def)

lemma resolved_log_event [simp]:
  "resolved_log (add_event e db) = (if ev_event_type e = ''plan.resolved'' then resolved_log db @ [e] else resolved_log db)"
  by (simp add: resolved_log_def)

lemma same_evidence_frame [simp]:
  "same_evidence db (update_task P1 f1 db)" "same_evidence db (update_execution P2 f2 db)"
  "same_evidence db (update_approval P3 f3 db)" "same_evidence db (update_claim P4 f4 db)"
  "same_evidence db (update_result P5 f5 db)" "same_evidence db (update_lease P6 f6 db)"
  "same_evidence db (log_audit tm ac an ety eid de db)"
  by (simp_all add: same_evidence_def resolved_log_def statement_defs)

lemma same_evidence_operation [simp]:
  "(\<And>q. op_view (f q) = op_view q) \<Longrightarrow> same_evidence db (update_operation P f db)"
  by (simp add: same_evidence_def resolved_log_def statement_defs)

lemma same_evidence_event [simp]: "ev_event_type e \<noteq> ''plan.resolved'' \<Longrightarrow> same_evidence db (add_event e db)"
  by (simp add: same_evidence_def statement_defs resolved_log_def)

lemma same_effects:
  assumes "same_evidence db db'" "executions db' = executions db"
  shows "unresolved_effects db' k b \<longleftrightarrow> unresolved_effects db k b"
proof
  show "unresolved_effects db' k b \<Longrightarrow> unresolved_effects db k b"
    by (rule unresolved_effects_carry [OF assms(1)]) (auto simp: assms(2))
  show "unresolved_effects db k b \<Longrightarrow> unresolved_effects db' k b"
    by (rule unresolved_effects_carry [OF same_evidence_sym [OF assms(1)]]) (auto simp: assms(2))
qed

end
