(* ===== verification/Review_Plans.thy ===== *)
theory Review_Plans
  imports Effects
begin

text \<open>
  Decisions on file plans: \<open>get_plan\<close>, \<open>plan_file\<close>, \<open>decide\<close>, \<open>decide_conn\<close>, \<open>_settle_closed_plan\<close>,
  \<open>_close_review_executions\<close> and \<open>settle_expired\<close> of \<open>src/nyanya_agent/reviewed_changes.py\<close>, with
  \<open>require_plan_conn\<close> of \<open>src/nyanya_agent/work_drafts.py\<close>.
\<close>

definition get_plan :: "ledger \<Rightarrow> string \<Rightarrow> string \<Rightarrow> plan_row result" where
  "get_plan db plan_id owner =
     (case List.find (\<lambda>p. pl_id p = plan_id \<and> pl_owner_key p = owner) (change_plans db) of
        None \<Rightarrow> Inl (PermissionError ''Plan not found for this owner'') | Some p \<Rightarrow> Inr p)"

definition plan_file :: "workspace_env \<Rightarrow> ledger \<Rightarrow> string \<Rightarrow> string \<Rightarrow> string \<Rightarrow> file_change result" where
  "plan_file env db plan_id owner name =
     try_bind (get_plan db plan_id owner) (\<lambda>plan.
     try_bind (check_workspace env (pl_workspace plan) owner) (\<lambda>_.
       case List.find (\<lambda>x. fc_path x = name) (pl_changes plan) of
         None \<Rightarrow> Inl (SafeOperationError ''File not in plan'') | Some item \<Rightarrow> Inr item))"

text \<open>The draft that a plan belongs to: the one its operation names, or the one opened by its task.\<close>

definition plan_draft :: "ledger \<Rightarrow> string \<Rightarrow> draft_row option" where
  "plan_draft db plan_id =
     List.find (\<lambda>d. list_ex (\<lambda>p. pl_id p = plan_id \<and>
         list_ex (\<lambda>q. op_task_id q = pl_task_id p \<and>
           (json_is (op_spec q) ''draft_id'' (dr_id d) \<or> dr_source_task_id d = pl_task_id p))
           (task_operations db)) (change_plans db)) (operation_drafts db)"

definition require_plan_conn :: "ledger \<Rightarrow> string \<Rightarrow> unit result" where
  "require_plan_conn db plan_id =
     (case plan_draft db plan_id of
        None \<Rightarrow> Inr ()
      | Some d \<Rightarrow> if dr_status d \<noteq> ''ready'' \<or> dr_plan_id d \<noteq> Some plan_id
          then Inl (SafeOperationError ''Only the latest open draft plan can be applied'') else Inr ())"

section \<open>Closing a review\<close>

definition close_review_executions :: "time \<Rightarrow> string \<Rightarrow> string \<Rightarrow> bool \<Rightarrow> ledger \<Rightarrow> ledger result" where
  "close_review_executions t task_id reason uncertain db =
     (let status = (if uncertain then ''lost'' else ''cancelled'');
          rows = filter (\<lambda>e. ex_task_id e = task_id \<and> ex_status e = ''awaiting_approval'') (executions db)
      in for_each (\<lambda>row db.
           append_event t ''execution.review_closed'' (Some task_id) (Some (ex_id row)) status
             (''Review plan '' @ reason @ ''; attempt settled'') []
             (update_execution (\<lambda>e. ex_id e = ex_id row)
               (\<lambda>e. e\<lparr>ex_status := status, ex_error := ''Review plan '' @ reason, ex_ended_at := Some t,
                      ex_updated_at := t\<rparr>) db)) rows db)"

text \<open>The tasks that run an operation for the parent; \<open>P\<close> selects operations.\<close>

definition child_tasks :: "ledger \<Rightarrow> string \<Rightarrow> (operation_row \<Rightarrow> bool) \<Rightarrow> task_row list" where
  "child_tasks db parent P =
     filter (\<lambda>k. list_ex (\<lambda>q. op_task_id q = tk_id k \<and> op_parent_task_id q = Some parent \<and> P q) (task_operations db))
       (agent_tasks db)"

definition stop_child :: "time \<Rightarrow> string \<Rightarrow> task_row \<Rightarrow> ledger \<Rightarrow> ledger" where
  "stop_child t hold_reason child db =
     (if tk_status child = ''queued'' then
        update_operation (\<lambda>q. op_task_id q = tk_id child) (\<lambda>q. q\<lparr>op_eligible := False, op_hold_reason := hold_reason\<rparr>)
          (update_task (\<lambda>k. tk_id k = tk_id child)
            (\<lambda>k. k\<lparr>tk_status := ''cancelled'', tk_completed_at := Some t, tk_updated_at := t\<rparr>) db)
      else if tk_status child \<in> {''running'', ''cancelling''} then
        update_execution (\<lambda>e. ex_task_id e = tk_id child \<and> ex_status e = ''running'')
          (\<lambda>e. e\<lparr>ex_status := ''cancelling'', ex_updated_at := t\<rparr>)
          (update_task (\<lambda>k. tk_id k = tk_id child) (\<lambda>k. k\<lparr>tk_status := ''cancelling'', tk_updated_at := t\<rparr>) db)
      else db)"

definition open_plan :: "string \<Rightarrow> plan_row \<Rightarrow> bool" where
  "open_plan task_id p \<longleftrightarrow> pl_task_id p = task_id \<and> pl_status p \<in> {''pending'', ''approved'', ''applying''}"

definition live_claim_of :: "ledger \<Rightarrow> time \<Rightarrow> string \<Rightarrow> bool" where
  "live_claim_of db t task_id =
     list_ex (\<lambda>c. cl_task_id c = task_id \<and> \<not> cl_released c \<and> cl_expires_at c > t) (task_claims db)"

definition close_approvals :: "time \<Rightarrow> string \<Rightarrow> string \<Rightarrow> string \<Rightarrow> ledger \<Rightarrow> ledger" where
  "close_approvals t task_id owner reason db =
     update_approval (\<lambda>a. ag_task_id a = Some task_id \<and> ag_status a = ''pending'')
       (\<lambda>a. a\<lparr>ag_status := (if reason = ''expired'' then ''expired'' else ''rejected''), ag_decided_by := owner,
              ag_decided_at := Some t\<rparr>) db"

text \<open>The parent has already ended: only its approval waits are closed.\<close>

definition settle_ended :: "time \<Rightarrow> string \<Rightarrow> string \<Rightarrow> ledger \<Rightarrow> ledger result" where
  "settle_ended t task_id reason db =
     (let uncertain = unresolved_effects db task_id True in
      try_bind (close_review_executions t task_id reason uncertain db) (\<lambda>db1.
        if uncertain then
          append_event t ''operation.review_effects_held'' (Some task_id) None ''blocked''
            ''Review effects require reconciliation'' []
            (update_task (\<lambda>k. tk_id k = task_id)
              (\<lambda>k. k\<lparr>tk_status := ''blocked'', tk_completed_at := None, tk_updated_at := t\<rparr>) db1)
        else Inr db1))"

definition settle_live :: "time \<Rightarrow> string \<Rightarrow> string \<Rightarrow> ledger \<Rightarrow> ledger result" where
  "settle_live t task_id reason db =
     (let db1 = fold (stop_child t (''plan_'' @ reason)) (child_tasks db task_id (\<lambda>_. True)) db;
          uncertain = unresolved_effects db1 task_id True;
          status = (if uncertain then ''blocked'' else ''cancelled'')
      in try_bind (close_review_executions t task_id reason uncertain db1) (\<lambda>db2.
        append_event t ''operation.plan_closed'' (Some task_id) None status
          (''Review plan '' @ reason @ ''; parent settled'') []
          (update_operation (\<lambda>q. op_task_id q = task_id)
            (\<lambda>q. q\<lparr>op_eligible := False, op_hold_reason := ''plan_'' @ reason,
                   op_diagnosis := (if uncertain then ''File effects require reconciliation''
                     else ''Review plan '' @ reason @ '' without file apply'')\<rparr>)
            (update_task (\<lambda>k. tk_id k = task_id)
              (\<lambda>k. k\<lparr>tk_status := status, tk_completed_at := (if uncertain then None else Some t),
                     tk_updated_at := t\<rparr>) db2))))"

definition settle_closed_plan :: "time \<Rightarrow> string \<Rightarrow> string \<Rightarrow> string \<Rightarrow> ledger \<Rightarrow> ledger result" where
  "settle_closed_plan t task_id owner reason db =
     (if list_ex (open_plan task_id) (change_plans db) then Inr db
      else
        (let db1 = close_approvals t task_id owner reason db in
         case fetch_task db1 task_id of
           None \<Rightarrow> Inr db1
         | Some parent \<Rightarrow>
             if live_claim_of db1 t task_id then Inr db1
             else if tk_status parent \<in> {''completed'', ''failed'', ''cancelled''}
             then settle_ended t task_id reason db1
             else settle_live t task_id reason db1))"

section \<open>Deciding\<close>

definition decide_conn :: "time \<Rightarrow> string \<Rightarrow> string \<Rightarrow> string \<Rightarrow> bool \<Rightarrow> ledger \<Rightarrow> ledger result" where
  "decide_conn t plan_id owner plan_hash revoke db =
     try_bind (if revoke then Inr () else require_plan_conn db plan_id) (\<lambda>_.
       case List.find (\<lambda>p. pl_id p = plan_id \<and> pl_owner_key p = owner) (change_plans db) of
         None \<Rightarrow> Inl (SafeOperationError ''Plan is not awaiting a decision'')
       | Some row \<Rightarrow>
           if pl_status row \<notin> {''pending'', ''approved''}
           then Inl (SafeOperationError ''Plan is not awaiting a decision'')
           else if \<not> revoke \<and> (case fetch_task db (pl_task_id row) of None \<Rightarrow> True
               | Some parent \<Rightarrow> tk_status parent \<notin> {''queued'', ''running'', ''awaiting_approval''})
           then Inl (SafeOperationError ''Original task is no longer eligible for approval'')
           else if \<not> revoke \<and> (pl_expires_at row \<le> t \<or> pl_plan_hash row \<noteq> plan_hash)
           then Inl (SafeOperationError ''Plan expired or revision hash changed'')
           else
             (let db1 = update_plan (\<lambda>p. pl_id p = plan_id)
                    (\<lambda>p. p\<lparr>pl_status := (if revoke then ''revoked'' else ''approved''), pl_decided_by := owner\<rparr>) db
              in try_bind
                (if revoke then settle_closed_plan t (pl_task_id row) owner ''revoked'' db1
                 else Inr (update_approval
                   (\<lambda>a. ag_task_id a = Some (pl_task_id row) \<and> ag_action a = ''feedback.review'' \<and> ag_status a = ''pending'')
                   (\<lambda>a. a\<lparr>ag_status := ''approved'', ag_decided_by := owner, ag_decided_at := Some t\<rparr>) db1))
                (\<lambda>db2. append_event t (if revoke then ''plan.revoked'' else ''plan.approved'') (Some (pl_task_id row)) None
                   [] ''Authenticated owner decision'' [(''plan_id'', JStr plan_id)] db2)))"

section \<open>Expiry\<close>

definition expired_plan :: "time \<Rightarrow> plan_row \<Rightarrow> bool" where
  "expired_plan t p \<longleftrightarrow> pl_status p \<in> {''pending'', ''approved''} \<and> pl_expires_at p \<le> t"

definition stale_reviews :: "ledger \<Rightarrow> task_row list" where
  "stale_reviews db =
     filter (\<lambda>k. tk_status k \<in> {''completed'', ''failed'', ''cancelled''} \<and>
         list_ex (\<lambda>e. ex_task_id e = tk_id k \<and> ex_status e = ''awaiting_approval'') (executions db) \<and>
         \<not> list_ex (open_plan (tk_id k)) (change_plans db)) (agent_tasks db)"

definition expire_plan :: "time \<Rightarrow> plan_row \<Rightarrow> ledger \<Rightarrow> ledger result" where
  "expire_plan t row db =
     try_bind (settle_closed_plan t (pl_task_id row) (pl_owner_key row) ''expired''
         (update_plan (\<lambda>p. pl_id p = pl_id row) (\<lambda>p. p\<lparr>pl_status := ''expired''\<rparr>) db))
       (append_event t ''plan.expired'' (Some (pl_task_id row)) None ''expired'' ''Review plan expired''
         [(''plan_id'', JStr (pl_id row))])"

definition settle_expired :: "time \<Rightarrow> ledger \<Rightarrow> (nat \<times> ledger) result" where
  "settle_expired t db =
     (if \<not> list_ex (expired_plan t) (change_plans db) \<and> stale_reviews db = [] then Inr (0, db)
      else
        (let rows = filter (expired_plan t) (change_plans db) in
         try_bind (for_each (expire_plan t) rows db) (\<lambda>db1.
         try_bind (for_each (\<lambda>k. settle_closed_plan t (tk_id k) ''system'' ''closed'') (stale_reviews db1) db1) (\<lambda>db2.
           Inr (length rows, db2)))))"

section \<open>Soundness\<close>

lemma stop_child_sound: "sound db0 db \<Longrightarrow> sound db0 (stop_child t h c db)"
  by (auto simp: stop_child_def row_defs task_unique_def intro!: sound_intros)

lemma stop_child_keys [simp]: "keys (stop_child t h c db) = keys db"
  by (simp add: stop_child_def)

lemma close_review_executions_sound:
  "close_review_executions t k r u db = Inr db' \<Longrightarrow> sound db0 db \<Longrightarrow> sound db0 db'"
  unfolding close_review_executions_def Let_def
  by (erule for_each_sound) (auto simp: row_defs intro!: sound_intros)

lemma stop_children_sound: "sound db0 db \<Longrightarrow> sound db0 (fold (stop_child t h) cs db)"
  by (rule fold_inv) (auto intro: stop_child_sound)

lemma settle_closed_plan_sound:
  "settle_closed_plan t k ow r db = Inr db' \<Longrightarrow> sound db0 db \<Longrightarrow> sound db0 db'"
proof -
  assume s: "settle_closed_plan t k ow r db = Inr db'" and db: "sound db0 db"
  have a: "sound db0 (close_approvals t k ow r db)"
    using db by (auto simp: close_approvals_def row_defs intro!: sound_intros)
  have ended: "settle_ended t k r x = Inr y \<Longrightarrow> sound db0 x \<Longrightarrow> sound db0 y" for x y
    by (auto simp: settle_ended_def Let_def row_defs task_unique_def split: if_splits
        intro!: sound_intros dest: close_review_executions_sound)
  have live: "settle_live t k r x = Inr y \<Longrightarrow> sound db0 x \<Longrightarrow> sound db0 y" for x y
    unfolding settle_live_def Let_def
    by (auto simp: row_defs task_unique_def intro!: sound_intros
        elim!: close_review_executions_sound intro: stop_children_sound)
  from s show ?thesis
    using a db ended live by (auto simp: settle_closed_plan_def Let_def split: if_splits option.splits)
qed

lemma decide_conn_sound: "decide_conn t p ow h r db = Inr db' \<Longrightarrow> sound db0 db \<Longrightarrow> sound db0 db'"
  by (auto simp: decide_conn_def Let_def row_defs split: option.splits if_splits
      intro!: sound_intros elim!: settle_closed_plan_sound)

lemma expire_plan_sound: "expire_plan t p db = Inr db' \<Longrightarrow> sound db0 db \<Longrightarrow> sound db0 db'"
  by (auto simp: expire_plan_def row_defs intro!: sound_intros elim!: settle_closed_plan_sound)

lemma settle_expired_sound: "settle_expired t db = Inr (n, db') \<Longrightarrow> sound db0 db \<Longrightarrow> sound db0 db'"
  by (auto simp: settle_expired_def Let_def split: if_splits
      elim!: for_each_sound intro: expire_plan_sound settle_closed_plan_sound)

section \<open>What a settlement leaves\<close>

lemma stop_child_evidence [simp]: "same_evidence db (stop_child t h c db)"
proof -
  have e: "same_evidence db (update_execution P f (update_task Q g db))" for P f Q g
    by (rule same_evidence_trans [of _ "update_task Q g db"]) simp_all
  have q: "same_evidence db (update_operation (\<lambda>q. op_task_id q = i) (\<lambda>q. q\<lparr>op_eligible := False, op_hold_reason := h\<rparr>)
      (update_task Q g db))" for i Q g
    by (rule same_evidence_trans [of _ "update_task Q g db"]) (simp_all add: op_view_def)
  show ?thesis using e q by (auto simp: stop_child_def)
qed

lemma stop_children_evidence: "same_evidence db (fold (stop_child t h) cs db)"
  by (rule fold_inv) (auto intro: same_evidence_trans)

text \<open>Closing approval waits touches only executions that wait: evidence and every open attempt remain.\<close>

lemma close_review_frame:
  assumes "close_review_executions t k r u db = Inr db'"
  shows "same_evidence db db'" "agent_tasks db' = agent_tasks db" "task_operations db' = task_operations db"
    "task_claims db' = task_claims db"
proof -
  let ?P = "\<lambda>x. same_evidence db x \<and> agent_tasks x = agent_tasks db \<and> task_operations x = task_operations db \<and>
    task_claims x = task_claims db"
  have "?P db'"
  proof (rule for_each_inv [OF assms [unfolded close_review_executions_def Let_def], where P = ?P])
    fix e x y
    assume "?P x" and y: "append_event t ''execution.review_closed'' (Some k) (Some (ex_id e)) (if u then ''lost'' else ''cancelled'')
        (''Review plan '' @ r @ ''; attempt settled'') []
        (update_execution (\<lambda>e'. ex_id e' = ex_id e)
          (\<lambda>e. e\<lparr>ex_status := if u then ''lost'' else ''cancelled'', ex_error := ''Review plan '' @ r,
            ex_ended_at := Some t, ex_updated_at := t\<rparr>) x) = Inr y"
    let ?x = "update_execution (\<lambda>e'. ex_id e' = ex_id e)
          (\<lambda>e. e\<lparr>ex_status := if u then ''lost'' else ''cancelled'', ex_error := ''Review plan '' @ r,
            ex_ended_at := Some t, ex_updated_at := t\<rparr>) x"
    from y obtain v where v: "y = add_event v ?x" "ev_event_type v \<noteq> ''plan.resolved''" by auto
    have "same_evidence x ?x" "same_evidence ?x y" using v by simp_all
    then have "same_evidence x y" by (rule same_evidence_trans)
    with \<open>?P x\<close> v(1) show "?P y" by (auto simp: statement_defs intro: same_evidence_trans)
  qed simp
  then show "same_evidence db db'" "agent_tasks db' = agent_tasks db" "task_operations db' = task_operations db"
    "task_claims db' = task_claims db" by auto
qed

lemma close_review_closed:
  assumes "close_review_executions t k r False db = Inr db'" "e' \<in> set (executions db')"
    "ex_status e' \<in> set (open_effect_statuses b)"
  shows "e' \<in> set (executions db)"
proof -
  have "\<forall>e\<in>set (executions db'). ex_status e = ''cancelled'' \<or> e \<in> set (executions db)"
    by (rule for_each_inv [OF assms(1) [unfolded close_review_executions_def Let_def],
          where P = "\<lambda>x. \<forall>e\<in>set (executions x). ex_status e = ''cancelled'' \<or> e \<in> set (executions db)"])
       (auto simp: statement_defs set_upd)
  with assms(2,3) show ?thesis by (auto simp: open_effect_statuses_def split: if_splits)
qed

lemma close_review_keeps:
  assumes "close_review_executions t k r u db = Inr db'" "distinct (map ex_id (executions db))"
    "e \<in> set (executions db)" "ex_status e \<noteq> ''awaiting_approval''"
  shows "e \<in> set (executions db')"
proof (rule for_each_inv [OF assms(1) [unfolded close_review_executions_def Let_def], where P = "\<lambda>x. e \<in> set (executions x)"])
  fix p x y
  assume p: "p \<in> set (filter (\<lambda>e. ex_task_id e = k \<and> ex_status e = ''awaiting_approval'') (executions db))"
    and x: "e \<in> set (executions x)"
    and y: "append_event t ''execution.review_closed'' (Some k) (Some (ex_id p)) (if u then ''lost'' else ''cancelled'')
        (''Review plan '' @ r @ ''; attempt settled'') []
        (update_execution (\<lambda>e'. ex_id e' = ex_id p)
          (\<lambda>e. e\<lparr>ex_status := if u then ''lost'' else ''cancelled'', ex_error := ''Review plan '' @ r,
            ex_ended_at := Some t, ex_updated_at := t\<rparr>) x) = Inr y"
  have "ex_id e \<noteq> ex_id p"
    using p assms(2-4) by (auto simp: distinct_map inj_on_def)
  with x y show "e \<in> set (executions y)" by (auto simp: statement_defs set_upd image_iff)
qed (use assms(3) in simp)

text \<open>So closing the waits of a review with the verdict \<open>uncertain\<close> leaves a ledger with the same verdict.\<close>

lemma close_review_verdict:
  assumes "close_review_executions t k r (unresolved_effects db k True) db = Inr db'" "distinct (map ex_id (executions db))"
  shows "unresolved_effects db' k True \<longleftrightarrow> unresolved_effects db k True"
proof (cases "unresolved_effects db k True")
  case True
  have "unresolved_effects db' k True"
  proof (rule unresolved_effects_carry [OF same_evidence_sym [OF close_review_frame(1) [OF assms(1)]] True])
    fix e assume e: "e \<in> set (executions db)" "ex_status e \<in> set (open_effect_statuses True)"
    then have "ex_status e \<noteq> ''awaiting_approval''" by auto
    from close_review_keeps [OF assms(1,2) e(1) this] show "\<exists>e'\<in>set (executions db'). ex_task_id e' = ex_task_id e \<and>
        ex_id e' = ex_id e \<and> ex_status e' = ex_status e" by blast
  qed
  with True show ?thesis by simp
next
  case False
  with assms(1) have c: "close_review_executions t k r False db = Inr db'" by simp
  have "unresolved_effects db k True" if "unresolved_effects db' k True"
    by (rule unresolved_effects_carry [OF close_review_frame(1) [OF assms(1)] that])
       (use close_review_closed [OF c] in blast)
  with False show ?thesis by blast
qed

definition closed_operation :: "string \<Rightarrow> bool \<Rightarrow> operation_row \<Rightarrow> operation_row" where
  "closed_operation r u q = q\<lparr>op_eligible := False, op_hold_reason := ''plan_'' @ r,
     op_diagnosis := (if u then ''File effects require reconciliation'' else ''Review plan '' @ r @ '' without file apply'')\<rparr>"

lemma settle_live_verdict:
  assumes "settle_live t k r db = Inr db'" "ledger_inv db" "k \<in> tk_id ` set (agent_tasks db)"
  shows "\<exists>after. fetch_task db' k = Some after \<and> tk_status after = (if unresolved_effects db' k True then ''blocked'' else ''cancelled'')"
proof -
  let ?db1 = "fold (stop_child t (''plan_'' @ r)) (child_tasks db k (\<lambda>_. True)) db"
  let ?u = "unresolved_effects ?db1 k True"
  let ?f = "\<lambda>x. x\<lparr>tk_status := (if ?u then ''blocked'' else ''cancelled''), tk_completed_at := (if ?u then None else Some t),
                  tk_updated_at := t\<rparr>"
  let ?last = "\<lambda>x. update_operation (\<lambda>q. op_task_id q = k) (closed_operation r ?u) (update_task (\<lambda>x. tk_id x = k) ?f x)"
  from assms(1) obtain db2 v where c: "close_review_executions t k r ?u ?db1 = Inr db2"
    and v: "db' = add_event v (?last db2)" "ev_event_type v \<noteq> ''plan.resolved''"
    unfolding settle_live_def Let_def closed_operation_def by auto
  have "sound db ?db1" by (rule stop_children_sound) simp
  from soundD [OF this assms(2)] have "distinct (map ex_id (executions ?db1))"
    by (simp add: ledger_inv_def inv_at_def table_inv_def)
  from close_review_verdict [OF c this] have u: "unresolved_effects db2 k True \<longleftrightarrow> ?u" .
  have "same_evidence db2 (update_task P f db2)" "same_evidence (update_task (\<lambda>x. tk_id x = k) ?f db2) (?last db2)"
    "same_evidence (?last db2) db'" for P f
    using v by (simp_all add: op_view_def closed_operation_def)
  then have "same_evidence db2 db'" by (meson same_evidence_trans)
  moreover have "executions db' = executions db2" using v(1) by (simp add: statement_defs)
  ultimately have u': "unresolved_effects db' k True \<longleftrightarrow> ?u" using u same_effects by blast
  have "map tk_id (agent_tasks ?db1) = map tk_id (agent_tasks db)"
    by (rule fold_inv) (auto simp: stop_child_def statement_defs)
  with assms(3) close_review_frame(2) [OF c] have "k \<in> tk_id ` set (agent_tasks db2)"
    by (metis list.set_map)
  then obtain p where "fetch_task db2 k = Some p"
    by (cases "fetch_task db2 k") (auto simp: fetch_task_def find_None_iff)
  then have "\<exists>after. fetch_task db' k = Some after \<and> tk_status after = (if ?u then ''blocked'' else ''cancelled'')"
    using v(1) by (auto simp: fetch_task_def statement_defs find_key_upd dest: find_SomeD)
  with u' show ?thesis by simp
qed

text \<open>Closing a review tells the truth about effects. When the last open plan of a live task is closed and no
  worker holds the task, the task ends as \<open>cancelled\<close> exactly when the resulting ledger shows no unresolved
  effect of it or of its apply children, and is \<open>blocked\<close> for reconciliation otherwise.\<close>

theorem settled_parent_verdict:
  assumes "settle_closed_plan t k owner r db = Inr db'" "ledger_inv db"
    and "\<not> list_ex (open_plan k) (change_plans db)" "\<not> live_claim_of db t k"
    and "fetch_task db k = Some parent" "tk_status parent \<notin> {''completed'', ''failed'', ''cancelled''}"
  shows "\<exists>after. fetch_task db' k = Some after \<and> tk_status after = (if unresolved_effects db' k True then ''blocked'' else ''cancelled'')"
proof -
  let ?db1 = "close_approvals t k owner r db"
  have fetch: "fetch_task ?db1 k = Some parent" and live: "\<not> live_claim_of ?db1 t k"
    using assms(4,5) by (simp_all add: close_approvals_def fetch_task_def live_claim_of_def statement_defs)
  from assms(1,3,6) fetch live have "settle_live t k r ?db1 = Inr db'"
    by (simp add: settle_closed_plan_def Let_def)
  moreover have "sound db ?db1" by (auto simp: close_approvals_def row_defs intro!: sound_intros)
  then have "ledger_inv ?db1" using assms(2) by (rule soundD)
  moreover have "k \<in> tk_id ` set (agent_tasks ?db1)" using fetch_taskD [OF fetch] by blast
  ultimately show ?thesis by (rule settle_live_verdict)
qed

lemma stop_child_plans [simp]: "change_plans (stop_child t h c db) = change_plans db"
  by (simp add: stop_child_def statement_defs)

lemma stop_children_plans [simp]: "change_plans (fold (stop_child t h) cs db) = change_plans db"
  by (rule fold_inv) auto

lemma close_review_plans: "close_review_executions t k r u db = Inr db' \<Longrightarrow> change_plans db' = change_plans db"
  using close_review_frame(1) by (auto simp: same_evidence_def)

lemma settle_closed_plan_plans: "settle_closed_plan t k ow r db = Inr db' \<Longrightarrow> change_plans db' = change_plans db"
  by (auto simp: settle_closed_plan_def settle_ended_def settle_live_def Let_def close_approvals_def statement_defs
      dest!: close_review_plans split: if_splits option.splits)

lemma expire_plan_plans:
  "expire_plan t p db = Inr db' \<Longrightarrow> change_plans db' = upd (\<lambda>x. pl_id x = pl_id p) (\<lambda>x. x\<lparr>pl_status := ''expired''\<rparr>) (change_plans db)"
  by (auto simp: expire_plan_def statement_defs dest!: settle_closed_plan_plans)

lemma expire_plans_plans:
  "for_each (expire_plan t) ps db = Inr db' \<Longrightarrow>
   change_plans db' = upd (\<lambda>x. pl_id x \<in> pl_id ` set ps) (\<lambda>x. x\<lparr>pl_status := ''expired''\<rparr>) (change_plans db)"
proof (induction ps arbitrary: db)
  case (Cons p ps)
  then obtain db1 where "expire_plan t p db = Inr db1" and "for_each (expire_plan t) ps db1 = Inr db'" by auto
  from expire_plan_plans [OF this(1)] Cons.IH [OF this(2)] show ?case
    by (auto simp: upd_def)
qed (simp add: upd_none)

text \<open>Maintenance closes every overdue review. When \<open>settle_expired\<close> returns, exactly the plans that waited past
  their expiry have become \<open>expired\<close>, their number is the result, and no other plan has changed.\<close>

theorem settle_expired_complete:
  assumes "settle_expired t db = Inr (n, db')" "ledger_inv db"
  shows "change_plans db' = upd (expired_plan t) (\<lambda>p. p\<lparr>pl_status := ''expired''\<rparr>) (change_plans db) \<and>
    n = hits (expired_plan t) (change_plans db) \<and> \<not> list_ex (expired_plan t) (change_plans db')"
proof (cases "list_ex (expired_plan t) (change_plans db) \<or> stale_reviews db \<noteq> []")
  case False
  with assms(1) show ?thesis
    by (auto simp: settle_expired_def list_ex_iff upd_none hits_def filter_empty_conv)
next
  case True
  let ?ps = "filter (expired_plan t) (change_plans db)"
  from True assms(1) obtain db1 where 1: "for_each (expire_plan t) ?ps db = Inr db1"
    and 2: "for_each (\<lambda>k. settle_closed_plan t (tk_id k) ''system'' ''closed'') (stale_reviews db1) db1 = Inr db'"
    and n: "n = length ?ps"
    by (auto simp: settle_expired_def Let_def)
  have "change_plans db' = change_plans db1"
    by (rule for_each_inv [OF 2]) (auto dest: settle_closed_plan_plans)
  also have "\<dots> = upd (\<lambda>x. pl_id x \<in> pl_id ` set ?ps) (\<lambda>x. x\<lparr>pl_status := ''expired''\<rparr>) (change_plans db)"
    by (rule expire_plans_plans [OF 1])
  also have "\<dots> = upd (expired_plan t) (\<lambda>p. p\<lparr>pl_status := ''expired''\<rparr>) (change_plans db)"
    using plan_keys(1) [OF assms(2)] by (auto simp: upd_def distinct_map inj_on_def)
  finally show ?thesis
    using n by (auto simp: hits_def list_ex_iff set_upd expired_plan_def)
qed

section \<open>Witnesses\<close>

definition sample_reviewed :: ledger where
  "sample_reviewed = sample_operations\<lparr>change_plans := [sample_plan\<lparr>pl_status := ''revoked''\<rparr>]\<rparr>"

lemma sample_reviewed_inv: "ledger_inv sample_reviewed"
  using sample_operations_inv
  by (simp add: sample_reviewed_def ledger_inv_def inv_at_def keys_def table_inv_def unique_on_def row_defs
      List.map_filter_def sample_plan_def sample_operations_def)

lemmas review_defs = settle_closed_plan_def settle_live_def settle_ended_def close_review_executions_def child_tasks_def
  close_approvals_def live_claim_of_def open_plan_def unresolved_effects_def resolution_owner_def half_applied_def
  fetch_operation_def fetch_task_def Let_def

lemma sample_no_effects: "\<not> unresolved_effects (close_approvals t ''t3'' ow r sample_reviewed) ''t3'' True"
  by (simp add: review_defs statement_defs sample_reviewed_def sample_defs open_effect_statuses_def json_is_def)

lemma sample_settle:
  "\<exists>db'. settle_closed_plan 5 ''t3'' ''u1'' ''revoked'' sample_reviewed = Inr db'"
  by (simp add: review_defs statement_defs sample_reviewed_def sample_defs open_effect_statuses_def json_is_def
      append_event_def event_fk_def keys_def)

lemma settled_parent_verdict_witness:
  "\<exists>db' after. settle_closed_plan 5 ''t3'' ''u1'' ''revoked'' sample_reviewed = Inr db' \<and>
     fetch_task db' ''t3'' = Some after \<and> tk_status after = (if unresolved_effects db' ''t3'' True then ''blocked'' else ''cancelled'')"
proof -
  from sample_settle obtain db' where s: "settle_closed_plan 5 ''t3'' ''u1'' ''revoked'' sample_reviewed = Inr db'" ..
  have "\<not> list_ex (open_plan ''t3'') (change_plans sample_reviewed)" "\<not> live_claim_of sample_reviewed 5 ''t3''"
    "fetch_task sample_reviewed ''t3'' = Some sample_task3" "tk_status sample_task3 \<notin> {''completed'', ''failed'', ''cancelled''}"
    by (simp_all add: open_plan_def live_claim_of_def fetch_task_def sample_reviewed_def sample_defs)
  from settled_parent_verdict [OF s sample_reviewed_inv this] s show ?thesis by blast
qed

lemma settle_expired_complete_witness:
  "\<exists>db'. settle_expired (seconds 3600) sample_operations = Inr (1, db') \<and>
     change_plans db' = [sample_plan\<lparr>pl_status := ''expired''\<rparr>]"
proof -
  obtain n db' where s: "settle_expired (seconds 3600) sample_operations = Inr (n, db')"
    by (simp add: settle_expired_def expired_plan_def stale_reviews_def expire_plan_def review_defs statement_defs
      sample_defs open_effect_statuses_def json_is_def append_event_def event_fk_def keys_def)
  from settle_expired_complete [OF s sample_operations_inv] s show ?thesis
    by (simp add: sample_operations_def expired_plan_def sample_plan_def)
qed

end
