(* ===== verification/Op_Admission.thy ===== *)
theory Op_Admission
  imports Review_Plans Operation_Spec
begin

text \<open>
  Admission of operations: \<open>register_worker\<close>, \<open>heartbeat\<close>, \<open>submit\<close>, \<open>_submit_conn\<close>, \<open>_existing_apply_conn\<close>,
  \<open>approve_and_submit_apply\<close>, \<open>record_start_failure\<close>, \<open>hold_legacy_for_quiesced_upgrade\<close>,
  \<open>require_execution_ownership\<close> and \<open>require_apply_ownership\<close> of \<open>src/nyanya_agent/operation_store.py\<close>.
  Plan ids are texts. A time inside a JSON value is its number of microseconds.
\<close>

section \<open>Workers\<close>

definition register_worker :: "time \<Rightarrow> string \<Rightarrow> ledger \<Rightarrow> ledger result" where
  "register_worker t worker_id db = insert_worker \<lparr>wk_id = worker_id, wk_heartbeat_at = t, wk_closed = False\<rparr> db"

definition heartbeat :: "time \<Rightarrow> string \<Rightarrow> bool \<Rightarrow> ledger \<Rightarrow> ledger" where
  "heartbeat t worker_id ended db =
     update_worker (\<lambda>w. wk_id w = worker_id) (\<lambda>w. w\<lparr>wk_heartbeat_at := t, wk_closed := ended\<rparr>) db"

definition worker_ready :: "time \<Rightarrow> ledger \<Rightarrow> string \<Rightarrow> bool" where
  "worker_ready t db generation =
     (case fetch_worker db generation of
        None \<Rightarrow> False | Some w \<Rightarrow> \<not> wk_closed w \<and> \<not> wk_heartbeat_at w < t - seconds 30)"

section \<open>Admission of an apply\<close>

definition apply_admissions :: "ledger \<Rightarrow> string \<Rightarrow> (task_row \<times> operation_row) list" where
  "apply_admissions db plan_id =
     concat (map (\<lambda>k. map (Pair k) (filter (\<lambda>q. op_task_id q = tk_id k \<and> json_is (op_spec q) ''kind'' ''apply'' \<and>
       json_is (op_spec q) ''plan_id'' plan_id) (task_operations db))) (agent_tasks db))"

definition owned_plan :: "ledger \<Rightarrow> string \<Rightarrow> string \<Rightarrow> plan_row option" where
  "owned_plan db plan_id owner = List.find (\<lambda>p. pl_id p = plan_id \<and> pl_owner_key p = owner) (change_plans db)"

definition existing_apply_conn :: "ledger \<Rightarrow> string \<Rightarrow> string \<Rightarrow> string \<Rightarrow> task_row option result" where
  "existing_apply_conn db plan_id owner workspace =
     (case apply_admissions db plan_id of
        [] \<Rightarrow> Inr None
      | [(row, q)] \<Rightarrow>
          (case owned_plan db plan_id owner of
             None \<Rightarrow> Inl (PermissionError ''Existing apply admission scope mismatch'')
           | Some plan \<Rightarrow>
               if tk_requested_by row \<noteq> owner \<or> pl_workspace plan \<noteq> workspace \<or> op_parent_task_id q \<noteq> Some (pl_task_id plan) \<or>
                  \<not> json_is (tk_metadata row) ''workspace_root'' workspace
               then Inl (PermissionError ''Existing apply admission scope mismatch'')
               else if pl_status plan \<notin> {''approved'', ''applying'', ''applied'', ''uncertain'', ''reconciled''}
               then Inl (SafeOperationError ''Existing apply plan is no longer eligible'')
               else Inr (Some row))
      | _ \<Rightarrow> Inl (SafeOperationError ''Multiple legacy apply tasks require recovery review''))"

section \<open>Submission\<close>

text \<open>The arguments of \<open>_submit_conn\<close>, with the identifiers that it draws.\<close>

record intake =
  in_spec :: operation_spec
  in_owner :: string
  in_generation :: string
  in_root :: string
  in_source_request_id :: "string option"
  in_project_id :: "string option"
  in_parent_task_id :: "string option"
  in_conversation_key :: "string option"
  in_new_task_id :: string
  in_new_session_id :: string

definition json_text :: "json \<Rightarrow> string" where
  "json_text j = (case j of JStr s \<Rightarrow> s | _ \<Rightarrow> [])"

definition bind_intake :: "(string \<Rightarrow> string) \<Rightarrow> time \<Rightarrow> intake \<Rightarrow> string \<Rightarrow> string \<Rightarrow> ledger \<Rightarrow> ledger result" where
  "bind_intake H t a task_id key db =
     try_bind (bind_conn H t (in_new_session_id a) task_id (in_owner a) key (in_root a) db) (\<lambda>(turn, db1). Inr db1)"

text \<open>An intake with a source request that has a task already: that task is returned (\<open>Inl\<close>), or a queued task
  of an older connector is adopted under its id (\<open>Inr\<close>).\<close>

definition prior_intake ::
  "(string \<Rightarrow> string) \<Rightarrow> time \<Rightarrow> intake \<Rightarrow> task_row \<Rightarrow> ledger \<Rightarrow> ((task_row + string) \<times> ledger) result" where
  "prior_intake H t a prior db =
     (if tk_requested_by prior \<noteq> in_owner a then Inl (PermissionError ''Intake belongs to another owner'')
      else if fetch_operation db (tk_id prior) \<noteq> None then
        try_bind
          (case in_conversation_key a of
             None \<Rightarrow> Inr db
           | Some key \<Rightarrow> if fetch_turn db (tk_id prior) = None then Inr db else bind_intake H t a (tk_id prior) key db)
          (\<lambda>db1. Inr (Inl prior, db1))
      else if tk_status prior \<noteq> ''queued'' then Inl (SafeOperationError ''Existing intake requires recovery review'')
      else
        (case tk_current_execution_id prior of
           None \<Rightarrow> Inr (Inr (tk_id prior), db)
         | Some x \<Rightarrow>
             if x = [] then Inr (Inr (tk_id prior), db)
             else (case fetch_execution db x of
                 None \<Rightarrow> Inl (TypeError ''status'')
               | Some old \<Rightarrow>
                   if ex_status old \<noteq> ''pending'' \<or> \<not> (case map_of (ex_metadata old) ''legacy'' of None \<Rightarrow> False | Some v \<Rightarrow> truthy v)
                   then Inl (SafeOperationError ''Existing execution requires recovery review'')
                   else Inr (Inr (tk_id prior), update_execution (\<lambda>e. ex_id e = ex_id old)
                     (\<lambda>e. e\<lparr>ex_status := ''cancelled'', ex_ended_at := Some t\<rparr>) db))))"

definition intake_metadata :: "intake \<Rightarrow> dict" where
  "intake_metadata a = [(''durable_execution'', JBool True), (''interface'', JStr (takeWhile (\<lambda>c. c \<noteq> CHR '':'') (in_owner a))),
     (''operation_version'', JInt 1), (''owner_key'', JStr (in_owner a)), (''workspace_root'', JStr (in_root a))]"

definition intake_task :: "time \<Rightarrow> intake \<Rightarrow> string \<Rightarrow> task_row" where
  "intake_task t a task_id =
     (let prompt = json_text (os_prompt (in_spec a));
          shown = take_cp 160 prompt
      in \<lparr>tk_id = task_id, tk_source_request_id = in_source_request_id a,
          tk_title = redact_text (if shown = [] then ''Apply reviewed plan'' else shown), tk_prompt = redact_text prompt,
          tk_status = ''queued'', tk_priority = 100, tk_requested_by = in_owner a, tk_assigned_agent_id = None,
          tk_current_execution_id = None, tk_metadata = intake_metadata a, tk_created_at = t, tk_updated_at = t,
          tk_completed_at = None, tk_project_id = in_project_id a, tk_codex_session_id = None\<rparr>)"

text \<open>\<open>INSERT INTO agent_tasks ... ON CONFLICT(id) DO UPDATE\<close>\<close>

definition upsert_task :: "task_row \<Rightarrow> ledger \<Rightarrow> ledger result" where
  "upsert_task r db =
     (if fetch_task db (tk_id r) = None then insert_task r db
      else Inr (update_task (\<lambda>k. tk_id k = tk_id r)
        (\<lambda>k. k\<lparr>tk_metadata := tk_metadata r, tk_requested_by := tk_requested_by r, tk_prompt := tk_prompt r,
               tk_title := tk_title r, tk_current_execution_id := None\<rparr>) db))"

definition intake_operation :: "intake \<Rightarrow> string \<Rightarrow> string option \<Rightarrow> dict \<Rightarrow> operation_row" where
  "intake_operation a task_id parent spec =
     \<lparr>op_task_id = task_id, op_spec = spec, op_worker_generation = in_generation a, op_eligible = True, op_attempts = 0,
      op_max_attempts = 3, op_hold_reason = [], op_assessment = [], op_diagnosis = [], op_parent_task_id = parent\<rparr>"

text \<open>From the insertion of the task row on: \<open>task_id\<close> and \<open>parent\<close> have been settled.\<close>

definition admit :: "(string \<Rightarrow> string) \<Rightarrow> time \<Rightarrow> intake \<Rightarrow> string \<Rightarrow> string option \<Rightarrow> ledger \<Rightarrow> (task_row \<times> ledger) result" where
  "admit H t a task_id parent db =
     try_bind (upsert_task (intake_task t a task_id) db) (\<lambda>db1.
     try_bind (spec_stored (in_spec a)) (\<lambda>spec.
     try_bind (insert_operation (intake_operation a task_id parent spec) db1) (\<lambda>db2.
     try_bind
       (case in_conversation_key a of
          None \<Rightarrow> Inr db2
        | Some key \<Rightarrow> if os_kind (in_spec a) = JStr ''request'' then bind_intake H t a task_id key db2 else Inr db2) (\<lambda>db3.
     try_bind (append_event t ''operation.accepted'' (Some task_id) None ''queued'' ''Serializable operation accepted'' [] db3) (\<lambda>db4.
       case fetch_task db4 task_id of None \<Rightarrow> Inl (TypeError ''task'') | Some row \<Rightarrow> Inr (row, db4))))))"

definition admit_apply ::
  "(string \<Rightarrow> string) \<Rightarrow> time \<Rightarrow> intake \<Rightarrow> string \<Rightarrow> ledger \<Rightarrow> (task_row \<times> ledger) result" where
  "admit_apply H t a task_id db =
     (let plan_id = json_text (os_plan_id (in_spec a)) in
      try_bind (existing_apply_conn db plan_id (in_owner a) (in_root a)) (\<lambda>existing.
        case existing of
          Some row \<Rightarrow> Inr (row, db)
        | None \<Rightarrow>
            (case owned_plan db plan_id (in_owner a) of
               None \<Rightarrow> Inl (SafeOperationError ''Apply operation must match its approved plan owner and workspace'')
             | Some plan \<Rightarrow>
                 if pl_workspace plan \<noteq> in_root a \<or> pl_status plan \<noteq> ''approved''
                 then Inl (SafeOperationError ''Apply operation must match its approved plan owner and workspace'')
                 else admit H t a task_id (Some (pl_task_id plan)) db)))"

definition submit_conn :: "(string \<Rightarrow> string) \<Rightarrow> time \<Rightarrow> intake \<Rightarrow> ledger \<Rightarrow> (task_row \<times> ledger) result" where
  "submit_conn H t a db =
     (if \<not> worker_ready t db (in_generation a) then Inl (SafeOperationError ''Worker not ready'')
      else
        try_bind
          (case in_source_request_id a of
             None \<Rightarrow> Inr (Inr (in_new_task_id a), db)
           | Some r \<Rightarrow>
               if r = [] then Inr (Inr (in_new_task_id a), db)
               else (case List.find (\<lambda>k. tk_source_request_id k = Some r) (agent_tasks db) of
                   None \<Rightarrow> Inr (Inr (in_new_task_id a), db)
                 | Some prior \<Rightarrow> prior_intake H t a prior db))
          (\<lambda>(found, db1).
             case found of
               Inl row \<Rightarrow> Inr (row, db1)
             | Inr task_id \<Rightarrow>
                 if os_kind (in_spec a) = JStr ''apply'' then admit_apply H t a task_id db1
                 else admit H t a task_id (in_parent_task_id a) db1))"

definition submit :: "workspace_env \<Rightarrow> (string \<Rightarrow> string) \<Rightarrow> time \<Rightarrow> intake \<Rightarrow> ledger \<Rightarrow> (task_row \<times> ledger) result" where
  "submit env H t a db =
     try_bind (spec_validate (in_spec a)) (\<lambda>spec.
     try_bind (check_workspace env (json_text (os_workspace spec)) (in_owner a)) (\<lambda>rt.
       submit_conn H t (a\<lparr>in_root := rt\<rparr>) db))"

definition approve_and_submit_apply ::
  "workspace_env \<Rightarrow> (string \<Rightarrow> string) \<Rightarrow> time \<Rightarrow> string \<Rightarrow> string \<Rightarrow> string \<Rightarrow> string \<Rightarrow> string \<Rightarrow> ledger \<Rightarrow>
   ((task_row \<times> bool) \<times> ledger) result" where
  "approve_and_submit_apply env H t plan_id owner plan_hash generation new_id db =
     (case owned_plan db plan_id owner of
        None \<Rightarrow> Inl (SafeOperationError ''Plan owner or revision hash mismatch'')
      | Some plan \<Rightarrow>
          if pl_plan_hash plan \<noteq> plan_hash then Inl (SafeOperationError ''Plan owner or revision hash mismatch'')
          else
            try_bind (check_workspace env (pl_workspace plan) owner) (\<lambda>rt.
            try_bind (existing_apply_conn db plan_id owner rt) (\<lambda>existing.
              case existing of
                Some row \<Rightarrow> Inr ((row, False), db)
              | None \<Rightarrow>
                  try_bind (decide_conn t plan_id owner plan_hash False db) (\<lambda>db1.
                  try_bind (submit_conn H t
                      \<lparr>in_spec = default_spec\<lparr>os_kind := JStr ''apply'', os_prompt := JStr APPLY_PROMPT,
                         os_workspace := JStr rt, os_plan_id := JStr plan_id\<rparr>,
                       in_owner = owner, in_generation = generation, in_root = rt, in_source_request_id = None,
                       in_project_id = None, in_parent_task_id = None, in_conversation_key = None,
                       in_new_task_id = new_id, in_new_session_id = []\<rparr> db1)
                    (\<lambda>(row, db2). Inr ((row, True), db2))))))"

section \<open>A worker that does not start\<close>

definition record_start_failure :: "time \<Rightarrow> string \<Rightarrow> string \<Rightarrow> string \<Rightarrow> string \<Rightarrow> ledger \<Rightarrow> ledger result" where
  "record_start_failure t execution_id task_id owner error_type db =
     (let diagnosis = START_FAILURE_PREFIX @ error_type @ START_FAILURE_SUFFIX in
      case List.find (\<lambda>k. tk_id k = task_id \<and> tk_requested_by k = owner) (agent_tasks db) of
        None \<Rightarrow> Inl (PermissionError ''Task owner mismatch'')
      | Some task \<Rightarrow>
          if tk_status task \<noteq> ''blocked'' \<or> (case tk_current_execution_id task of None \<Rightarrow> False | Some x \<Rightarrow> x \<noteq> []) then Inr db
          else
            try_bind (insert_execution
              \<lparr>ex_id = execution_id, ex_task_id = task_id, ex_host_id = None, ex_agent_profile_id = None,
               ex_adapter_type = ''operation'', ex_status = ''failed'', ex_status_confidence = 1, ex_command_summary = [],
               ex_workdir = [], ex_exit_code = None, ex_error = diagnosis, ex_metadata = [], ex_created_at = t,
               ex_started_at = None, ex_ended_at = Some t, ex_last_heartbeat_at = None, ex_updated_at = t\<rparr> db) (\<lambda>db1.
            try_bind (insert_result
              \<lparr>rt_execution_id = execution_id, rt_task_id = task_id, rt_outcome = ''blocked'',
               rt_response = ORIGINAL_REQUEST @ tk_prompt task @ [CHR 0x0A] @ diagnosis, rt_delivery_status = ''pending'',
               rt_delivery_error = [], rt_created_at = t, rt_updated_at = t\<rparr> db1) (\<lambda>db2.
              append_event t ''operation.worker_start_failed'' (Some task_id) (Some execution_id) ''blocked''
                ''Worker did not start; no model attempt ran'' []
                (update_operation (\<lambda>q. op_task_id q = task_id)
                  (\<lambda>q. q\<lparr>op_hold_reason := ''worker_start_failed'', op_diagnosis := diagnosis\<rparr>)
                  (update_task (\<lambda>k. tk_id k = task_id)
                    (\<lambda>k. k\<lparr>tk_current_execution_id := Some execution_id, tk_updated_at := t\<rparr>) db2)))))"

section \<open>Holding legacy work before an upgrade\<close>

definition legacy_holdable :: "ledger \<Rightarrow> task_row \<Rightarrow> bool" where
  "legacy_holdable db k \<longleftrightarrow> fetch_operation db (tk_id k) = None \<and>
     ((tk_status k \<notin> {''completed'', ''cancelled'', ''failed''} \<and>
       \<not> list_ex (\<lambda>v. ev_task_id v = Some (tk_id k) \<and> ev_event_type v = ''operation.legacy_upgrade_held'') (execution_events db)) \<or>
      list_ex (\<lambda>e. ex_task_id e = tk_id k \<and> ex_status e \<notin> set EXECUTION_TERMINAL_STATUSES) (executions db) \<or>
      list_ex (\<lambda>c. cl_task_id c = tk_id k \<and> \<not> cl_released c) (task_claims db))"

definition hold_attempt :: "time \<Rightarrow> string \<Rightarrow> string \<Rightarrow> execution_row \<Rightarrow> ledger \<Rightarrow> ledger result" where
  "hold_attempt t reason task_id attempt db =
     append_event t ''execution.legacy_upgrade_held'' (Some task_id) (Some (ex_id attempt)) ''lost'' reason
       [(''previous_status'', JStr (ex_status attempt))]
       (update_execution (\<lambda>e. ex_id e = ex_id attempt)
         (\<lambda>e. e\<lparr>ex_status := ''lost'', ex_error := reason, ex_ended_at := Some t, ex_updated_at := t\<rparr>) db)"

definition release_legacy :: "time \<Rightarrow> string \<Rightarrow> ledger \<Rightarrow> ledger" where
  "release_legacy t task_id db =
     (let own = map ex_id (filter (\<lambda>e. ex_task_id e = task_id) (executions db)) in
      update_lease (\<lambda>l. ls_owner_id l \<in> set own \<and> ls_expires_at l > t) (\<lambda>l. l\<lparr>ls_expires_at := t\<rparr>)
        (update_claim (\<lambda>c. cl_task_id c = task_id \<and> \<not> cl_released c) (\<lambda>c. c\<lparr>cl_released := True, cl_expires_at := t\<rparr>) db))"

definition hold_legacy_task :: "time \<Rightarrow> string \<Rightarrow> task_row \<Rightarrow> ledger \<Rightarrow> ledger result" where
  "hold_legacy_task t reason row db =
     (let status = (if tk_status row \<in> set TASK_TERMINAL_STATUSES then tk_status row else ''blocked'');
          metadata = dict_put ''legacy_upgrade_hold'' (JObj [(''at'', JInt t), (''reason'', JStr reason)]) (tk_metadata row);
          db1 = update_task (\<lambda>k. tk_id k = tk_id row)
            (\<lambda>k. k\<lparr>tk_status := status, tk_updated_at := t, tk_metadata := metadata\<rparr>) db;
          attempts = filter (\<lambda>e. ex_task_id e = tk_id row \<and> ex_status e \<notin> set EXECUTION_TERMINAL_STATUSES) (executions db1)
      in try_bind (for_each (hold_attempt t reason (tk_id row)) attempts db1) (\<lambda>db2.
        append_event t ''operation.legacy_upgrade_held'' (Some (tk_id row)) (tk_current_execution_id row) status reason
          [(''previous_status'', JStr (tk_status row)),
           (''claims_released'', JInt (int (hits (\<lambda>c. cl_task_id c = tk_id row \<and> \<not> cl_released c) (task_claims db2)))),
           (''writers_stopped_asserted'', JBool True)]
          (release_legacy t (tk_id row) db2)))"

definition hold_legacy_for_quiesced_upgrade :: "time \<Rightarrow> bool \<Rightarrow> string \<Rightarrow> ledger \<Rightarrow> (nat \<times> ledger) result" where
  "hold_legacy_for_quiesced_upgrade t writers_stopped reason db =
     (if \<not> writers_stopped \<or> strip reason = []
      then Inl (SafeOperationError ''Quiesced upgrade requires stopped writers and an audit reason'')
      else
        (let rows = filter (legacy_holdable db) (agent_tasks db) in
         try_bind (for_each (hold_legacy_task t (redact_text (strip reason))) rows db) (\<lambda>db1. Inr (length rows, db1))))"

section \<open>Ownership\<close>

definition owned_by :: "time \<Rightarrow> ledger \<Rightarrow> claim_record \<Rightarrow> string \<Rightarrow> operation_row \<Rightarrow> bool" where
  "owned_by t db r owner q \<longleftrightarrow> op_task_id q = cr_task_id r \<and> op_eligible q \<and>
     list_ex (\<lambda>k. tk_id k = cr_task_id r \<and> tk_requested_by k = owner \<and> tk_status k = ''running'' \<and>
       tk_current_execution_id k = Some (cr_execution_id r)) (agent_tasks db) \<and>
     list_ex (\<lambda>c. cl_task_id c = cr_task_id r \<and> cl_execution_id c = cr_execution_id r \<and> cl_worker_id c = cr_worker_id r \<and>
       cl_owner_key c = owner \<and> \<not> cl_released c \<and> cl_expires_at c > t) (task_claims db) \<and>
     list_ex (\<lambda>e. ex_id e = cr_execution_id r \<and> ex_task_id e = cr_task_id r \<and> ex_status e = ''running'' \<and>
       ex_adapter_type e = ''operation'') (executions db) \<and>
     list_ex (\<lambda>w. wk_id w = cr_worker_id r \<and> wk_id w = op_worker_generation q \<and> \<not> wk_closed w \<and>
       wk_heartbeat_at w > t - seconds 30) (operation_workers db)"

definition require_execution_ownership :: "time \<Rightarrow> ledger \<Rightarrow> claim_record option \<Rightarrow> string \<Rightarrow> operation_row result" where
  "require_execution_ownership t db record owner =
     (case record of
        None \<Rightarrow> Inl (SafeOperationError ''Operation requires the current worker record'')
      | Some r \<Rightarrow>
          if cr_task_id r = [] \<or> cr_execution_id r = [] \<or> cr_worker_id r = []
          then Inl (SafeOperationError ''Operation requires the current worker record'')
          else (case List.find (owned_by t db r owner) (task_operations db) of
              None \<Rightarrow> Inl (SafeOperationError ''Operation lost current execution/claim ownership'')
            | Some q \<Rightarrow> Inr q))"

definition require_apply_ownership :: "time \<Rightarrow> ledger \<Rightarrow> claim_record option \<Rightarrow> plan_row \<Rightarrow> string \<Rightarrow> unit result" where
  "require_apply_ownership t db record plan owner =
     try_bind (require_execution_ownership t db record owner) (\<lambda>row.
     try_bind (spec_restored (op_spec row)) (\<lambda>spec.
       if os_workspace spec \<noteq> JStr (pl_workspace plan) \<or>
          (os_kind spec = JStr ''apply'' \<and>
            (os_plan_id spec \<noteq> JStr (pl_id plan) \<or> op_parent_task_id row \<noteq> Some (pl_task_id plan))) \<or>
          (os_kind spec = JStr ''request'' \<and>
            (map_option cr_task_id record \<noteq> Some (pl_task_id plan) \<or> list_ex (\<lambda>x. fc_action x \<noteq> ''create'') (pl_changes plan)))
       then Inl (SafeOperationError ''File apply does not match the claimed operation'') else Inr ()))"

section \<open>Soundness\<close>

lemma register_worker_sound: "register_worker t w db = Inr db' \<Longrightarrow> sound db db'"
  by (auto simp: register_worker_def row_defs intro!: sound_intros)

lemma heartbeat_sound: "sound db (heartbeat t w c db)"
  by (auto simp: heartbeat_def row_defs intro!: sound_intros)

lemma not_secret_intake_keys:
  "\<not> secret_key ''durable_execution''" "\<not> secret_key ''interface''" "\<not> secret_key ''operation_version''"
  by code_simp+

lemma intake_metadata_concealed [simp]: "concealed_dict (intake_metadata a)"
  by (simp add: intake_metadata_def not_secret_intake_keys not_secret_owner_key)

lemma intake_task_sel [simp]:
  "tk_id (intake_task t a i) = i" "tk_source_request_id (intake_task t a i) = in_source_request_id a"
  "tk_metadata (intake_task t a i) = intake_metadata a" "tk_project_id (intake_task t a i) = in_project_id a"
  "tk_assigned_agent_id (intake_task t a i) = None" "tk_codex_session_id (intake_task t a i) = None"
  "tk_status (intake_task t a i) = ''queued''" "tk_requested_by (intake_task t a i) = in_owner a"
  by (simp_all add: intake_task_def Let_def)

lemma upsert_task_sound: "upsert_task r db = Inr db' \<Longrightarrow> concealed_dict (tk_metadata r) \<Longrightarrow> sound db0 db \<Longrightarrow> sound db0 db'"
  by (auto simp: upsert_task_def row_defs task_unique_def split: if_splits intro!: sound_intros)

lemma upsert_intake_sound: "upsert_task (intake_task t a i) db = Inr db' \<Longrightarrow> sound db0 db \<Longrightarrow> sound db0 db'"
  by (erule upsert_task_sound) simp_all

lemma upsert_task_key: "upsert_task r db = Inr db' \<Longrightarrow> tk_id r \<in> k_tasks (keys db')"
  by (auto simp: upsert_task_def fetch_keys split: if_splits)

lemma bind_intake_sound: "bind_intake H t a i k db = Inr db' \<Longrightarrow> sound db0 db \<Longrightarrow> sound db0 db'"
  by (auto simp: bind_intake_def dest!: bind_conn_sound intro: sound_trans)

lemma admit_sound:
  "admit H t a i p db = Inr (row, db') \<Longrightarrow> sound db0 db \<Longrightarrow> sound db0 db'"
  by (auto simp: admit_def row_defs split: option.splits if_splits
      intro!: sound_intros elim!: bind_intake_sound intro: upsert_intake_sound)

lemma prior_intake_sound: "prior_intake H t a k db = Inr (r, db') \<Longrightarrow> sound db0 db \<Longrightarrow> sound db0 db'"
  by (auto simp: prior_intake_def row_defs split: option.splits if_splits
      intro!: sound_intros elim!: bind_intake_sound)

lemma admit_apply_sound: "admit_apply H t a i db = Inr (r, db') \<Longrightarrow> sound db0 db \<Longrightarrow> sound db0 db'"
  by (auto simp: admit_apply_def Let_def split: option.splits if_splits elim!: admit_sound)

lemma submit_conn_sound: "submit_conn H t a db = Inr (r, db') \<Longrightarrow> sound db0 db \<Longrightarrow> sound db0 db'"
  by (auto simp: submit_conn_def split: option.splits if_splits sum.splits
      elim!: admit_apply_sound admit_sound dest!: prior_intake_sound)

lemma submit_sound: "submit env H t a db = Inr (r, db') \<Longrightarrow> sound db0 db \<Longrightarrow> sound db0 db'"
  by (auto simp: submit_def elim!: submit_conn_sound)

lemma approve_and_submit_apply_sound:
  "approve_and_submit_apply env H t p ow h g i db = Inr (r, db') \<Longrightarrow> sound db0 db \<Longrightarrow> sound db0 db'"
  by (auto simp: approve_and_submit_apply_def split: option.splits if_splits
      elim!: submit_conn_sound decide_conn_sound)

lemma record_start_failure_sound:
  "record_start_failure t x k ow e db = Inr db' \<Longrightarrow> sound db0 db \<Longrightarrow> sound db0 db'"
  by (auto simp: record_start_failure_def Let_def row_defs task_unique_def split: option.splits if_splits
      intro!: sound_intros)

lemma not_secret_hold_keys: "\<not> secret_key ''legacy_upgrade_hold''" "\<not> secret_key ''at''" "\<not> secret_key ''reason''"
  by code_simp+

lemma hold_attempt_sound: "hold_attempt t r k e db = Inr db' \<Longrightarrow> sound db0 db \<Longrightarrow> sound db0 db'"
  by (auto simp: hold_attempt_def row_defs intro!: sound_intros)

lemma hold_legacy_task_sound:
  assumes "hold_legacy_task t r row db = Inr db'" "sound db0 db" "ledger_inv db0 \<Longrightarrow> concealed_dict (tk_metadata row)"
  shows "sound db0 db'"
proof -
  let ?m = "dict_put ''legacy_upgrade_hold'' (JObj [(''at'', JInt t), (''reason'', JStr r)]) (tk_metadata row)"
  have m: "ledger_inv db0 \<Longrightarrow> concealed_dict ?m"
    using assms(3) by (auto intro!: concealed_dict_put simp: not_secret_hold_keys)
  let ?db1 = "update_task (\<lambda>k. tk_id k = tk_id row) (\<lambda>k. k\<lparr>tk_status := if tk_status row \<in> set TASK_TERMINAL_STATUSES then tk_status row else ''blocked'',
      tk_updated_at := t, tk_metadata := ?m\<rparr>) db"
  have 1: "sound db0 ?db1" using assms(2) m by (auto simp: row_defs task_unique_def intro!: sound_intros)
  have 2: "for_each (hold_attempt t r (tk_id row)) es ?db1 = Inr x \<Longrightarrow> sound db0 x" for es x
    by (rule for_each_sound [OF _ 1]) (auto intro: hold_attempt_sound)
  from assms(1) show ?thesis
    unfolding hold_legacy_task_def Let_def by (auto simp: release_legacy_def Let_def row_defs intro!: sound_intros dest!: 2)
qed

lemma hold_legacy_sound: "hold_legacy_for_quiesced_upgrade t w r db = Inr (n, db') \<Longrightarrow> sound db db'"
proof -
  assume "hold_legacy_for_quiesced_upgrade t w r db = Inr (n, db')"
  then have f: "for_each (hold_legacy_task t (redact_text (strip r))) (filter (legacy_holdable db) (agent_tasks db)) db = Inr db'"
    by (auto simp: hold_legacy_for_quiesced_upgrade_def Let_def split: if_splits)
  show ?thesis
    by (rule for_each_sound [OF f])
       (auto elim!: hold_legacy_task_sound dest: ledger_inv_rows(1) simp: row_defs)
qed

section \<open>One apply per plan\<close>

definition apply_for :: "string \<Rightarrow> operation_row \<Rightarrow> bool" where
  "apply_for p q \<longleftrightarrow> json_is (op_spec q) ''kind'' ''apply'' \<and> json_is (op_spec q) ''plan_id'' p"

lemma count_key:
  "distinct (map key xs) \<Longrightarrow> sum_list (map (\<lambda>x. of_bool (i = key x)) xs) = (of_bool (i \<in> key ` set xs) :: nat)"
proof (induction xs)
  case (Cons x xs)
  then have "key x \<notin> key ` set xs" by auto
  with Cons show ?case by (cases "i = key x") simp_all
qed simp

lemma apply_admissions_count:
  assumes "ledger_inv db"
  shows "length (apply_admissions db p) = hits (apply_for p) (task_operations db)"
proof -
  have dist: "distinct (map tk_id (agent_tasks db))"
    using assms by (simp add: ledger_inv_def inv_at_def table_inv_def)
  have "(\<And>q. q \<in> set qs \<Longrightarrow> op_task_id q \<in> tk_id ` set (agent_tasks db)) \<Longrightarrow>
      sum_list (map (\<lambda>k. length (filter (\<lambda>q. op_task_id q = tk_id k \<and> apply_for p q) qs)) (agent_tasks db)) =
      hits (apply_for p) qs" for qs
  proof (induction qs)
    case (Cons q qs)
    have one: "length (filter (\<lambda>q. op_task_id q = tk_id k \<and> apply_for p q) (q # qs)) =
        of_bool (op_task_id q = tk_id k) * of_bool (apply_for p q) +
        length (filter (\<lambda>q. op_task_id q = tk_id k \<and> apply_for p q) qs)" for k
      by simp
    from Cons count_key [OF dist, of "op_task_id q"] show ?case
      unfolding one by (simp add: sum_list_addf sum_list_mult_const)
  qed simp
  from this [of "task_operations db"] show ?thesis
    using assms
    by (simp add: apply_admissions_def length_concat comp_def apply_for_def conj_assoc
        ledger_inv_def inv_at_def table_inv_def row_defs keys_def)
qed

definition single_apply :: "ledger \<Rightarrow> bool" where
  "single_apply db \<longleftrightarrow> (\<forall>p. hits (apply_for p) (task_operations db) \<le> 1)"

lemma bind_intake_operations: "bind_intake H t a i k db = Inr db' \<Longrightarrow> task_operations db' = task_operations db \<and> agent_tasks db' = agent_tasks db"
  by (auto simp: bind_intake_def bind_conn_def session_conn_def Let_def statement_defs split: option.splits if_splits)

lemma upsert_task_operations: "upsert_task r db = Inr db' \<Longrightarrow> task_operations db' = task_operations db"
  by (auto simp: upsert_task_def statement_defs split: if_splits)

lemma spec_storedD: "spec_stored s = Inr d \<Longrightarrow> d = asdict s \<and> spec_validate s = Inr s"
proof -
  assume "spec_stored s = Inr d"
  then obtain s' where s': "spec_validate s = Inr s'" "d = asdict s'" by (auto simp: spec_stored_def)
  then have "s' = s" by (auto simp: spec_validate_def split: if_splits json.splits)
  with s' show ?thesis by simp
qed

lemma admitE:
  assumes "admit H t a i parent db = Inr (row, db')"
  obtains spec where "spec_validate (in_spec a) = Inr (in_spec a)" "spec = asdict (in_spec a)"
    "task_operations db' = task_operations db @ [intake_operation a i parent spec]"
    "fetch_task db' i = Some row"
  using assms
  by (auto simp: admit_def statement_defs dest!: spec_storedD upsert_task_operations bind_intake_operations
      split: option.splits if_splits intro!: that)

lemma apply_for_intake:
  "apply_for p (intake_operation a i parent (asdict s)) \<longleftrightarrow> os_kind s = JStr ''apply'' \<and> os_plan_id s = JStr p"
  by (auto simp: apply_for_def intake_operation_def asdict_def json_is_def)

lemma existing_none: "existing_apply_conn db p ow w = Inr None \<Longrightarrow> apply_admissions db p = []"
  by (auto simp: existing_apply_conn_def split: list.splits option.splits if_splits prod.splits)

lemma prior_intake_operations: "prior_intake H t a k db = Inr (r, db') \<Longrightarrow> task_operations db' = task_operations db"
  by (auto simp: prior_intake_def statement_defs dest!: bind_intake_operations split: option.splits if_splits)

lemma submit_connE:
  assumes "submit_conn H t a db = Inr (row, db')"
  obtains found db1 where "worker_ready t db (in_generation a)" "sound db db1" "task_operations db1 = task_operations db"
    "case found of Inl r \<Rightarrow> row = r \<and> db' = db1
      | Inr i \<Rightarrow> if os_kind (in_spec a) = JStr ''apply'' then admit_apply H t a i db1 = Inr (row, db')
          else admit H t a i (in_parent_task_id a) db1 = Inr (row, db')"
proof -
  from assms obtain found db1 where ready: "worker_ready t db (in_generation a)"
    and prior: "(case in_source_request_id a of
             None \<Rightarrow> Inr (Inr (in_new_task_id a), db)
           | Some r \<Rightarrow>
               if r = [] then Inr (Inr (in_new_task_id a), db)
               else (case List.find (\<lambda>k. tk_source_request_id k = Some r) (agent_tasks db) of
                   None \<Rightarrow> Inr (Inr (in_new_task_id a), db)
                 | Some prior \<Rightarrow> prior_intake H t a prior db)) = Inr (found, db1)"
    and rest: "(case found of Inl row \<Rightarrow> Inr (row, db1) | Inr i \<Rightarrow>
                 if os_kind (in_spec a) = JStr ''apply'' then admit_apply H t a i db1
                 else admit H t a i (in_parent_task_id a) db1) = Inr (row, db')"
    by (auto simp: submit_conn_def split: if_splits)
  from prior have "sound db db1 \<and> task_operations db1 = task_operations db"
    by (auto split: option.splits if_splits dest: prior_intake_operations elim!: prior_intake_sound)
  with ready rest show ?thesis by (intro that [of db1 found]) (auto split: sum.splits if_splits)
qed

text \<open>C25. A plan is applied by one task. Whatever operation is submitted, with or without an earlier intake, no
  plan ever gets a second apply operation.\<close>

theorem submit_keeps_single_apply:
  assumes "submit_conn H t a db = Inr (row, db')" "ledger_inv db" "single_apply db"
  shows "single_apply db'"
proof -
  have admit: "single_apply y" if "admit H t a i parent x = Inr (row, y)" "single_apply x"
    "os_kind (in_spec a) = JStr ''apply'' \<Longrightarrow> \<forall>p. os_plan_id (in_spec a) = JStr p \<longrightarrow> hits (apply_for p) (task_operations x) = 0"
    for i parent x y
    using that by (auto elim!: admitE simp: single_apply_def hits_def apply_for_intake)
  have admit_apply: "single_apply y" if "admit_apply H t a i x = Inr (row, y)" "single_apply x" "ledger_inv x" for i x y
  proof (cases "y = x")
    case False
    with that(1) obtain parent where e: "existing_apply_conn x (json_text (os_plan_id (in_spec a))) (in_owner a) (in_root a) = Inr None"
      and ad: "admit H t a i parent x = Inr (row, y)"
      by (auto simp: admit_apply_def Let_def split: option.splits if_splits)
    from existing_none [OF e] apply_admissions_count [OF that(3)]
    have "os_plan_id (in_spec a) = JStr p \<Longrightarrow> hits (apply_for p) (task_operations x) = 0" for p
      by (simp add: json_text_def flip: apply_admissions_count [OF that(3)])
    with admit [OF ad that(2)] show ?thesis by blast
  qed (use that in simp)
  from assms(1) obtain found db1 where db1: "ledger_inv db1" "single_apply db1"
    and found: "case found of Inl r \<Rightarrow> row = r \<and> db' = db1
      | Inr i \<Rightarrow> if os_kind (in_spec a) = JStr ''apply'' then admit_apply H t a i db1 = Inr (row, db')
          else admit H t a i (in_parent_task_id a) db1 = Inr (row, db')"
    by (rule submit_connE) (use assms(2,3) in \<open>auto simp: single_apply_def sound_def\<close>)
  from found show ?thesis
    using db1 admit admit_apply by (auto split: sum.splits if_splits)
qed

end
