(* ===== verification/Op_Claims.thy ===== *)
theory Op_Claims
  imports Op_Admission
begin

text \<open>
  The queue of operations: \<open>recover\<close>, \<open>claim\<close>, \<open>has_queued\<close>, \<open>watch_attempt\<close> and \<open>assessment\<close> of
  \<open>src/nyanya_agent/operation_store.py\<close>. A claim lets one worker run one attempt of a queued operation;
  recovery takes back the operations whose worker has gone.
\<close>

section \<open>Recovery\<close>

definition recover_due :: "time \<Rightarrow> ledger \<Rightarrow> task_row \<Rightarrow> bool" where
  "recover_due t db k \<longleftrightarrow> tk_status k \<in> {''queued'', ''running'', ''cancelling''} \<and>
     list_ex (\<lambda>q. op_task_id q = tk_id k \<and> op_eligible q \<and>
       list_ex (\<lambda>w. wk_id w = op_worker_generation q \<and>
         (wk_closed w \<or> wk_heartbeat_at w < t - seconds 30 \<or>
          list_ex (\<lambda>c. cl_task_id c = tk_id k \<and> \<not> cl_released c \<and> cl_expires_at c \<le> t) (task_claims db)))
         (operation_workers db)) (task_operations db)"

definition lose_execution :: "time \<Rightarrow> string \<Rightarrow> string \<Rightarrow> ledger \<Rightarrow> ledger" where
  "lose_execution t task_id execution_id db =
     update_claim (\<lambda>c. cl_task_id c = task_id) (\<lambda>c. c\<lparr>cl_released := True\<rparr>)
       (update_execution (\<lambda>e. ex_id e = execution_id \<and> ex_status e \<notin> set EXECUTION_TERMINAL_STATUSES)
         (\<lambda>e. e\<lparr>ex_status := ''lost'', ex_error := INTERRUPTED_TEXT, ex_ended_at := Some t, ex_updated_at := t\<rparr>) db)"

definition recover_task :: "time \<Rightarrow> task_row \<Rightarrow> ledger \<Rightarrow> ledger result" where
  "recover_task t row db =
     (let db1 = update_task (\<lambda>k. tk_id k = tk_id row) (\<lambda>k. k\<lparr>tk_status := ''blocked'', tk_updated_at := t\<rparr>)
            (update_operation (\<lambda>q. op_task_id q = tk_id row)
              (\<lambda>q. q\<lparr>op_eligible := False, op_hold_reason := ''worker_interrupted'', op_diagnosis := INTERRUPTED_TEXT\<rparr>) db);
          db2 = (case tk_current_execution_id row of
              None \<Rightarrow> db1 | Some x \<Rightarrow> if x = [] then db1 else lose_execution t (tk_id row) x db1)
      in append_event t ''operation.interrupted'' (Some (tk_id row)) (tk_current_execution_id row) ''blocked'' INTERRUPTED_TEXT [] db2)"

definition recover :: "time \<Rightarrow> ledger \<Rightarrow> (nat \<times> ledger) result" where
  "recover t db =
     (let rows = filter (recover_due t db) (agent_tasks db)
      in try_bind (for_each (recover_task t) rows db) (\<lambda>db1. Inr (length rows, db1)))"

section \<open>Claiming\<close>

definition runnable :: "string \<Rightarrow> task_row \<Rightarrow> operation_row \<Rightarrow> bool" where
  "runnable generation k q \<longleftrightarrow> op_task_id q = tk_id k \<and> tk_status k = ''queued'' \<and> op_eligible q \<and>
     op_worker_generation q = generation \<and> op_attempts q < op_max_attempts q"

text \<open>The operations whose claim is not released: \<open>task_claims c JOIN task_operations o ... WHERE c.released=0\<close>\<close>

definition active_operations :: "ledger \<Rightarrow> operation_row list" where
  "active_operations db = filter (\<lambda>q. list_ex (\<lambda>c. cl_task_id c = op_task_id q \<and> \<not> cl_released c) (task_claims db))
     (task_operations db)"

fun conflicts :: "operation_spec \<Rightarrow> operation_row list \<Rightarrow> bool result" where
  "conflicts spec [] = Inr False"
| "conflicts spec (x # xs) =
     try_bind (spec_restored (op_spec x)) (\<lambda>other.
       if os_workspace other = os_workspace spec \<and> (os_kind spec = JStr ''apply'' \<or> os_kind other = JStr ''apply'')
       then Inr True else conflicts spec xs)"

text \<open>\<open>ORDER BY t.priority,t.created_at,t.rowid\<close>: both sorts are stable.\<close>

definition claim_order :: "task_row list \<Rightarrow> task_row list" where
  "claim_order rows = order_by tk_priority (order_by tk_created_at rows)"

fun pick :: "ledger \<Rightarrow> task_row list \<Rightarrow> (task_row \<times> operation_spec) option result" where
  "pick db [] = Inr None"
| "pick db (k # ks) =
     (if has_earlier_work_conn db (tk_id k) then pick db ks
      else (case fetch_operation db (tk_id k) of
          None \<Rightarrow> pick db ks
        | Some q \<Rightarrow>
            try_bind (spec_restored (op_spec q)) (\<lambda>spec.
            try_bind (conflicts spec (active_operations db)) (\<lambda>clash.
              if clash then pick db ks else Inr (Some (k, spec))))))"

definition new_claim :: "time \<Rightarrow> string \<Rightarrow> string \<Rightarrow> task_row \<Rightarrow> claim_row" where
  "new_claim t generation execution_id row =
     \<lparr>cl_task_id = tk_id row, cl_worker_id = generation, cl_owner_key = tk_requested_by row,
      cl_execution_id = execution_id, cl_expires_at = t + seconds 30, cl_released = False\<rparr>"

lemma new_claim_sel [simp]:
  "cl_task_id (new_claim t g x k) = tk_id k" "cl_worker_id (new_claim t g x k) = g"
  "cl_owner_key (new_claim t g x k) = tk_requested_by k" "cl_execution_id (new_claim t g x k) = x"
  "cl_expires_at (new_claim t g x k) = t + seconds 30" "\<not> cl_released (new_claim t g x k)"
  by (simp_all add: new_claim_def)

definition take_claim ::
  "time \<Rightarrow> string \<Rightarrow> string \<Rightarrow> task_row \<Rightarrow> operation_spec \<Rightarrow> ledger \<Rightarrow> (claim_record \<times> ledger) result" where
  "take_claim t generation execution_id row spec db =
     try_bind (insert_execution
       \<lparr>ex_id = execution_id, ex_task_id = tk_id row, ex_host_id = None, ex_agent_profile_id = None,
        ex_adapter_type = ''operation'', ex_status = ''running'', ex_status_confidence = 1, ex_command_summary = [],
        ex_workdir = json_text (os_workspace spec), ex_exit_code = None, ex_error = [],
        ex_metadata = [(''worker_id'', JStr generation)], ex_created_at = t, ex_started_at = Some t, ex_ended_at = None,
        ex_last_heartbeat_at = Some t, ex_updated_at = t\<rparr> db) (\<lambda>db1.
     try_bind (insert_claim (new_claim t generation execution_id row)
       (delete_claims (\<lambda>c. cl_task_id c = tk_id row \<and> cl_released c) db1)) (\<lambda>db2.
     try_bind (append_event t ''operation.claimed'' (Some (tk_id row)) (Some execution_id) ''running''
         ''Worker claimed operation'' []
         (update_operation (\<lambda>q. op_task_id q = tk_id row) (\<lambda>q. q\<lparr>op_attempts := op_attempts q + 1\<rparr>)
           (update_task (\<lambda>k. tk_id k = tk_id row)
             (\<lambda>k. k\<lparr>tk_status := ''running'', tk_current_execution_id := Some execution_id, tk_updated_at := t\<rparr>) db2))) (\<lambda>db3.
       Inr (\<lparr>cr_task_id = tk_id row, cr_worker_id = generation, cr_execution_id = execution_id, cr_spec = Some spec,
             cr_owner = tk_requested_by row, cr_reply_kind = None\<rparr>, db3))))"

definition claim :: "time \<Rightarrow> string \<Rightarrow> int \<Rightarrow> string \<Rightarrow> ledger \<Rightarrow> (claim_record option \<times> ledger) result" where
  "claim t generation slots execution_id db =
     (if int (length (active_operations db)) \<ge> slots then Inr (None, db)
      else
        (let rows = claim_order (filter (\<lambda>k. list_ex (runnable generation k) (task_operations db)) (agent_tasks db)) in
         try_bind (pick db rows) (\<lambda>found.
           case found of
             None \<Rightarrow> Inr (None, db)
           | Some (row, spec) \<Rightarrow>
               try_bind (take_claim t generation execution_id row spec db) (\<lambda>(r, db1). Inr (Some r, db1)))))"

definition has_queued :: "ledger \<Rightarrow> string \<Rightarrow> bool" where
  "has_queued db generation = list_ex (\<lambda>k. list_ex (runnable generation k) (task_operations db)) (agent_tasks db)"

definition watch_attempt :: "ledger \<Rightarrow> string \<Rightarrow> string \<Rightarrow> int result" where
  "watch_attempt db task_id owner =
     (case (List.find (\<lambda>k. tk_id k = task_id \<and> tk_requested_by k = owner) (agent_tasks db), fetch_operation db task_id) of
        (Some k, Some q) \<Rightarrow> Inr (op_attempts q + (if tk_status k = ''queued'' then 1 else 0))
      | _ \<Rightarrow> Inl (PermissionError ''Task owner mismatch''))"

definition assessment :: "time \<Rightarrow> string \<Rightarrow> dict \<Rightarrow> ledger \<Rightarrow> (string \<times> ledger) result" where
  "assessment t task_id value db =
     try_bind (route value) (\<lambda>profile.
       case (score value ''importance'', score value ''impact'') of
         (Some importance, Some impact) \<Rightarrow>
           try_bind (append_event t ''operation.routed'' (Some task_id) None [] (''Selected profile: '' @ profile) value
             (update_task (\<lambda>k. tk_id k = task_id) (\<lambda>k. k\<lparr>tk_priority := 100 - importance * 10 - impact\<rparr>)
               (update_operation (\<lambda>q. op_task_id q = task_id) (\<lambda>q. q\<lparr>op_assessment := redact_dict value\<rparr>) db)))
             (\<lambda>db1. Inr (profile, db1))
       | _ \<Rightarrow> Inl (KeyError ''importance''))"

section \<open>Soundness\<close>

lemma not_secret_worker_id: "\<not> secret_key ''worker_id''"
  by code_simp

lemma recover_task_sound: "recover_task t k db = Inr db' \<Longrightarrow> sound db0 db \<Longrightarrow> sound db0 db'"
  by (auto simp: recover_task_def lose_execution_def Let_def row_defs task_unique_def split: option.splits if_splits
      intro!: sound_intros)

lemma recover_sound: "recover t db = Inr (n, db') \<Longrightarrow> sound db0 db \<Longrightarrow> sound db0 db'"
  by (auto simp: recover_def Let_def elim!: for_each_sound recover_task_sound)

lemma take_claim_sound: "take_claim t g x k s db = Inr (r, db') \<Longrightarrow> sound db0 db \<Longrightarrow> sound db0 db'"
  by (auto simp: take_claim_def row_defs task_unique_def not_secret_worker_id intro!: sound_intros)

lemma claim_sound: "claim t g n x db = Inr (r, db') \<Longrightarrow> sound db0 db \<Longrightarrow> sound db0 db'"
  by (auto simp: claim_def Let_def split: if_splits option.splits elim!: take_claim_sound)

lemma assessment_sound: "assessment t k v db = Inr (p, db') \<Longrightarrow> sound db0 db \<Longrightarrow> sound db0 db'"
  by (auto simp: assessment_def row_defs task_unique_def split: option.splits intro!: sound_intros)

section \<open>What a claim does\<close>

lemma pickD:
  "pick db rows = Inr (Some (k, s)) \<Longrightarrow> k \<in> set rows \<and> \<not> has_earlier_work_conn db (tk_id k) \<and>
    (\<exists>q. fetch_operation db (tk_id k) = Some q \<and> spec_restored (op_spec q) = Inr s) \<and>
    conflicts s (active_operations db) = Inr False"
  by (induction rows) (auto split: if_splits option.splits)

lemma conflictsD:
  "conflicts s qs = Inr False \<Longrightarrow> q \<in> set qs \<Longrightarrow> \<exists>x. spec_restored (op_spec q) = Inr x \<and>
    \<not> (os_workspace x = os_workspace s \<and> (os_kind s = JStr ''apply'' \<or> os_kind x = JStr ''apply''))"
  by (induction s qs rule: conflicts.induct) (auto split: if_splits)

lemma set_claim_order [simp]: "set (claim_order rows) = set rows"
  by (simp add: claim_order_def)

lemma claimE:
  assumes "claim t g n x db = Inr (Some r, db')" "ledger_inv db"
  obtains k q s where "k \<in> set (agent_tasks db)" "q \<in> set (task_operations db)" "fetch_operation db (tk_id k) = Some q"
    "runnable g k q" "spec_restored (op_spec q) = Inr s" "\<not> has_earlier_work_conn db (tk_id k)"
    "conflicts s (active_operations db) = Inr False" "int (length (active_operations db)) < n"
    "take_claim t g x k s db = Inr (r, db')"
proof -
  let ?rows = "filter (\<lambda>k. list_ex (runnable g k) (task_operations db)) (agent_tasks db)"
  from assms(1) obtain k s where p: "pick db (claim_order ?rows) = Inr (Some (k, s))"
    and n: "int (length (active_operations db)) < n" and tc: "take_claim t g x k s db = Inr (r, db')"
    by (auto simp: claim_def Let_def split: if_splits option.splits)
  from pickD [OF p] obtain q where k: "k \<in> set ?rows" and q: "fetch_operation db (tk_id k) = Some q" "spec_restored (op_spec q) = Inr s"
    and rest: "\<not> has_earlier_work_conn db (tk_id k)" "conflicts s (active_operations db) = Inr False" by auto
  from k obtain q' where q': "q' \<in> set (task_operations db)" "runnable g k q'" by (auto simp: list_ex_iff)
  from fetch_operationD [OF q(1)] q' plan_keys(2) [OF assms(2)] have "q' = q"
    by (auto simp: runnable_def distinct_map inj_on_def)
  with k q q' rest n tc show ?thesis by (intro that) auto
qed

lemma take_claimE:
  assumes "take_claim t g x k s db = Inr (r, db')"
  obtains
    "task_claims db' = filter (\<lambda>c. \<not> (cl_task_id c = tk_id k \<and> cl_released c)) (task_claims db) @ [new_claim t g x k]"
    "\<And>d. d \<in> set (task_claims db) \<Longrightarrow> cl_task_id d = tk_id k \<Longrightarrow> cl_released d"
    "task_operations db' = upd (\<lambda>q. op_task_id q = tk_id k) (\<lambda>q. q\<lparr>op_attempts := op_attempts q + 1\<rparr>) (task_operations db)"
    "agent_tasks db' = upd (\<lambda>j. tk_id j = tk_id k)
       (\<lambda>j. j\<lparr>tk_status := ''running'', tk_current_execution_id := Some x, tk_updated_at := t\<rparr>) (agent_tasks db)"
    "operation_workers db' = operation_workers db"
    "r = \<lparr>cr_task_id = tk_id k, cr_worker_id = g, cr_execution_id = x, cr_spec = Some s,
             cr_owner = tk_requested_by k, cr_reply_kind = None\<rparr>"
    "fetch_execution db x = None" "\<exists>e\<in>set (executions db'). ex_id e = x \<and> ex_task_id e = tk_id k \<and> ex_status e = ''running'' \<and>
       ex_adapter_type e = ''operation''"
  using assms
  by (auto simp: take_claim_def statement_defs clash_def fetch_execution_def find_None_iff intro!: that)

section \<open>Bounds\<close>

lemma filter_key: "distinct (map key xs) \<Longrightarrow> y \<in> set xs \<Longrightarrow> length (filter (\<lambda>z. key z = key y) xs) = 1"
proof (induction xs)
  case (Cons x xs)
  show ?case
  proof (cases "key x = key y")
    case True
    then have "key y \<notin> key ` set xs" using Cons.prems(1) by simp
    then have "key z \<noteq> key y" if "z \<in> set xs" for z using that by (metis imageI)
    then have "filter (\<lambda>z. key z = key y) xs = []" by (simp add: filter_empty_conv)
    with True show ?thesis by simp
  next
    case False
    with Cons show ?thesis by auto
  qed
qed simp

text \<open>Every active operation has its own claim, so counting operations is counting claims.\<close>

lemma active_after_claim:
  assumes "take_claim t g x k s db = Inr (r, db')" "ledger_inv db" "q \<in> set (task_operations db)" "op_task_id q = tk_id k"
  shows "length (active_operations db') = Suc (length (active_operations db))"
    and "z \<in> set (active_operations db') \<Longrightarrow> op_task_id z = tk_id k \<and> op_spec z = op_spec q \<or> z \<in> set (active_operations db)"
proof -
  let ?A = "\<lambda>d q. list_ex (\<lambda>c. cl_task_id c = op_task_id q \<and> \<not> cl_released c) (task_claims d)"
  let ?f = "\<lambda>q. q\<lparr>op_attempts := op_attempts q + 1\<rparr>"
  from assms(1) have cs: "task_claims db' = filter (\<lambda>c. \<not> (cl_task_id c = tk_id k \<and> cl_released c)) (task_claims db) @ [new_claim t g x k]"
    and free: "\<And>d. d \<in> set (task_claims db) \<Longrightarrow> cl_task_id d = tk_id k \<Longrightarrow> cl_released d"
    and qs: "task_operations db' = upd (\<lambda>q. op_task_id q = tk_id k) ?f (task_operations db)"
    by (elim take_claimE; simp)+
  have act: "?A db' z \<longleftrightarrow> op_task_id z = tk_id k \<or> ?A db z" for z
    using free by (auto simp: cs list_ex_iff)
  have inact: "\<not> list_ex (\<lambda>c. cl_task_id c = tk_id k \<and> \<not> cl_released c) (task_claims db)"
    using free by (auto simp: list_ex_iff)
  have "length (filter (?A db') (map (\<lambda>z. if op_task_id z = tk_id k then ?f z else z) rows)) =
      length (filter (?A db) rows) + length (filter (\<lambda>z. op_task_id z = tk_id k) rows)" for rows :: "operation_row list"
    by (induction rows) (auto simp: act inact)
  moreover have "length (filter (\<lambda>z. op_task_id z = op_task_id q) (task_operations db)) = 1"
    using filter_key [OF plan_keys(2) [OF assms(2)] assms(3)] .
  ultimately show "length (active_operations db') = Suc (length (active_operations db))"
    by (simp add: active_operations_def qs upd_def assms(4))
  assume z: "z \<in> set (active_operations db')"
  have "distinct (map op_task_id (task_operations db))" by (rule plan_keys(2) [OF assms(2)])
  with z assms(3,4) show "op_task_id z = tk_id k \<and> op_spec z = op_spec q \<or> z \<in> set (active_operations db)"
    by (auto simp: active_operations_def qs set_upd act distinct_map inj_on_def)
qed

definition attempts_bounded :: "ledger \<Rightarrow> bool" where
  "attempts_bounded db \<longleftrightarrow> (\<forall>q\<in>set (task_operations db). op_attempts q \<le> op_max_attempts q)"

text \<open>The queue is bounded. A claim never brings the number of operations with an unreleased claim above the
  worker's slots, nor the attempts of any operation above its maximum.\<close>

theorem claim_respects_bounds:
  assumes "claim t g slots x db = Inr (Some r, db')" "ledger_inv db" "attempts_bounded db"
  shows "int (length (active_operations db')) \<le> slots \<and> attempts_bounded db' \<and>
    length (active_operations db') = Suc (length (active_operations db))"
proof -
  from assms(1,2) obtain k q s where k: "k \<in> set (agent_tasks db)" "q \<in> set (task_operations db)" "runnable g k q"
    and n: "int (length (active_operations db)) < slots" and tc: "take_claim t g x k s db = Inr (r, db')"
    by (rule claimE)
  have "op_task_id q = tk_id k" using k(3) by (simp add: runnable_def)
  from active_after_claim(1) [OF tc assms(2) k(2) this] have len: "length (active_operations db') = Suc (length (active_operations db))" .
  from tc have qs: "task_operations db' = upd (\<lambda>q. op_task_id q = tk_id k) (\<lambda>q. q\<lparr>op_attempts := op_attempts q + 1\<rparr>) (task_operations db)"
    by (elim take_claimE)
  have "z = q" if "z \<in> set (task_operations db)" "op_task_id z = tk_id k" for z
    using that k plan_keys(2) [OF assms(2)] by (auto simp: runnable_def distinct_map inj_on_def)
  with assms(3) k(3) have "attempts_bounded db'" by (auto simp: attempts_bounded_def qs set_upd runnable_def)
  with len n show ?thesis by simp
qed

text \<open>Two active operations in one workspace, of different tasks: neither is an apply.\<close>

definition compatible :: "operation_row \<Rightarrow> operation_row \<Rightarrow> bool" where
  "compatible q z \<longleftrightarrow> (\<exists>s u. spec_restored (op_spec q) = Inr s \<and> spec_restored (op_spec z) = Inr u \<and>
     \<not> (os_workspace u = os_workspace s \<and> (os_kind s = JStr ''apply'' \<or> os_kind u = JStr ''apply'')))"

definition apply_exclusive :: "ledger \<Rightarrow> bool" where
  "apply_exclusive db \<longleftrightarrow> (\<forall>q\<in>set (active_operations db). \<forall>z\<in>set (active_operations db).
     op_task_id q \<noteq> op_task_id z \<longrightarrow> compatible q z)"

lemma compatible_sym: "compatible q z \<Longrightarrow> compatible z q"
  by (auto simp: compatible_def)

text \<open>C11. An apply has its workspace to itself. A claim never lets a file apply run beside another operation of the
  same workspace: if that holds of the active operations before the claim, it holds after.\<close>

theorem claim_keeps_apply_exclusive:
  assumes "claim t g slots x db = Inr (c, db')" "ledger_inv db" "apply_exclusive db"
  shows "apply_exclusive db'"
proof (cases c)
  case None
  with assms show ?thesis by (auto simp: claim_def Let_def split: if_splits option.splits)
next
  case (Some r)
  with assms(1) have "claim t g slots x db = Inr (Some r, db')" by simp
  from this assms(2) obtain k q s where k: "q \<in> set (task_operations db)" "runnable g k q" "spec_restored (op_spec q) = Inr s"
    and free: "conflicts s (active_operations db) = Inr False" and tc: "take_claim t g x k s db = Inr (r, db')" by (rule claimE)
  have qk: "op_task_id q = tk_id k" using k(2) by (simp add: runnable_def)
  note act = active_after_claim(2) [OF tc assms(2) k(1) qk]
  have new: "compatible y z" if "op_spec y = op_spec q" "z \<in> set (active_operations db)" for y z
    using conflictsD [OF free that(2)] that(1) k(3) by (auto simp: compatible_def)
  show ?thesis
    unfolding apply_exclusive_def
  proof (intro ballI impI)
    fix y z assume "y \<in> set (active_operations db')" "z \<in> set (active_operations db')" "op_task_id y \<noteq> op_task_id z"
    with act [of y] act [of z] new [of y z] new [of z y] assms(3) show "compatible y z"
      by (auto simp: apply_exclusive_def intro: compatible_sym)
  qed
qed

section \<open>Order and ownership\<close>

text \<open>C23. A conversation is served in order. The operation that a claim starts has no other turn of its conversation
  generation at work, and no earlier turn of it that is queued and may still run.\<close>

theorem claim_follows_conversation:
  assumes "claim t g slots x db = Inr (Some r, db')" "ledger_inv db"
    and "fetch_turn db (cr_task_id r) = Some turn" "fetch_turn db i = Some other" "i \<noteq> cr_task_id r"
    and "tn_session_id other = tn_session_id turn" "tn_generation other = tn_generation turn"
    and "fetch_task db i = Some k" "fetch_operation db i = Some q"
  shows "tk_status k \<notin> {''running'', ''cancelling''} \<and>
    (tn_sequence other < tn_sequence turn \<longrightarrow> tk_status k \<noteq> ''queued'' \<or> \<not> eligible_now q)"
proof -
  from assms(1,2) obtain j s where "\<not> has_earlier_work_conn db (tk_id j)" "take_claim t g x j s db = Inr (r, db')" by (rule claimE)
  moreover from this(2) have "cr_task_id r = tk_id j" by (elim take_claimE) simp
  ultimately have free: "\<not> has_earlier_work_conn db (cr_task_id r)" by simp
  from fetch_turnD [OF assms(3)] fetch_turnD [OF assms(4)] fetch_taskD [OF assms(8)] fetch_operationD [OF assms(9)] assms(5-7) free
  show ?thesis unfolding has_earlier_work_conn_def list_ex_iff by force
qed

text \<open>A claim confers ownership. Until the lease of 30 seconds ends, and while its worker keeps a fresh heartbeat,
  the record that a claim returns passes the ownership check of the code that performs effects.\<close>

theorem claim_confers_ownership:
  assumes "claim t g slots x db = Inr (Some r, db')" "ledger_inv db"
    and "fetch_worker db g = Some w" "\<not> wk_closed w" "t' - seconds 30 < wk_heartbeat_at w" "t' < t + seconds 30"
    and "g \<noteq> []" "x \<noteq> []" "cr_task_id r \<noteq> []"
  shows "\<exists>q. require_execution_ownership t' db' (Some r) (cr_owner r) = Inr q \<and> op_task_id q = cr_task_id r \<and>
    map_option Inr (cr_spec r) = Some (spec_restored (op_spec q))"
proof -
  from assms(1,2) obtain k q s where k: "k \<in> set (agent_tasks db)" "q \<in> set (task_operations db)" "fetch_operation db (tk_id k) = Some q"
    "runnable g k q" "spec_restored (op_spec q) = Inr s" and tc: "take_claim t g x k s db = Inr (r, db')" by (rule claimE)
  let ?q = "q\<lparr>op_attempts := op_attempts q + 1\<rparr>"
  from tc have r: "cr_task_id r = tk_id k" "cr_worker_id r = g" "cr_execution_id r = x" "cr_owner r = tk_requested_by k" "cr_spec r = Some s"
    and cl: "\<exists>c\<in>set (task_claims db'). cl_task_id c = tk_id k \<and> cl_execution_id c = x \<and> cl_worker_id c = g \<and>
      cl_owner_key c = tk_requested_by k \<and> \<not> cl_released c \<and> cl_expires_at c = t + seconds 30"
    and tasks: "agent_tasks db' = upd (\<lambda>j. tk_id j = tk_id k)
       (\<lambda>j. j\<lparr>tk_status := ''running'', tk_current_execution_id := Some x, tk_updated_at := t\<rparr>) (agent_tasks db)"
    and ops: "task_operations db' = upd (\<lambda>q. op_task_id q = tk_id k) (\<lambda>q. q\<lparr>op_attempts := op_attempts q + 1\<rparr>) (task_operations db)"
    and ws: "operation_workers db' = operation_workers db"
    and ex: "\<exists>e\<in>set (executions db'). ex_id e = x \<and> ex_task_id e = tk_id k \<and> ex_status e = ''running'' \<and> ex_adapter_type e = ''operation''"
    by (elim take_claimE; simp)+
  have qk: "op_task_id q = tk_id k" "op_worker_generation q = g" "op_eligible q" using k(4) by (simp_all add: runnable_def)
  have "List.find (\<lambda>z. op_task_id z = tk_id k) (task_operations db') = Some ?q"
    using k(3) qk(1) by (simp add: ops fetch_operation_def find_key_upd)
  moreover have "owned_by t' db' r (cr_owner r) z \<longleftrightarrow> op_task_id z = tk_id k" if "z \<in> set (task_operations db')" for z
  proof -
    have zq: "z = ?q" if "op_task_id z = tk_id k"
      using that \<open>z \<in> set (task_operations db')\<close> k(2) qk(1) plan_keys(2) [OF assms(2)]
      by (auto simp: ops set_upd distinct_map inj_on_def)
    have "list_ex (\<lambda>j. tk_id j = tk_id k \<and> tk_requested_by j = tk_requested_by k \<and> tk_status j = ''running'' \<and>
        tk_current_execution_id j = Some x) (agent_tasks db')"
      unfolding tasks by (rule list_ex_updI [OF k(1)]) simp_all
    moreover have "list_ex (\<lambda>u. wk_id u = g \<and> \<not> wk_closed u \<and> wk_heartbeat_at u > t' - seconds 30) (operation_workers db')"
      using fetch_workerD [OF assms(3)] assms(4,5) by (auto simp: ws list_ex_iff)
    moreover have "list_ex (\<lambda>c. cl_task_id c = tk_id k \<and> cl_execution_id c = x \<and> cl_worker_id c = g \<and>
        cl_owner_key c = tk_requested_by k \<and> \<not> cl_released c \<and> cl_expires_at c > t') (task_claims db')"
      using cl assms(6) by (auto simp: list_ex_iff)
    ultimately have "owned_by t' db' r (cr_owner r) ?q"
      using ex qk by (auto simp: owned_by_def r list_ex_iff)
    with zq show ?thesis by (auto simp: owned_by_def r)
  qed
  then have "List.find (owned_by t' db' r (cr_owner r)) (task_operations db') = List.find (\<lambda>z. op_task_id z = tk_id k) (task_operations db')"
    by (intro find_cong) auto
  ultimately show ?thesis
    using assms(7-9) k(5) by (auto simp: require_execution_ownership_def r qk)
qed

text \<open>The read that workers make before claiming: without queued work the claim is empty.\<close>

lemma claim_without_queue: "\<not> has_queued db g \<Longrightarrow> claim t g slots x db = Inr (None, db)"
proof -
  assume "\<not> has_queued db g"
  then have "filter (\<lambda>k. list_ex (runnable g k) (task_operations db)) (agent_tasks db) = []"
    by (auto simp: has_queued_def list_ex_iff filter_empty_conv)
  then show ?thesis by (simp add: claim_def Let_def claim_order_def order_by_def)
qed

section \<open>What recovery leaves\<close>

lemma recover_taskE:
  assumes "recover_task t p db = Inr y"
  obtains P where "agent_tasks y = upd (\<lambda>k. tk_id k = tk_id p) (\<lambda>k. k\<lparr>tk_status := ''blocked'', tk_updated_at := t\<rparr>) (agent_tasks db)"
    "task_operations y = upd (\<lambda>q. op_task_id q = tk_id p)
       (\<lambda>q. q\<lparr>op_eligible := False, op_hold_reason := ''worker_interrupted'', op_diagnosis := INTERRUPTED_TEXT\<rparr>) (task_operations db)"
    "operation_workers y = operation_workers db"
    "task_claims y = upd (\<lambda>c. P \<and> cl_task_id c = tk_id p) (\<lambda>c. c\<lparr>cl_released := True\<rparr>) (task_claims db)"
    "executions y = upd (\<lambda>e. P \<and> Some (ex_id e) = tk_current_execution_id p \<and> ex_status e \<notin> set EXECUTION_TERMINAL_STATUSES)
       (\<lambda>e. e\<lparr>ex_status := ''lost'', ex_error := INTERRUPTED_TEXT, ex_ended_at := Some t, ex_updated_at := t\<rparr>) (executions db)"
    "P \<longleftrightarrow> (\<exists>x. tk_current_execution_id p = Some x \<and> x \<noteq> [])"
  by (rule that [of "\<exists>x. tk_current_execution_id p = Some x \<and> x \<noteq> []"])
     (use assms in \<open>auto simp: recover_task_def lose_execution_def Let_def statement_defs upd_def split: option.splits if_splits\<close>)

definition recovered :: "time \<Rightarrow> task_row \<Rightarrow> ledger \<Rightarrow> bool" where
  "recovered t p db \<longleftrightarrow>
     list_all (\<lambda>k. tk_id k = tk_id p \<longrightarrow> tk_status k = ''blocked'') (agent_tasks db) \<and>
     list_all (\<lambda>q. op_task_id q = tk_id p \<longrightarrow> \<not> op_eligible q) (task_operations db) \<and>
     (case tk_current_execution_id p of None \<Rightarrow> True | Some x \<Rightarrow> x = [] \<or>
        list_all (\<lambda>c. cl_task_id c = tk_id p \<longrightarrow> cl_released c) (task_claims db) \<and>
        list_all (\<lambda>e. ex_id e = x \<longrightarrow> ex_status e \<in> set EXECUTION_TERMINAL_STATUSES) (executions db))"

lemma lost_terminal [simp]: "''lost'' \<in> set EXECUTION_TERMINAL_STATUSES"
  by (simp add: EXECUTION_TERMINAL_STATUSES_def)

lemma list_all_upd: "list_all Q (upd P f rows) \<longleftrightarrow> list_all (\<lambda>r. Q (if P r then f r else r)) rows"
  by (induction rows) auto

lemma recover_task_recovered: "recover_task t p db = Inr y \<Longrightarrow> recovered t p y"
  unfolding recovered_def
  by (erule recover_taskE) (simp add: list_all_upd split: option.split, auto simp: list_all_iff)

lemma recover_task_keeps: "recover_task t p db = Inr y \<Longrightarrow> recovered t j db \<Longrightarrow> recovered t j y"
  unfolding recovered_def
  by (erule recover_taskE) (simp add: list_all_upd split: option.splits; auto simp: list_all_iff)

lemma recover_task_not_due:
  assumes "recover_task t p db = Inr y" "k \<in> set (agent_tasks y)" "recover_due t y k"
  shows "k \<in> set (agent_tasks db) \<and> recover_due t db k"
proof -
  from assms(1) obtain P where y:
    "agent_tasks y = upd (\<lambda>k. tk_id k = tk_id p) (\<lambda>k. k\<lparr>tk_status := ''blocked'', tk_updated_at := t\<rparr>) (agent_tasks db)"
    "task_operations y = upd (\<lambda>q. op_task_id q = tk_id p)
       (\<lambda>q. q\<lparr>op_eligible := False, op_hold_reason := ''worker_interrupted'', op_diagnosis := INTERRUPTED_TEXT\<rparr>) (task_operations db)"
    "operation_workers y = operation_workers db"
    "task_claims y = upd (\<lambda>c. P \<and> cl_task_id c = tk_id p) (\<lambda>c. c\<lparr>cl_released := True\<rparr>) (task_claims db)" by (rule recover_taskE)
  from assms(3) obtain q w where "q \<in> set (task_operations y)" "op_task_id q = tk_id k" "op_eligible q"
    "w \<in> set (operation_workers y)" "wk_id w = op_worker_generation q"
    "wk_closed w \<or> wk_heartbeat_at w < t - seconds 30 \<or> (\<exists>c\<in>set (task_claims y). cl_task_id c = tk_id k \<and> \<not> cl_released c \<and> cl_expires_at c \<le> t)"
    and st: "tk_status k \<in> {''queued'', ''running'', ''cancelling''}"
    by (auto simp: recover_due_def list_ex_iff)
  then have "\<exists>q\<in>set (task_operations db). op_task_id q = tk_id k \<and> op_eligible q \<and> (\<exists>w\<in>set (operation_workers db). wk_id w = op_worker_generation q \<and>
      (wk_closed w \<or> wk_heartbeat_at w < t - seconds 30 \<or> (\<exists>c\<in>set (task_claims db). cl_task_id c = tk_id k \<and> \<not> cl_released c \<and> cl_expires_at c \<le> t)))"
    by (force simp: y set_upd)
  moreover have "k \<in> set (agent_tasks db)" using assms(2) st by (auto simp: y set_upd)
  ultimately show ?thesis using st unfolding recover_due_def list_ex_iff by blast
qed

text \<open>C18. Recovery leaves nothing behind. When \<open>recover\<close> returns, no operation of a closed or silent worker or with an
  expired claim is still queued or running; each one found is blocked and not eligible, and its current
  execution has ended and its claim is released.\<close>

theorem recovery_is_complete:
  assumes "recover t db = Inr (n, db')"
  shows "filter (recover_due t db') (agent_tasks db') = [] \<and> n = hits (recover_due t db) (agent_tasks db) \<and>
    list_all (\<lambda>p. recovered t p db') (filter (recover_due t db) (agent_tasks db))"
proof -
  let ?rows = "filter (recover_due t db) (agent_tasks db)"
  from assms have f: "for_each (recover_task t) ?rows db = Inr db'" and n: "n = length ?rows"
    by (auto simp: recover_def Let_def)
  have all: "recovered t p db'" if "p \<in> set ?rows" for p
    by (rule for_each_establish [OF f that]) (auto intro: recover_task_recovered recover_task_keeps)
  have "k \<in> set (agent_tasks db) \<and> recover_due t db k" if "k \<in> set (agent_tasks db')" "recover_due t db' k" for k
  proof -
    let ?P = "\<lambda>x. \<forall>k\<in>set (agent_tasks x). recover_due t x k \<longrightarrow> k \<in> set (agent_tasks db) \<and> recover_due t db k"
    have "?P db'" by (rule for_each_inv [OF f, where P = ?P]) (auto dest: recover_task_not_due)
    with that show ?thesis by blast
  qed
  moreover have "\<not> recover_due t db' k" if "k \<in> set (agent_tasks db')" "k \<in> set (agent_tasks db)" "recover_due t db k" for k
  proof -
    have "recovered t k db'" using all [of k] that by simp
    then have "tk_status k = ''blocked''" using that(1) unfolding recovered_def list_all_iff by blast
    then show ?thesis by (simp add: recover_due_def)
  qed
  ultimately have "\<not> recover_due t db' k" if "k \<in> set (agent_tasks db')" for k
    using that by blast
  then have "filter (recover_due t db') (agent_tasks db') = []" by (simp add: filter_empty_conv)
  moreover have "list_all (\<lambda>p. recovered t p db') ?rows" using all by (simp add: list_all_iff)
  ultimately show ?thesis using n by (simp add: hits_def)
qed

section \<open>Witnesses\<close>

lemma sample_tables:
  "agent_tasks sample_operations = [sample_task, sample_task2, sample_task3]" "executions sample_operations = [sample_execution]"
  "task_operations sample_operations = [sample_operation, sample_operation\<lparr>op_task_id := ''t3''\<rparr>]"
  "operation_workers sample_operations = [sample_worker]" "task_claims sample_operations = []"
  "conversation_turns sample_operations = [sample_turn]" "change_plans sample_operations = [sample_plan]"
  "task_results sample_operations = []" "change_journal sample_operations = []" "execution_events sample_operations = []"
  "k_tasks (keys sample_operations) = {''t1'', ''t2'', ''t3''}" "k_executions (keys sample_operations) = {''e1''}"
  by (simp_all add: keys_def sample_defs)

lemma sample_sel [simp]:
  "tk_id sample_task = ''t1''" "tk_id sample_task2 = ''t2''" "tk_id sample_task3 = ''t3''"
  "tk_status sample_task = ''running''" "tk_status sample_task2 = ''queued''" "tk_status sample_task3 = ''awaiting_approval''"
  "tk_requested_by sample_task = ''u1''" "tk_requested_by sample_task2 = ''u1''" "tk_requested_by sample_task3 = ''u1''"
  "tk_current_execution_id sample_task = Some ''e1''" "tk_current_execution_id sample_task2 = None"
  "tk_current_execution_id sample_task3 = None" "ex_id sample_execution = ''e1''" "ex_task_id sample_execution = ''t1''"
  "ex_status sample_execution = ''running''" "op_task_id sample_operation = ''t2''" "op_spec sample_operation = sample_spec"
  "op_worker_generation sample_operation = ''w1''" "op_eligible sample_operation" "op_attempts sample_operation = 0"
  "op_max_attempts sample_operation = 3" "op_parent_task_id sample_operation = None" "wk_id sample_worker = ''w1''"
  "wk_heartbeat_at sample_worker = 0" "\<not> wk_closed sample_worker" "tn_task_id sample_turn = ''t2''"
  "tn_session_id sample_turn = ''c1''" "tn_generation sample_turn = 1" "tn_sequence sample_turn = 1"
  by (simp_all add: sample_task_def sample_task2_def sample_task3_def sample_execution_def sample_operation_def
    sample_worker_def sample_turn_def)

lemmas claim_eval = claim_def Let_def take_claim_def insert_execution_def insert_claim_def clash_def execution_fk_def
  claim_fk_def append_event_def event_fk_def

lemma sample_pick:
  assumes "task_operations db = task_operations sample_operations" "agent_tasks db = agent_tasks sample_operations"
    and "task_claims db = []" "\<not> has_earlier_work_conn db ''t2''"
  shows "claim t ''w1'' 2 x db = try_bind (take_claim t ''w1'' x sample_task2 (spec_of sample_spec) db) (\<lambda>(r, db1). Inr (Some r, db1))"
proof -
  have l: "spec_restored sample_spec = Inr (spec_of sample_spec)" by code_simp
  have rows: "claim_order (filter (\<lambda>k. list_ex (runnable ''w1'' k) (task_operations db)) (agent_tasks db)) = [sample_task2]"
    by (simp add: claim_order_def order_by_def runnable_def assms sample_tables)
  have op2: "fetch_operation db ''t2'' = Some sample_operation"
    by (simp add: fetch_operation_def assms sample_tables)
  have a: "active_operations db = []" by (simp add: active_operations_def assms)
  have "pick db [sample_task2] = Inr (Some (sample_task2, spec_of sample_spec))" by (simp add: op2 a assms l)
  then show ?thesis by (simp add: claim_def a rows Let_def)
qed

lemma sample_take:
  assumes "keys db = keys sample_operations" "task_claims db = []" "executions db = [sample_execution]"
  shows "\<exists>r db'. take_claim 5 ''w1'' ''e9'' sample_task2 sp db = Inr (r, db') \<and> cr_task_id r = ''t2''"
proof -
  have "k_hosts (keys sample_operations) = {''h1''}" "k_profiles (keys sample_operations) = {}"
    by (simp_all add: keys_def sample_defs)
  moreover have "task_claims (add_execution e db) = []" for e using assms(2) by (simp add: add_execution_def)
  ultimately show ?thesis
    using assms by (simp add: take_claim_def insert_execution_def insert_claim_def clash_def execution_fk_def
        claim_fk_def append_event_def event_fk_def sample_tables delete_claims_def)
qed

lemma sample_claim:
  "\<exists>r db'. claim 5 ''w1'' 2 ''e9'' sample_operations = Inr (Some r, db') \<and> cr_task_id r = ''t2''"
proof -
  have "\<not> has_earlier_work_conn sample_operations ''t2''"
    by (simp add: has_earlier_work_conn_def sample_tables)
  from sample_pick [OF refl refl sample_tables(5) this, of 5 "''e9''"]
    sample_take [OF refl sample_tables(5) sample_tables(2), of "spec_of sample_spec"]
  show ?thesis by auto
qed

lemma claim_respects_bounds_witness:
  "\<exists>r db'. claim 5 ''w1'' 2 ''e9'' sample_operations = Inr (Some r, db') \<and> length (active_operations db') = 1 \<and> attempts_bounded db'"
proof -
  obtain r db' where c: "claim 5 ''w1'' 2 ''e9'' sample_operations = Inr (Some r, db')" using sample_claim by blast
  have "attempts_bounded sample_operations" "active_operations sample_operations = []"
    by (simp_all add: attempts_bounded_def active_operations_def sample_tables)
  with claim_respects_bounds [OF c sample_operations_inv] c show ?thesis by auto
qed

lemma claim_keeps_apply_exclusive_witness:
  "\<exists>r db'. claim 5 ''w1'' 2 ''e9'' sample_operations = Inr (r, db') \<and> apply_exclusive db'"
proof -
  obtain r db' where c: "claim 5 ''w1'' 2 ''e9'' sample_operations = Inr (Some r, db')" using sample_claim by blast
  have "apply_exclusive sample_operations" by (simp add: apply_exclusive_def active_operations_def sample_tables)
  from claim_keeps_apply_exclusive [OF c sample_operations_inv this] c show ?thesis by blast
qed

text \<open>The task \<open>t3\<close> has a later turn in the conversation of \<open>t2\<close>.\<close>

definition sample_turns :: ledger where
  "sample_turns = add_turn (sample_turn\<lparr>tn_task_id := ''t3'', tn_sequence := 2\<rparr>) sample_operations"

lemma sample_turns_inv: "ledger_inv sample_turns"
proof -
  have "sound sample_operations sample_turns"
    unfolding sample_turns_def by (intro sound_intros) (simp_all add: clash_def turn_unique_def row_defs keys_def sample_defs)
  then show ?thesis using sample_operations_inv by (rule soundD)
qed

lemma claim_follows_conversation_witness:
  "\<exists>r db'. claim 5 ''w1'' 2 ''e9'' sample_turns = Inr (Some r, db') \<and> cr_task_id r = ''t2'' \<and> tk_status sample_task3 \<noteq> ''running''"
proof -
  have tables: "task_operations sample_turns = task_operations sample_operations" "agent_tasks sample_turns = agent_tasks sample_operations"
    "task_claims sample_turns = []" "executions sample_turns = executions sample_operations" "keys sample_turns = keys sample_operations"
    "conversation_turns sample_turns = [sample_turn, sample_turn\<lparr>tn_task_id := ''t3'', tn_sequence := 2\<rparr>]"
    by (simp_all add: sample_turns_def sample_tables) (simp_all add: add_turn_def sample_tables)
  have "\<not> has_earlier_work_conn sample_turns ''t2''"
    by (simp add: has_earlier_work_conn_def tables sample_tables)
  from sample_pick [OF tables(1-3) this, of 5 "''e9''"] sample_take [OF tables(5,3) tables(4) [unfolded sample_tables(2)], of "spec_of sample_spec"]
  obtain r db' where c: "claim 5 ''w1'' 2 ''e9'' sample_turns = Inr (Some r, db')" and r: "cr_task_id r = ''t2''"
    by auto
  have f: "fetch_turn sample_turns (cr_task_id r) = Some sample_turn"
    "fetch_turn sample_turns ''t3'' = Some (sample_turn\<lparr>tn_task_id := ''t3'', tn_sequence := 2\<rparr>)"
    "''t3'' \<noteq> cr_task_id r" "tn_session_id (sample_turn\<lparr>tn_task_id := ''t3'', tn_sequence := 2\<rparr>) = tn_session_id sample_turn"
    "tn_generation (sample_turn\<lparr>tn_task_id := ''t3'', tn_sequence := 2\<rparr>) = tn_generation sample_turn"
    "fetch_task sample_turns ''t3'' = Some sample_task3" "fetch_operation sample_turns ''t3'' = Some (sample_operation\<lparr>op_task_id := ''t3''\<rparr>)"
    by (simp_all add: fetch_turn_def fetch_task_def fetch_operation_def tables sample_tables r)
  from claim_follows_conversation [OF c sample_turns_inv f] c r show ?thesis by blast
qed

lemma claim_confers_ownership_witness:
  "\<exists>r db' q. claim 5 ''w1'' 2 ''e9'' sample_operations = Inr (Some r, db') \<and>
     require_execution_ownership 6 db' (Some r) (cr_owner r) = Inr q"
proof -
  obtain r db' where c: "claim 5 ''w1'' 2 ''e9'' sample_operations = Inr (Some r, db')" and r: "cr_task_id r = ''t2''"
    using sample_claim by blast
  have w: "fetch_worker sample_operations ''w1'' = Some sample_worker" "\<not> wk_closed sample_worker"
    "6 - seconds 30 < wk_heartbeat_at sample_worker" "6 < 5 + seconds 30"
    by (simp_all add: fetch_worker_def sample_tables seconds_def)
  from claim_confers_ownership [OF c sample_operations_inv w] c r show ?thesis by auto
qed

lemma recovery_is_complete_witness:
  "\<exists>db'. recover (seconds 31) sample_operations = Inr (1, db') \<and> recovered (seconds 31) sample_task2 db'"
proof -
  have rows: "filter (recover_due (seconds 31) sample_operations) (agent_tasks sample_operations) = [sample_task2]"
    by (simp add: recover_due_def sample_tables seconds_def)
  obtain db' where c: "recover (seconds 31) sample_operations = Inr (1, db')"
    unfolding recover_def rows by (simp add: recover_task_def Let_def append_event_def event_fk_def sample_tables)
  from recovery_is_complete [OF c] c show ?thesis by (simp add: rows)
qed

end
