(* ===== verification/Op_Delivery.thy ===== *)
theory Op_Delivery
  imports Op_Claims
begin

text \<open>
  Delivery of results: \<open>delivery_state\<close>, \<open>claim_delivery\<close>, \<open>settle_delivery\<close>, \<open>acknowledge_delivery\<close> and
  \<open>delivery_issues\<close> of \<open>src/nyanya_agent/operation_store.py\<close>, with \<open>claim_delivery\<close> and \<open>record_delivery\<close> of
  \<open>src/nyanya_agent/work_queue.py\<close>. A saved result is sent by at most one sender; a send whose outcome is not
  known is held, never repeated.
\<close>

text \<open>\<open>COALESCE(json_extract(t.metadata_json,'$.owner_key'),t.requested_by)=owner\<close>\<close>

definition owner_is :: "task_row \<Rightarrow> string \<Rightarrow> bool" where
  "owner_is k owner \<longleftrightarrow> coalesce_is (tk_metadata k) ''owner_key'' (tk_requested_by k) owner"

definition current_result :: "ledger \<Rightarrow> task_row \<Rightarrow> result_row option" where
  "current_result db k = (case tk_current_execution_id k of None \<Rightarrow> None | Some x \<Rightarrow> fetch_result db x)"

record delivery_view =
  dv_status :: string
  dv_current_execution_id :: "string option"
  dv_attempts :: int
  dv_result :: "result_row option"
  dv_request_source :: "string option"
  dv_request_channel_id :: "string option"

text \<open>The request that a task answers: its own, or that of the parent of its operation.\<close>

definition origin_request_id :: "ledger \<Rightarrow> task_row \<Rightarrow> string option" where
  "origin_request_id db k =
     (case tk_source_request_id k of
        Some r \<Rightarrow> Some r
      | None \<Rightarrow> (case fetch_operation db (tk_id k) of
            None \<Rightarrow> None
          | Some q \<Rightarrow> (case op_parent_task_id q of
                None \<Rightarrow> None
              | Some p \<Rightarrow> (case fetch_task db p of None \<Rightarrow> None | Some parent \<Rightarrow> tk_source_request_id parent))))"

definition fetch_request :: "ledger \<Rightarrow> string option \<Rightarrow> request_row option" where
  "fetch_request db i = (case i of None \<Rightarrow> None | Some r \<Rightarrow> List.find (\<lambda>q. rq_id q = r) (agent_requests db))"

definition delivery_state :: "ledger \<Rightarrow> string \<Rightarrow> string \<Rightarrow> delivery_view option" where
  "delivery_state db task_id owner =
     (case (List.find (\<lambda>k. tk_id k = task_id \<and> tk_requested_by k = owner) (agent_tasks db), fetch_operation db task_id) of
        (Some k, Some q) \<Rightarrow>
          (let request = fetch_request db (origin_request_id db k) in
           Some \<lparr>dv_status = tk_status k, dv_current_execution_id = tk_current_execution_id k, dv_attempts = op_attempts q,
             dv_result = current_result db k, dv_request_source = map_option rq_source request,
             dv_request_channel_id = map_option rq_channel_id request\<rparr>)
      | _ \<Rightarrow> None)"

text \<open>Outcome of the result and status of the task belong together.\<close>

definition outcome_matches :: "string \<Rightarrow> string \<Rightarrow> bool" where
  "outcome_matches outcome status \<longleftrightarrow>
     (outcome = ''succeeded'' \<and> status = ''completed'') \<or>
     (outcome \<in> {''failed'', ''timed_out''} \<and> status = ''failed'') \<or>
     (outcome = ''awaiting_approval'' \<and> status = ''awaiting_approval'') \<or>
     (outcome = ''cancelled'' \<and> status = ''cancelled'') \<or>
     (outcome = ''blocked'' \<and> status = ''blocked'')"

definition send_results :: "time \<Rightarrow> (result_row \<Rightarrow> bool) \<Rightarrow> ledger \<Rightarrow> bool \<times> ledger" where
  "send_results t P db =
     (hits P (task_results db) = 1,
      update_result P (\<lambda>r. r\<lparr>rt_delivery_status := ''sending'', rt_updated_at := t\<rparr>) db)"

definition claim_delivery :: "time \<Rightarrow> string \<Rightarrow> string \<Rightarrow> string \<Rightarrow> int \<Rightarrow> ledger \<Rightarrow> bool \<times> ledger" where
  "claim_delivery t task_id owner execution_id attempt db =
     send_results t (\<lambda>r. rt_execution_id r = execution_id \<and> rt_delivery_status r = ''pending'' \<and>
       list_ex (\<lambda>k. tk_id k = task_id \<and> tk_requested_by k = owner \<and> tk_current_execution_id k = Some execution_id \<and>
         list_ex (\<lambda>q. op_task_id q = tk_id k \<and> op_attempts q = attempt) (task_operations db) \<and>
         outcome_matches (rt_outcome r) (tk_status k)) (agent_tasks db)) db"

definition queue_claim_delivery :: "time \<Rightarrow> string \<Rightarrow> string \<Rightarrow> string \<Rightarrow> ledger \<Rightarrow> bool \<times> ledger" where
  "queue_claim_delivery t task_id owner execution_id db =
     send_results t (\<lambda>r. rt_execution_id r = execution_id \<and> rt_delivery_status r = ''pending'' \<and>
       list_ex (\<lambda>k. tk_id k = task_id \<and> tk_current_execution_id k = Some execution_id \<and> owner_is k owner) (agent_tasks db)) db"

text \<open>\<open>settle_delivery\<close> and \<open>record_delivery\<close> are the same statement.\<close>

definition settle_delivery :: "time \<Rightarrow> string \<Rightarrow> bool \<Rightarrow> string \<Rightarrow> ledger \<Rightarrow> ledger" where
  "settle_delivery t execution_id delivered error db =
     update_result (\<lambda>r. rt_execution_id r = execution_id \<and> rt_delivery_status r = ''sending'')
       (\<lambda>r. r\<lparr>rt_delivery_status := (if delivered then ''delivered'' else ''uncertain''), rt_delivery_error := error,
              rt_updated_at := t\<rparr>) db"

definition record_delivery :: "time \<Rightarrow> string \<Rightarrow> bool \<Rightarrow> string \<Rightarrow> ledger \<Rightarrow> ledger" where
  "record_delivery t execution_id delivered error db = settle_delivery t execution_id delivered error db"

definition delivery_issues :: "ledger \<Rightarrow> string \<Rightarrow> (task_row \<times> string) list" where
  "delivery_issues db owner =
     concat (map (\<lambda>k. case current_result db k of
         None \<Rightarrow> []
       | Some r \<Rightarrow> if owner_is k owner \<and> rt_delivery_status r \<in> {''sending'', ''uncertain''}
           then [(k, rt_delivery_status r)] else []) (order_by tk_created_at (agent_tasks db)))"

definition acknowledge_delivery :: "time \<Rightarrow> string \<Rightarrow> string \<Rightarrow> ledger \<Rightarrow> (string \<times> ledger) result" where
  "acknowledge_delivery t task_id owner db =
     (case List.find (\<lambda>k. tk_id k = task_id \<and> tk_requested_by k = owner) (agent_tasks db) of
        None \<Rightarrow> Inl (PermissionError ''Task owner mismatch'')
      | Some k \<Rightarrow>
          (case current_result db k of
             None \<Rightarrow> Inl (SafeOperationError ''Current result has no ambiguous delivery to acknowledge'')
           | Some r \<Rightarrow>
               if rt_delivery_status r = ''acknowledged'' then Inr (''acknowledged'', db)
               else if rt_delivery_status r \<notin> {''sending'', ''uncertain''}
               then Inl (SafeOperationError ''Current result has no ambiguous delivery to acknowledge'')
               else
                 try_bind (append_event t ''workflow.delivery_acknowledged'' (Some task_id) (tk_current_execution_id k) ''acknowledged''
                   ''Owner suppressed ambiguous delivery reminder without confirming receipt''
                   [(''previous_delivery_status'', JStr (rt_delivery_status r))]
                   (update_result (\<lambda>x. rt_execution_id x = rt_execution_id r \<and> rt_delivery_status x \<in> {''sending'', ''uncertain''})
                     (\<lambda>x. x\<lparr>rt_delivery_status := ''acknowledged'', rt_updated_at := t\<rparr>) db))
                   (\<lambda>db1. Inr (''acknowledged'', db1))))"

section \<open>Soundness\<close>

lemma send_results_sound: "send_results t P db = (b, db') \<Longrightarrow> sound db0 db \<Longrightarrow> sound db0 db'"
  by (auto simp: send_results_def row_defs intro!: sound_intros)

lemma settle_delivery_sound: "sound db0 db \<Longrightarrow> sound db0 (settle_delivery t x d e db)"
  by (auto simp: settle_delivery_def row_defs intro!: sound_intros)

lemma acknowledge_delivery_sound: "acknowledge_delivery t k ow db = Inr (s, db') \<Longrightarrow> sound db0 db \<Longrightarrow> sound db0 db'"
  by (auto simp: acknowledge_delivery_def row_defs split: option.splits if_splits intro!: sound_intros)

section \<open>The life of a delivery\<close>

definition delivery_of :: "ledger \<Rightarrow> string \<Rightarrow> string option" where
  "delivery_of db x = map_option rt_delivery_status (fetch_result db x)"

definition delivery_allowed :: "string \<Rightarrow> string \<Rightarrow> bool" where
  "delivery_allowed a b \<longleftrightarrow> (a, b) \<in> {(''pending'', ''sending''), (''sending'', ''delivered''), (''sending'', ''uncertain''),
     (''sending'', ''acknowledged''), (''uncertain'', ''acknowledged'')}"

text \<open>Steps of senders and owners; in between, the rest of the system may do anything that keeps the ledger sound
  and leaves the delivery of saved results alone.\<close>

inductive delivery_step :: "ledger \<Rightarrow> ledger \<Rightarrow> bool" where
  claim: "claim_delivery t k ow x n db = (b, db') \<Longrightarrow> delivery_step db db'"
| queue_claim: "queue_claim_delivery t k ow x db = (b, db') \<Longrightarrow> delivery_step db db'"
| settle: "delivery_step db (settle_delivery t x d e db)"
| record_sent: "delivery_step db (record_delivery t x d e db)"
| acknowledge: "acknowledge_delivery t k ow db = Inr (s, db') \<Longrightarrow> delivery_step db db'"
| other: "sound db db' \<Longrightarrow> (\<And>x s. delivery_of db x = Some s \<Longrightarrow> delivery_of db' x = Some s) \<Longrightarrow> delivery_step db db'"

lemma delivery_step_sound: "delivery_step db db' \<Longrightarrow> sound db db'"
  by (induction rule: delivery_step.induct)
     (auto simp: claim_delivery_def queue_claim_delivery_def record_delivery_def
       elim!: send_results_sound acknowledge_delivery_sound intro: settle_delivery_sound)

lemma delivery_of_update:
  assumes "\<And>r. rt_execution_id (f r) = rt_execution_id r" "delivery_of db x = Some a"
    and "\<And>r. P r \<Longrightarrow> rt_delivery_status r = a \<Longrightarrow> delivery_allowed a (rt_delivery_status (f r))"
  shows "\<exists>b. delivery_of (update_result P f db) x = Some b \<and> (a = b \<or> delivery_allowed a b)"
proof -
  from assms(2) obtain r where r: "fetch_result db x = Some r" "rt_delivery_status r = a" by (auto simp: delivery_of_def)
  then have "fetch_result (update_result P f db) x = Some (if P r then f r else r)"
    using assms(1) by (simp add: fetch_result_def update_result_def find_key_upd)
  then show ?thesis using r assms(3) by (cases "P r") (auto simp: delivery_of_def)
qed

lemma delivery_of_send:
  assumes "send_results t P db = (c, db')" "\<And>r. P r \<Longrightarrow> rt_delivery_status r = ''pending''" "delivery_of db x = Some a"
  shows "\<exists>b. delivery_of db' x = Some b \<and> (a = b \<or> delivery_allowed a b)"
proof -
  have "\<exists>b. delivery_of (update_result P (\<lambda>r. r\<lparr>rt_delivery_status := ''sending'', rt_updated_at := t\<rparr>) db) x = Some b \<and>
      (a = b \<or> delivery_allowed a b)"
    by (intro delivery_of_update assms(3)) (use assms(2) in \<open>auto simp: delivery_allowed_def\<close>)
  with assms(1) show ?thesis by (simp add: send_results_def)
qed

lemma delivery_of_event [simp]: "delivery_of (add_event e db) x = delivery_of db x"
  by (simp add: delivery_of_def fetch_result_def add_event_def)

lemma delivery_step_status:
  "delivery_step db db' \<Longrightarrow> delivery_of db x = Some a \<Longrightarrow> \<exists>b. delivery_of db' x = Some b \<and> (a = b \<or> delivery_allowed a b)"
proof (induction rule: delivery_step.induct)
  case (claim t k ow y n db b db')
  then show ?case unfolding claim_delivery_def by (elim delivery_of_send) auto
next
  case (queue_claim t k ow y db b db')
  then show ?case unfolding queue_claim_delivery_def by (elim delivery_of_send) auto
next
  case (settle db t y d e)
  then show ?case
    unfolding settle_delivery_def by (intro delivery_of_update) (auto simp: delivery_allowed_def)
next
  case (record_sent db t y d e)
  then show ?case
    unfolding record_delivery_def settle_delivery_def by (intro delivery_of_update) (auto simp: delivery_allowed_def)
next
  case (acknowledge t k ow db s db')
  have "\<exists>b. delivery_of (update_result (\<lambda>y. rt_execution_id y = z \<and> rt_delivery_status y \<in> {''sending'', ''uncertain''})
      (\<lambda>y. y\<lparr>rt_delivery_status := ''acknowledged'', rt_updated_at := t\<rparr>) db) x = Some b \<and> (a = b \<or> delivery_allowed a b)" for z
    by (intro delivery_of_update acknowledge.prems) (auto simp: delivery_allowed_def)
  with acknowledge show ?case
    by (auto simp: acknowledge_delivery_def split: option.splits if_splits)
qed auto

interpretation deliveries: status_machine delivery_step delivery_of delivery_allowed
  by unfold_locales (rule delivery_step_status)

interpretation delivery_log: recorded_system delivery_step ledger_inv extends_logs
proof unfold_locales
  fix s t assume "delivery_step s t"
  then have "sound s t" by (rule delivery_step_sound)
  then show "ledger_inv s \<Longrightarrow> ledger_inv t" and "extends_logs s t" by (auto simp: sound_def)
qed (auto simp: extends_logs_def)

lemma not_pending_again: "delivery_allowed\<^sup>*\<^sup>* a b \<Longrightarrow> a \<noteq> ''pending'' \<Longrightarrow> b \<noteq> ''pending''"
  by (induction rule: rtranclp_induct) (auto simp: delivery_allowed_def)

text \<open>A claim that succeeds found the result pending and leaves it in the sender's hands.\<close>

lemma claimed_pending:
  assumes "send_results t P db = (True, db')" "\<And>r. P r \<Longrightarrow> rt_execution_id r = x \<and> rt_delivery_status r = ''pending''" "ledger_inv db"
  shows "delivery_of db x = Some ''pending'' \<and> delivery_of db' x = Some ''sending''"
proof -
  from assms(1) have "0 < hits P (task_results db)" by (simp add: send_results_def)
  then obtain r where r: "r \<in> set (task_results db)" "P r" by (auto simp: hits_pos)
  with assms(2,3) have f: "fetch_result db x = Some r" "rt_delivery_status r = ''pending''"
    using find_key_unique [of rt_execution_id "task_results db" r] plan_keys(4) [OF assms(3)] by (auto simp: fetch_result_def)
  with r(2) assms(1) show ?thesis
    by (auto simp: send_results_def delivery_of_def fetch_result_def update_result_def find_key_upd)
qed

lemma settled_delivery:
  assumes "delivery_of db x = Some ''sending''"
  shows "delivery_of (settle_delivery t x d e db) x = Some (if d then ''delivered'' else ''uncertain'')"
proof -
  from assms obtain r where r: "fetch_result db x = Some r" "rt_delivery_status r = ''sending''" by (auto simp: delivery_of_def)
  then have "rt_execution_id r = x" by (auto simp: fetch_result_def dest: find_SomeD)
  with r show ?thesis by (simp add: delivery_of_def settle_delivery_def fetch_result_def update_result_def find_key_upd)
qed


text \<open>A settled delivery stays settled. A result that is recorded as delivered or acknowledged keeps that status in
  every later state.\<close>

theorem settled_delivery_is_final:
  assumes "delivery_step\<^sup>*\<^sup>* db db'" "delivery_of db x = Some a" "a \<in> {''delivered'', ''acknowledged''}"
  shows "delivery_of db' x = Some a"
  by (rule deliveries.final_status [OF assms(1,2)]) (use assms(3) in \<open>auto simp: delivery_allowed_def\<close>)

section \<open>Witnesses\<close>

text \<open>The task \<open>t2\<close> has completed as execution \<open>e2\<close>, its result is saved.\<close>

definition sample_result :: result_row where
  "sample_result = \<lparr>rt_execution_id = ''e2'', rt_task_id = ''t2'', rt_outcome = ''succeeded'', rt_response = ''ok'',
     rt_delivery_status = ''pending'', rt_delivery_error = [], rt_created_at = 3, rt_updated_at = 3\<rparr>"

definition sample_finished :: ledger where
  "sample_finished = sample_operations\<lparr>
     agent_tasks := [sample_task, sample_task2\<lparr>tk_status := ''completed'', tk_current_execution_id := Some ''e2''\<rparr>, sample_task3],
     task_operations := [sample_operation\<lparr>op_attempts := 1\<rparr>, sample_operation\<lparr>op_task_id := ''t3''\<rparr>],
     executions := [sample_execution, sample_execution\<lparr>ex_id := ''e2'', ex_task_id := ''t2'', ex_status := ''succeeded''\<rparr>],
     task_results := [sample_result]\<rparr>"

lemma sample_finished_inv: "ledger_inv sample_finished"
  by (simp add: ledger_inv_def inv_at_def table_inv_def unique_on_def keys_def sample_finished_def sample_result_def sample_defs row_defs
      List.map_filter_def host_unique_def project_unique_def task_unique_def turn_unique_def
      conversation_unique_def not_secret_approval_keys not_secret_owner_key)

lemma sample_finished_tables:
  "agent_tasks sample_finished = [sample_task, sample_task2\<lparr>tk_status := ''completed'', tk_current_execution_id := Some ''e2''\<rparr>, sample_task3]"
  "task_operations sample_finished = [sample_operation\<lparr>op_attempts := 1\<rparr>, sample_operation\<lparr>op_task_id := ''t3''\<rparr>]"
  "task_results sample_finished = [sample_result]"
  by (simp_all add: sample_finished_def)

lemma sample_delivery: "\<exists>db1. claim_delivery 5 ''t2'' ''u1'' ''e2'' 1 sample_finished = (True, db1)"
  by (simp add: claim_delivery_def send_results_def sample_finished_tables outcome_matches_def sample_result_def)


lemma settled_delivery_is_final_witness:
  "\<exists>db1. delivery_of (settle_delivery 6 ''e2'' True [] db1) ''e2'' = Some ''delivered'' \<and>
     delivery_of (settle_delivery 7 ''e2'' False [] (settle_delivery 6 ''e2'' True [] db1)) ''e2'' = Some ''delivered''"
proof -
  obtain db1 where c: "claim_delivery 5 ''t2'' ''u1'' ''e2'' 1 sample_finished = (True, db1)" using sample_delivery by blast
  have "delivery_of db1 ''e2'' = Some ''sending''"
    by (rule claimed_pending [OF c [unfolded claim_delivery_def] _ sample_finished_inv, THEN conjunct2]) simp
  then have d: "delivery_of (settle_delivery 6 ''e2'' True [] db1) ''e2'' = Some ''delivered''"
    by (simp add: settled_delivery)
  have "delivery_step\<^sup>*\<^sup>* (settle_delivery 6 ''e2'' True [] db1) (settle_delivery 7 ''e2'' False [] (settle_delivery 6 ''e2'' True [] db1))"
    by (blast intro: delivery_step.settle)
  from settled_delivery_is_final [OF this d] d show ?thesis by auto
qed

end
