(* ===== verification/Control_Texts.thy ===== *)
theory Control_Texts
  imports Texts
begin

text \<open>
  The messages of task lists, reminders and explanations that are not ASCII, byte for byte. Each is preceded by
  its meaning.
\<close>

text \<open>no unfinished work to check now\<close>

definition NOTHING_OPEN :: string where
  "NOTHING_OPEN = utf8 [237, 152, 132, 236, 158, 172, 32, 237, 153, 149, 236, 157, 184, 237, 149,
     160, 32, 235, 175, 184, 236, 153, 132, 235, 163, 140, 32, 236, 158, 145, 236, 151, 133, 236,
     157, 180, 32, 236, 151, 134, 236, 138, 181, 235, 139, 136, 235, 139, 164, 46]"

text \<open>work to check now:\<close>

definition OPEN_WORK :: string where
  "OPEN_WORK = utf8 [237, 152, 132, 236, 158, 172, 32, 237, 153, 149, 236, 157, 184, 237, 149, 160,
     32, 236, 158, 145, 236, 151, 133, 58, 10]"

text \<open>delivery must be checked\<close>

definition DELIVERY_MARK :: string where
  "DELIVERY_MARK = utf8 [44, 32, 234, 178, 176, 234, 179, 188, 32, 236, 160, 132, 235, 139, 172, 32,
     237, 153, 149, 236, 157, 184, 32, 237, 149, 132, 236, 154, 148]"

text \<open>ack-delivery only ends the delivery notice; nothing is sent again or cancelled\<close>

definition ACK_NOTE :: string where
  "ACK_NOTE = utf8 [10] @ ''ack-delivery '' @ utf8 [236, 158, 145, 236, 151, 133, 73, 68, 235, 138,
     148, 32, 234, 178, 176, 234, 179, 188, 32, 236, 160, 132, 235, 139, 172, 32, 237, 153, 149,
     236, 157, 184, 32, 236, 149, 140, 235, 166, 188, 235, 167, 140, 32, 236, 162, 133, 235, 163,
     140, 237, 149, 169, 235, 139, 136, 235, 139, 164, 46, 32, 236, 158, 172, 236, 160, 132, 236,
     134, 161, 237, 149, 152, 234, 177, 176, 235, 130, 152, 32, 236, 139, 164, 237, 150, 137, 236,
     157, 132, 32, 236, 183, 168, 236, 134, 140, 237, 149, 152, 236, 167, 128, 32, 236, 149, 138,
     236, 138, 181, 235, 139, 136, 235, 139, 164, 46]"

text \<open>there are\<close>

definition REMINDER_HEAD :: string where
  "REMINDER_HEAD = utf8 [10, 10, 235, 175, 184, 236, 153, 132, 235, 163, 140, 32, 236, 158, 145,
     236, 151, 133, 236, 157, 180, 32]"

text \<open>unfinished tasks\<close>

definition REMINDER_COUNT :: string where
  "REMINDER_COUNT = utf8 [234, 176, 156, 32, 235, 130, 168, 236, 149, 132, 32, 236, 158, 136, 236,
     138, 181, 235, 139, 136, 235, 139, 164, 46, 10]"

text \<open>why shows the request and the reason of the stop\<close>

definition REMINDER_WHY :: string where
  "REMINDER_WHY = utf8 [10] @ ''why '' @ utf8 [236, 158, 145, 236, 151, 133, 73, 68, 235, 161, 156,
     32, 236, 154, 148, 236, 178, 173, 32, 235, 130, 180, 236, 154, 169, 234, 179, 188, 32, 236,
     164, 145, 235, 139, 168, 32, 234, 183, 188, 234, 177, 176, 235, 165, 188, 32, 237, 153, 149,
     236, 157, 184, 237, 149, 160, 32, 236, 136, 152, 32, 236, 158, 136, 236, 138, 181, 235, 139,
     136, 235, 139, 164, 46]"

text \<open>delivery is not confirmed; not sent again by itself\<close>

definition DELIVERY_UNSURE :: string where
  "DELIVERY_UNSURE = utf8 [32, 40, 236, 160, 132, 235, 139, 172, 32, 236, 151, 172, 235, 182, 128,
     32, 237, 153, 149, 236, 157, 184, 32, 237, 149, 132, 236, 154, 148, 59, 32, 236, 158, 144, 235,
     143, 153, 32, 236, 158, 172, 236, 160, 132, 236, 134, 161, 237, 149, 152, 236, 167, 128, 32,
     236, 149, 138, 236, 157, 140, 41]"

text \<open>only the notice has ended; delivery is not confirmed\<close>

definition DELIVERY_ACKED :: string where
  "DELIVERY_ACKED = utf8 [32, 40, 236, 149, 140, 235, 166, 188, 235, 167, 140, 32, 236, 162, 133,
     235, 163, 140, 59, 32, 236, 160, 132, 235, 139, 172, 32, 236, 132, 177, 234, 179, 181, 236,
     156, 188, 235, 161, 156, 32, 237, 153, 149, 236, 157, 184, 237, 149, 156, 32, 234, 178, 131,
     236, 157, 128, 32, 236, 149, 132, 235, 139, 152, 41]"

text \<open>task\<close>

definition EXPLAIN_TASK :: string where
  "EXPLAIN_TASK = utf8 [236, 158, 145, 236, 151, 133, 58, 32]"

text \<open>original request\<close>

definition EXPLAIN_REQUEST :: string where
  "EXPLAIN_REQUEST = utf8 [10, 236, 155, 144, 235, 158, 152, 32, 236, 154, 148, 236, 178, 173, 58,
     32]"

text \<open>status\<close>

definition EXPLAIN_STATUS :: string where
  "EXPLAIN_STATUS = utf8 [10, 236, 131, 129, 237, 131, 156, 58, 32]"

text \<open>delivery of the result\<close>

definition EXPLAIN_DELIVERY :: string where
  "EXPLAIN_DELIVERY = utf8 [10, 234, 178, 176, 234, 179, 188, 32, 236, 160, 132, 235, 139, 172, 58,
     32]"

text \<open>decision of the user\<close>

definition EXPLAIN_DECISION :: string where
  "EXPLAIN_DECISION = utf8 [10, 236, 130, 172, 236, 154, 169, 236, 158, 144, 32, 234, 178, 176, 236,
     160, 149, 58, 32]"

text \<open>reason\<close>

definition EXPLAIN_REASON :: string where
  "EXPLAIN_REASON = utf8 [10, 234, 183, 188, 234, 177, 176, 58, 32]"

text \<open>attempts\<close>

definition EXPLAIN_ATTEMPTS :: string where
  "EXPLAIN_ATTEMPTS = utf8 [10, 236, 139, 156, 235, 143, 132, 32, 236, 136, 152, 58, 32]"

end
