(* ===== verification/Op_Views.thy ===== *)
theory Op_Views
  imports Op_Delivery Control_Texts
begin

text \<open>
  What the owner is shown: \<open>incomplete\<close>, \<open>list_text\<close>, \<open>explain\<close>, \<open>reminder\<close> and \<open>recovery_inventory\<close> of
  \<open>src/nyanya_agent/operation_store.py\<close>. The \<open>LEFT JOIN\<close>s are options. Reasons and dispositions are read as texts,
  the only type the code writes for them. A task that stops making progress never disappears from these lists.
\<close>

definition legacy_hold_reason :: "task_row \<Rightarrow> string option" where
  "legacy_hold_reason k =
     (case map_of (tk_metadata k) ''legacy_upgrade_hold'' of Some (JObj d) \<Rightarrow> extract_text d ''reason'' | _ \<Rightarrow> None)"

definition attempt_count :: "ledger \<Rightarrow> task_row \<Rightarrow> int" where
  "attempt_count db k =
     (case fetch_operation db (tk_id k) of
        None \<Rightarrow> int (hits (\<lambda>e. ex_task_id e = tk_id k) (executions db)) | Some q \<Rightarrow> op_attempts q)"

definition delivery_status_of :: "ledger \<Rightarrow> task_row \<Rightarrow> string option" where
  "delivery_status_of db k = map_option rt_delivery_status (current_result db k)"

definition unsure_delivery :: "string option \<Rightarrow> bool" where
  "unsure_delivery s \<longleftrightarrow> s = Some ''sending'' \<or> s = Some ''uncertain''"

record open_view =
  ov_id :: string
  ov_title :: string
  ov_prompt :: string
  ov_status :: string
  ov_hold_reason :: "string option"
  ov_diagnosis :: "string option"
  ov_user_disposition :: "string option"
  ov_attempts :: int
  ov_assessment :: "dict option"
  ov_delivery_status :: "string option"

definition open_view_of :: "ledger \<Rightarrow> task_row \<Rightarrow> open_view" where
  "open_view_of db k =
     (let q = fetch_operation db (tk_id k) in
      \<lparr>ov_id = tk_id k, ov_title = tk_title k, ov_prompt = tk_prompt k, ov_status = tk_status k,
       ov_hold_reason = map_option op_hold_reason q,
       ov_diagnosis = (case q of None \<Rightarrow> legacy_hold_reason k | Some q \<Rightarrow> Some (op_diagnosis q)),
       ov_user_disposition = extract_text (tk_metadata k) ''user_disposition'',
       ov_attempts = attempt_count db k, ov_assessment = map_option op_assessment q,
       ov_delivery_status = delivery_status_of db k\<rparr>)"

definition dismissed :: "task_row \<Rightarrow> bool" where
  "dismissed k \<longleftrightarrow> extract_text (tk_metadata k) ''user_disposition'' = Some ''dismissed''"

definition exclude_text :: "string option \<Rightarrow> string" where
  "exclude_text e = (case e of None \<Rightarrow> [] | Some x \<Rightarrow> x)"

definition incomplete_rows :: "ledger \<Rightarrow> string \<Rightarrow> string option \<Rightarrow> task_row list" where
  "incomplete_rows db owner exclude =
     order_by tk_created_at (filter (\<lambda>k. owner_is k owner \<and> tk_status k \<notin> {''completed'', ''cancelled''} \<and>
       (tk_status k \<noteq> ''failed'' \<or> \<not> dismissed k) \<and> tk_id k \<noteq> exclude_text exclude) (agent_tasks db))"

definition incomplete :: "ledger \<Rightarrow> string \<Rightarrow> string option \<Rightarrow> open_view list" where
  "incomplete db owner exclude = map (open_view_of db) (incomplete_rows db owner exclude)"

definition list_line :: "open_view \<Rightarrow> string" where
  "list_line r = ''- '' @ ov_id r @ '': '' @ take_cp 60 (ov_title r) @ '' ('' @ ov_status r @
     (if unsure_delivery (ov_delivery_status r) then DELIVERY_MARK else []) @ '')''"

definition list_text :: "ledger \<Rightarrow> string \<Rightarrow> string" where
  "list_text db owner =
     (let rows = incomplete db owner None;
          issues = filter (\<lambda>(k, s). tk_id k \<notin> set (map ov_id rows)) (delivery_issues db owner)
      in if rows = [] \<and> issues = [] then NOTHING_OPEN
         else OPEN_WORK @ join_with ''\<newline>'' (map list_line rows @
             map (\<lambda>(k, s). ''- '' @ tk_id k @ '': '' @ take_cp 60 (tk_title k) @ '' ('' @ tk_status k @ DELIVERY_MARK @ '')'') issues) @
           (if list_ex (\<lambda>r. unsure_delivery (ov_delivery_status r)) rows \<or> list_ex (\<lambda>(k, s). unsure_delivery (Some s)) issues
            then ACK_NOTE else []))"

definition reminder :: "ledger \<Rightarrow> string \<Rightarrow> string option \<Rightarrow> string option \<Rightarrow> string" where
  "reminder db owner exclude completed_parent =
     (let rows = filter (\<lambda>r. Some (ov_id r) \<noteq> completed_parent) (incomplete db owner exclude)
      in if rows = [] then []
         else REMINDER_HEAD @ show_int (int (length rows)) @ REMINDER_COUNT @
           join_with ''\<newline>'' (map (\<lambda>r. ''- '' @ ov_id r @ '': '' @ take_cp 60 (ov_title r) @ '' ('' @ ov_status r @ '')'') (take 5 rows)) @
           REMINDER_WHY)"

definition status_reason :: "string \<Rightarrow> string" where
  "status_reason s = (if s = ''queued'' then WHY_QUEUED else if s = ''running'' then WHY_RUNNING
     else if s = ''awaiting_approval'' then WHY_AWAITING else WHY_UNKNOWN)"

definition explain :: "ledger \<Rightarrow> string \<Rightarrow> string \<Rightarrow> string result" where
  "explain db task_id owner =
     (case List.find (\<lambda>k. tk_id k = task_id \<and> owner_is k owner) (agent_tasks db) of
        None \<Rightarrow> Inl (PermissionError TASK_NOT_FOUND)
      | Some k \<Rightarrow>
          (let diagnosis = (case fetch_operation db task_id of None \<Rightarrow> [] | Some q \<Rightarrow> op_diagnosis q);
               known = (if diagnosis \<noteq> [] then diagnosis else (case legacy_hold_reason k of None \<Rightarrow> [] | Some r \<Rightarrow> r));
               reason = (if known \<noteq> [] then known else status_reason (tk_status k));
               disposition = (case extract_text (tk_metadata k) ''user_disposition'' of None \<Rightarrow> ''open'' | Some s \<Rightarrow> s);
               saved = (case delivery_status_of db k of None \<Rightarrow> [] | Some s \<Rightarrow> s);
               delivery = (if saved = [] then ''no_saved_result''
                 else if unsure_delivery (Some saved) then saved @ DELIVERY_UNSURE
                 else if saved = ''acknowledged'' then saved @ DELIVERY_ACKED else saved)
           in Inr (EXPLAIN_TASK @ tk_id k @ EXPLAIN_REQUEST @ tk_prompt k @ EXPLAIN_STATUS @ tk_status k @
               EXPLAIN_DELIVERY @ delivery @ EXPLAIN_DECISION @ disposition @ EXPLAIN_REASON @ reason @
               EXPLAIN_ATTEMPTS @ show_int (attempt_count db k))))"

section \<open>The recovery inventory\<close>

text \<open>The claim that the query joins: of this task, for its current execution and under the key of its owner.\<close>

definition joined_claim :: "ledger \<Rightarrow> task_row \<Rightarrow> claim_row option" where
  "joined_claim db k =
     List.find (\<lambda>c. cl_task_id c = tk_id k \<and> Some (cl_execution_id c) = tk_current_execution_id k \<and> owner_is k (cl_owner_key c))
       (task_claims db)"

definition healthy_queue :: "time \<Rightarrow> ledger \<Rightarrow> task_row \<Rightarrow> bool" where
  "healthy_queue t db k =
     (case fetch_operation db (tk_id k) of
        None \<Rightarrow> False
      | Some q \<Rightarrow> op_eligible q \<and> op_attempts q < op_max_attempts q \<and> op_hold_reason q = [] \<and>
          (case fetch_worker db (op_worker_generation q) of
             None \<Rightarrow> False | Some w \<Rightarrow> \<not> wk_closed w \<and> wk_heartbeat_at w > t - seconds 30) \<and>
          (case joined_claim db k of None \<Rightarrow> True | Some c \<Rightarrow> cl_released c))"

definition live_claim :: "time \<Rightarrow> ledger \<Rightarrow> task_row \<Rightarrow> bool" where
  "live_claim t db k =
     (case joined_claim db k of
        None \<Rightarrow> False
      | Some c \<Rightarrow> \<not> cl_released c \<and> cl_expires_at c > t \<and>
          list_ex (\<lambda>e. ex_id e = cl_execution_id c \<and> ex_task_id e = tk_id k \<and> ex_status e \<in> {''running'', ''cancelling''})
            (executions db) \<and>
          (case fetch_operation db (tk_id k) of
             None \<Rightarrow> True
           | Some q \<Rightarrow> op_eligible q \<and> op_hold_reason q = [] \<and> cl_worker_id c = op_worker_generation q \<and>
               (case fetch_worker db (op_worker_generation q) of
                  None \<Rightarrow> False | Some w \<Rightarrow> \<not> wk_closed w \<and> wk_heartbeat_at w > t - seconds 30)))"

text \<open>A queued task that a live worker will take, a running task that a live worker holds and a failure that the
  owner dismissed need no attention.\<close>

definition quiet :: "time \<Rightarrow> ledger \<Rightarrow> task_row \<Rightarrow> bool" where
  "quiet t db k \<longleftrightarrow> \<not> unsure_delivery (delivery_status_of db k) \<and>
     (tk_status k = ''queued'' \<and> healthy_queue t db k \<or>
      tk_status k \<in> {''running'', ''cancelling''} \<and> live_claim t db k \<or>
      tk_status k = ''failed'' \<and> dismissed k)"

record inventory_item =
  iv_task :: task_row
  iv_delivery_request_id :: "string option"
  iv_delivery_status :: "string option"
  iv_hold_reason :: "string option"
  iv_request_source :: "string option"
  iv_request_channel_id :: "string option"
  iv_diagnosis :: "string option"
  iv_attempts :: int
  iv_assessment :: "dict option"

definition inventory_item_of :: "ledger \<Rightarrow> task_row \<Rightarrow> inventory_item" where
  "inventory_item_of db k =
     (let q = fetch_operation db (tk_id k); request = fetch_request db (origin_request_id db k) in
      \<lparr>iv_task = k, iv_delivery_request_id = origin_request_id db k, iv_delivery_status = delivery_status_of db k,
       iv_hold_reason = map_option op_hold_reason q, iv_request_source = map_option rq_source request,
       iv_request_channel_id = map_option rq_channel_id request,
       iv_diagnosis = (case q of None \<Rightarrow> legacy_hold_reason k | Some q \<Rightarrow> Some (op_diagnosis q)),
       iv_attempts = attempt_count db k, iv_assessment = map_option op_assessment q\<rparr>)"

definition recovery_inventory :: "time \<Rightarrow> ledger \<Rightarrow> string option \<Rightarrow> string option \<Rightarrow> inventory_item list" where
  "recovery_inventory t db owner exclude =
     map (inventory_item_of db) (filter (\<lambda>k. \<not> quiet t db k)
       (order_by tk_created_at (filter (\<lambda>k.
         (tk_status k \<in> {''blocked'', ''failed'', ''awaiting_approval'', ''queued'', ''running'', ''cancelling''} \<or>
          unsure_delivery (delivery_status_of db k)) \<and>
         (case owner of None \<Rightarrow> True | Some x \<Rightarrow> owner_is k x) \<and> tk_id k \<noteq> exclude_text exclude) (agent_tasks db))))"


section \<open>Nothing is stuck in silence\<close>

lemma in_inventory:
  assumes "k \<in> set (agent_tasks db)" "owner_is k owner" "tk_id k \<noteq> []"
    and "tk_status k \<in> {''blocked'', ''failed'', ''awaiting_approval'', ''queued'', ''running'', ''cancelling''} \<or>
      unsure_delivery (delivery_status_of db k)"
    and "\<not> quiet t db k"
  shows "inventory_item_of db k \<in> set (recovery_inventory t db (Some owner) None)"
  using assms by (auto simp: recovery_inventory_def exclude_text_def)

lemma inventory_item_task [simp]: "iv_task (inventory_item_of db k) = k"
  by (simp add: inventory_item_of_def Let_def)

lemma joined_claimD:
  "joined_claim db k = Some c \<Longrightarrow> c \<in> set (task_claims db) \<and> cl_task_id c = tk_id k \<and>
     Some (cl_execution_id c) = tk_current_execution_id k \<and> owner_is k (cl_owner_key c)"
  by (auto simp: joined_claim_def dest: find_SomeD)

text \<open>No work is stuck in silence. A task that has not ended and that the recovery inventory of its owner does not
  name is in good hands: it is queued and a live worker may take it, or it runs under an unexpired claim of an
  execution that runs, or it is a failure that the owner dismissed.\<close>

theorem unlisted_task_is_in_hand:
  assumes "k \<in> set (agent_tasks db)" "owner_is k owner" "tk_id k \<noteq> []"
    and "tk_status k \<in> {''blocked'', ''failed'', ''awaiting_approval'', ''queued'', ''running'', ''cancelling''}"
    and "list_all (\<lambda>i. iv_task i \<noteq> k) (recovery_inventory t db (Some owner) None)"
  shows "(\<exists>g q. runnable g k q \<and> q \<in> set (task_operations db) \<and> has_queued db g \<and> worker_ready t db g) \<or>
    (\<exists>c e. c \<in> set (task_claims db) \<and> e \<in> set (executions db) \<and> cl_task_id c = tk_id k \<and> \<not> cl_released c \<and> t < cl_expires_at c \<and>
       tk_current_execution_id k = Some (ex_id e) \<and> cl_execution_id c = ex_id e \<and> ex_status e \<in> {''running'', ''cancelling''}) \<or>
    tk_status k = ''failed'' \<and> dismissed k"
proof -
  from in_inventory [OF assms(1-3)] assms(4,5) have "quiet t db k" by (force simp: list_all_iff)
  then consider (queue) "tk_status k = ''queued''" "healthy_queue t db k"
    | (live) "live_claim t db k" | (dismissed) "tk_status k = ''failed''" "dismissed k"
    by (auto simp: quiet_def)
  then show ?thesis
  proof cases
    case queue
    then obtain q w where q: "fetch_operation db (tk_id k) = Some q" "fetch_worker db (op_worker_generation q) = Some w"
      and h: "op_eligible q" "op_attempts q < op_max_attempts q" "\<not> wk_closed w" "wk_heartbeat_at w > t - seconds 30"
      by (auto simp: healthy_queue_def split: option.splits)
    from fetch_operationD [OF q(1)] queue(1) h have r: "runnable (op_worker_generation q) k q" "q \<in> set (task_operations db)"
      by (auto simp: runnable_def)
    moreover have "has_queued db (op_worker_generation q)" using assms(1) r by (auto simp: has_queued_def list_ex_iff)
    moreover have "worker_ready t db (op_worker_generation q)" using q(2) h by (simp add: worker_ready_def)
    ultimately show ?thesis by blast
  next
    case live
    then obtain c e where "joined_claim db k = Some c" "\<not> cl_released c" "t < cl_expires_at c" "e \<in> set (executions db)"
      "ex_id e = cl_execution_id c" "ex_status e \<in> {''running'', ''cancelling''}"
      by (auto simp: live_claim_def list_ex_iff split: option.splits)
    then show ?thesis using joined_claimD [of db k c] by metis
  qed blast
qed

lemma open_work_head: "OPEN_WORK @ s \<noteq> NOTHING_OPEN"
proof
  assume "OPEN_WORK @ s = NOTHING_OPEN"
  then have "take 19 (OPEN_WORK @ s) = take 19 NOTHING_OPEN" by simp
  then show False by (simp add: OPEN_WORK_def NOTHING_OPEN_def utf8_def)
qed

lemma set_incomplete_rows:
  "set (incomplete_rows db owner exclude) = {k \<in> set (agent_tasks db). owner_is k owner \<and>
     tk_status k \<notin> {''completed'', ''cancelled''} \<and> (tk_status k \<noteq> ''failed'' \<or> \<not> dismissed k) \<and> tk_id k \<noteq> exclude_text exclude}"
  by (auto simp: incomplete_rows_def)

lemma delivery_issues_empty:
  "delivery_issues db owner = [] \<longleftrightarrow> (\<forall>k\<in>set (agent_tasks db). owner_is k owner \<longrightarrow> \<not> unsure_delivery (delivery_status_of db k))"
  by (auto simp: delivery_issues_def delivery_status_of_def unsure_delivery_def concat_eq_Nil_conv split: option.splits)

text \<open>"Nothing to check" is true. The task list of an owner is the all-clear message exactly when every task of
  the owner has completed, was cancelled or is a failure that the owner dismissed, and no result of the owner
  was sent with an unknown outcome.\<close>

theorem all_clear_is_true:
  assumes "list_all (\<lambda>k. tk_id k \<noteq> []) (agent_tasks db)"
  shows "list_text db owner = NOTHING_OPEN \<longleftrightarrow>
    list_all (\<lambda>k. owner_is k owner \<longrightarrow> (tk_status k \<in> {''completed'', ''cancelled''} \<or> tk_status k = ''failed'' \<and> dismissed k) \<and>
      \<not> unsure_delivery (delivery_status_of db k)) (agent_tasks db)"
proof -
  let ?rows = "incomplete db owner None"
  let ?issues = "filter (\<lambda>(k, s). tk_id k \<notin> set (map ov_id ?rows)) (delivery_issues db owner)"
  have "list_text db owner = NOTHING_OPEN \<longleftrightarrow> ?rows = [] \<and> ?issues = []"
    unfolding list_text_def Let_def using open_work_head by auto
  also have "\<dots> \<longleftrightarrow> set (incomplete_rows db owner None) = {} \<and> delivery_issues db owner = []"
    by (cases "incomplete_rows db owner None") (simp_all add: incomplete_def)
  finally show ?thesis
    using assms unfolding delivery_issues_empty set_incomplete_rows by (auto simp: list_all_iff exclude_text_def)
qed


section \<open>Witnesses\<close>

lemma sample_quiet: "quiet 5 sample_operations sample_task2"
  by (simp add: quiet_def healthy_queue_def delivery_status_of_def current_result_def joined_claim_def fetch_operation_def
      fetch_worker_def unsure_delivery_def sample_tables seconds_def sample_operation_def)

lemma unlisted_task_is_in_hand_witness:
  "\<exists>g q. runnable g sample_task2 q \<and> q \<in> set (task_operations sample_operations) \<and> has_queued sample_operations g \<and>
     worker_ready 5 sample_operations g"
proof -
  have "list_all (\<lambda>i. iv_task i \<noteq> sample_task2) (recovery_inventory 5 sample_operations (Some ''u1'') None)"
    using sample_quiet by (auto simp: recovery_inventory_def list_all_iff)
  moreover have "sample_task2 \<in> set (agent_tasks sample_operations)" by (simp add: sample_tables)
  moreover have "owner_is sample_task2 ''u1''" "tk_id sample_task2 \<noteq> []"
    "tk_status sample_task2 \<in> {''blocked'', ''failed'', ''awaiting_approval'', ''queued'', ''running'', ''cancelling''}"
    by (simp_all add: owner_is_def coalesce_is_def sample_task2_def sample_metadata_def)
  ultimately show ?thesis
    using unlisted_task_is_in_hand [of sample_task2 sample_operations "''u1''" 5] by (auto simp: sample_task2_def sample_tables)
qed

lemma all_clear_is_true_witness:
  "list_text (sample_operations\<lparr>agent_tasks := [sample_task3\<lparr>tk_status := ''completed''\<rparr>]\<rparr>) ''u1'' = NOTHING_OPEN \<and>
   list_text (sample_operations\<lparr>agent_tasks := [sample_task3]\<rparr>) ''u1'' \<noteq> NOTHING_OPEN"
  using all_clear_is_true [of "sample_operations\<lparr>agent_tasks := [sample_task3\<lparr>tk_status := ''completed''\<rparr>]\<rparr>" "''u1''"]
    all_clear_is_true [of "sample_operations\<lparr>agent_tasks := [sample_task3]\<rparr>" "''u1''"]
  by (simp add: owner_is_def coalesce_is_def sample_task3_def sample_task2_def sample_metadata_def delivery_status_of_def
      current_result_def unsure_delivery_def sample_task_def)

end
