(* ===== verification/Op_Control.thy ===== *)
theory Op_Control
  imports Op_Views
begin

text \<open>
  The owner's control over tasks: \<open>dismiss\<close>, \<open>cancel\<close> and \<open>resume\<close> of \<open>src/nyanya_agent/operation_store.py\<close>, with
  \<open>_dismiss_conn\<close> and \<open>_require_selected_revision\<close>. None of them hides an effect that may have happened.
\<close>

section \<open>Dismissal\<close>

definition dismiss_conn :: "time \<Rightarrow> task_row \<Rightarrow> string \<Rightarrow> ledger \<Rightarrow> (string \<times> ledger) result" where
  "dismiss_conn t row owner db =
     (if tk_status row \<noteq> ''failed'' \<or> unresolved_effects db (tk_id row) True
      then Inl (SafeOperationError ''Only a safe failed task can be dismissed; reconcile uncertain effects first'')
      else if dismissed row then Inr (''failed'', db)
      else
        (let metadata = dict_put ''user_disposition_at'' (JInt t) (dict_put ''user_disposition'' (JStr ''dismissed'') (tk_metadata row))
         in try_bind (append_event t ''operation.dismissed'' (Some (tk_id row)) None ''failed''
             ''Owner chose not to revisit failed task'' [(''owner'', JStr owner)]
             (update_task (\<lambda>k. tk_id k = tk_id row) (\<lambda>k. k\<lparr>tk_metadata := metadata, tk_updated_at := t\<rparr>) db))
           (\<lambda>db1. Inr (''failed'', db1))))"

definition require_selected_revision :: "task_row \<Rightarrow> string option \<Rightarrow> time option \<Rightarrow> unit result" where
  "require_selected_revision row expected_status expected_updated_at =
     (if (expected_status \<noteq> None \<and> Some (tk_status row) \<noteq> expected_status) \<or>
         (expected_updated_at \<noteq> None \<and> Some (tk_updated_at row) \<noteq> expected_updated_at)
      then Inl (SafeOperationError ''Selected task changed; refresh the task list before controlling it'') else Inr ())"

definition owned_task :: "ledger \<Rightarrow> string \<Rightarrow> string \<Rightarrow> task_row result" where
  "owned_task db task_id owner =
     (case fetch_task db task_id of
        None \<Rightarrow> Inl (PermissionError ''Task owner mismatch'')
      | Some row \<Rightarrow> if tk_requested_by row \<noteq> owner then Inl (PermissionError ''Task owner mismatch'') else Inr row)"

definition dismiss ::
  "time \<Rightarrow> string \<Rightarrow> string \<Rightarrow> string option \<Rightarrow> time option \<Rightarrow> ledger \<Rightarrow> (string \<times> ledger) result" where
  "dismiss t task_id owner expected_status expected_updated_at db =
     try_bind (owned_task db task_id owner) (\<lambda>row.
     try_bind (require_selected_revision row expected_status expected_updated_at) (\<lambda>_.
       dismiss_conn t row owner db))"

section \<open>Cancellation\<close>

text \<open>The execution under an unexpired claim that still runs: \<open>active\<close> of the source.\<close>

definition held_execution :: "time \<Rightarrow> ledger \<Rightarrow> task_row \<Rightarrow> string option" where
  "held_execution t db row =
     (case tk_current_execution_id row of
        None \<Rightarrow> None
      | Some x \<Rightarrow>
          if list_ex (\<lambda>c. cl_task_id c = tk_id row \<and> cl_execution_id c = x \<and> \<not> cl_released c \<and> cl_expires_at c > t \<and>
               list_ex (\<lambda>e. ex_id e = cl_execution_id c \<and> ex_status e \<in> {''running'', ''cancelling''}) (executions db)) (task_claims db)
          then Some x else None)"

definition revoke_for_cancel :: "time \<Rightarrow> string \<Rightarrow> string \<Rightarrow> plan_row \<Rightarrow> ledger \<Rightarrow> ledger" where
  "revoke_for_cancel t task_id owner plan db =
     (let db1 = update_plan (\<lambda>p. pl_id p = pl_id plan) (\<lambda>p. p\<lparr>pl_status := ''revoked'', pl_decided_by := owner\<rparr>) db
      in fold (stop_child t ''parent_cancelled'') (child_tasks db1 task_id (\<lambda>q. json_is (op_spec q) ''plan_id'' (pl_id plan))) db1)"

definition cancel_live :: "time \<Rightarrow> string \<Rightarrow> string \<Rightarrow> ledger \<Rightarrow> ledger" where
  "cancel_live t task_id execution_id db =
     update_task (\<lambda>k. tk_id k = task_id) (\<lambda>k. k\<lparr>tk_status := ''cancelling'', tk_updated_at := t\<rparr>)
       (update_execution (\<lambda>e. ex_id e = execution_id) (\<lambda>e. e\<lparr>ex_status := ''cancelling'', ex_updated_at := t\<rparr>) db)"

definition uncertain_cancel :: "ledger \<Rightarrow> string \<Rightarrow> bool" where
  "uncertain_cancel db task_id \<longleftrightarrow> unresolved_effects db task_id True \<or>
     list_ex (\<lambda>e. ex_task_id e = task_id \<and> ex_status e \<in> {''starting'', ''running'', ''cancelling'', ''stale''}) (executions db)"

definition cancel_diagnosis :: "bool \<Rightarrow> string" where
  "cancel_diagnosis uncertain =
     (if uncertain then ''Cancellation requested without a live claim; external effects require reconciliation'' else [])"

definition cancel_idle :: "time \<Rightarrow> string \<Rightarrow> bool \<Rightarrow> ledger \<Rightarrow> ledger" where
  "cancel_idle t task_id uncertain db =
     update_operation (\<lambda>q. op_task_id q = task_id)
       (\<lambda>q. q\<lparr>op_hold_reason := (if uncertain then ''cancellation_unconfirmed'' else ''cancelled''),
              op_diagnosis := cancel_diagnosis uncertain, op_eligible := False\<rparr>)
       (update_execution (\<lambda>e. ex_task_id e = task_id \<and> ex_status e \<notin> set EXECUTION_TERMINAL_STATUSES)
         (\<lambda>e. e\<lparr>ex_status := (if uncertain then ''lost'' else ''cancelled''), ex_error := cancel_diagnosis uncertain,
                ex_ended_at := Some t, ex_updated_at := t\<rparr>)
         (update_claim (\<lambda>c. cl_task_id c = task_id) (\<lambda>c. c\<lparr>cl_released := True\<rparr>)
           (update_task (\<lambda>k. tk_id k = task_id)
             (\<lambda>k. k\<lparr>tk_status := (if uncertain then ''blocked'' else ''cancelled''), tk_updated_at := t,
                    tk_completed_at := (if uncertain then None else Some t)\<rparr>) db)))"

text \<open>The part of \<open>cancel\<close> that writes: the task has not ended.\<close>

definition cancel_open :: "time \<Rightarrow> task_row \<Rightarrow> string \<Rightarrow> ledger \<Rightarrow> (string \<times> ledger) result" where
  "cancel_open t row owner db =
     (let task_id = tk_id row;
          plans = filter (\<lambda>p. pl_task_id p = task_id \<and> pl_status p \<in> {''pending'', ''approved''}) (change_plans db);
          db1 = update_approval (\<lambda>a. ag_task_id a = Some task_id \<and> ag_status a = ''pending'')
            (\<lambda>a. a\<lparr>ag_status := ''rejected'', ag_decided_by := owner, ag_decided_at := Some t\<rparr>) db;
          db2 = fold (revoke_for_cancel t task_id owner) plans db1;
          (status, db3) =
            (case held_execution t db row of
               Some x \<Rightarrow> (''cancelling'', cancel_live t task_id x db2)
             | None \<Rightarrow> (let uncertain = uncertain_cancel db2 task_id
                 in (if uncertain then ''blocked'' else ''cancelled'', cancel_idle t task_id uncertain db2)))
      in try_bind (append_event t ''operation.cancel_requested'' (Some task_id) None []
           ''Owner requested cancellation; active process acknowledgement is separate'' [] db3)
         (\<lambda>db4. Inr (status, db4)))"

definition cancel ::
  "time \<Rightarrow> string \<Rightarrow> string \<Rightarrow> string option \<Rightarrow> string option \<Rightarrow> time option \<Rightarrow> ledger \<Rightarrow> (string \<times> ledger) result" where
  "cancel t task_id owner expected_execution_id expected_status expected_updated_at db =
     try_bind (owned_task db task_id owner) (\<lambda>row.
     try_bind (require_selected_revision row expected_status expected_updated_at) (\<lambda>_.
       if expected_execution_id \<noteq> None \<and> tk_current_execution_id row \<noteq> expected_execution_id
       then Inl (SafeOperationError ''Execution is no longer current'')
       else if tk_status row = ''failed'' then dismiss_conn t row owner db
       else if tk_status row \<in> {''completed'', ''cancelled''} then
         (if unresolved_effects db task_id True
          then Inl (SafeOperationError ''Recorded terminal state has unresolved effects; reconcile first'')
          else Inr (tk_status row, db))
       else if tk_status row = ''blocked'' \<and> unresolved_effects db task_id True then Inr (''blocked'', db)
       else cancel_open t row owner db))"

section \<open>Resumption\<close>

definition requeue :: "time \<Rightarrow> task_row \<Rightarrow> string \<Rightarrow> ledger \<Rightarrow> ledger" where
  "requeue t row generation db =
     update_task (\<lambda>k. tk_id k = tk_id row)
       (\<lambda>k. k\<lparr>tk_status := ''queued'', tk_completed_at := None, tk_updated_at := t,
              tk_metadata := dict_pop ''user_disposition_at'' (dict_pop ''user_disposition'' (tk_metadata row))\<rparr>)
       (update_operation (\<lambda>q. op_task_id q = tk_id row)
         (\<lambda>q. q\<lparr>op_eligible := True, op_worker_generation := generation, op_hold_reason := [], op_diagnosis := []\<rparr>) db)"

definition resume_conn :: "workspace_env \<Rightarrow> time \<Rightarrow> string \<Rightarrow> string \<Rightarrow> string \<Rightarrow> ledger \<Rightarrow> ledger result" where
  "resume_conn env t task_id owner generation db =
     (case (fetch_task db task_id, fetch_operation db task_id) of
        (Some row, Some q) \<Rightarrow>
          if tk_requested_by row \<noteq> owner then Inl (PermissionError ''Task owner mismatch'')
          else if unsure_delivery (delivery_status_of db row)
          then Inl (SafeOperationError ''Acknowledge ambiguous result delivery before resuming this task'')
          else
            try_bind (spec_restored (op_spec q)) (\<lambda>spec.
              if os_kind spec = JStr ''apply'' \<or> tk_status row \<notin> {''blocked'', ''failed''} \<or> op_attempts q \<ge> op_max_attempts q
              then Inl (SafeOperationError ''This task requires plan reconciliation or has reached its attempt limit'')
              else if unresolved_effects db task_id False
              then Inl (SafeOperationError ''File side effects or active execution require reconciliation before another attempt'')
              else if list_ex (\<lambda>p. pl_task_id p = task_id \<and> pl_status p \<in> {''applying'', ''uncertain'', ''applied'', ''reconciled''})
                (change_plans db)
              then Inl (SafeOperationError ''File side effects require plan reconciliation and a new request, never task replay'')
              else
                try_bind (check_workspace env (json_text (os_workspace spec)) owner) (\<lambda>_.
                  if \<not> worker_ready t db generation then Inl (SafeOperationError ''Worker not ready'')
                  else
                    append_event t ''operation.resume_requested'' (Some task_id) None ''queued''
                      ''Owner explicitly requested a bounded new attempt'' []
                      (requeue t row generation db)))
      | _ \<Rightarrow> Inl (PermissionError ''Task owner mismatch''))"

text \<open>\<open>recover\<close> commits before the checks: its changes stay when \<open>resume\<close> raises.\<close>

definition resume :: "workspace_env \<Rightarrow> time \<Rightarrow> string \<Rightarrow> string \<Rightarrow> string \<Rightarrow> ledger \<Rightarrow> string result \<times> ledger" where
  "resume env t task_id owner generation db =
     (case recover t db of
        Inl e \<Rightarrow> (Inl e, db)
      | Inr (_, db1) \<Rightarrow>
          (case resume_conn env t task_id owner generation db1 of
             Inl e \<Rightarrow> (Inl e, db1) | Inr db2 \<Rightarrow> (Inr task_id, db2)))"

section \<open>Soundness\<close>

lemma not_secret_disposition: "\<not> secret_key ''user_disposition''" "\<not> secret_key ''user_disposition_at''"
  by code_simp+

lemma task_concealed: "k \<in> set (agent_tasks db) \<Longrightarrow> sound db0 db \<Longrightarrow> ledger_inv db0 \<Longrightarrow> concealed_dict (tk_metadata k)"
  by (auto dest!: soundD simp: ledger_inv_def inv_at_def table_inv_def row_defs)

lemma owned_taskD: "owned_task db i owner = Inr k \<Longrightarrow> fetch_task db i = Some k \<and> tk_id k = i \<and> k \<in> set (agent_tasks db) \<and> tk_requested_by k = owner"
  by (auto simp: owned_task_def dest: fetch_taskD split: option.splits if_splits)

lemma dismiss_conn_sound:
  assumes "dismiss_conn t k ow db = Inr (s, db')" "k \<in> set (agent_tasks db)" "sound db0 db"
  shows "sound db0 db'"
proof -
  have "ledger_inv db0 \<Longrightarrow> concealed_dict (tk_metadata k)" using assms(2,3) by (rule task_concealed)
  with assms show ?thesis
    by (auto simp: dismiss_conn_def Let_def row_defs task_unique_def not_secret_disposition split: if_splits
        intro!: sound_intros concealed_dict_put)
qed

lemma dismiss_sound: "dismiss t i ow st up db = Inr (s, db') \<Longrightarrow> sound db0 db \<Longrightarrow> sound db0 db'"
  by (auto simp: dismiss_def dest!: owned_taskD elim: dismiss_conn_sound)

lemma revoke_for_cancel_sound: "sound db0 db \<Longrightarrow> sound db0 (revoke_for_cancel t k ow p db)"
  unfolding revoke_for_cancel_def Let_def by (intro stop_children_sound sound_intros) (auto simp: row_defs)

lemma revokes_sound: "sound db0 db \<Longrightarrow> sound db0 (fold (revoke_for_cancel t k ow) ps db)"
  by (rule fold_inv) (auto intro: revoke_for_cancel_sound)

lemma cancel_open_sound: "cancel_open t k ow db = Inr (s, db') \<Longrightarrow> sound db0 db \<Longrightarrow> sound db0 db'"
  by (auto simp: cancel_open_def cancel_live_def cancel_idle_def Let_def row_defs task_unique_def split: option.splits
      intro!: sound_intros revokes_sound)

lemma cancel_sound: "cancel t i ow ex st up db = Inr (s, db') \<Longrightarrow> sound db0 db \<Longrightarrow> sound db0 db'"
  by (auto simp: cancel_def dest!: owned_taskD split: if_splits elim: dismiss_conn_sound cancel_open_sound)

lemma resume_connE:
  assumes "resume_conn env t i ow g db = Inr db'"
  obtains k q spec where "fetch_task db i = Some k" "fetch_operation db i = Some q" "tk_requested_by k = ow"
    "\<not> unsure_delivery (delivery_status_of db k)" "spec_restored (op_spec q) = Inr spec" "os_kind spec \<noteq> JStr ''apply''"
    "tk_status k \<in> {''blocked'', ''failed''}" "op_attempts q < op_max_attempts q" "\<not> unresolved_effects db i False"
    "list_all (\<lambda>p. pl_task_id p = i \<longrightarrow> pl_status p \<notin> {''applying'', ''uncertain'', ''applied'', ''reconciled''}) (change_plans db)"
    "\<exists>root. check_workspace env (json_text (os_workspace spec)) ow = Inr root" "worker_ready t db g" "i \<in> k_tasks (keys db)"
    "db' = add_event (event_of t ''operation.resume_requested'' (Some i) None ''queued''
        ''Owner explicitly requested a bounded new attempt'' [] (Suc (length (execution_events db)))) (requeue t k g db)"
  using assms
  by (auto simp: resume_conn_def list_ex_iff list_all_iff event_fk_def requeue_def not_le split: option.splits if_splits intro!: that
      dest: fetch_taskD)

lemma resume_conn_sound:
  assumes "resume_conn env t i ow g db = Inr db'" "sound db0 db"
  shows "sound db0 db'"
proof -
  from assms(1) obtain k where k: "fetch_task db i = Some k" "i \<in> k_tasks (keys db)"
    and db': "db' = add_event (event_of t ''operation.resume_requested'' (Some i) None ''queued''
        ''Owner explicitly requested a bounded new attempt'' [] (Suc (length (execution_events db)))) (requeue t k g db)"
    by (rule resume_connE)
  have "ledger_inv db0 \<Longrightarrow> concealed_dict (tk_metadata k)" using fetch_taskD [OF k(1)] assms(2) by (auto intro: task_concealed)
  then show ?thesis
    unfolding db' requeue_def using assms(2) k(2) by (auto simp: row_defs task_unique_def intro!: sound_intros concealed_dict_pop)
qed

lemma resume_sound: "sound db0 db \<Longrightarrow> sound db0 (snd (resume env t i ow g db))"
  by (auto simp: resume_def split: sum.splits elim: recover_sound resume_conn_sound)


section \<open>What control leaves\<close>

lemma fetch_task_update_id:
  "(\<And>k. tk_id (f k) = tk_id k) \<Longrightarrow> fetch_task (update_task (\<lambda>k. tk_id k = i) f db) i = map_option f (fetch_task db i)"
  by (cases "fetch_task db i") (auto simp: fetch_task_def update_task_def find_key_upd dest: find_SomeD)

lemma fetch_task_frame [simp]:
  "fetch_task (add_event e db) i = fetch_task db i" "fetch_task (update_execution P1 f1 db) i = fetch_task db i"
  "fetch_task (update_operation P2 f2 db) i = fetch_task db i" "fetch_task (update_claim P3 f3 db) i = fetch_task db i"
  "fetch_task (update_plan P4 f4 db) i = fetch_task db i" "fetch_task (update_approval P5 f5 db) i = fetch_task db i"
  by (simp_all add: fetch_task_def statement_defs)

lemma unresolved_effects_event [simp]:
  "ev_event_type e \<noteq> ''plan.resolved'' \<Longrightarrow> unresolved_effects (add_event e db) k b \<longleftrightarrow> unresolved_effects db k b"
  by (rule same_effects) (simp, simp add: add_event_def)

text \<open>Which tasks there are and whose they are: unchanged by every update of the state of a task.\<close>

definition requesters :: "ledger \<Rightarrow> (string \<times> string) list" where
  "requesters db = map (\<lambda>k. (tk_id k, tk_requested_by k)) (agent_tasks db)"

lemma map_of_requesters: "map_of (requesters db) i = map_option tk_requested_by (fetch_task db i)"
proof -
  have "map_of (map (\<lambda>k. (tk_id k, tk_requested_by k)) rows) i = map_option tk_requested_by (List.find (\<lambda>k. tk_id k = i) rows)" for rows :: "task_row list"
    by (induction rows) auto
  then show ?thesis by (simp add: requesters_def fetch_task_def)
qed

lemma requesters_stop_child [simp]: "requesters (stop_child t h c db) = requesters db"
  by (auto simp: requesters_def stop_child_def statement_defs upd_def)

lemma requesters_revoke [simp]: "requesters (revoke_for_cancel t k ow p db) = requesters db"
proof -
  have "requesters (fold (stop_child t h) cs y) = requesters y" for h cs y by (rule fold_inv) auto
  then show ?thesis by (simp add: revoke_for_cancel_def Let_def) (simp add: requesters_def statement_defs)
qed

lemma requesters_revokes [simp]: "requesters (fold (revoke_for_cancel t k ow) ps db) = requesters db"
  by (rule fold_inv) auto

lemma cancel_idle_effects:
  assumes "\<not> unresolved_effects db i True"
  shows "\<not> unresolved_effects (cancel_idle t i False db) i True"
proof
  assume u: "unresolved_effects (cancel_idle t i False db) i True"
  let ?a = "update_task (\<lambda>k. tk_id k = i) (\<lambda>k. k\<lparr>tk_status := ''cancelled'', tk_updated_at := t, tk_completed_at := Some t\<rparr>) db"
  let ?b = "update_claim (\<lambda>c. cl_task_id c = i) (\<lambda>c. c\<lparr>cl_released := True\<rparr>) ?a"
  let ?c = "update_execution (\<lambda>e. ex_task_id e = i \<and> ex_status e \<notin> set EXECUTION_TERMINAL_STATUSES)
      (\<lambda>e. e\<lparr>ex_status := ''cancelled'', ex_error := cancel_diagnosis False, ex_ended_at := Some t, ex_updated_at := t\<rparr>) ?b"
  have "same_evidence db ?a" "same_evidence ?a ?b" "same_evidence ?b ?c" "same_evidence ?c (cancel_idle t i False db)"
    by (simp_all add: cancel_idle_def op_view_def)
  then have ev: "same_evidence db (cancel_idle t i False db)" by (meson same_evidence_trans)
  have "unresolved_effects db i True"
    by (rule unresolved_effects_carry [OF ev u])
       (auto simp: cancel_idle_def statement_defs set_upd open_effect_statuses_def)
  with assms show False ..
qed

text \<open>C16. "Cancelled" is never said too early. When \<open>cancel\<close> answers \<open>cancelled\<close>, the resulting ledger shows no
  unresolved effect of the task or of its apply children, the task is recorded as cancelled, and cancelling
  again answers the same and changes nothing.\<close>

theorem cancelled_means_no_effects:
  assumes "cancel t i owner ex st up db = Inr (''cancelled'', db')"
  shows "\<not> unresolved_effects db' i True \<and> map_option tk_status (fetch_task db' i) = Some ''cancelled'' \<and>
    cancel t' i owner None None None db' = Inr (''cancelled'', db')"
proof -
  from assms obtain k where k: "owned_task db i owner = Inr k" by (auto simp: cancel_def)
  note kD = owned_taskD [OF k]
  have "\<not> unresolved_effects db' i True \<and> (\<exists>j. fetch_task db' i = Some j \<and> tk_status j = ''cancelled'' \<and> tk_requested_by j = owner)"
  proof (cases "tk_status k \<in> {''failed'', ''completed'', ''cancelled''} \<or> tk_status k = ''blocked'' \<and> unresolved_effects db i True")
    case True
    with assms k kD show ?thesis by (auto simp: cancel_def dismiss_conn_def Let_def split: if_splits)
  next
    case False
    with assms k kD have o: "cancel_open t k owner db = Inr (''cancelled'', db')"
      by (auto simp: cancel_def split: if_splits)
    let ?db2 = "fold (revoke_for_cancel t i owner) (filter (\<lambda>p. pl_task_id p = i \<and> pl_status p \<in> {''pending'', ''approved''}) (change_plans db))
        (update_approval (\<lambda>a. ag_task_id a = Some i \<and> ag_status a = ''pending'')
          (\<lambda>a. a\<lparr>ag_status := ''rejected'', ag_decided_by := owner, ag_decided_at := Some t\<rparr>) db)"
    from o kD obtain v where u: "\<not> uncertain_cancel ?db2 i" and v: "db' = add_event v (cancel_idle t i False ?db2)"
        "ev_event_type v \<noteq> ''plan.resolved''"
      by (force simp: cancel_open_def Let_def split: option.splits if_splits)
    from u have "\<not> unresolved_effects (cancel_idle t i False ?db2) i True"
      by (intro cancel_idle_effects) (simp add: uncertain_cancel_def)
    moreover have "unresolved_effects db' i True \<longleftrightarrow> unresolved_effects (cancel_idle t i False ?db2) i True"
      using v by simp
    moreover have "\<exists>j. fetch_task db' i = Some j \<and> tk_status j = ''cancelled'' \<and> tk_requested_by j = owner"
    proof -
      have "requesters ?db2 = requesters db" by simp (simp add: requesters_def statement_defs)
      then have "map_option tk_requested_by (fetch_task ?db2 i) = Some owner"
        using map_of_requesters [of ?db2 i] map_of_requesters [of db i] kD by simp
      then show ?thesis unfolding v(1) by (auto simp: cancel_idle_def fetch_task_update_id)
    qed
    ultimately show ?thesis by blast
  qed
  then show ?thesis by (auto simp: cancel_def owned_task_def require_selected_revision_def)
qed


text \<open>C19. Resuming never replays effects. When \<open>resume\<close> queues a task again, no execution of the task is open, none of
  its plans has touched a file, it has attempts left, and the worker it is given to is alive and now sees
  queued work.\<close>

theorem resume_never_replays:
  assumes "resume env t i owner g db = (Inr j, db')" "ledger_inv db"
  shows "j = i \<and> list_all (\<lambda>e. ex_task_id e = i \<longrightarrow> ex_status e \<notin> {''stale'', ''starting'', ''running'', ''cancelling''}) (executions db') \<and>
    list_all (\<lambda>p. pl_task_id p = i \<longrightarrow> pl_status p \<notin> {''applying'', ''uncertain'', ''applied'', ''reconciled''}) (change_plans db') \<and>
    has_queued db' g \<and> worker_ready t db' g"
proof -
  from assms(1) obtain n db1 where rec: "recover t db = Inr (n, db1)" and r: "resume_conn env t i owner g db1 = Inr db'" and j: "j = i"
    by (auto simp: resume_def split: sum.splits)
  from r obtain k q where k: "fetch_task db1 i = Some k" "fetch_operation db1 i = Some q" "op_attempts q < op_max_attempts q"
    and clear: "\<not> unresolved_effects db1 i False"
    and plans: "list_all (\<lambda>p. pl_task_id p = i \<longrightarrow> pl_status p \<notin> {''applying'', ''uncertain'', ''applied'', ''reconciled''}) (change_plans db1)"
    and w: "worker_ready t db1 g"
    and db': "db' = add_event (event_of t ''operation.resume_requested'' (Some i) None ''queued''
        ''Owner explicitly requested a bounded new attempt'' [] (Suc (length (execution_events db1)))) (requeue t k g db1)"
    by (rule resume_connE)
  let ?q = "q\<lparr>op_eligible := True, op_worker_generation := g, op_hold_reason := [], op_diagnosis := []\<rparr>"
  let ?k = "k\<lparr>tk_status := ''queued'', tk_completed_at := None, tk_updated_at := t,
               tk_metadata := dict_pop ''user_disposition_at'' (dict_pop ''user_disposition'' (tk_metadata k))\<rparr>"
  from fetch_taskD [OF k(1)] fetch_operationD [OF k(2)]
  have "?k \<in> set (agent_tasks db')" "?q \<in> set (task_operations db')" "runnable g ?k ?q"
    using k(3) by (auto simp: db' requeue_def statement_defs set_upd runnable_def)
  then have "has_queued db' g" unfolding has_queued_def list_ex_iff by blast
  moreover have "worker_ready t db' g" using w by (simp add: db' requeue_def worker_ready_def fetch_worker_def statement_defs)
  moreover have "ex_status e \<notin> {''stale'', ''starting'', ''running'', ''cancelling''}" if "e \<in> set (executions db1)" "ex_task_id e = i" for e
    using that clear by (auto simp: unresolved_effects_def Let_def list_ex_iff open_attempt_def open_effect_statuses_def)
  ultimately show ?thesis using plans j by (auto simp: db' requeue_def list_all_iff statement_defs)
qed

lemma extract_text_put [simp]: "extract_text (dict_put k v d) j = (if j = k then (case v of JStr s \<Rightarrow> Some s | _ \<Rightarrow> None) else extract_text d j)"
  by (simp add: extract_text_def split: json.splits)

text \<open>Dismissal is safe and final. \<open>dismiss\<close> succeeds only on a failure without unresolved effects; the task then
  leaves the list of open work, and dismissing it again changes nothing.\<close>

theorem dismissal_is_safe:
  assumes "dismiss t i owner st up db = Inr (s, db')" "ledger_inv db"
  shows "s = ''failed'' \<and> \<not> unresolved_effects db' i True \<and> list_all (\<lambda>r. ov_id r \<noteq> i) (incomplete db' owner None) \<and>
    dismiss t' i owner None None db' = Inr (''failed'', db')"
proof -
  from assms(1) obtain k where k: "owned_task db i owner = Inr k" and d: "dismiss_conn t k owner db = Inr (s, db')"
    by (auto simp: dismiss_def)
  note kD = owned_taskD [OF k]
  from d kD have f: "tk_status k = ''failed''" "s = ''failed''" "\<not> unresolved_effects db i True"
    by (auto simp: dismiss_conn_def Let_def split: if_splits)
  have "\<exists>j. fetch_task db' i = Some j \<and> tk_status j = ''failed'' \<and> dismissed j \<and> tk_requested_by j = owner \<and> \<not> unresolved_effects db' i True"
  proof (cases "dismissed k")
    case True
    with d kD f show ?thesis by (auto simp: dismiss_conn_def)
  next
    case False
    with d kD f obtain v m where db': "db' = add_event v (update_task (\<lambda>x. tk_id x = i) (\<lambda>k. k\<lparr>tk_metadata := m, tk_updated_at := t\<rparr>) db)"
        "ev_event_type v \<noteq> ''plan.resolved''" "extract_text m ''user_disposition'' = Some ''dismissed''"
      by (auto simp: dismiss_conn_def Let_def)
    have "unresolved_effects (update_task P g db) i True \<longleftrightarrow> unresolved_effects db i True" for P g
      by (rule same_effects) (simp, simp add: update_task_def)
    with db' kD f show ?thesis by (auto simp: fetch_task_update_id dismissed_def)
  qed
  then obtain j where j: "fetch_task db' i = Some j" "tk_status j = ''failed''" "dismissed j" "tk_requested_by j = owner" "\<not> unresolved_effects db' i True"
    by blast
  from assms have "ledger_inv db'" using soundD [OF dismiss_sound [OF assms(1)]] by blast
  then have "k = j" if "k \<in> set (agent_tasks db')" "tk_id k = i" for k
    using that fetch_task_unique [of db' k] j(1) by simp
  with j(2,3) have "list_all (\<lambda>r. ov_id r \<noteq> i) (incomplete db' owner None)"
    by (auto simp: incomplete_def list_all_iff set_incomplete_rows open_view_of_def Let_def)
  with j f(2) show ?thesis
    using fetch_taskD [OF j(1)] by (auto simp: dismiss_def owned_task_def require_selected_revision_def dismiss_conn_def)
qed


section \<open>Witnesses\<close>

text \<open>The task \<open>t2\<close> has failed.\<close>

definition sample_failed :: ledger where
  "sample_failed = sample_operations\<lparr>agent_tasks := [sample_task, sample_task2\<lparr>tk_status := ''failed''\<rparr>, sample_task3]\<rparr>"

lemma sample_failed_tables:
  "agent_tasks sample_failed = [sample_task, sample_task2\<lparr>tk_status := ''failed''\<rparr>, sample_task3]"
  "executions sample_failed = executions sample_operations" "task_operations sample_failed = task_operations sample_operations"
  "operation_workers sample_failed = operation_workers sample_operations" "task_claims sample_failed = []"
  "change_plans sample_failed = change_plans sample_operations" "change_journal sample_failed = []"
  "execution_events sample_failed = []" "task_results sample_failed = []" "keys sample_failed = keys sample_operations"
  by (simp_all add: sample_failed_def sample_tables) (simp add: keys_def sample_tables)

lemma sample_failed_inv: "ledger_inv sample_failed"
proof -
  have "sample_failed = update_task (\<lambda>k. tk_id k = ''t2'') (\<lambda>k. k\<lparr>tk_status := ''failed''\<rparr>) sample_operations"
    by (simp add: sample_failed_def update_task_def sample_tables)
  moreover have "sound sample_operations (update_task (\<lambda>k. tk_id k = ''t2'') (\<lambda>k. k\<lparr>tk_status := ''failed''\<rparr>) sample_operations)"
    by (auto simp: row_defs task_unique_def intro!: sound_intros)
  ultimately show ?thesis using soundD sample_operations_inv by simp
qed

lemma sample_failed_effects: "\<not> unresolved_effects sample_failed ''t2'' b"
  by (simp add: unresolved_effects_def half_applied_def sample_failed_tables sample_tables resolution_owner_def fetch_operation_def
      sample_plan_def)

lemma cancelled_means_no_effects_witness:
  "\<exists>db'. cancel 5 ''t2'' ''u1'' None None None sample_operations = Inr (''cancelled'', db') \<and>
     cancel 6 ''t2'' ''u1'' None None None db' = Inr (''cancelled'', db')"
proof -
  have "\<not> uncertain_cancel (update_approval P f sample_operations) ''t2''" for P f
    by (simp add: uncertain_cancel_def unresolved_effects_def half_applied_def update_approval_def sample_tables
        resolution_owner_def fetch_operation_def sample_plan_def)
  then have "\<exists>db'. cancel 5 ''t2'' ''u1'' None None None sample_operations = Inr (''cancelled'', db')"
    by (simp add: cancel_def owned_task_def fetch_task_def sample_tables require_selected_revision_def cancel_open_def
        held_execution_def Let_def append_event_def event_fk_def cancel_idle_def sample_plan_def)
  then obtain db' where c: "cancel 5 ''t2'' ''u1'' None None None sample_operations = Inr (''cancelled'', db')" ..
  from cancelled_means_no_effects [OF c, of 6] c show ?thesis by blast
qed

lemma resume_never_replays_witness:
  "\<exists>db'. resume sample_env 5 ''t2'' ''u1'' ''w1'' sample_failed = (Inr ''t2'', db') \<and> has_queued db' ''w1''"
proof -
  have "recover 5 sample_failed = Inr (0, sample_failed)"
    by (simp add: recover_def recover_due_def sample_failed_tables sample_tables seconds_def)
  moreover have "spec_restored sample_spec = Inr (spec_of sample_spec)" "os_kind (spec_of sample_spec) \<noteq> JStr ''apply''"
    "check_workspace sample_env (json_text (os_workspace (spec_of sample_spec))) ''u1'' = Inr ''/w''" by code_simp+
  moreover have "worker_ready 5 sample_failed ''w1''"
    by (simp add: worker_ready_def fetch_worker_def sample_failed_tables sample_tables seconds_def)
  ultimately have "\<exists>db'. resume sample_env 5 ''t2'' ''u1'' ''w1'' sample_failed = (Inr ''t2'', db')"
    by (simp add: resume_def resume_conn_def fetch_task_def fetch_operation_def sample_failed_tables sample_tables
        sample_failed_effects delivery_status_of_def current_result_def unsure_delivery_def sample_plan_def requeue_def append_event_def event_fk_def)
  then obtain db' where r: "resume sample_env 5 ''t2'' ''u1'' ''w1'' sample_failed = (Inr ''t2'', db')" ..
  from resume_never_replays [OF r sample_failed_inv] r show ?thesis by blast
qed

lemma dismissal_is_safe_witness:
  "\<exists>db'. dismiss 5 ''t2'' ''u1'' (Some ''failed'') (Some 0) sample_failed = Inr (''failed'', db') \<and>
     list_all (\<lambda>r. ov_id r \<noteq> ''t2'') (incomplete db' ''u1'' None)"
proof -
  have "tk_updated_at sample_task2 = 0" "\<not> dismissed (sample_task2\<lparr>tk_status := ''failed''\<rparr>)"
    by (simp_all add: sample_task2_def sample_task_def dismissed_def sample_metadata_def extract_text_def)
  then have "\<exists>db'. dismiss 5 ''t2'' ''u1'' (Some ''failed'') (Some 0) sample_failed = Inr (''failed'', db')"
    by (simp add: dismiss_def owned_task_def fetch_task_def sample_failed_tables require_selected_revision_def dismiss_conn_def
        sample_failed_effects Let_def append_event_def event_fk_def sample_tables)
  then obtain db' where d: "dismiss 5 ''t2'' ''u1'' (Some ''failed'') (Some 0) sample_failed = Inr (''failed'', db')" ..
  from dismissal_is_safe [OF d sample_failed_inv] d show ?thesis by blast
qed

end
