(* ===== verification/Upload_Approvals.thy ===== *)
theory Upload_Approvals
  imports Op_Admission Ledger_Approvals Work_Memory
begin

text \<open>
  Consent for one upload of one document: \<open>src/nyanya_agent/upload_approval.py\<close>. A confirmation is a row of the approvals
  table without a task; its metadata hold the whole scope (owner, conversation, file, destination, contents hash, counts) and a hash
  of it. It expires, it is granted at most once, and every mismatch ends it. The file identity, the counts, the digest and the texts come
  from the callers unchecked and are JSON values here. An error that is raised after a commit leaves the committed ledger behind: the
  result of such a call pairs the outcome with the ledger.
\<close>

definition UPLOAD_ACTION :: string where
  "UPLOAD_ACTION = ''discord.upload.pii''"

definition MAX_PENDING_PER_OWNER :: nat where "MAX_PENDING_PER_OWNER = 16"

definition MAX_TTL_SECONDS :: int where "MAX_TTL_SECONDS = 300"

definition COUNT_KINDS :: "string list" where
  "COUNT_KINDS = [''email'', ''phone'', ''resident_id'', ''payment_card'', ''bank_account'', ''passport'', ''person_name'', ''address'',
     ''local_path'']"

definition IDENTITY_KEYS :: "string list" where
  "IDENTITY_KEYS = [''dev'', ''ino'', ''size'', ''mtime_ns'', ''ctime_ns'']"

definition SCOPE_KEYS :: "string list" where
  "SCOPE_KEYS = [''authorized_actor'', ''conversation_key'', ''workspace'', ''relative_path'', ''destination_id'', ''request_channel_id'',
     ''sha256'', ''file_identity'', ''counts'']"

text \<open>The confirmation is not valid: check that file and destination are the same and request again.\<close>

definition UPLOAD_ERROR :: string where
  "UPLOAD_ERROR = utf8 [236, 151, 133, 235, 161, 156, 235, 147, 156, 32, 237, 153, 149, 236, 157, 184, 236, 157, 180, 32, 236, 156, 160, 237,
     154, 168, 237, 149, 152, 236, 167, 128, 32, 236, 149, 138, 236, 138, 181, 235, 139, 136, 235, 139, 164, 46, 32, 237,
     140, 140, 236, 157, 188, 234, 179, 188, 32, 235, 140, 128, 236, 131, 129, 236, 157, 180, 32, 234, 176, 153, 236, 157,
     128, 236, 167, 128, 32, 237, 153, 149, 236, 157, 184, 237, 149, 152, 234, 179, 160, 32, 236, 131, 136, 235, 161, 156,
     32, 236, 154, 148, 236, 178, 173, 237, 149, 152, 236, 132, 184, 236, 154, 148, 46]"

text \<open>Too many confirmations are waiting: cancel one or request after they expire.\<close>

definition TOO_MANY_UPLOADS :: string where
  "TOO_MANY_UPLOADS = utf8 [235, 140, 128, 234, 184, 176, 32, 236, 164, 145, 236, 157, 184, 32, 236, 151, 133, 235, 161, 156, 235, 147, 156, 32,
     237, 153, 149, 236, 157, 184, 236, 157, 180, 32, 235, 167, 142, 236, 138, 181, 235, 139, 136, 235, 139, 164, 46, 32,
     234, 184, 176, 236, 161, 180, 32, 237, 153, 149, 236, 157, 184, 236, 157, 132, 32, 236, 183, 168, 236, 134, 140, 237,
     149, 152, 234, 177, 176, 235, 130, 152, 32, 235, 167, 140, 235, 163, 140, 32, 237, 155, 132, 32, 236, 154, 148, 236,
     178, 173, 237, 149, 152, 236, 132, 184, 236, 154, 148, 46]"

text \<open>The confirmation has expired: inspect the file again and request anew.\<close>

definition UPLOAD_EXPIRED :: string where
  "UPLOAD_EXPIRED = utf8 [236, 151, 133, 235, 161, 156, 235, 147, 156, 32, 237, 153, 149, 236, 157, 184, 236, 157, 180, 32, 235, 167, 140, 235,
     163, 140, 235, 144, 152, 236, 151, 136, 236, 138, 181, 235, 139, 136, 235, 139, 164, 46, 32, 237, 140, 140, 236, 157,
     188, 236, 157, 132, 32, 235, 139, 164, 236, 139, 156, 32, 234, 178, 128, 236, 130, 172, 237, 149, 180, 32, 236, 131,
     136, 235, 161, 156, 32, 236, 154, 148, 236, 178, 173, 237, 149, 152, 236, 132, 184, 236, 154, 148, 46]"

section \<open>Checks\<close>

definition refused :: "'a result" where
  "refused = Inl (SafeOperationError UPLOAD_ERROR)"

definition up_text :: "nat \<Rightarrow> json \<Rightarrow> string result" where
  "up_text most j =
     (case j of
        JStr s \<Rightarrow> if s = [] \<or> len_cp s > most \<or> list_ex (\<lambda>c. (of_char c :: nat) < 32) s then refused else Inr s
      | _ \<Rightarrow> refused)"

text \<open>\<open>str(PurePosixPath(value))\<close>: a path that begins with exactly two slashes keeps both.\<close>

definition dotless_parts :: "string \<Rightarrow> string list" where
  "dotless_parts v = filter (\<lambda>x. x \<noteq> [] \<and> x \<noteq> ''.'') (split_on (CHR ''/'') v)"

definition up_workspace :: "string \<Rightarrow> string result" where
  "up_workspace v =
     try_bind (up_text 4096 (JStr v)) (\<lambda>v.
       let parts = dotless_parts v in
       if \<not> starts_with ''/'' v \<or> ''..'' \<in> set parts then refused
       else Inr ((if starts_with ''//'' v \<and> \<not> starts_with ''///'' v then ''//'' else ''/'') @ join_with ''/'' parts))"

definition up_relative :: "json \<Rightarrow> string result" where
  "up_relative j =
     try_bind (up_text 4096 j) (\<lambda>v.
       let parts = dotless_parts v in
       if starts_with ''/'' v \<or> ''..'' \<in> set parts \<or> parts = [] \<or> CHR 0x5C \<in> set v then refused
       else Inr (join_with ''/'' parts))"

definition hex_char :: "char \<Rightarrow> bool" where
  "hex_char c \<longleftrightarrow> (let n = (of_char c :: nat) in (48 \<le> n \<and> n \<le> 57) \<or> (97 \<le> n \<and> n \<le> 102))"

definition up_digest :: "json \<Rightarrow> string result" where
  "up_digest j = (case j of JStr s \<Rightarrow> if length s = 64 \<and> list_all hex_char s then Inr s else refused | _ \<Rightarrow> refused)"

definition small_int :: "int \<Rightarrow> json \<Rightarrow> bool" where
  "small_int most j = (case j of JInt i \<Rightarrow> 0 \<le> i \<and> (0 \<le> most \<longrightarrow> i \<le> most) | _ \<Rightarrow> False)"

definition up_identity :: "json \<Rightarrow> dict result" where
  "up_identity j =
     (case j of
        JObj d \<Rightarrow> if set (map fst d) = set IDENTITY_KEYS \<and> list_all (\<lambda>(k, v). small_int (- 1) v) d then Inr d else refused
      | _ \<Rightarrow> refused)"

definition up_counts :: "json \<Rightarrow> dict result" where
  "up_counts j =
     (case j of
        JObj d \<Rightarrow>
          if d \<noteq> [] \<and> set (map fst d) \<subseteq> set COUNT_KINDS \<and> list_all (\<lambda>(k, v). small_int 1000000 v) d \<and> list_ex (\<lambda>(k, v). truthy v) d
          then Inr (filter (\<lambda>(k, v). truthy v) d) else refused
      | _ \<Rightarrow> refused)"

text \<open>\<open>metadata[key]\<close> raises \<open>KeyError\<close>.\<close>

fun scope_of :: "string list \<Rightarrow> dict \<Rightarrow> dict result" where
  "scope_of [] md = Inr []"
| "scope_of (k # ks) md =
     (case map_of md k of None \<Rightarrow> Inl (KeyError k) | Some v \<Rightarrow> try_bind (scope_of ks md) (\<lambda>r. Inr ((k, v) # r)))"

definition upload_scope_hash :: "(string \<Rightarrow> string) \<Rightarrow> dict \<Rightarrow> string result" where
  "upload_scope_hash H md = try_bind (scope_of SCOPE_KEYS md) (\<lambda>s. Inr (H (compact_json (canon (JObj s)))))"

section \<open>The ledger\<close>

definition upload_event :: "time \<Rightarrow> string \<Rightarrow> string \<Rightarrow> string \<Rightarrow> ledger \<Rightarrow> ledger" where
  "upload_event t approval_id event status db =
     log_audit t ''upload-privacy'' (''upload.'' @ event) ''upload_approval'' approval_id
       [(''action'', JStr UPLOAD_ACTION), (''status'', JStr status)] db"

definition pending_upload :: "string \<Rightarrow> approval_row \<Rightarrow> bool" where
  "pending_upload i a \<longleftrightarrow> ag_id a = i \<and> ag_action a = UPLOAD_ACTION \<and> ag_status a = ''pending''"

definition owned_upload :: "ledger \<Rightarrow> string \<Rightarrow> json \<Rightarrow> approval_row result" where
  "owned_upload db approval_id owner =
     (case fetch_approval db approval_id of
        None \<Rightarrow> refused
      | Some row \<Rightarrow>
          if ag_action row \<noteq> UPLOAD_ACTION \<or> JStr (ag_requested_by row) \<noteq> owner then refused
          else if map_of (ag_metadata row) ''authorized_actor'' \<noteq> Some owner then refused
          else Inr row)"

text \<open>\<open>_close\<close>: the confirmation ends with a status; nothing happens when it has ended already.\<close>

definition ended :: "time \<Rightarrow> string \<Rightarrow> approval_row \<Rightarrow> approval_row \<Rightarrow> approval_row" where
  "ended t status row a = a\<lparr>ag_status := status, ag_decided_by := ag_requested_by row, ag_decided_at := Some t,
     ag_metadata := dict_put ''phase'' (JStr status) (ag_metadata row)\<rparr>"

definition close_upload :: "time \<Rightarrow> string \<Rightarrow> approval_row \<Rightarrow> ledger \<Rightarrow> ledger" where
  "close_upload t status row db =
     (let db1 = update_approval (pending_upload (ag_id row)) (ended t status row) db in
      if 0 < hits (pending_upload (ag_id row)) (approvals db) then upload_event t (ag_id row) status status db1 else db1)"

definition overdue :: "time \<Rightarrow> approval_row \<Rightarrow> bool" where
  "overdue t a \<longleftrightarrow> (case ag_expires_at a of None \<Rightarrow> True | Some x \<Rightarrow> x \<le> t)"

definition owner_pending :: "string \<Rightarrow> approval_row \<Rightarrow> bool" where
  "owner_pending owner a \<longleftrightarrow> ag_action a = UPLOAD_ACTION \<and> ag_requested_by a = owner \<and> ag_status a = ''pending''"

section \<open>Requesting\<close>

record upload_scope =
  us_owner :: json
  us_conversation :: json
  us_workspace :: string
  us_path :: json
  us_destination :: json
  us_channel :: json
  us_sha256 :: json
  us_identity :: json
  us_counts :: json

definition scope_metadata :: "(string \<Rightarrow> string) \<Rightarrow> upload_scope \<Rightarrow> dict result" where
  "scope_metadata H u =
     try_bind (up_text 512 (us_owner u)) (\<lambda>owner.
     try_bind (up_text 512 (us_conversation u)) (\<lambda>conversation.
     try_bind (up_workspace (us_workspace u)) (\<lambda>workspace.
     try_bind (up_relative (us_path u)) (\<lambda>path.
     try_bind (up_text 128 (us_destination u)) (\<lambda>destination.
     try_bind (up_text 128 (us_channel u)) (\<lambda>channel.
     try_bind (up_digest (us_sha256 u)) (\<lambda>sha256.
     try_bind (up_identity (us_identity u)) (\<lambda>identity.
     try_bind (up_counts (us_counts u)) (\<lambda>counts.
       let md = [(''schema_version'', JInt 1), (''phase'', JStr ''pending''), (''authorized_actor'', JStr owner),
             (''conversation_key'', JStr conversation), (''workspace'', JStr workspace), (''relative_path'', JStr path),
             (''destination_id'', JStr destination), (''request_channel_id'', JStr channel), (''sha256'', JStr sha256),
             (''file_identity'', JObj identity), (''counts'', JObj counts)]
       in try_bind (upload_scope_hash H md) (\<lambda>h. Inr (md @ [(''scope_hash'', JStr h)])))))))))))"

definition request_upload ::
  "(string \<Rightarrow> string) \<Rightarrow> time \<Rightarrow> string \<Rightarrow> upload_scope \<Rightarrow> json \<Rightarrow> ledger \<Rightarrow> approval_row result \<times> ledger" where
  "request_upload H t approval_id u ttl db =
     (case ttl of
        JInt n \<Rightarrow>
          if n < 1 \<or> MAX_TTL_SECONDS < n then (refused, db)
          else (case scope_metadata H u of
              Inl e \<Rightarrow> (Inl e, db)
            | Inr md \<Rightarrow>
                (let owner = json_text (us_owner u);
                     old = filter (\<lambda>a. owner_pending owner a \<and> overdue t a) (approvals db);
                     db1 = fold (close_upload t ''expired'') old db
                 in if MAX_PENDING_PER_OWNER \<le> hits (owner_pending owner) (approvals db1)
                    then (Inl (SafeOperationError TOO_MANY_UPLOADS), db1)
                    else
                      (let row = \<lparr>ag_id = approval_id, ag_task_id = None, ag_execution_id = None, ag_action = UPLOAD_ACTION,
                             ag_status = ''pending'', ag_requested_by = owner, ag_decided_by = [],
                             ag_reason = ''Document privacy confirmation required'', ag_metadata = md, ag_requested_at = t,
                             ag_decided_at = None, ag_expires_at = Some (t + seconds n)\<rparr>
                       in case insert_approval row db1 of
                            Inl e \<Rightarrow> (Inl e, db)
                          | Inr db2 \<Rightarrow> (Inr row, upload_event t approval_id ''requested'' ''pending'' db2))))
      | _ \<Rightarrow> (refused, db))"

definition get_upload :: "ledger \<Rightarrow> string \<Rightarrow> json \<Rightarrow> json \<Rightarrow> approval_row result" where
  "get_upload db approval_id owner conversation =
     try_bind (owned_upload db approval_id owner) (\<lambda>row.
       if map_of (ag_metadata row) ''conversation_key'' \<noteq> Some conversation then refused else Inr row)"

section \<open>Consuming\<close>

text \<open>The comparison of the stored scope with what is about to be sent. Its own failures count as a mismatch.\<close>

definition stored_is :: "dict \<Rightarrow> string \<Rightarrow> json \<Rightarrow> bool" where
  "stored_is md k v \<longleftrightarrow> (case map_of md k of None \<Rightarrow> v = JNull | Some w \<Rightarrow> canon w = canon v)"

definition scope_matches :: "(string \<Rightarrow> string) \<Rightarrow> approval_row \<Rightarrow> upload_scope \<Rightarrow> bool result" where
  "scope_matches H row u =
     try_bind (up_text 512 (us_conversation u)) (\<lambda>conversation.
     try_bind (up_digest (us_sha256 u)) (\<lambda>sha256.
     try_bind (up_text 128 (us_destination u)) (\<lambda>destination.
     try_bind (up_workspace (us_workspace u)) (\<lambda>workspace.
     try_bind (up_relative (us_path u)) (\<lambda>path.
     try_bind (up_identity (us_identity u)) (\<lambda>identity.
       let md = ag_metadata row in
       if map_of md ''schema_version'' \<in> {Some (JInt 1), Some (JBool True)} \<and> ag_task_id row = None \<and> ag_execution_id row = None \<and>
          stored_is md ''conversation_key'' (JStr conversation) \<and> stored_is md ''sha256'' (JStr sha256) \<and>
          stored_is md ''destination_id'' (JStr destination) \<and> stored_is md ''workspace'' (JStr workspace) \<and>
          stored_is md ''relative_path'' (JStr path) \<and> stored_is md ''file_identity'' (JObj identity)
       then try_bind (upload_scope_hash H md) (\<lambda>h. Inr (map_of md ''scope_hash'' = Some (JStr h)))
       else Inr False))))))"

definition valid_scope :: "(string \<Rightarrow> string) \<Rightarrow> approval_row \<Rightarrow> upload_scope \<Rightarrow> bool" where
  "valid_scope H row u \<longleftrightarrow> scope_matches H row u = Inr True"

definition phase_pending :: "approval_row \<Rightarrow> bool" where
  "phase_pending row \<longleftrightarrow> ag_status row = ''pending'' \<and> map_of (ag_metadata row) ''phase'' = Some (JStr ''pending'')"

definition granted :: "time \<Rightarrow> json \<Rightarrow> dict \<Rightarrow> approval_row \<Rightarrow> approval_row" where
  "granted t owner md a = a\<lparr>ag_status := ''approved'', ag_decided_by := json_text owner, ag_decided_at := Some t,
     ag_metadata := dict_put ''phase'' (JStr ''consumed'') md\<rparr>"

definition consume_upload ::
  "(string \<Rightarrow> string) \<Rightarrow> time \<Rightarrow> string \<Rightarrow> upload_scope \<Rightarrow> ledger \<Rightarrow> approval_row result \<times> ledger" where
  "consume_upload H t approval_id u db =
     (case owned_upload db approval_id (us_owner u) of
        Inl e \<Rightarrow> (Inl e, db)
      | Inr row \<Rightarrow>
          if \<not> phase_pending row then (refused, db)
          else if overdue t row then (Inl (SafeOperationError UPLOAD_EXPIRED), close_upload t ''expired'' row db)
          else if \<not> valid_scope H row u then (refused, close_upload t ''rejected'' row db)
          else (let grant = granted t (us_owner u) (ag_metadata row) in
            (Inr (grant row), upload_event t approval_id ''consumed'' ''approved''
               (update_approval (pending_upload approval_id) grant db))))"

section \<open>Rejecting\<close>

definition reject_upload :: "time \<Rightarrow> string \<Rightarrow> json \<Rightarrow> json \<Rightarrow> ledger \<Rightarrow> approval_row result \<times> ledger" where
  "reject_upload t approval_id owner conversation db =
     (case owned_upload db approval_id owner of
        Inl e \<Rightarrow> (Inl e, db)
      | Inr row \<Rightarrow>
          if map_of (ag_metadata row) ''conversation_key'' \<noteq> Some conversation
          then (refused, if ag_status row = ''pending'' then close_upload t ''rejected'' row db else db)
          else if ag_status row = ''rejected'' then (Inr row, db)
          else if \<not> phase_pending row then (refused, db)
          else
            (let db1 = close_upload t (if overdue t row then ''expired'' else ''rejected'') row db
             in case fetch_approval db1 approval_id of None \<Rightarrow> (Inl (TypeError []), db1) | Some a \<Rightarrow> (Inr a, db1)))"


section \<open>The life of a confirmation\<close>

inductive upload_step :: "ledger \<Rightarrow> ledger \<Rightarrow> bool" where
  request: "upload_step db (snd (request_upload H t i u ttl db))"
| consume: "upload_step db (snd (consume_upload H t i u db))"
| reject: "upload_step db (snd (reject_upload t i owner conversation db))"

text \<open>The two consent flows share the table.\<close>

definition consent_step :: "ledger \<Rightarrow> ledger \<Rightarrow> bool" where
  "consent_step db db' \<longleftrightarrow> upload_step db db' \<or> approval_step db db'"

definition upload_status :: "ledger \<Rightarrow> string \<Rightarrow> string option" where
  "upload_status db i =
     (case fetch_approval db i of Some a \<Rightarrow> if ag_action a = UPLOAD_ACTION then Some (ag_status a) else None | None \<Rightarrow> None)"

definition upload_allowed :: "string \<Rightarrow> string \<Rightarrow> bool" where
  "upload_allowed a b \<longleftrightarrow> a = ''pending'' \<and> b \<in> {''approved'', ''rejected'', ''expired''}"

section \<open>Closing\<close>

lemma ended_row [simp]:
  "ag_id (ended t s row a) = ag_id a" "ag_action (ended t s row a) = ag_action a" "ag_status (ended t s row a) = s"
  "ag_requested_by (ended t s row a) = ag_requested_by a"
  by (simp_all add: ended_def)

lemma granted_row [simp]:
  "ag_id (granted t ow md a) = ag_id a" "ag_action (granted t ow md a) = ag_action a" "ag_status (granted t ow md a) = ''approved''"
  "ag_requested_by (granted t ow md a) = ag_requested_by a"
  by (simp_all add: granted_def)

lemma approvals_upload_event [simp]: "approvals (upload_event t i e s db) = approvals db"
  by (simp add: upload_event_def log_audit_def)

lemma fetch_upload_event [simp]: "fetch_approval (upload_event t i e s db) j = fetch_approval db j"
  by (simp add: fetch_approval_def)

lemma approvals_close_upload:
  "approvals (close_upload t s row db) = upd (pending_upload (ag_id row)) (ended t s row) (approvals db)"
  by (simp add: close_upload_def Let_def update_approval_def)

lemma fetch_close_upload [simp]:
  "fetch_approval (close_upload t s row db) i =
   map_option (\<lambda>a. if pending_upload (ag_id row) a then ended t s row a else a) (fetch_approval db i)"
  by (simp add: close_upload_def Let_def)

text \<open>A secret word begins with one of six triples of letters; a key without them is not secret.\<close>

fun secret_lead :: "string \<Rightarrow> bool" where
  "secret_lead [] = False"
| "secret_lead (c # cs) = (take 3 (map lower_char (c # cs)) \<in> set [''tok'', ''sec'', ''pas'', ''aut'', ''api'', ''pri''] \<or> secret_lead cs)"

lemma lit_lead: "m \<in> set (rmatch (lit (a # b # c # w)) (pv, cs)) \<Longrightarrow> take 3 (map lower_char cs) = map lower_char [a, b, c]"
proof -
  assume "m \<in> set (rmatch (lit (a # b # c # w)) (pv, cs))"
  then show ?thesis
    by (cases cs; cases "tl cs"; cases "tl (tl cs)"; cases w)
       (auto simp: lit_char_def step_char_def split: if_splits)
qed

lemma key_lead: "rmatch SECRET_KEY_RE (pv, cs) \<noteq> [] \<Longrightarrow> cs \<noteq> [] \<and> secret_lead cs"
proof -
  assume "rmatch SECRET_KEY_RE (pv, cs) \<noteq> []"
  then obtain m where "m \<in> set (rmatch SECRET_KEY_RE (pv, cs))" by (meson list.set_sel(1))
  then have "take 3 (map lower_char cs) \<in> (map lower_char) ` set [''tok'', ''sec'', ''pas'', ''aut'', ''api'', ''pri'']"
    unfolding SECRET_KEY_RE_def by (auto simp del: lit.simps dest!: lit_lead)
  moreover have "map (map lower_char) [''tok'', ''sec'', ''pas'', ''aut'', ''api'', ''pri''] = [''tok'', ''sec'', ''pas'', ''aut'', ''api'', ''pri'']"
    by code_simp
  ultimately have "take 3 (map lower_char cs) \<in> set [''tok'', ''sec'', ''pas'', ''aut'', ''api'', ''pri'']"
    by (metis list.set_map)
  then show ?thesis by (cases cs) auto
qed

lemma plain_key: "\<not> secret_lead k \<Longrightarrow> \<not> secret_key k"
proof -
  have "rsearch SECRET_KEY_RE pv cs \<Longrightarrow> secret_lead cs" for pv cs
    by (induction cs arbitrary: pv) (auto dest: key_lead)
  then show "\<not> secret_lead k \<Longrightarrow> \<not> secret_key k" by (auto simp: secret_key_def)
qed

lemma not_secret_other: "\<not> secret_key ''authorized_actor''" "\<not> secret_key ''passport''"
  by code_simp+

lemma not_secret_words [simp]:
  "\<not> secret_key ''phase''" "\<not> secret_key ''schema_version''" "\<not> secret_key ''scope_hash''" "\<not> secret_key ''action''" "\<not> secret_key ''status''"
  by (rule plain_key, code_simp)+

lemma not_secret_scope:
  "\<not> secret_key ''conversation_key''" "\<not> secret_key ''workspace''" "\<not> secret_key ''relative_path''" "\<not> secret_key ''destination_id''" "\<not> secret_key ''request_channel_id''" "\<not> secret_key ''sha256''" "\<not> secret_key ''file_identity''" "\<not> secret_key ''counts''"
  by (rule plain_key, code_simp)+

lemma not_secret_identity:
  "\<not> secret_key ''dev''" "\<not> secret_key ''ino''" "\<not> secret_key ''size''" "\<not> secret_key ''mtime_ns''" "\<not> secret_key ''ctime_ns''"
  by (rule plain_key, code_simp)+

lemma not_secret_counts:
  "\<not> secret_key ''email''" "\<not> secret_key ''phone''" "\<not> secret_key ''resident_id''" "\<not> secret_key ''payment_card''" "\<not> secret_key ''bank_account''" "\<not> secret_key ''person_name''" "\<not> secret_key ''address''" "\<not> secret_key ''local_path''"
  by (rule plain_key, code_simp)+

lemma not_secret_upload [simp]:
  "k \<in> set SCOPE_KEYS \<Longrightarrow> \<not> secret_key k" "k \<in> set IDENTITY_KEYS \<Longrightarrow> \<not> secret_key k" "k \<in> set COUNT_KINDS \<Longrightarrow> \<not> secret_key k"
  unfolding SCOPE_KEYS_def IDENTITY_KEYS_def COUNT_KINDS_def list.set
  using not_secret_other not_secret_scope not_secret_identity not_secret_counts by blast+

lemma upload_event_sound: "sound db0 db \<Longrightarrow> sound db0 (upload_event t i e s db)"
  unfolding upload_event_def by (intro sound_log_audit) simp_all

lemma close_upload_sound:
  assumes "ledger_inv db0 \<Longrightarrow> concealed_dict (ag_metadata row)" "sound db0 db"
  shows "sound db0 (close_upload t s row db)"
proof -
  have "ledger_inv db0 \<Longrightarrow> concealed_dict (dict_put ''phase'' (JStr s) (ag_metadata row))"
    by (intro concealed_dict_put assms(1)) simp_all
  then have "sound db0 (update_approval (pending_upload (ag_id row)) (ended t s row) db)"
    by (intro sound_update_approval assms(2)) (simp_all add: approval_ok_def approval_fk_def ended_def)
  then show ?thesis by (simp add: close_upload_def Let_def upload_event_sound)
qed

lemma close_uploads_sound:
  "(\<And>a. a \<in> set xs \<Longrightarrow> ledger_inv db0 \<Longrightarrow> concealed_dict (ag_metadata a)) \<Longrightarrow> sound db0 db \<Longrightarrow>
   sound db0 (fold (close_upload t s) xs db)"
  by (induction xs arbitrary: db) (auto intro!: close_upload_sound)


section \<open>Soundness\<close>

lemma fetched_concealed: "fetch_approval db i = Some a \<Longrightarrow> ledger_inv db \<Longrightarrow> concealed_dict (ag_metadata a)"
  by (auto dest!: fetch_approvalD simp: ledger_inv_def inv_at_def table_inv_def approval_ok_def)

lemma owned_uploadD:
  "owned_upload db i owner = Inr row \<Longrightarrow>
   fetch_approval db i = Some row \<and> ag_id row = i \<and> ag_action row = UPLOAD_ACTION \<and> owner = JStr (ag_requested_by row)"
  by (auto simp: owned_upload_def refused_def dest: fetch_approvalD split: option.splits if_splits)

lemma owned_upload_error: "owned_upload db i owner = Inl e \<Longrightarrow> Inl e = (refused :: 'a result)"
  by (auto simp: owned_upload_def refused_def split: option.splits if_splits)

lemma concealed_ints:
  assumes "set (map fst d) \<subseteq> ks" "\<And>k. k \<in> ks \<Longrightarrow> \<not> secret_key k" "list_all (\<lambda>(k, v). small_int most v) d"
  shows "concealed_dict d"
  using assms by (induction d) (auto simp: small_int_def split: json.splits)

lemma concealed_obj: "concealed_dict d \<Longrightarrow> concealed (JObj d)"
  by (simp add: concealed_dict_def)

lemma scope_metadata_concealed: "scope_metadata H u = Inr md \<Longrightarrow> concealed_dict md"
proof -
  assume "scope_metadata H u = Inr md"
  then obtain owner conversation workspace path destination channel sha identity counts h where
    i: "up_identity (us_identity u) = Inr identity" and c: "up_counts (us_counts u) = Inr counts" and
    md: "md = [(''schema_version'', JInt 1), (''phase'', JStr ''pending''), (''authorized_actor'', JStr owner),
             (''conversation_key'', JStr conversation), (''workspace'', JStr workspace), (''relative_path'', JStr path),
             (''destination_id'', JStr destination), (''request_channel_id'', JStr channel), (''sha256'', JStr sha),
             (''file_identity'', JObj identity), (''counts'', JObj counts), (''scope_hash'', JStr h)]"
    by (auto simp: scope_metadata_def Let_def)
  from i have "concealed_dict identity"
    by (intro concealed_ints [of _ "set IDENTITY_KEYS" "- 1"]) (auto simp: up_identity_def refused_def split: json.splits if_splits)
  then have 1: "concealed (JObj identity)" by (rule concealed_obj)
  from c have "concealed_dict counts"
    by (intro concealed_ints [of _ "set COUNT_KINDS" 1000000])
       (auto simp: up_counts_def refused_def list_all_iff image_subset_iff split: json.splits if_splits)
  then have 2: "concealed (JObj counts)" by (rule concealed_obj)
  show ?thesis unfolding md using 1 2 by (simp add: not_secret_other not_secret_scope concealed_dict_def)
qed

lemma owner_from_metadata: "scope_metadata H u = Inr md \<Longrightarrow> us_owner u = JStr (json_text (us_owner u))"
  by (auto simp: scope_metadata_def up_text_def refused_def json_text_def split: json.splits if_splits)

lemma request_upload_sound: "sound db (snd (request_upload H t i u ttl db))"
proof -
  have f: "sound db (fold (close_upload t s) (filter P (approvals db)) db)" for s P
    by (rule close_uploads_sound) (auto simp: ledger_inv_def inv_at_def table_inv_def approval_ok_def)
  show ?thesis
    by (auto simp: request_upload_def Let_def scope_metadata_concealed approval_ok_def
        split: json.splits sum.splits intro!: f upload_event_sound sound_add_approval)
qed

lemma consume_upload_sound: "sound db (snd (consume_upload H t i u db))"
proof (cases "owned_upload db i (us_owner u)")
  case (Inr row)
  from owned_uploadD [OF Inr] have m: "ledger_inv db \<Longrightarrow> concealed_dict (ag_metadata row)" by (auto intro: fetched_concealed)
  then have "ledger_inv db \<Longrightarrow> concealed_dict (dict_put ''phase'' (JStr ''consumed'') (ag_metadata row))"
    by (intro concealed_dict_put) simp_all
  then have "sound db (update_approval (pending_upload i) (granted t (us_owner u) (ag_metadata row)) db)"
    by (intro sound_update_approval) (simp_all add: approval_ok_def approval_fk_def granted_def)
  with m show ?thesis by (auto simp: consume_upload_def Inr Let_def intro!: close_upload_sound upload_event_sound)
qed (simp add: consume_upload_def)

lemma reject_upload_sound: "sound db (snd (reject_upload t i owner conversation db))"
proof (cases "owned_upload db i owner")
  case (Inr row)
  from owned_uploadD [OF Inr] have m: "ledger_inv db \<Longrightarrow> concealed_dict (ag_metadata row)" by (auto intro: fetched_concealed)
  then show ?thesis by (auto simp: reject_upload_def Inr Let_def split: option.splits intro!: close_upload_sound)
qed (simp add: reject_upload_def)

lemma upload_step_sound: "upload_step db db' \<Longrightarrow> sound db db'"
  by (induction rule: upload_step.induct) (auto intro: request_upload_sound consume_upload_sound reject_upload_sound)

interpretation consent: recorded_system consent_step ledger_inv extends_logs
  by unfold_locales (auto dest!: approval_step_sound upload_step_sound simp: consent_step_def sound_def extends_logs_def)


section \<open>Statuses\<close>

lemma upload_status_eq:
  "upload_status db i = Some st \<longleftrightarrow> (\<exists>a. fetch_approval db i = Some a \<and> ag_action a = UPLOAD_ACTION \<and> ag_status a = st)"
  by (auto simp: upload_status_def split: option.splits)

text \<open>What a step may do to a confirmation: nothing, or end it.\<close>

definition moved :: "ledger \<Rightarrow> ledger \<Rightarrow> string \<Rightarrow> string \<Rightarrow> bool" where
  "moved db db' i a \<longleftrightarrow> (\<exists>b. upload_status db' i = Some b \<and> (a = b \<or> upload_allowed a b))"

lemma moved_same: "fetch_approval db' i = fetch_approval db i \<Longrightarrow> upload_status db i = Some a \<Longrightarrow> moved db db' i a"
  by (simp add: moved_def upload_status_def)

lemma moved_update:
  assumes "upload_status db i = Some a" "fetch_approval db' i = map_option (\<lambda>r. if pending_upload j r then f r else r) (fetch_approval db i)"
    "\<And>r. ag_action (f r) = ag_action r" "\<And>r. ag_status (f r) \<in> {''approved'', ''rejected'', ''expired''}"
  shows "moved db db' i a"
proof -
  from assms(1) obtain r where r: "fetch_approval db i = Some r" "ag_action r = UPLOAD_ACTION" "ag_status r = a"
    by (auto simp: upload_status_eq)
  show ?thesis
  proof (cases "pending_upload j r")
    case True
    with r assms(2-4) have "upload_status db' i = Some (ag_status (f r))" by (simp add: upload_status_def)
    with True r assms(4) show ?thesis by (simp add: moved_def upload_allowed_def pending_upload_def)
  next
    case False
    with r assms(2) have "upload_status db' i = Some a" by (simp add: upload_status_def)
    then show ?thesis by (simp add: moved_def)
  qed
qed

lemma moved_close:
  assumes "upload_status db i = Some a" "s \<in> {''expired'', ''rejected''}"
  shows "moved db (close_upload t s row db) i a"
  by (rule moved_update [OF assms(1) fetch_close_upload]) (use assms(2) in auto)

lemma moved_trans: "moved db db1 i a \<Longrightarrow> (\<And>b. upload_status db1 i = Some b \<Longrightarrow> moved db1 db2 i b) \<Longrightarrow> moved db db2 i a"
  by (force simp: moved_def upload_allowed_def)

lemma moved_fold:
  "s \<in> {''expired'', ''rejected''} \<Longrightarrow> upload_status db i = Some a \<Longrightarrow> moved db (fold (close_upload t s) xs db) i a"
proof (induction xs arbitrary: db a)
  case (Cons x xs)
  have "moved db (close_upload t s x db) i a" by (rule moved_close) (use Cons.prems in auto)
  then show ?case unfolding fold.simps comp_def
    by (rule moved_trans) (rule Cons.IH [OF Cons.prems(1)])
qed (simp add: moved_same)

lemma request_upload_moved: "upload_status db i = Some a \<Longrightarrow> moved db (snd (request_upload H t j u ttl db)) i a"
proof -
  assume s: "upload_status db i = Some a"
  define old where "old = filter (\<lambda>a. owner_pending (json_text (us_owner u)) a \<and> overdue t a) (approvals db)"
  define db1 where "db1 = fold (close_upload t ''expired'') old db"
  have m: "moved db db1 i a" unfolding db1_def by (rule moved_fold [OF _ s]) simp
  have grow: "moved db (upload_event t j e st (add_approval r db1)) i a" for e st r
    by (rule moved_trans [OF m]) (auto simp: moved_def upload_status_eq fetch_add_approval)
  show ?thesis
    using s by (auto simp: request_upload_def Let_def m grow moved_same simp flip: old_def db1_def split: json.splits sum.splits)
qed

lemma consume_upload_moved: "upload_status db i = Some a \<Longrightarrow> moved db (snd (consume_upload H t j u db)) i a"
proof -
  assume s: "upload_status db i = Some a"
  have "moved db (upload_event t j e st (update_approval (pending_upload j) (granted t ow md) db)) i a" for e st ow md
    by (rule moved_update [OF s, where f = "granted t ow md" and j = j]) simp_all
  with s show ?thesis
    by (auto simp: consume_upload_def Let_def moved_same moved_close split: sum.splits)
qed

lemma reject_upload_moved: "upload_status db i = Some a \<Longrightarrow> moved db (snd (reject_upload t j ow cv db)) i a"
  by (auto simp: reject_upload_def Let_def moved_same moved_close split: sum.splits option.splits)

lemma decide_spares_upload:
  assumes "fetch_approval db i = Some r" "ag_action r = UPLOAD_ACTION" "decide_approval t j d by rsn db = (out, db')"
  shows "fetch_approval db' i = Some r"
proof (cases "i = j")
  case True
  with assms have "db' = db" by (auto simp: decide_approval_def UPLOAD_ACTION_def split: if_splits)
  with assms(1) show ?thesis by simp
next
  case False
  with fetch_approvalD [OF assms(1)] have j: "ag_id r \<noteq> j" by simp
  from assms(3) show ?thesis using assms(1) j
    by (cases rule: decide_approval_cases) (simp_all add: decided_ledger_def)
qed

lemma check_spares_upload:
  assumes "fetch_approval db i = Some r" "ag_action r = UPLOAD_ACTION" "check_approval t j tid sh eid db = Inr db'"
  shows "fetch_approval db' i = Some r"
proof -
  from check_approvalD [OF assms(3)] assms(1,2) have "i \<noteq> j" by (auto simp: UPLOAD_ACTION_def)
  with fetch_approvalD [OF assms(1)] assms(1,3) show ?thesis
    by (auto simp: check_approval_def Let_def split: option.splits if_splits)
qed

lemma approval_step_moved:
  assumes "approval_step db db'" "upload_status db i = Some a"
  shows "moved db db' i a"
proof -
  from assms(2) obtain r where r: "fetch_approval db i = Some r" "ag_action r = UPLOAD_ACTION"
    by (auto simp: upload_status_eq)
  from assms(1) have "fetch_approval db' i = Some r"
  proof cases
    case (request t j act rb tid eid rsn ttl md x)
    with r show ?thesis by (auto simp: request_approval_def Let_def fetch_add_approval split: if_splits)
  next
    case (decide t j d w rsn)
    with decide_spares_upload [OF r] show ?thesis by (metis prod.collapse)
  next
    case (consume t j tid sh eid)
    then show ?thesis by (rule check_spares_upload [OF r])
  qed
  with assms(2) r show ?thesis by (intro moved_same) simp_all
qed

interpretation upload_life: status_machine consent_step upload_status upload_allowed
proof
  fix s t k a
  assume "consent_step s t" "upload_status s k = Some a"
  then have "moved s t k a"
    unfolding consent_step_def
    by (auto elim!: upload_step.cases intro: request_upload_moved consume_upload_moved reject_upload_moved approval_step_moved)
  then show "\<exists>b. upload_status t k = Some b \<and> (a = b \<or> upload_allowed a b)" by (simp add: moved_def)
qed

section \<open>Numbers\<close>

definition few_pending :: "ledger \<Rightarrow> bool" where
  "few_pending db \<longleftrightarrow> (\<forall>owner. hits (owner_pending owner) (approvals db) \<le> MAX_PENDING_PER_OWNER)"

lemma hits_upd_le: "(\<And>a. P a \<Longrightarrow> Q (f a) \<Longrightarrow> Q a) \<Longrightarrow> hits Q (upd P f xs) \<le> hits Q xs"
  by (induction xs) (auto simp: upd_def)

lemma few_pending_close: "s \<noteq> ''pending'' \<Longrightarrow> few_pending db \<Longrightarrow> few_pending (close_upload t s row db)"
  unfolding few_pending_def approvals_close_upload
  by (intro allI order_trans [OF hits_upd_le]) (simp_all add: owner_pending_def)

lemma few_pending_fold: "s \<noteq> ''pending'' \<Longrightarrow> few_pending db \<Longrightarrow> few_pending (fold (close_upload t s) xs db)"
  by (induction xs arbitrary: db) (auto intro: few_pending_close)

lemma few_pending_event [simp]: "few_pending (upload_event t i e s db) = few_pending db"
  by (simp add: few_pending_def)

lemma few_pending_add:
  assumes "few_pending db" "hits (owner_pending (ag_requested_by r)) (approvals db) < MAX_PENDING_PER_OWNER"
  shows "few_pending (add_approval r db)"
proof -
  have "hits Q (xs @ [r]) = hits Q xs + (if Q r then 1 else 0)" for Q xs by (simp add: hits_def)
  with assms show ?thesis by (auto simp: few_pending_def add_approval_def owner_pending_def)
qed

lemma few_pending_step: "upload_step db db' \<Longrightarrow> few_pending db \<Longrightarrow> few_pending db'"
proof (induction rule: upload_step.induct)
  case (request db H t i u ttl)
  then have f: "few_pending (fold (close_upload t ''expired'') xs db)" for xs by (intro few_pending_fold) simp
  show ?case using request
    by (auto simp: request_upload_def Let_def f not_le intro!: few_pending_add split: json.splits sum.splits)
next
  case (consume db H t i u)
  have "few_pending (update_approval P (granted t ow md) db)" for P ow md
  proof -
    have "approvals (update_approval P (granted t ow md) db) = upd P (granted t ow md) (approvals db)"
      by (simp add: update_approval_def)
    with consume show ?thesis unfolding few_pending_def
      by (auto intro!: order_trans [OF hits_upd_le] simp: owner_pending_def)
  qed
  with consume show ?case by (auto simp: consume_upload_def Let_def few_pending_close split: sum.splits)
next
  case (reject db t i ow cv)
  then show ?case by (auto simp: reject_upload_def Let_def few_pending_close split: sum.splits option.splits)
qed

interpretation quota: recorded_system upload_step few_pending extends_logs
proof
  show "upload_step s t \<Longrightarrow> extends_logs s t" for s t by (drule upload_step_sound) (simp add: sound_def)
qed (auto intro: few_pending_step simp: extends_logs_def)


section \<open>A sample\<close>

definition sample_upload :: upload_scope where
  "sample_upload = \<lparr>us_owner = JStr ''u1'', us_conversation = JStr ''c1'', us_workspace = ''/w'', us_path = JStr ''d.txt'',
     us_destination = JStr ''x'', us_channel = JStr ''y'', us_sha256 = JStr (replicate 64 (CHR ''a'')),
     us_identity = JObj [(''dev'', JInt 1), (''ino'', JInt 1), (''size'', JInt 1), (''mtime_ns'', JInt 1), (''ctime_ns'', JInt 1)],
     us_counts = JObj [(''email'', JInt 2)]\<rparr>"

definition sample_scope :: dict where
  "sample_scope = [(''schema_version'', JInt 1), (''phase'', JStr ''pending''), (''authorized_actor'', JStr ''u1''),
     (''conversation_key'', JStr ''c1''), (''workspace'', JStr ''/w''), (''relative_path'', JStr ''d.txt''),
     (''destination_id'', JStr ''x''), (''request_channel_id'', JStr ''y''), (''sha256'', JStr (replicate 64 (CHR ''a''))),
     (''file_identity'', JObj [(''dev'', JInt 1), (''ino'', JInt 1), (''size'', JInt 1), (''mtime_ns'', JInt 1), (''ctime_ns'', JInt 1)]),
     (''counts'', JObj [(''email'', JInt 2)]), (''scope_hash'', JStr ''h'')]"

lemma sample_checks:
  "up_text 512 (JStr ''u1'') = Inr ''u1''" "up_text 512 (JStr ''c1'') = Inr ''c1''" "up_workspace ''/w'' = Inr ''/w''"
  "up_relative (JStr ''d.txt'') = Inr ''d.txt''" "up_text 128 (JStr ''x'') = Inr ''x''" "up_text 128 (JStr ''y'') = Inr ''y''"
  "up_digest (JStr (replicate 64 (CHR ''a''))) = Inr (replicate 64 (CHR ''a''))"
  by code_simp+

lemma sample_maps:
  "up_identity (us_identity sample_upload) = Inr [(''dev'', JInt 1), (''ino'', JInt 1), (''size'', JInt 1), (''mtime_ns'', JInt 1), (''ctime_ns'', JInt 1)]"
  "up_counts (us_counts sample_upload) = Inr [(''email'', JInt 2)]"
  by code_simp+

lemma sample_scope_metadata: "scope_metadata (\<lambda>_. ''h'') sample_upload = Inr sample_scope"
  unfolding scope_metadata_def sample_maps
  by (simp add: sample_upload_def sample_checks upload_scope_hash_def SCOPE_KEYS_def sample_scope_def)

lemma sample_request:
  obtains row db1 where "request_upload (\<lambda>_. ''h'') 5000000 ''p1'' sample_upload (JInt 60) sample_ledger = (Inr row, db1)"
    "fetch_approval db1 ''p1'' = Some row" "ag_metadata row = sample_scope" "ag_action row = UPLOAD_ACTION"
    "ag_status row = ''pending''" "ag_requested_by row = ''u1''" "ag_task_id row = None" "ag_execution_id row = None"
    "ag_expires_at row = Some 65000000" "ag_id row = ''p1''"
proof -
  have n: "filter (\<lambda>a. owner_pending ''u1'' a \<and> overdue 5000000 a) (approvals sample_ledger) = []"
    "hits (owner_pending ''u1'') (approvals sample_ledger) = 0"
    by (simp_all add: sample_defs owner_pending_def UPLOAD_ACTION_def)
  define row where "row = \<lparr>ag_id = ''p1'', ag_task_id = None, ag_execution_id = None, ag_action = UPLOAD_ACTION,
     ag_status = ''pending'', ag_requested_by = ''u1'', ag_decided_by = [],
     ag_reason = ''Document privacy confirmation required'', ag_metadata = sample_scope, ag_requested_at = 5000000,
     ag_decided_at = None, ag_expires_at = Some (5000000 + seconds 60)\<rparr>"
  have i: "insert_approval row sample_ledger = Inr (add_approval row sample_ledger)"
    by (simp add: insert_approval_def clash_def sample_defs row_def approval_fk_def fk_def)
  have "request_upload (\<lambda>_. ''h'') 5000000 ''p1'' sample_upload (JInt 60) sample_ledger =
      (Inr row, upload_event 5000000 ''p1'' ''requested'' ''pending'' (add_approval row sample_ledger))"
    unfolding request_upload_def sample_scope_metadata
    by (simp add: n sample_upload_def json_text_def MAX_TTL_SECONDS_def MAX_PENDING_PER_OWNER_def i flip: row_def)
  moreover have "fetch_approval (upload_event 5000000 ''p1'' ''requested'' ''pending'' (add_approval row sample_ledger)) ''p1'' = Some row"
    by (simp add: fetch_add_approval) (simp add: fetch_approval_def sample_defs row_def)
  ultimately show ?thesis by (rule that) (simp_all add: row_def seconds_def)
qed


section \<open>Properties\<close>

lemma consume_uploadD:
  assumes "consume_upload H t i u db = (Inr a, db1)"
  obtains row where "fetch_approval db i = Some row" "phase_pending row" "ag_action row = UPLOAD_ACTION"
    "us_owner u = JStr (ag_requested_by row)" "\<not> overdue t row" "valid_scope H row u"
    "a = granted t (us_owner u) (ag_metadata row) row" "fetch_approval db1 i = Some a"
proof (cases "owned_upload db i (us_owner u)")
  case (Inl e)
  with assms show ?thesis by (simp add: consume_upload_def)
next
  case (Inr row)
  note row = owned_uploadD [OF Inr]
  have c: "phase_pending row" "\<not> overdue t row" "valid_scope H row u"
    "a = granted t (us_owner u) (ag_metadata row) row"
    "db1 = upload_event t i ''consumed'' ''approved'' (update_approval (pending_upload i) (granted t (us_owner u) (ag_metadata row)) db)"
    using assms by (auto simp: consume_upload_def Inr Let_def refused_def split: if_splits)
  have "pending_upload i row" using c(1) row by (simp add: pending_upload_def phase_pending_def)
  with c row have "fetch_approval db1 i = Some a" by simp
  with c row show ?thesis by (intro that) simp_all
qed

lemma used_upload:
  assumes "upload_status db i = Some ''approved''"
  shows "consume_upload H t i u db = (refused, db)" "reject_upload t i owner conversation db = (refused, db)"
proof -
  from assms obtain r where r: "fetch_approval db i = Some r" "ag_status r = ''approved''" by (auto simp: upload_status_eq)
  have n: "ag_status row = ''approved''" if "owned_upload db i ow = Inr row" for ow row
    using owned_uploadD [OF that] r by simp
  show "consume_upload H t i u db = (refused, db)"
    by (cases "owned_upload db i (us_owner u)")
       (auto simp: consume_upload_def phase_pending_def dest: n owned_upload_error)
  show "reject_upload t i owner conversation db = (refused, db)"
    by (cases "owned_upload db i owner")
       (auto simp: reject_upload_def phase_pending_def dest: n owned_upload_error)
qed

lemma valid_scopeD:
  assumes "valid_scope H row u"
  shows "ag_task_id row = None \<and> ag_execution_id row = None \<and>
     (\<exists>c s d w p i. us_conversation u = JStr c \<and> us_sha256 u = JStr s \<and> us_destination u = JStr d \<and>
        up_workspace (us_workspace u) = Inr w \<and> up_relative (us_path u) = Inr p \<and> us_identity u = JObj i \<and>
        stored_is (ag_metadata row) ''conversation_key'' (JStr c) \<and> stored_is (ag_metadata row) ''sha256'' (JStr s) \<and>
        stored_is (ag_metadata row) ''destination_id'' (JStr d) \<and> stored_is (ag_metadata row) ''workspace'' (JStr w) \<and>
        stored_is (ag_metadata row) ''relative_path'' (JStr p) \<and> stored_is (ag_metadata row) ''file_identity'' (JObj i)) \<and>
     (\<exists>h. upload_scope_hash H (ag_metadata row) = Inr h \<and> map_of (ag_metadata row) ''scope_hash'' = Some (JStr h))"
proof -
  have t: "up_text n j = Inr x \<Longrightarrow> j = JStr x" for n j x by (auto simp: up_text_def refused_def split: json.splits if_splits)
  have d: "up_digest j = Inr x \<Longrightarrow> j = JStr x" for j x by (auto simp: up_digest_def refused_def split: json.splits if_splits)
  have o: "up_identity j = Inr x \<Longrightarrow> j = JObj x" for j x by (auto simp: up_identity_def refused_def split: json.splits if_splits)
  from assms show ?thesis
    unfolding valid_scope_def scope_matches_def Let_def
    by (auto split: if_splits dest!: t d o)
qed

lemma sample_consume:
  obtains row db1 a db2 where "request_upload (\<lambda>_. ''h'') 5000000 ''p1'' sample_upload (JInt 60) sample_ledger = (Inr row, db1)"
    "consume_upload (\<lambda>_. ''h'') 6000000 ''p1'' sample_upload db1 = (Inr a, db2)"
proof -
  obtain row db1 where r: "request_upload (\<lambda>_. ''h'') 5000000 ''p1'' sample_upload (JInt 60) sample_ledger = (Inr row, db1)"
    "fetch_approval db1 ''p1'' = Some row" "ag_metadata row = sample_scope" "ag_action row = UPLOAD_ACTION"
    "ag_status row = ''pending''" "ag_requested_by row = ''u1''" "ag_task_id row = None" "ag_execution_id row = None"
    "ag_expires_at row = Some 65000000"
    by (rule sample_request)
  have o: "owned_upload db1 ''p1'' (us_owner sample_upload) = Inr row"
    by (simp add: owned_upload_def r sample_upload_def sample_scope_def)
  have v: "valid_scope (\<lambda>_. ''h'') row sample_upload"
    unfolding valid_scope_def scope_matches_def sample_maps
    by (simp add: r sample_upload_def sample_checks stored_is_def sample_scope_def upload_scope_hash_def SCOPE_KEYS_def)
  have "\<exists>a db2. consume_upload (\<lambda>_. ''h'') 6000000 ''p1'' sample_upload db1 = (Inr a, db2)"
    by (simp add: consume_upload_def Let_def o v phase_pending_def overdue_def r sample_scope_def)
  with r(1) that show ?thesis by blast
qed

text \<open>C14. Consent to an upload is single use and exact. When a send is granted, the confirmation belonged to this requester, was pending
  and had not expired; the conversation, the contents hash, the destination, the workspace, the path and the identity of the
  file that is about to be sent are those that were confirmed, and the stored hash of the scope is intact. From then on, over every sequence of upload and
  approval operations, the confirmation stays approved: every further use and every late rejection is refused and changes nothing.\<close>

theorem upload_consent_single_use:
  assumes "consume_upload H t i u db = (Inr a, db1)" "consent_step\<^sup>*\<^sup>* db1 db2"
  shows "(\<exists>row. fetch_approval db i = Some row \<and> ag_status row = ''pending'' \<and> us_owner u = JStr (ag_requested_by row) \<and>
       (\<exists>x. ag_expires_at row = Some x \<and> t < x) \<and>
       (\<exists>c s d w p f. us_conversation u = JStr c \<and> us_sha256 u = JStr s \<and> us_destination u = JStr d \<and>
          up_workspace (us_workspace u) = Inr w \<and> up_relative (us_path u) = Inr p \<and> us_identity u = JObj f \<and>
          stored_is (ag_metadata row) ''conversation_key'' (JStr c) \<and> stored_is (ag_metadata row) ''sha256'' (JStr s) \<and>
          stored_is (ag_metadata row) ''destination_id'' (JStr d) \<and> stored_is (ag_metadata row) ''workspace'' (JStr w) \<and>
          stored_is (ag_metadata row) ''relative_path'' (JStr p) \<and> stored_is (ag_metadata row) ''file_identity'' (JObj f)) \<and>
       (\<exists>h. upload_scope_hash H (ag_metadata row) = Inr h \<and> map_of (ag_metadata row) ''scope_hash'' = Some (JStr h))) \<and>
     consume_upload H' t' i u' db2 = (refused, db2) \<and> reject_upload t' i owner conversation db2 = (refused, db2)"
proof -
  from assms(1) obtain row where row: "fetch_approval db i = Some row" "phase_pending row" "ag_action row = UPLOAD_ACTION"
    "us_owner u = JStr (ag_requested_by row)" "\<not> overdue t row" "valid_scope H row u"
    "a = granted t (us_owner u) (ag_metadata row) row" "fetch_approval db1 i = Some a"
    by (rule consume_uploadD)
  from row have "upload_status db1 i = Some ''approved''" by (simp add: upload_status_def)
  then have s: "upload_status db2 i = Some ''approved''"
    by (rule upload_life.final_status [OF assms(2)]) (simp add: upload_allowed_def)
  have e: "\<exists>x. ag_expires_at row = Some x \<and> t < x" using row(5) by (auto simp: overdue_def split: option.splits)
  show ?thesis
    by (rule conjI [OF exI [where x = row]])
       (use row(1,2,4) e valid_scopeD [OF row(6)] used_upload [OF s] in \<open>simp_all add: phase_pending_def\<close>)
qed

lemma upload_consent_single_use_witness:
  "\<exists>row db1 a db2. request_upload (\<lambda>_. ''h'') 5000000 ''p1'' sample_upload (JInt 60) sample_ledger = (Inr row, db1) \<and>
     consume_upload (\<lambda>_. ''h'') 6000000 ''p1'' sample_upload db1 = (Inr a, db2) \<and>
     consume_upload (\<lambda>_. ''h'') 7000000 ''p1'' sample_upload db2 = (refused, db2)"
proof -
  obtain row db1 a db2 where c: "request_upload (\<lambda>_. ''h'') 5000000 ''p1'' sample_upload (JInt 60) sample_ledger = (Inr row, db1)"
    "consume_upload (\<lambda>_. ''h'') 6000000 ''p1'' sample_upload db1 = (Inr a, db2)"
    by (rule sample_consume)
  from upload_consent_single_use [OF c(2) rtranclp.rtrancl_refl] c show ?thesis by blast
qed

text \<open>At most sixteen confirmations of an owner wait at any time, whatever sequence of upload operations runs.\<close>

theorem upload_confirmations_bounded:
  assumes "upload_step\<^sup>*\<^sup>* db db'" "\<forall>owner. hits (owner_pending owner) (approvals db) \<le> 16"
  shows "hits (owner_pending owner) (approvals db') \<le> 16"
  using quota.run_inv [OF assms(1)] assms(2) by (simp add: few_pending_def MAX_PENDING_PER_OWNER_def)

lemma upload_confirmations_bounded_witness:
  "\<exists>row db1. request_upload (\<lambda>_. ''h'') 5000000 ''p1'' sample_upload (JInt 60) sample_ledger = (Inr row, db1) \<and>
     hits (owner_pending ''u1'') (approvals db1) \<le> 16"
proof -
  obtain row db1 a db2 where c: "request_upload (\<lambda>_. ''h'') 5000000 ''p1'' sample_upload (JInt 60) sample_ledger = (Inr row, db1)"
    by (rule sample_consume)
  from upload_step.request [of sample_ledger "\<lambda>_. ''h''" 5000000 "''p1''" sample_upload "JInt 60"] c
  have "upload_step\<^sup>*\<^sup>* sample_ledger db1" by auto
  moreover have "\<forall>owner. hits (owner_pending owner) (approvals sample_ledger) \<le> 16"
    by (simp add: sample_defs owner_pending_def UPLOAD_ACTION_def)
  ultimately have "hits (owner_pending ''u1'') (approvals db1) \<le> 16" by (rule upload_confirmations_bounded)
  with c show ?thesis by blast
qed

end
