(* ===== verification/Admission_Laws.thy ===== *)
theory Admission_Laws
  imports Op_Admission
begin

text \<open>
  What admission guarantees: exclusive ownership, one apply per plan, idempotent intake and approval, and a
  complete hold of legacy work. The definitions are those of \<open>Op_Admission\<close>.
\<close>

section \<open>Ownership\<close>

lemma claim_unique:
  "ledger_inv db \<Longrightarrow> c \<in> set (task_claims db) \<Longrightarrow> d \<in> set (task_claims db) \<Longrightarrow> cl_task_id c = cl_task_id d \<Longrightarrow> c = d"
  using plan_keys(3) [of db] by (auto simp: distinct_map inj_on_def)

text \<open>C22. Ownership is exclusive. At any moment at most one worker record passes the ownership check of a task: two
  records of the same task that both pass name the same worker, the same execution and the same owner.\<close>

theorem ownership_is_exclusive:
  assumes "require_execution_ownership t db (Some r) owner = Inr q" "require_execution_ownership t db (Some r') owner' = Inr q'"
    and "cr_task_id r = cr_task_id r'" "ledger_inv db"
  shows "cr_worker_id r = cr_worker_id r' \<and> cr_execution_id r = cr_execution_id r' \<and> owner = owner' \<and> q = q'"
proof -
  from assms(1,2) have "owned_by t db r owner q" "owned_by t db r' owner' q'" "q \<in> set (task_operations db)" "q' \<in> set (task_operations db)"
    by (auto simp: require_execution_ownership_def split: if_splits option.splits dest!: find_SomeD)
  moreover from this obtain c d where "c \<in> set (task_claims db)" "cl_task_id c = cr_task_id r" "cl_worker_id c = cr_worker_id r"
    "cl_execution_id c = cr_execution_id r" "cl_owner_key c = owner" and "d \<in> set (task_claims db)" "cl_task_id d = cr_task_id r'"
    "cl_worker_id d = cr_worker_id r'" "cl_execution_id d = cr_execution_id r'" "cl_owner_key d = owner'"
    unfolding owned_by_def list_ex_iff by blast
  moreover from this claim_unique [OF assms(4), of c d] assms(3) have "c = d" by simp
  moreover have "distinct (map op_task_id (task_operations db))" by (rule plan_keys(2) [OF assms(4)])
  ultimately show ?thesis
    using assms(3) by (auto simp: owned_by_def distinct_map inj_on_def)
qed

lemma loaded_spec_kind: "spec_restored d = Inr s \<Longrightarrow> os_kind s \<in> {JStr ''request'', JStr ''apply''}"
proof -
  assume "spec_restored d = Inr s"
  then have v: "spec_validate (spec_of d) = Inr s" by (auto simp: spec_restored_def split: if_splits)
  with spec_validate_same [OF v] show ?thesis by (simp add: spec_validate_Inr)
qed

text \<open>C26. A reviewed apply writes what was admitted. When a worker record passes \<open>require_apply_ownership\<close> for a plan,
  its operation runs in the workspace of the plan and is the apply operation of this plan, or a request
  operation of the plan's own task whose changes all create files.\<close>

theorem apply_ownership_scope:
  assumes "require_apply_ownership t db (Some r) plan owner = Inr ()"
  shows "\<exists>q s. owned_by t db r owner q \<and> spec_restored (op_spec q) = Inr s \<and> os_workspace s = JStr (pl_workspace plan) \<and>
    (os_kind s = JStr ''apply'' \<and> os_plan_id s = JStr (pl_id plan) \<and> op_parent_task_id q = Some (pl_task_id plan) \<or>
     os_kind s = JStr ''request'' \<and> cr_task_id r = pl_task_id plan \<and> list_all (\<lambda>x. fc_action x = ''create'') (pl_changes plan))"
proof -
  from assms obtain q s where q: "require_execution_ownership t db (Some r) owner = Inr q" and s: "spec_restored (op_spec q) = Inr s"
    and scope: "os_workspace s = JStr (pl_workspace plan)"
      "os_kind s = JStr ''apply'' \<Longrightarrow> os_plan_id s = JStr (pl_id plan) \<and> op_parent_task_id q = Some (pl_task_id plan)"
      "os_kind s = JStr ''request'' \<Longrightarrow> cr_task_id r = pl_task_id plan \<and> list_all (\<lambda>x. fc_action x = ''create'') (pl_changes plan)"
    by (auto simp: require_apply_ownership_def list_all_iff list_ex_iff split: if_splits)
  from q have "owned_by t db r owner q"
    by (auto simp: require_execution_ownership_def split: if_splits option.splits dest!: find_SomeD)
  moreover from loaded_spec_kind [OF s] have "os_kind s = JStr ''apply'' \<or> os_kind s = JStr ''request''" by blast
  ultimately show ?thesis using s scope by blast
qed

section \<open>Intake is idempotent\<close>

lemma admit_taskE:
  assumes "admit H t a i parent db = Inr (row, db')"
  obtains db1 where "upsert_task (intake_task t a i) db = Inr db1" "agent_tasks db' = agent_tasks db1"
    "fetch_operation db' i \<noteq> None" "fetch_task db' i = Some row"
proof -
  from assms have op: "fetch_operation db' i \<noteq> None" "fetch_task db' i = Some row"
    by (auto elim!: admitE simp: fetch_operation_def find_key_append intake_operation_def split: option.splits)
  from assms obtain db1 where "upsert_task (intake_task t a i) db = Inr db1" "agent_tasks db' = agent_tasks db1"
    by (auto simp: admit_def statement_defs dest!: bind_intake_operations split: option.splits if_splits)
  with op show ?thesis by (rule that [rotated 2])
qed

lemma upsert_source:
  assumes "upsert_task r db = Inr db1" "fetch_task db (tk_id r) = None" "tk_source_request_id r = Some x"
    and "List.find (\<lambda>k. tk_source_request_id k = Some x) (agent_tasks db) = None"
  shows "List.find (\<lambda>k. tk_source_request_id k = Some x) (agent_tasks db1) = Some r"
  using assms by (auto simp: upsert_task_def statement_defs find_append_new)

lemma upsert_adopted:
  assumes "upsert_task r db = Inr db1" "List.find (\<lambda>k. tk_source_request_id k = Some x) (agent_tasks db) = Some p"
    and "tk_id r = tk_id p"
  shows "\<exists>k. List.find (\<lambda>k. tk_source_request_id k = Some x) (agent_tasks db1) = Some k \<and>
    tk_id k = tk_id p \<and> tk_requested_by k = tk_requested_by r"
proof -
  from assms(2) have "fetch_task db (tk_id p) \<noteq> None"
    by (auto simp: fetch_task_def find_None_iff dest!: find_SomeD)
  with assms show ?thesis by (auto simp: upsert_task_def statement_defs find_key_upd)
qed

lemma resubmit:
  assumes "List.find (\<lambda>k. tk_source_request_id k = Some x) (agent_tasks db) = Some k" "tk_requested_by k = in_owner b"
    and "fetch_operation db (tk_id k) \<noteq> None" "worker_ready t db (in_generation b)"
    and "in_source_request_id b = Some x" "x \<noteq> []" "in_conversation_key b = None"
  shows "submit_conn H t b db = Inr (k, db)"
  using assms by (simp add: submit_conn_def prior_intake_def)

lemma prior_intakeE:
  assumes "prior_intake H t a k db = Inr (found, db1)"
  obtains (known) "found = Inl k" "fetch_operation db (tk_id k) \<noteq> None" "agent_tasks db1 = agent_tasks db"
      "task_operations db1 = task_operations db" "tk_requested_by k = in_owner a"
    | (adopted) "found = Inr (tk_id k)" "agent_tasks db1 = agent_tasks db"
  using assms
  by (auto simp: prior_intake_def statement_defs dest!: bind_intake_operations split: option.splits if_splits)


section \<open>Approving and applying\<close>

lemma owned_planD: "owned_plan db p ow = Some x \<Longrightarrow> x \<in> set (change_plans db) \<and> pl_id x = p \<and> pl_owner_key x = ow"
  by (auto simp: owned_plan_def dest: find_SomeD)

text \<open>Approving changes the plan and its feedback approvals, nothing else.\<close>

lemma approveE:
  assumes "decide_conn t p ow h False db = Inr db'" "ledger_inv db"
  obtains plan parent where "fetch_plan db p = Some plan" "owned_plan db p ow = Some plan" "pl_plan_hash plan = h"
    "pl_expires_at plan > t" "pl_status plan \<in> {''pending'', ''approved''}" "fetch_task db (pl_task_id plan) = Some parent"
    "tk_status parent \<in> {''queued'', ''running'', ''awaiting_approval''}" "require_plan_conn db p = Inr ()"
    "change_plans db' = upd (\<lambda>x. pl_id x = p) (\<lambda>x. x\<lparr>pl_status := ''approved'', pl_decided_by := ow\<rparr>) (change_plans db)"
    "agent_tasks db' = agent_tasks db" "task_operations db' = task_operations db" "executions db' = executions db"
    "operation_workers db' = operation_workers db"
proof -
  from assms(1) obtain plan parent where plan: "owned_plan db p ow = Some plan" and
    rest: "pl_plan_hash plan = h" "pl_expires_at plan > t" "pl_status plan \<in> {''pending'', ''approved''}"
      "fetch_task db (pl_task_id plan) = Some parent" "tk_status parent \<in> {''queued'', ''running'', ''awaiting_approval''}"
      "require_plan_conn db p = Inr ()"
      "change_plans db' = upd (\<lambda>x. pl_id x = p) (\<lambda>x. x\<lparr>pl_status := ''approved'', pl_decided_by := ow\<rparr>) (change_plans db)"
      "agent_tasks db' = agent_tasks db" "task_operations db' = task_operations db" "executions db' = executions db"
      "operation_workers db' = operation_workers db"
    by (auto simp: decide_conn_def owned_plan_def Let_def statement_defs not_le split: option.splits if_splits)
  from owned_planD [OF plan] fetch_plan_unique [OF assms(2), of plan] have "fetch_plan db p = Some plan" by auto
  from this plan rest show ?thesis by (rule that)
qed


lemma owned_plan_update:
  assumes "change_plans db' = upd (\<lambda>x. pl_id x = p) (\<lambda>x. x\<lparr>pl_status := st, pl_decided_by := ow\<rparr>) (change_plans db)"
    and "owned_plan db p ow' = Some plan"
  shows "owned_plan db' p ow' = Some (plan\<lparr>pl_status := st, pl_decided_by := ow\<rparr>)"
proof -
  have "List.find (\<lambda>x. pl_id x = p \<and> pl_owner_key x = ow') (upd (\<lambda>x. pl_id x = p) (\<lambda>x. x\<lparr>pl_status := st, pl_decided_by := ow\<rparr>) rows) =
      map_option (\<lambda>x. x\<lparr>pl_status := st, pl_decided_by := ow\<rparr>) (List.find (\<lambda>x. pl_id x = p \<and> pl_owner_key x = ow') rows)" for rows :: "plan_row list"
    by (induction rows) auto
  with assms show ?thesis by (simp add: owned_plan_def)
qed

lemma admit_plans: "admit H t a i parent db = Inr (row, db') \<Longrightarrow> change_plans db' = change_plans db"
  by (auto simp: admit_def upsert_task_def bind_intake_def bind_conn_def session_conn_def Let_def statement_defs
      split: option.splits if_splits)

text \<open>The admission of a plan without an apply task.\<close>

lemma new_applyE:
  assumes "submit_conn H t a db = Inr (row, db')" "os_kind (in_spec a) = JStr ''apply''" "os_plan_id (in_spec a) = JStr p"
    and "in_source_request_id a = None" "apply_admissions db p = []" "fetch_task db (in_new_task_id a) = None"
  obtains plan where "owned_plan db p (in_owner a) = Some plan" "pl_workspace plan = in_root a" "pl_status plan = ''approved''"
    "admit H t a (in_new_task_id a) (Some (pl_task_id plan)) db = Inr (row, db')"
    "fetch_task db' (in_new_task_id a) = Some (intake_task t a (in_new_task_id a))"
    "row = intake_task t a (in_new_task_id a)"
proof -
  from assms obtain plan where plan: "owned_plan db p (in_owner a) = Some plan" "pl_workspace plan = in_root a" "pl_status plan = ''approved''"
    and ad: "admit H t a (in_new_task_id a) (Some (pl_task_id plan)) db = Inr (row, db')"
    by (auto simp: submit_conn_def admit_apply_def existing_apply_conn_def json_text_def split: if_splits option.splits)
  from ad obtain db1 where "upsert_task (intake_task t a (in_new_task_id a)) db = Inr db1" "agent_tasks db' = agent_tasks db1"
    "fetch_operation db' (in_new_task_id a) \<noteq> None" and row: "fetch_task db' (in_new_task_id a) = Some row" by (rule admit_taskE)
  then have "fetch_task db' (in_new_task_id a) = Some (intake_task t a (in_new_task_id a))"
    using assms(6) by (auto simp: upsert_task_def fetch_task_def statement_defs find_append_new)
  with plan ad row show ?thesis by (intro that) simp_all
qed

lemma existing_apply:
  assumes "apply_admissions db p = [(row, q)]" "owned_plan db p ow = Some plan" "tk_requested_by row = ow" "pl_workspace plan = w"
    and "op_parent_task_id q = Some (pl_task_id plan)" "json_is (tk_metadata row) ''workspace_root'' w" "pl_status plan = ''approved''"
  shows "existing_apply_conn db p ow w = Inr (Some row)"
  using assms by (simp add: existing_apply_conn_def)

lemma sole_admission:
  assumes "ledger_inv db" "hits (apply_for p) (task_operations db) = 1" "q \<in> set (task_operations db)" "apply_for p q"
    and "fetch_task db (op_task_id q) = Some row"
  shows "apply_admissions db p = [(row, q)]"
proof -
  have "length (apply_admissions db p) = 1" using apply_admissions_count [OF assms(1)] assms(2) by simp
  then obtain x where "apply_admissions db p = [x]" by (auto simp: length_Suc_conv)
  moreover have "(row, q) \<in> set (apply_admissions db p)"
    using assms(3,4) fetch_taskD [OF assms(5)] by (auto simp: apply_admissions_def apply_for_def intro!: bexI [of _ row])
  ultimately show ?thesis by simp
qed

text \<open>C24. Approving twice applies once. When the approval of a plan has admitted its apply task, repeating the approval,
  at any later time and for any worker, admits nothing: it returns the same task and leaves the ledger as it is.\<close>

theorem approval_admits_once:
  assumes "approve_and_submit_apply env H t p ow h g i db = Inr ((row, True), db')" "ledger_inv db" "fetch_task db i = None"
  shows "approve_and_submit_apply env H t' p ow h g' i' db' = Inr ((row, False), db')"
proof -
  from assms(1) obtain plan0 w db1 where plan0: "owned_plan db p ow = Some plan0" "pl_plan_hash plan0 = h"
    and w: "check_workspace env (pl_workspace plan0) ow = Inr w" and ex: "existing_apply_conn db p ow w = Inr None"
    and d: "decide_conn t p ow h False db = Inr db1"
    and s: "submit_conn H t \<lparr>in_spec = default_spec\<lparr>os_kind := JStr ''apply'', os_prompt := JStr APPLY_PROMPT,
                         os_workspace := JStr w, os_plan_id := JStr p\<rparr>,
                       in_owner = ow, in_generation = g, in_root = w, in_source_request_id = None,
                       in_project_id = None, in_parent_task_id = None, in_conversation_key = None,
                       in_new_task_id = i, in_new_session_id = []\<rparr> db1 = Inr (row, db')" (is "submit_conn H t ?a db1 = _")
    by (auto simp: approve_and_submit_apply_def split: option.splits if_splits)
  have inv1: "ledger_inv db1" using decide_conn_sound [OF d sound_refl] assms(2) by (rule soundD)
  have inv': "ledger_inv db'" using submit_conn_sound [OF s sound_refl] inv1 by (rule soundD)
  have up: "change_plans db1 = upd (\<lambda>x. pl_id x = p) (\<lambda>x. x\<lparr>pl_status := ''approved'', pl_decided_by := ow\<rparr>) (change_plans db)"
    and t1: "agent_tasks db1 = agent_tasks db" and o1: "task_operations db1 = task_operations db"
    by (rule approveE [OF d assms(2)], assumption)+
  let ?plan = "plan0\<lparr>pl_status := ''approved'', pl_decided_by := ow\<rparr>"
  have own1: "owned_plan db1 p ow = Some ?plan" using up plan0(1) by (rule owned_plan_update)
  have none: "hits (apply_for p) (task_operations db) = 0"
    using existing_none [OF ex] apply_admissions_count [OF assms(2), of p] by simp
  have none1: "apply_admissions db1 p = []"
    using existing_none [OF ex] by (simp only: apply_admissions_def t1 o1)
  have "fetch_task db1 i = None" using assms(3) t1 by (simp add: fetch_task_def)
  with s none1 obtain plan where plan: "owned_plan db1 p ow = Some plan" "pl_workspace plan = w" "pl_status plan = ''approved''"
    and ad: "admit H t ?a i (Some (pl_task_id plan)) db1 = Inr (row, db')"
    and row: "fetch_task db' i = Some (intake_task t ?a i)" "row = intake_task t ?a i"
    by (elim new_applyE [where p = p]) simp_all
  from plan(1) own1 have "plan = ?plan" by simp
  let ?q = "intake_operation ?a i (Some (pl_task_id plan)) (asdict (in_spec ?a))"
  have ops: "task_operations db' = task_operations db @ [?q]" using ad o1 by (auto elim!: admitE)
  have af: "apply_for p ?q" by (simp add: apply_for_intake)
  have "apply_admissions db' p = [(row, ?q)]"
    using none ops af row by (intro sole_admission [OF inv']) (simp_all add: hits_def intake_operation_def)
  moreover have own': "owned_plan db' p ow = Some plan" using plan(1) admit_plans [OF ad] by (simp add: owned_plan_def)
  ultimately have "existing_apply_conn db' p ow w = Inr (Some row)"
    using plan row by (intro existing_apply) (auto simp: intake_operation_def json_is_def intake_metadata_def)
  with own' \<open>plan = ?plan\<close> plan0(2) w show ?thesis by (simp add: approve_and_submit_apply_def)
qed

section \<open>Holding legacy work\<close>

lemma not_holdableI:
  assumes "tk_status k \<in> set TASK_TERMINAL_STATUSES \<or> (\<exists>v\<in>set (execution_events db). ev_task_id v = Some (tk_id k) \<and>
      ev_event_type v = ''operation.legacy_upgrade_held'')"
    and "\<And>e. e \<in> set (executions db) \<Longrightarrow> ex_task_id e = tk_id k \<Longrightarrow> ex_status e \<in> set EXECUTION_TERMINAL_STATUSES"
    and "\<And>c. c \<in> set (task_claims db) \<Longrightarrow> cl_task_id c = tk_id k \<Longrightarrow> cl_released c"
  shows "\<not> legacy_holdable db k"
  using assms by (auto simp: legacy_holdable_def list_ex_iff TASK_TERMINAL_STATUSES_def)

lemma hold_attempts:
  assumes "for_each (hold_attempt t r p) es db = Inr y"
  shows "agent_tasks y = agent_tasks db" "task_operations y = task_operations db" "task_claims y = task_claims db"
    "set (execution_events db) \<subseteq> set (execution_events y)"
    "e \<in> set (executions y) \<Longrightarrow> e \<in> set (executions db) \<or> ex_status e = ''lost''"
    "e \<in> set (executions y) \<Longrightarrow> e \<in> set es \<Longrightarrow> ex_status e \<in> set EXECUTION_TERMINAL_STATUSES"
proof -
  let ?P = "\<lambda>x. agent_tasks x = agent_tasks db \<and> task_operations x = task_operations db \<and> task_claims x = task_claims db \<and>
    set (execution_events db) \<subseteq> set (execution_events x) \<and>
    (\<forall>e\<in>set (executions x). e \<in> set (executions db) \<or> ex_status e = ''lost'')"
  have "?P y"
    by (rule for_each_inv [OF assms, where P = ?P]) (auto simp: hold_attempt_def statement_defs set_upd)
  then show "agent_tasks y = agent_tasks db" "task_operations y = task_operations db" "task_claims y = task_claims db"
    "set (execution_events db) \<subseteq> set (execution_events y)"
    "e \<in> set (executions y) \<Longrightarrow> e \<in> set (executions db) \<or> ex_status e = ''lost''" by auto
  let ?Q = "\<lambda>a x. \<forall>e\<in>set (executions x). ex_id e = ex_id a \<longrightarrow> ex_status e \<in> set EXECUTION_TERMINAL_STATUSES"
  have "?Q a y" if "a \<in> set es" for a
    by (rule for_each_establish [OF assms that, where Q = ?Q])
       (auto simp: hold_attempt_def statement_defs set_upd EXECUTION_TERMINAL_STATUSES_def)
  then show "e \<in> set (executions y) \<Longrightarrow> e \<in> set es \<Longrightarrow> ex_status e \<in> set EXECUTION_TERMINAL_STATUSES" by blast
qed

lemma hold_legacy_taskE:
  assumes "hold_legacy_task t r p db = Inr y"
  obtains f where "agent_tasks y = upd (\<lambda>k. tk_id k = tk_id p) f (agent_tasks db)" "\<And>k. tk_id (f k) = tk_id k"
    "\<And>e. e \<in> set (executions y) \<Longrightarrow> e \<in> set (executions db) \<or> ex_status e = ''lost''"
    "\<And>e. e \<in> set (executions y) \<Longrightarrow> ex_task_id e = tk_id p \<Longrightarrow> ex_status e \<in> set EXECUTION_TERMINAL_STATUSES"
    "task_claims y = upd (\<lambda>c. cl_task_id c = tk_id p \<and> \<not> cl_released c) (\<lambda>c. c\<lparr>cl_released := True, cl_expires_at := t\<rparr>) (task_claims db)"
    "task_operations y = task_operations db" "set (execution_events db) \<subseteq> set (execution_events y)"
    "\<exists>v\<in>set (execution_events y). ev_task_id v = Some (tk_id p) \<and> ev_event_type v = ''operation.legacy_upgrade_held''"
proof -
  let ?f = "\<lambda>k. k\<lparr>tk_status := (if tk_status p \<in> set TASK_TERMINAL_STATUSES then tk_status p else ''blocked''), tk_updated_at := t,
    tk_metadata := dict_put ''legacy_upgrade_hold'' (JObj [(''at'', JInt t), (''reason'', JStr r)]) (tk_metadata p)\<rparr>"
  let ?db1 = "update_task (\<lambda>k. tk_id k = tk_id p) ?f db"
  let ?es = "filter (\<lambda>e. ex_task_id e = tk_id p \<and> ex_status e \<notin> set EXECUTION_TERMINAL_STATUSES) (executions ?db1)"
  from assms obtain x v where x: "for_each (hold_attempt t r (tk_id p)) ?es ?db1 = Inr x"
    and y: "y = add_event v (release_legacy t (tk_id p) x)"
    and ev: "ev_task_id v = Some (tk_id p)" "ev_event_type v = ''operation.legacy_upgrade_held''"
    unfolding hold_legacy_task_def Let_def by auto
  note hold = hold_attempts [OF x]
  show thesis
  proof (rule that)
    show "agent_tasks y = upd (\<lambda>k. tk_id k = tk_id p) ?f (agent_tasks db)" using y hold(1) by (simp add: release_legacy_def Let_def statement_defs)
    fix e assume "e \<in> set (executions y)"
    then have e: "e \<in> set (executions x)" using y by (simp add: release_legacy_def Let_def statement_defs)
    from hold(5) [OF e] show "e \<in> set (executions db) \<or> ex_status e = ''lost''" by (auto simp: statement_defs)
    assume "ex_task_id e = tk_id p"
    with hold(5,6) [OF e] show "ex_status e \<in> set EXECUTION_TERMINAL_STATUSES"
      by (auto simp: EXECUTION_TERMINAL_STATUSES_def)
  next
    show "task_claims y = upd (\<lambda>c. cl_task_id c = tk_id p \<and> \<not> cl_released c) (\<lambda>c. c\<lparr>cl_released := True, cl_expires_at := t\<rparr>) (task_claims db)"
      "task_operations y = task_operations db" "set (execution_events db) \<subseteq> set (execution_events y)"
      "\<exists>v\<in>set (execution_events y). ev_task_id v = Some (tk_id p) \<and> ev_event_type v = ''operation.legacy_upgrade_held''"
      using y hold(2-4) ev by (auto simp: release_legacy_def Let_def statement_defs)
  qed simp
qed

definition quiet :: "string \<Rightarrow> ledger \<Rightarrow> bool" where
  "quiet i db \<longleftrightarrow> (\<forall>k\<in>set (agent_tasks db). tk_id k = i \<longrightarrow> \<not> legacy_holdable db k)"

lemma hold_legacy_quiet: "hold_legacy_task t r p db = Inr y \<Longrightarrow> quiet (tk_id p) y"
  unfolding quiet_def
proof (intro ballI impI)
  fix k :: task_row
  assume "hold_legacy_task t r p db = Inr y" and k: "tk_id k = tk_id p"
  then show "\<not> legacy_holdable y k"
    by (elim hold_legacy_taskE, intro not_holdableI) (auto simp: set_upd)
qed

lemma hold_legacy_keeps_quiet:
  assumes "hold_legacy_task t r p db = Inr y" "quiet i db"
  shows "quiet i y"
proof (cases "i = tk_id p")
  case True
  with hold_legacy_quiet [OF assms(1)] show ?thesis by simp
next
  case False
  from assms(1) show ?thesis
  proof (rule hold_legacy_taskE)
    fix f
    assume y: "agent_tasks y = upd (\<lambda>k. tk_id k = tk_id p) f (agent_tasks db)" "\<And>k. tk_id (f k) = tk_id k"
      "\<And>e. e \<in> set (executions y) \<Longrightarrow> e \<in> set (executions db) \<or> ex_status e = ''lost''"
      "task_claims y = upd (\<lambda>c. cl_task_id c = tk_id p \<and> \<not> cl_released c) (\<lambda>c. c\<lparr>cl_released := True, cl_expires_at := t\<rparr>) (task_claims db)"
      "task_operations y = task_operations db" "set (execution_events db) \<subseteq> set (execution_events y)"
    show "quiet i y"
      unfolding quiet_def
    proof (intro ballI impI)
      fix k assume "k \<in> set (agent_tasks y)" "tk_id k = i"
      with y(1,2) False have "k \<in> set (agent_tasks db)" by (auto simp: set_upd split: if_splits)
      with assms(2) \<open>tk_id k = i\<close> have "\<not> legacy_holdable db k" by (simp add: quiet_def)
      with y(3-6) show "\<not> legacy_holdable y k"
        by (auto simp: legacy_holdable_def list_ex_iff fetch_operation_def set_upd EXECUTION_TERMINAL_STATUSES_def)
    qed
  qed
qed

lemma hold_legacy_ids:
  assumes "for_each (hold_legacy_task t r) rows db = Inr db'"
  shows "map tk_id (agent_tasks db') = map tk_id (agent_tasks db)"
  by (rule for_each_inv [OF assms]) (auto elim!: hold_legacy_taskE)

text \<open>C31. A quiesced upgrade holds everything that could still run. After \<open>hold_legacy_for_quiesced_upgrade\<close> no task is
  left to hold: every task without an operation is terminal or marked as held, and has neither an unfinished
  execution nor an unreleased claim; so running the step again holds nothing.\<close>

theorem legacy_hold_is_complete:
  assumes "hold_legacy_for_quiesced_upgrade t w r db = Inr (n, db')"
  shows "filter (legacy_holdable db') (agent_tasks db') = [] \<and>
    hold_legacy_for_quiesced_upgrade t' w r db' = Inr (0, db')"
proof -
  let ?rows = "filter (legacy_holdable db) (agent_tasks db)"
  from assms have f: "for_each (hold_legacy_task t (redact_text (strip r))) ?rows db = Inr db'" and ok: "w" "strip r \<noteq> []"
    by (auto simp: hold_legacy_for_quiesced_upgrade_def Let_def split: if_splits)
  have "quiet (tk_id k) db'" if k: "k \<in> set (agent_tasks db)" for k
  proof (cases "quiet (tk_id k) db")
    case True
    show ?thesis by (rule for_each_inv [OF f, where P = "quiet (tk_id k)"]) (use True hold_legacy_keeps_quiet in auto)
  next
    case False
    then obtain p where "p \<in> set ?rows" "tk_id p = tk_id k" by (auto simp: quiet_def)
    from for_each_establish [OF f this(1), where Q = "\<lambda>p. quiet (tk_id p)"] this(2)
    show ?thesis using hold_legacy_quiet hold_legacy_keeps_quiet by metis
  qed
  then have "\<not> legacy_holdable db' k" if "k \<in> set (agent_tasks db')" for k
    using that hold_legacy_ids [OF f] unfolding quiet_def by (metis (no_types) image_eqI image_iff list.set_map)
  then have "filter (legacy_holdable db') (agent_tasks db') = []" by (simp add: filter_empty_conv)
  with ok show ?thesis by (simp add: hold_legacy_for_quiesced_upgrade_def)
qed

section \<open>Witnesses\<close>

definition sample_intake :: intake where
  "sample_intake = \<lparr>in_spec = default_spec\<lparr>os_prompt := JStr ''hi'', os_workspace := JStr ''/w''\<rparr>, in_owner = ''u1'',
     in_generation = ''w1'', in_root = ''/w'', in_source_request_id = Some ''r1'', in_project_id = None,
     in_parent_task_id = None, in_conversation_key = None, in_new_task_id = ''t9'', in_new_session_id = ''c9''\<rparr>"

text \<open>The request \<open>r1\<close> has arrived.\<close>

definition sample_requested :: ledger where
  "sample_requested = add_request sample_request sample_operations"

lemma sample_requested_inv: "ledger_inv sample_requested"
proof -
  have "sound sample_operations sample_requested"
    unfolding sample_requested_def by (intro sound_intros) (simp_all add: clash_def sample_defs row_defs)
  then show ?thesis using sample_operations_inv by (rule soundD)
qed

lemma sample_intake_sel [simp]:
  "in_owner sample_intake = ''u1''" "in_generation sample_intake = ''w1''" "in_root sample_intake = ''/w''"
  "in_source_request_id sample_intake = Some ''r1''" "in_project_id sample_intake = None"
  "in_parent_task_id sample_intake = None" "in_conversation_key sample_intake = None" "in_new_task_id sample_intake = ''t9''"
  "os_kind (in_spec sample_intake) = JStr ''request''"
  by (simp_all add: sample_intake_def default_spec_def)

lemma sample_dumps: "spec_stored (in_spec sample_intake) = Inr (asdict (in_spec sample_intake))"
  by code_simp

lemma sample_requested_tables:
  "agent_tasks sample_requested = [sample_task, sample_task2, sample_task3]" "operation_workers sample_requested = [sample_worker]"
  "task_operations sample_requested = [sample_operation, sample_operation\<lparr>op_task_id := ''t3''\<rparr>]"
  "keys sample_requested = (keys sample_operations)\<lparr>k_requests := {''r1''}\<rparr>"
  by (simp_all add: sample_requested_def add_request_def keys_def sample_operations_def sample_ledger_def empty_ledger_def sample_request_def)

lemma sample_submit:
  "\<exists>row db'. submit_conn (\<lambda>s. s) 5 sample_intake sample_requested = Inr (row, db') \<and> operation_workers db' = [sample_worker]"
proof -
  let ?k = "intake_task 5 sample_intake ''t9''"
  have c: "\<not> clash tk_id task_unique (agent_tasks sample_requested) ?k" "fetch_task sample_requested ''t9'' = None"
    by (simp_all add: clash_def sample_requested_tables fetch_task_def task_unique_def sample_defs)
  moreover have "task_fk (keys sample_requested) ?k" by (simp add: task_fk_def sample_requested_tables)
  ultimately have u: "upsert_task ?k sample_requested = Inr (add_task ?k sample_requested)" by (simp add: upsert_task_def)
  show ?thesis
    by (simp add: submit_conn_def admit_def u sample_dumps worker_ready_def fetch_worker_def sample_requested_tables
        intake_operation_def insert_operation_def clash_def operation_fk_def append_event_def event_fk_def statement_defs
        keys_def fetch_task_def sample_defs seconds_def)
qed

lemma submit_keeps_single_apply_witness:
  "\<exists>row db'. submit_conn (\<lambda>s. s) 5 sample_intake sample_requested = Inr (row, db') \<and> single_apply db'"
proof -
  obtain row db' where s: "submit_conn (\<lambda>s. s) 5 sample_intake sample_requested = Inr (row, db')"
    using sample_submit by blast
  have "single_apply sample_requested"
    by (simp add: single_apply_def sample_requested_tables apply_for_def json_is_def sample_defs)
  from submit_keeps_single_apply [OF s sample_requested_inv this] s show ?thesis by blast
qed


lemma sample_approve: "\<exists>db'. decide_conn 5 ''p3'' ''u1'' ''h3'' False sample_operations = Inr db'"
  by (simp add: decide_conn_def require_plan_conn_def plan_draft_def Let_def fetch_task_def append_event_def event_fk_def
      statement_defs keys_def sample_defs seconds_def)


text \<open>The worker \<open>w1\<close> runs \<open>t2\<close> as execution \<open>e2\<close>.\<close>

definition sample_running :: ledger where
  "sample_running = sample_operations\<lparr>
     agent_tasks := [sample_task, sample_task2\<lparr>tk_status := ''running'', tk_current_execution_id := Some ''e2''\<rparr>, sample_task3],
     executions := [sample_execution, sample_execution\<lparr>ex_id := ''e2'', ex_task_id := ''t2'', ex_adapter_type := ''operation''\<rparr>],
     task_claims := [\<lparr>cl_task_id = ''t2'', cl_worker_id = ''w1'', cl_owner_key = ''u1'', cl_execution_id = ''e2'',
       cl_expires_at = seconds 30, cl_released = False\<rparr>]\<rparr>"

definition sample_claim_record :: claim_record where
  "sample_claim_record = \<lparr>cr_task_id = ''t2'', cr_worker_id = ''w1'', cr_execution_id = ''e2'', cr_spec = None,
     cr_owner = ''u1'', cr_reply_kind = None\<rparr>"

lemma sample_running_inv: "ledger_inv sample_running"
  by (simp add: ledger_inv_def inv_at_def table_inv_def unique_on_def keys_def sample_running_def sample_defs row_defs
      List.map_filter_def host_unique_def project_unique_def task_unique_def turn_unique_def
      conversation_unique_def not_secret_approval_keys not_secret_owner_key)

lemma sample_owned: "require_execution_ownership 5 sample_running (Some sample_claim_record) ''u1'' = Inr sample_operation"
  by (simp add: require_execution_ownership_def owned_by_def sample_running_def sample_claim_record_def sample_defs seconds_def)

lemma ownership_is_exclusive_witness:
  "require_execution_ownership 5 sample_running (Some sample_claim_record) ''u1'' = Inr sample_operation \<and>
   cr_execution_id sample_claim_record = cr_execution_id sample_claim_record"
  using ownership_is_exclusive [OF sample_owned sample_owned refl sample_running_inv] sample_owned by blast

lemma apply_ownership_scope_witness:
  "require_apply_ownership 5 sample_running (Some sample_claim_record) (sample_plan\<lparr>pl_task_id := ''t2''\<rparr>) ''u1'' = Inr () \<and>
   (\<exists>q. owned_by 5 sample_running sample_claim_record ''u1'' q)"
proof -
  have l: "spec_restored (op_spec sample_operation) = Inr (spec_of sample_spec)" by code_simp
  have r: "require_apply_ownership 5 sample_running (Some sample_claim_record) (sample_plan\<lparr>pl_task_id := ''t2''\<rparr>) ''u1'' = Inr ()"
    by (simp add: require_apply_ownership_def sample_owned l)
       (simp add: spec_of_def field_or_def sample_spec_def sample_plan_def sample_claim_record_def)
  from apply_ownership_scope [OF r] r show ?thesis by blast
qed

lemma legacy_hold_is_complete_witness:
  "\<exists>db'. hold_legacy_for_quiesced_upgrade 5 True ''upgrade'' sample_operations = Inr (1, db') \<and>
     hold_legacy_for_quiesced_upgrade 6 True ''upgrade'' db' = Inr (0, db')"
proof -
  have s: "strip ''upgrade'' = ''upgrade''" by code_simp
  obtain db' where h: "hold_legacy_for_quiesced_upgrade 5 True ''upgrade'' sample_operations = Inr (1, db')"
    by (simp add: hold_legacy_for_quiesced_upgrade_def s legacy_holdable_def hold_legacy_task_def hold_attempt_def Let_def
      release_legacy_def fetch_operation_def append_event_def event_fk_def statement_defs keys_def sample_defs
      TASK_TERMINAL_STATUSES_def EXECUTION_TERMINAL_STATUSES_def)
  from legacy_hold_is_complete [OF h, of 6] h show ?thesis by blast
qed

definition sample_apply :: intake where
  "sample_apply = \<lparr>in_spec = default_spec\<lparr>os_kind := JStr ''apply'', os_prompt := JStr APPLY_PROMPT,
       os_workspace := JStr ''/w'', os_plan_id := JStr ''p3''\<rparr>,
     in_owner = ''u1'', in_generation = ''w1'', in_root = ''/w'', in_source_request_id = None, in_project_id = None,
     in_parent_task_id = None, in_conversation_key = None, in_new_task_id = ''t9'', in_new_session_id = []\<rparr>"

lemma sample_apply_sel:
  "in_owner sample_apply = ''u1''" "in_generation sample_apply = ''w1''" "in_root sample_apply = ''/w''"
  "in_source_request_id sample_apply = None" "in_project_id sample_apply = None"
  "in_conversation_key sample_apply = None" "in_new_task_id sample_apply = ''t9''"
  "os_kind (in_spec sample_apply) = JStr ''apply''" "os_plan_id (in_spec sample_apply) = JStr ''p3''"
  by (simp_all add: sample_apply_def)

lemma sample_apply_dumps: "spec_stored (in_spec sample_apply) = Inr (asdict (in_spec sample_apply))"
  by code_simp

lemma sample_approval_admits:
  "\<exists>row db'. approve_and_submit_apply sample_env (\<lambda>s. s) 5 ''p3'' ''u1'' ''h3'' ''w1'' ''t9'' sample_operations = Inr ((row, True), db')"
proof -
  obtain db1 where d: "decide_conn 5 ''p3'' ''u1'' ''h3'' False sample_operations = Inr db1" using sample_approve by blast
  have tables: "agent_tasks db1 = [sample_task, sample_task2, sample_task3]" "operation_workers db1 = [sample_worker]"
    "task_operations db1 = [sample_operation, sample_operation\<lparr>op_task_id := ''t3''\<rparr>]" "k_tasks (keys db1) = {''t1'', ''t2'', ''t3''}"
    "change_plans db1 = [sample_plan\<lparr>pl_status := ''approved'', pl_decided_by := ''u1''\<rparr>]"
    by (rule approveE [OF d sample_operations_inv]; simp add: sample_operations_def keys_def sample_defs)+
  let ?k = "intake_task 5 sample_apply ''t9''"
  have c: "\<not> clash tk_id task_unique (agent_tasks db1) ?k" "fetch_task db1 ''t9'' = None" "task_fk (keys db1) ?k"
    by (simp_all add: clash_def tables fetch_task_def task_unique_def task_fk_def sample_apply_sel sample_defs)
  then have u: "upsert_task ?k db1 = Inr (add_task ?k db1)" by (simp add: upsert_task_def)
  have e: "existing_apply_conn sample_operations ''p3'' ''u1'' ''/w'' = Inr None" "existing_apply_conn db1 ''p3'' ''u1'' ''/w'' = Inr None"
    by (simp_all add: existing_apply_conn_def apply_admissions_def tables json_is_def sample_defs)
  have w: "check_workspace sample_env ''/w'' ''u1'' = Inr ''/w''" by code_simp
  obtain row db' where s: "submit_conn (\<lambda>s. s) 5 sample_apply db1 = Inr (row, db')"
    by (simp add: submit_conn_def admit_apply_def admit_def u e sample_apply_sel sample_apply_dumps json_text_def worker_ready_def
        fetch_worker_def tables owned_plan_def intake_operation_def insert_operation_def clash_def operation_fk_def append_event_def
        event_fk_def statement_defs keys_def fetch_task_def sample_defs seconds_def)
  have "owned_plan sample_operations ''p3'' ''u1'' = Some sample_plan" "pl_workspace sample_plan = ''/w''" "pl_plan_hash sample_plan = ''h3''"
    by (simp_all add: owned_plan_def sample_defs)
  with d e w s show ?thesis by (simp add: approve_and_submit_apply_def sample_apply_def)
qed

lemma approval_admits_once_witness:
  "\<exists>row db'. approve_and_submit_apply sample_env (\<lambda>s. s) 5 ''p3'' ''u1'' ''h3'' ''w1'' ''t9'' sample_operations = Inr ((row, True), db') \<and>
     approve_and_submit_apply sample_env (\<lambda>s. s) 6 ''p3'' ''u1'' ''h3'' ''w2'' ''t10'' db' = Inr ((row, False), db')"
proof -
  obtain row db' where a: "approve_and_submit_apply sample_env (\<lambda>s. s) 5 ''p3'' ''u1'' ''h3'' ''w1'' ''t9'' sample_operations = Inr ((row, True), db')"
    using sample_approval_admits by blast
  have "fetch_task sample_operations ''t9'' = None" by (simp add: fetch_task_def sample_defs)
  from approval_admits_once [OF a sample_operations_inv this, of 6 "''w2''" "''t10''"] a show ?thesis by blast
qed

end
