(* ===== verification/Work_Queue.thy ===== *)
theory Work_Queue
  imports Work_Memory Admission_Laws
begin

text \<open>
  The worker's side: \<open>src/nyanya_agent/work_queue.py\<close>. A claim gives a worker one attempt of a task; \<open>finish\<close>
  commits its result in one transaction, together with the conversation and the work memory. The claims and
  deliveries of saved results are in \<open>Op_Delivery\<close>.
\<close>

definition pending_tasks :: "ledger \<Rightarrow> string option \<Rightarrow> task_row list" where
  "pending_tasks db owner_key =
     claim_order (filter (\<lambda>k. tk_status k \<notin> {''completed'', ''failed'', ''cancelled''} \<and>
       (\<not> truthy_text owner_key \<or> (case owner_key of None \<Rightarrow> True | Some x \<Rightarrow> owner_is k x))) (agent_tasks db))"

text \<open>\<open>metadata.get("owner_key") or task["requested_by"] or "operator"\<close>\<close>

definition effective_owner :: "task_row \<Rightarrow> json" where
  "effective_owner k =
     (let fallback = JStr (if tk_requested_by k \<noteq> [] then tk_requested_by k else ''operator'') in
      case map_of (tk_metadata k) ''owner_key'' of None \<Rightarrow> fallback | Some v \<Rightarrow> if truthy v then v else fallback)"

definition meta_text :: "task_row \<Rightarrow> string \<Rightarrow> string \<Rightarrow> string" where
  "meta_text k key dflt = (case map_of (tk_metadata k) key of None \<Rightarrow> dflt | Some v \<Rightarrow> json_text v)"

definition work_claim ::
  "time \<Rightarrow> string \<Rightarrow> string \<Rightarrow> string \<Rightarrow> int \<Rightarrow> string \<Rightarrow> ledger \<Rightarrow> (claim_record option \<times> ledger) result" where
  "work_claim t task_id worker_id owner_key ttl execution_id db =
     (case fetch_task db task_id of
        None \<Rightarrow> Inr (None, db)
      | Some k \<Rightarrow>
          if tk_status k \<noteq> ''queued'' \<or> effective_owner k \<noteq> JStr owner_key \<or> fetch_claim db task_id \<noteq> None \<or>
             list_ex (\<lambda>c. cl_owner_key c = owner_key \<and> \<not> cl_released c) (task_claims db)
          then Inr (None, db)
          else
            try_bind (insert_execution
              \<lparr>ex_id = execution_id, ex_task_id = task_id, ex_host_id = None, ex_agent_profile_id = None,
               ex_adapter_type = meta_text k ''execution_adapter'' ''provider'', ex_status = ''running'', ex_status_confidence = 1,
               ex_command_summary = [], ex_workdir = meta_text k ''workspace_root'' [], ex_exit_code = None, ex_error = [],
               ex_metadata = [(''worker_id'', JStr worker_id)], ex_created_at = t, ex_started_at = Some t, ex_ended_at = None,
               ex_last_heartbeat_at = Some t, ex_updated_at = t\<rparr> db) (\<lambda>db1.
            try_bind (insert_claim \<lparr>cl_task_id = task_id, cl_worker_id = worker_id, cl_owner_key = owner_key,
              cl_execution_id = execution_id, cl_expires_at = t + seconds ttl, cl_released = False\<rparr> db1) (\<lambda>db2.
            try_bind (append_event t ''task.claimed'' (Some task_id) (Some execution_id) ''running'' ''Local worker claimed task'' []
              (update_task (\<lambda>k. tk_id k = task_id)
                (\<lambda>k. k\<lparr>tk_status := ''running'', tk_current_execution_id := Some execution_id, tk_updated_at := t\<rparr>) db2)) (\<lambda>db3.
            Inr (Some \<lparr>cr_task_id = task_id, cr_worker_id = worker_id, cr_execution_id = execution_id, cr_spec = None,
              cr_owner = [], cr_reply_kind = None\<rparr>, db3)))))"

definition renew :: "time \<Rightarrow> claim_record \<Rightarrow> int \<Rightarrow> ledger \<Rightarrow> bool \<times> ledger" where
  "renew t r ttl db =
     (let P = (\<lambda>c. cl_task_id c = cr_task_id r \<and> cl_worker_id c = cr_worker_id r \<and> cl_execution_id c = cr_execution_id r \<and>
            \<not> cl_released c \<and> cl_expires_at c > t);
          changed = (0 < hits P (task_claims db));
          db1 = update_claim P (\<lambda>c. c\<lparr>cl_expires_at := t + seconds ttl\<rparr>) db
      in (changed, if changed then update_execution (\<lambda>e. ex_id e = cr_execution_id r) (\<lambda>e. e\<lparr>ex_last_heartbeat_at := Some t\<rparr>) db1
        else db1))"

section \<open>Committing a result\<close>

definition task_status_for :: "string \<Rightarrow> string" where
  "task_status_for s = (if s = ''succeeded'' then ''completed'' else if s = ''timed_out'' then ''failed'' else s)"

definition execution_status_for :: "string \<Rightarrow> string" where
  "execution_status_for s = (if s = ''blocked'' then ''lost'' else s)"

text \<open>The claim, the task and the execution of the query; \<open>None\<close> when a join is empty.\<close>

definition current_attempt :: "ledger \<Rightarrow> string \<Rightarrow> (claim_row \<times> task_row \<times> execution_row) option" where
  "current_attempt db task_id =
     (case (fetch_claim db task_id, fetch_task db task_id) of
        (Some c, Some k) \<Rightarrow> map_option (\<lambda>e. (c, k, e)) (fetch_execution db (cl_execution_id c))
      | _ \<Rightarrow> None)"

definition live_attempt :: "time \<Rightarrow> ledger \<Rightarrow> claim_record \<Rightarrow> execution_row option" where
  "live_attempt t db r =
     (case current_attempt db (cr_task_id r) of
        None \<Rightarrow> None
      | Some (c, k, e) \<Rightarrow>
          if cl_worker_id c \<noteq> cr_worker_id r \<or> cl_execution_id c \<noteq> cr_execution_id r \<or>
             tk_current_execution_id k \<noteq> Some (cr_execution_id r) \<or> cl_released c \<or> cl_expires_at c \<le> t \<or>
             ex_status e \<in> set EXECUTION_TERMINAL_STATUSES
          then None else Some e)"

record review_wait =
  rv_status :: string
  rv_decided_by :: string
  rv_read_scope :: bool

text \<open>What an attempt that ends waiting for approval waits for: its newest open plan, or an open read scope.\<close>

definition open_review :: "time \<Rightarrow> ledger \<Rightarrow> string \<Rightarrow> review_wait option" where
  "open_review t db task_id =
     (case order_desc pl_created_at (filter (\<lambda>p. pl_task_id p = task_id \<and> pl_status p \<in> {''pending'', ''approved''} \<and>
         pl_expires_at p > t) (change_plans db)) of
        p # _ \<Rightarrow> Some \<lparr>rv_status = pl_status p, rv_decided_by = pl_decided_by p, rv_read_scope = False\<rparr>
      | [] \<Rightarrow>
          (case List.find (\<lambda>d. dr_source_task_id d = task_id \<and> dr_status d = ''pending'' \<and> dr_expires_at d > t) (operation_drafts db) of
             None \<Rightarrow> None
           | Some d \<Rightarrow> Some \<lparr>rv_status = dr_status d, rv_decided_by = [], rv_read_scope = True\<rparr>))"

definition apply_spec :: "claim_record \<Rightarrow> string option" where
  "apply_spec r = (case cr_spec r of None \<Rightarrow> None
     | Some s \<Rightarrow> if os_kind s = JStr ''apply'' then Some (json_text (os_plan_id s)) else None)"

definition effect_task :: "ledger \<Rightarrow> claim_record \<Rightarrow> string" where
  "effect_task db r =
     (case apply_spec r of None \<Rightarrow> cr_task_id r
      | Some p \<Rightarrow> (case fetch_plan db p of None \<Rightarrow> cr_task_id r | Some plan \<Rightarrow> pl_task_id plan))"

text \<open>The outcome that is committed. A wait without an open review is a cancellation; a cancellation with unresolved
  effects is blocked.\<close>

definition settle_outcome :: "time \<Rightarrow> claim_record \<Rightarrow> task_outcome \<Rightarrow> ledger \<Rightarrow> task_outcome \<times> ledger" where
  "settle_outcome t r oc db =
     (let oc1 = (if oc_status oc = ''awaiting_approval'' \<and> cr_spec r \<noteq> None \<and> open_review t db (cr_task_id r) = None
            then \<lparr>oc_status = ''cancelled'', oc_text = PLAN_WITHDRAWN\<rparr> else oc)
      in if oc_status oc1 = ''cancelled'' then
           (let db1 = update_execution (\<lambda>e. ex_id e = cr_execution_id r) (\<lambda>e. e\<lparr>ex_status := ''cancelled''\<rparr>) db
            in (if unresolved_effects db1 (effect_task db1 r) True
                then \<lparr>oc_status = ''blocked'', oc_text = EFFECTS_TO_CHECK\<rparr> else oc1, db1))
         else (oc1, db))"

text \<open>A cancellation that was requested is confirmed by a cancelled outcome only.\<close>

definition confirm_outcome :: "string \<Rightarrow> task_outcome \<Rightarrow> task_outcome" where
  "confirm_outcome current oc =
     (if current = ''cancelling'' \<and> oc_status oc \<noteq> ''cancelled''
      then \<lparr>oc_status = ''blocked'', oc_text = oc_text oc @ CANCEL_UNCONFIRMED\<rparr> else oc)"

definition commit_result :: "time \<Rightarrow> claim_record \<Rightarrow> task_outcome \<Rightarrow> ledger \<Rightarrow> ledger result" where
  "commit_result t r oc db =
     (let x = cr_execution_id r; i = cr_task_id r;
          task_status = task_status_for (oc_status oc); attempt_status = execution_status_for (oc_status oc);
          db1 = update_claim (\<lambda>c. cl_task_id c = i) (\<lambda>c. c\<lparr>cl_released := True\<rparr>)
            (update_task (\<lambda>k. tk_id k = i)
              (\<lambda>k. k\<lparr>tk_status := task_status, tk_updated_at := t,
                     tk_completed_at := (if task_status \<in> set TASK_TERMINAL_STATUSES then Some t else None)\<rparr>)
              (update_execution (\<lambda>e. ex_id e = x)
                (\<lambda>e. e\<lparr>ex_status := attempt_status, ex_updated_at := t,
                       ex_ended_at := (if attempt_status \<in> set EXECUTION_TERMINAL_STATUSES then Some t else None)\<rparr>) db))
      in try_bind (insert_result \<lparr>rt_execution_id = x, rt_task_id = i, rt_outcome = oc_status oc,
            rt_response = redact_text (oc_text oc), rt_delivery_status = ''pending'', rt_delivery_error = [],
            rt_created_at = t, rt_updated_at = t\<rparr> db1) (\<lambda>db2.
          Inr (update_operation (\<lambda>q. op_task_id q = i)
            (\<lambda>q. q\<lparr>op_eligible := False, op_hold_reason := (if oc_status oc = ''succeeded'' then [] else oc_status oc),
                   op_diagnosis := (if oc_status oc \<noteq> ''succeeded'' then redact_text (oc_text oc) else [])\<rparr>) db2)))"

text \<open>A successful file apply completes the task whose plan it applied.\<close>

definition complete_parent :: "time \<Rightarrow> claim_record \<Rightarrow> ledger \<Rightarrow> ledger result" where
  "complete_parent t r db =
     (case apply_spec r of
        None \<Rightarrow> Inr db
      | Some plan_id \<Rightarrow>
          (case List.find (\<lambda>p. pl_id p = plan_id \<and> pl_status p = ''applied'') (change_plans db) of
             None \<Rightarrow> Inl (ValueError ''Applied plan evidence missing'')
           | Some plan \<Rightarrow>
               (let P = (\<lambda>k. tk_id k = pl_task_id plan \<and> tk_status k = ''awaiting_approval'');
                    db1 = update_task P (\<lambda>k. k\<lparr>tk_status := ''completed'', tk_completed_at := Some t, tk_updated_at := t\<rparr>) db
                in if hits P (agent_tasks db) = 0 then Inr db1
                   else append_event t ''task.plan_completed'' (Some (pl_task_id plan)) None ''completed''
                     ''Approved file apply committed'' [(''apply_task_id'', JStr (cr_task_id r)), (''plan_id'', JStr plan_id)] db1)))"

definition request_review :: "time \<Rightarrow> string \<Rightarrow> claim_record \<Rightarrow> review_wait option \<Rightarrow> ledger \<Rightarrow> ledger result" where
  "request_review t approval_id r live db =
     (let approved = (case live of None \<Rightarrow> False | Some v \<Rightarrow> rv_status v = ''approved'');
          read_scope = (case live of None \<Rightarrow> False | Some v \<Rightarrow> rv_read_scope v)
      in insert_approval \<lparr>ag_id = approval_id, ag_task_id = Some (cr_task_id r), ag_execution_id = Some (cr_execution_id r),
           ag_action = (if read_scope then ''draft.read_scope'' else ''feedback.review''),
           ag_status = (if approved then ''approved'' else ''pending''), ag_requested_by = cr_worker_id r,
           ag_decided_by = (case live of Some v \<Rightarrow> if approved then rv_decided_by v else [] | None \<Rightarrow> []),
           ag_reason = (if read_scope then ''Review the exact read scope''
             else ''Review the concrete file change plan; this feedback does not grant CLI write access''),
           ag_metadata = [], ag_requested_at = t, ag_decided_at = (if approved then Some t else None),
           ag_expires_at = Some (t + seconds 3600)\<rparr> db)"

definition finish ::
  "workspace_env \<Rightarrow> screening \<Rightarrow> time \<Rightarrow> string \<Rightarrow> claim_record \<Rightarrow> json option \<Rightarrow> task_outcome \<Rightarrow>
   ledger \<times> work_record list \<Rightarrow> (ledger \<times> work_record list) result" where
  "finish env sc t approval_id r summary oc = (\<lambda>(db, mem).
     case live_attempt t db r of
       None \<Rightarrow> Inl (ValueError ''Stale worker result rejected'')
     | Some e \<Rightarrow>
         (let live = (if oc_status oc = ''awaiting_approval'' \<and> cr_spec r \<noteq> None then open_review t db (cr_task_id r) else None);
              (oc1, db1) = settle_outcome t r oc db;
              oc2 = confirm_outcome (ex_status e) oc1
          in try_bind (commit_result t r oc2 db1) (\<lambda>db2.
             try_bind (if oc_status oc2 = ''succeeded'' then complete_parent t r db2 else Inr db2) (\<lambda>db3.
             try_bind (if oc_status oc2 = ''awaiting_approval'' then request_review t approval_id r live db3 else Inr db3) (\<lambda>db4.
             (let db5 = complete_conn t r oc2 db4 in
              try_bind (memory_complete env sc t r summary oc2 db5 mem) (\<lambda>mem1.
              try_bind (append_event t ''task.result'' (Some (cr_task_id r)) (Some (cr_execution_id r))
                (task_status_for (oc_status oc2)) ''Worker result committed'' [] db5) (\<lambda>db6.
              Inr (db6, mem1)))))))))"

definition saved_result :: "ledger \<Rightarrow> string \<Rightarrow> string \<Rightarrow> result_row option" where
  "saved_result db task_id owner_key =
     (if list_ex (\<lambda>k. tk_id k = task_id \<and> owner_is k owner_key) (agent_tasks db)
      then (case order_desc rt_created_at (filter (\<lambda>r. rt_task_id r = task_id) (task_results db)) of
          [] \<Rightarrow> None | r # _ \<Rightarrow> Some r)
      else None)"

definition recovery_tasks :: "time \<Rightarrow> ledger \<Rightarrow> string \<Rightarrow> task_row list" where
  "recovery_tasks t db worker_id =
     order_by tk_created_at (order_by tk_id (filter (\<lambda>k.
       tk_status k \<in> {''queued'', ''running'', ''blocked'', ''awaiting_approval'', ''cancelling''} \<and>
       (case fetch_claim db (tk_id k) of
          None \<Rightarrow> True
        | Some c \<Rightarrow> cl_worker_id c \<noteq> worker_id \<and> (cl_released c \<or> cl_expires_at c \<le> t))) (agent_tasks db)))"


section \<open>Soundness\<close>

lemma work_claim_sound: "work_claim t i w ow n x db = Inr (r, db') \<Longrightarrow> sound db0 db \<Longrightarrow> sound db0 db'"
  by (auto simp: work_claim_def row_defs task_unique_def not_secret_worker_id split: option.splits if_splits intro!: sound_intros)

lemma renew_sound: "renew t r n db = (b, db') \<Longrightarrow> sound db0 db \<Longrightarrow> sound db0 db'"
  by (auto simp: renew_def Let_def row_defs split: if_splits intro!: sound_intros)

lemma settle_outcome_sound: "settle_outcome t r oc db = (oc', db') \<Longrightarrow> sound db0 db \<Longrightarrow> sound db0 db'"
  by (auto simp: settle_outcome_def Let_def row_defs split: if_splits intro!: sound_intros)

lemma commit_result_sound: "commit_result t r oc db = Inr db' \<Longrightarrow> sound db0 db \<Longrightarrow> sound db0 db'"
  by (auto simp: commit_result_def Let_def row_defs task_unique_def intro!: sound_intros)

lemma not_secret_apply_task: "\<not> secret_key ''apply_task_id''" "\<not> secret_key ''plan_id''"
  by code_simp+

lemma complete_parent_sound: "complete_parent t r db = Inr db' \<Longrightarrow> sound db0 db \<Longrightarrow> sound db0 db'"
  by (auto simp: complete_parent_def Let_def row_defs task_unique_def split: option.splits if_splits intro!: sound_intros)

lemma request_review_sound: "request_review t a r v db = Inr db' \<Longrightarrow> sound db0 db \<Longrightarrow> sound db0 db'"
  by (auto simp: request_review_def Let_def row_defs intro!: sound_intros)

lemma finishE:
  assumes "finish env sc t a r sm oc (db, mem) = Inr (db', mem')"
  obtains e oc1 db1 db2 db3 db4 where "live_attempt t db r = Some e" "settle_outcome t r oc db = (oc1, db1)"
    "commit_result t r (confirm_outcome (ex_status e) oc1) db1 = Inr db2"
    "(if oc_status (confirm_outcome (ex_status e) oc1) = ''succeeded'' then complete_parent t r db2 else Inr db2) = Inr db3"
    "(if oc_status (confirm_outcome (ex_status e) oc1) = ''awaiting_approval''
      then request_review t a r (if oc_status oc = ''awaiting_approval'' \<and> cr_spec r \<noteq> None then open_review t db (cr_task_id r) else None) db3
      else Inr db3) = Inr db4"
    "memory_complete env sc t r sm (confirm_outcome (ex_status e) oc1) (complete_conn t r (confirm_outcome (ex_status e) oc1) db4) mem = Inr mem'"
    "append_event t ''task.result'' (Some (cr_task_id r)) (Some (cr_execution_id r))
      (task_status_for (oc_status (confirm_outcome (ex_status e) oc1))) ''Worker result committed'' []
      (complete_conn t r (confirm_outcome (ex_status e) oc1) db4) = Inr db'"
  using assms unfolding finish_def Let_def
  by (auto simp: try_bind_Inr simp del: append_event_Inr split: option.splits prod.splits intro!: that)

lemma finish_sound:
  assumes "finish env sc t a r sm oc (db, mem) = Inr (db', mem')" "sound db0 db"
  shows "sound db0 db'"
proof -
  from assms(1) obtain e oc1 oc2 db1 db2 db3 db4 where s: "settle_outcome t r oc db = (oc1, db1)" "commit_result t r oc2 db1 = Inr db2"
    and p: "(if oc_status oc2 = ''succeeded'' then complete_parent t r db2 else Inr db2) = Inr db3"
    and q: "(if oc_status oc2 = ''awaiting_approval''
      then request_review t a r (if oc_status oc = ''awaiting_approval'' \<and> cr_spec r \<noteq> None then open_review t db (cr_task_id r) else None) db3
      else Inr db3) = Inr db4"
    and ev: "append_event t ''task.result'' (Some (cr_task_id r)) (Some (cr_execution_id r)) (task_status_for (oc_status oc2))
      ''Worker result committed'' [] (complete_conn t r oc2 db4) = Inr db'"
    by (rule finishE) blast
  have 2: "sound db0 db2" using commit_result_sound [OF s(2) settle_outcome_sound [OF s(1) assms(2)]] .
  have 3: "sound db0 db3" using p 2 by (auto split: if_splits elim: complete_parent_sound)
  have "sound db0 db4" using q 3 by (auto split: if_splits elim: request_review_sound)
  then have "sound db0 (complete_conn t r oc2 db4)" using complete_conn_sound sound_trans by blast
  then show ?thesis using ev by (auto simp: row_defs intro!: sound_intros)
qed


section \<open>What a commit leaves\<close>

lemma live_attemptD:
  assumes "live_attempt t db r = Some e"
  shows "\<exists>c k. fetch_claim db (cr_task_id r) = Some c \<and> fetch_task db (cr_task_id r) = Some k \<and> fetch_execution db (cr_execution_id r) = Some e \<and>
    cl_worker_id c = cr_worker_id r \<and> cl_execution_id c = cr_execution_id r \<and> tk_current_execution_id k = Some (cr_execution_id r) \<and>
    \<not> cl_released c \<and> t < cl_expires_at c \<and> ex_status e \<notin> set EXECUTION_TERMINAL_STATUSES"
  using assms by (auto simp: live_attempt_def current_attempt_def split: option.splits if_splits)

definition committed_task :: "time \<Rightarrow> task_outcome \<Rightarrow> task_row \<Rightarrow> task_row" where
  "committed_task t oc k = k\<lparr>tk_status := task_status_for (oc_status oc), tk_updated_at := t,
     tk_completed_at := (if task_status_for (oc_status oc) \<in> set TASK_TERMINAL_STATUSES then Some t else None)\<rparr>"

definition committed_execution :: "time \<Rightarrow> task_outcome \<Rightarrow> execution_row \<Rightarrow> execution_row" where
  "committed_execution t oc e = e\<lparr>ex_status := execution_status_for (oc_status oc), ex_updated_at := t,
     ex_ended_at := (if execution_status_for (oc_status oc) \<in> set EXECUTION_TERMINAL_STATUSES then Some t else None)\<rparr>"

definition new_result :: "time \<Rightarrow> claim_record \<Rightarrow> task_outcome \<Rightarrow> result_row" where
  "new_result t r oc = \<lparr>rt_execution_id = cr_execution_id r, rt_task_id = cr_task_id r, rt_outcome = oc_status oc,
     rt_response = redact_text (oc_text oc), rt_delivery_status = ''pending'', rt_delivery_error = [], rt_created_at = t, rt_updated_at = t\<rparr>"

lemma complete_conn_frame [simp]:
  "agent_tasks (complete_conn t r oc db) = agent_tasks db" "executions (complete_conn t r oc db) = executions db"
  "task_operations (complete_conn t r oc db) = task_operations db" "task_claims (complete_conn t r oc db) = task_claims db"
  "task_results (complete_conn t r oc db) = task_results db" "change_plans (complete_conn t r oc db) = change_plans db"
  "change_journal (complete_conn t r oc db) = change_journal db" "execution_events (complete_conn t r oc db) = execution_events db"
  by (auto simp: complete_conn_def Let_def statement_defs split: option.splits)

lemma commit_resultE:
  assumes "commit_result t r oc db = Inr db'"
  obtains "task_results db' = task_results db @ [new_result t r oc]" "fetch_result db (cr_execution_id r) = None"
    "agent_tasks db' = upd (\<lambda>k. tk_id k = cr_task_id r) (committed_task t oc) (agent_tasks db)"
    "executions db' = upd (\<lambda>e. ex_id e = cr_execution_id r)
       (committed_execution t oc) (executions db)"
    "task_claims db' = upd (\<lambda>c. cl_task_id c = cr_task_id r) (\<lambda>c. c\<lparr>cl_released := True\<rparr>) (task_claims db)"
    "map op_view (task_operations db') = map op_view (task_operations db)"
    "map (\<lambda>q. (op_task_id q, op_attempts q)) (task_operations db') = map (\<lambda>q. (op_task_id q, op_attempts q)) (task_operations db)"
    "change_plans db' = change_plans db" "change_journal db' = change_journal db" "execution_events db' = execution_events db"
  using assms
  by (auto simp: commit_result_def Let_def statement_defs clash_def fetch_result_def find_None_iff new_result_def committed_task_def committed_execution_def
      op_view_def upd_def intro!: that)

lemma complete_parentE:
  assumes "complete_parent t r db = Inr db'"
  obtains P where "agent_tasks db' = upd (\<lambda>k. P k \<and> tk_status k = ''awaiting_approval'')
      (\<lambda>k. k\<lparr>tk_status := ''completed'', tk_completed_at := Some t, tk_updated_at := t\<rparr>) (agent_tasks db)"
    "executions db' = executions db" "task_operations db' = task_operations db" "task_claims db' = task_claims db"
    "task_results db' = task_results db" "change_plans db' = change_plans db" "change_journal db' = change_journal db"
    "resolved_log db' = resolved_log db"
proof (cases "apply_spec r")
  case None
  with assms show ?thesis by (intro that [of "\<lambda>_. False"]) (auto simp: complete_parent_def upd_none)
next
  case (Some p)
  with assms obtain plan where "List.find (\<lambda>x. pl_id x = p \<and> pl_status x = ''applied'') (change_plans db) = Some plan"
    by (auto simp: complete_parent_def split: option.splits)
  with Some assms show ?thesis
    by (intro that [of "\<lambda>k. tk_id k = pl_task_id plan"])
      (auto simp: complete_parent_def Let_def statement_defs resolved_log_def split: if_splits)
qed


lemma settle_outcome_frame:
  assumes "settle_outcome t r oc db = (oc', db')"
  shows "agent_tasks db' = agent_tasks db" "task_operations db' = task_operations db" "task_claims db' = task_claims db"
    "task_results db' = task_results db" "change_plans db' = change_plans db" "change_journal db' = change_journal db"
    "execution_events db' = execution_events db"
    "db' = db \<and> oc_status oc' \<noteq> ''cancelled'' \<or>
     executions db' = upd (\<lambda>e. ex_id e = cr_execution_id r) (\<lambda>e. e\<lparr>ex_status := ''cancelled''\<rparr>) (executions db)"
  using assms by (auto simp: settle_outcome_def Let_def statement_defs split: if_splits)

lemma settle_outcome_cancelled:
  assumes "settle_outcome t r oc db = (oc', db')" "oc_status oc' = ''cancelled''"
  shows "\<not> unresolved_effects db' (effect_task db' r) True"
    "executions db' = upd (\<lambda>e. ex_id e = cr_execution_id r) (\<lambda>e. e\<lparr>ex_status := ''cancelled''\<rparr>) (executions db)"
  using assms by (auto simp: settle_outcome_def Let_def statement_defs split: if_splits)

text \<open>After the result itself: waiting parents may complete, everything else stays.\<close>

definition same_tables :: "ledger \<Rightarrow> ledger \<Rightarrow> bool" where
  "same_tables db db' \<longleftrightarrow> executions db' = executions db \<and> task_operations db' = task_operations db \<and> task_claims db' = task_claims db \<and>
     task_results db' = task_results db \<and> change_plans db' = change_plans db \<and> change_journal db' = change_journal db \<and>
     resolved_log db' = resolved_log db"

lemma same_tables_trans: "same_tables x y \<Longrightarrow> same_tables y z \<Longrightarrow> same_tables x z"
  by (simp add: same_tables_def)

lemma parent_tail:
  assumes "(if b then complete_parent t r db else Inr db) = Inr db'"
  shows "same_tables db db'" "fetch_task db j = Some k \<Longrightarrow> b \<longrightarrow> tk_status k \<noteq> ''awaiting_approval'' \<Longrightarrow> fetch_task db' j = Some k"
proof -
  have "same_tables db db' \<and> (\<exists>P. agent_tasks db' = upd (\<lambda>k. b \<and> P k \<and> tk_status k = ''awaiting_approval'')
      (\<lambda>k. k\<lparr>tk_status := ''completed'', tk_completed_at := Some t, tk_updated_at := t\<rparr>) (agent_tasks db))"
  proof (cases b)
    case True
    with assms have "complete_parent t r db = Inr db'" by simp
    then show ?thesis using True by (elim complete_parentE) (auto simp: same_tables_def)
  next
    case False
    with assms show ?thesis by (simp add: same_tables_def upd_none)
  qed
  then show "same_tables db db'" "fetch_task db j = Some k \<Longrightarrow> b \<longrightarrow> tk_status k \<noteq> ''awaiting_approval'' \<Longrightarrow> fetch_task db' j = Some k"
    by (auto simp: fetch_task_def find_key_upd)
qed

lemma review_tail:
  assumes "(if b then request_review t a r v db else Inr db) = Inr db'"
  shows "same_tables db db'" "fetch_task db' j = fetch_task db j"
  using assms by (auto simp: request_review_def Let_def statement_defs same_tables_def resolved_log_def fetch_task_def split: if_splits)

lemma conn_tail:
  assumes "append_event t ty i x st msg md (complete_conn t r oc db) = Inr db'" "ty \<noteq> ''plan.resolved''"
  shows "same_tables db db'" "fetch_task db' j = fetch_task db j"
  using assms by (auto simp: statement_defs same_tables_def resolved_log_def fetch_task_def)

lemma finishD:
  assumes "finish env sc t a r sm oc (db, mem) = Inr (db', mem')"
  obtains e oc1 db1 oc' where "live_attempt t db r = Some e" "settle_outcome t r oc db = (oc1, db1)" "oc' = confirm_outcome (ex_status e) oc1"
    "fetch_result db (cr_execution_id r) = None" "task_results db' = task_results db @ [new_result t r oc']"
    "\<And>k. fetch_task db (cr_task_id r) = Some k \<Longrightarrow> \<exists>k'. fetch_task db' (cr_task_id r) = Some k' \<and>
       tk_status k' = task_status_for (oc_status oc') \<and> tk_requested_by k' = tk_requested_by k \<and>
       tk_current_execution_id k' = tk_current_execution_id k"
    "executions db' = upd (\<lambda>e. ex_id e = cr_execution_id r) (committed_execution t oc') (executions db)"
    "task_claims db' = upd (\<lambda>c. cl_task_id c = cr_task_id r) (\<lambda>c. c\<lparr>cl_released := True\<rparr>) (task_claims db)"
    "map (\<lambda>q. (op_task_id q, op_attempts q)) (task_operations db') = map (\<lambda>q. (op_task_id q, op_attempts q)) (task_operations db)"
    "same_evidence db db'"
proof -
  from assms obtain e oc1 db1 db2 db3 db4 oc' where 0: "live_attempt t db r = Some e" "settle_outcome t r oc db = (oc1, db1)"
    and oc': "oc' = confirm_outcome (ex_status e) oc1" and 2: "commit_result t r oc' db1 = Inr db2"
    and 3: "(if oc_status oc' = ''succeeded'' then complete_parent t r db2 else Inr db2) = Inr db3"
    and 4: "(if oc_status oc' = ''awaiting_approval''
      then request_review t a r (if oc_status oc = ''awaiting_approval'' \<and> cr_spec r \<noteq> None then open_review t db (cr_task_id r) else None) db3
      else Inr db3) = Inr db4"
    and 5: "append_event t ''task.result'' (Some (cr_task_id r)) (Some (cr_execution_id r)) (task_status_for (oc_status oc'))
      ''Worker result committed'' [] (complete_conn t r oc' db4) = Inr db'"
    by (rule finishE) blast
  note s = settle_outcome_frame [OF 0(2)]
  from conn_tail(1) [OF 5] have tail: "same_tables db2 db'"
    using same_tables_trans [OF parent_tail(1) [OF 3] review_tail(1) [OF 4]] same_tables_trans by simp
  show ?thesis
  proof (rule that [OF 0 oc'])
    show "fetch_result db (cr_execution_id r) = None"
      using 2 s(4) by (elim commit_resultE) (simp add: fetch_result_def)
    show "task_results db' = task_results db @ [new_result t r oc']"
      using 2 s(4) tail by (elim commit_resultE) (simp add: same_tables_def)
    show "executions db' = upd (\<lambda>e. ex_id e = cr_execution_id r) (committed_execution t oc') (executions db)"
      using 2 s(8) tail by (elim commit_resultE) (auto simp: same_tables_def upd_def committed_execution_def)
    show "task_claims db' = upd (\<lambda>c. cl_task_id c = cr_task_id r) (\<lambda>c. c\<lparr>cl_released := True\<rparr>) (task_claims db)"
      using 2 s(3) tail by (elim commit_resultE) (simp add: same_tables_def)
    show "map (\<lambda>q. (op_task_id q, op_attempts q)) (task_operations db') = map (\<lambda>q. (op_task_id q, op_attempts q)) (task_operations db)"
      using 2 s(2) tail by (elim commit_resultE) (simp add: same_tables_def)
    show "same_evidence db db'"
      using 2 s(2,5-7) tail by (elim commit_resultE) (simp add: same_tables_def same_evidence_def resolved_log_def)
    fix k assume k: "fetch_task db (cr_task_id r) = Some k"
    then have "fetch_task db2 (cr_task_id r) = Some (committed_task t oc' k)"
      using 2 s(1) fetch_taskD [OF k] by (elim commit_resultE) (simp add: fetch_task_def find_key_upd committed_task_def)
    then have "fetch_task db' (cr_task_id r) = Some (committed_task t oc' k)"
      using parent_tail(2) [OF 3] review_tail(2) [OF 4] conn_tail(2) [OF 5] by (auto simp: committed_task_def task_status_for_def)
    then show "\<exists>k'. fetch_task db' (cr_task_id r) = Some k' \<and> tk_status k' = task_status_for (oc_status oc') \<and>
        tk_requested_by k' = tk_requested_by k \<and> tk_current_execution_id k' = tk_current_execution_id k"
      by (simp add: committed_task_def)
  qed
qed


text \<open>C9. An attempt has one result. \<open>finish\<close> succeeds only for the worker that holds the unexpired, unreleased claim of
  the execution; it saves exactly one result for it, to be delivered, and every later result for the task,
  from this worker or another, is rejected until the task is claimed again.\<close>

theorem one_result_per_attempt:
  assumes "finish env sc t a r sm oc (db, mem) = Inr (db', mem')"
  shows "list_ex (\<lambda>c. cl_task_id c = cr_task_id r \<and> cl_execution_id c = cr_execution_id r \<and> cl_worker_id c = cr_worker_id r \<and>
      \<not> cl_released c \<and> t < cl_expires_at c) (task_claims db) \<and>
    fetch_result db (cr_execution_id r) = None \<and> delivery_of db' (cr_execution_id r) = Some ''pending'' \<and>
    (cr_task_id r2 = cr_task_id r \<longrightarrow>
      finish env2 sc2 t2 a2 r2 sm2 oc2 (db', mem2) = Inl (ValueError ''Stale worker result rejected''))"
proof -
  from assms obtain e oc' where e: "live_attempt t db r = Some e" and n: "fetch_result db (cr_execution_id r) = None"
    and res: "task_results db' = task_results db @ [new_result t r oc']"
    and cl: "task_claims db' = upd (\<lambda>c. cl_task_id c = cr_task_id r) (\<lambda>c. c\<lparr>cl_released := True\<rparr>) (task_claims db)"
    by (rule finishD) blast
  from live_attemptD [OF e] obtain c where "fetch_claim db (cr_task_id r) = Some c" "cl_worker_id c = cr_worker_id r"
    "cl_execution_id c = cr_execution_id r" "\<not> cl_released c" "t < cl_expires_at c" by blast
  moreover from this(1) have "c \<in> set (task_claims db)" "cl_task_id c = cr_task_id r" using fetch_claimD by blast+
  ultimately have 1: "list_ex (\<lambda>c. cl_task_id c = cr_task_id r \<and> cl_execution_id c = cr_execution_id r \<and> cl_worker_id c = cr_worker_id r \<and>
      \<not> cl_released c \<and> t < cl_expires_at c) (task_claims db)" by (auto simp: list_ex_iff)
  have "delivery_of db' (cr_execution_id r) = Some ''pending''"
    using n by (simp add: delivery_of_def fetch_result_def res find_append_new new_result_def)
  moreover have "live_attempt t2 db' r2 = None" if "cr_task_id r2 = cr_task_id r"
  proof (rule ccontr)
    assume "live_attempt t2 db' r2 \<noteq> None"
    then obtain e' where "live_attempt t2 db' r2 = Some e'" by blast
    from live_attemptD [OF this] that obtain d where "fetch_claim db' (cr_task_id r) = Some d" "\<not> cl_released d" by auto
    with fetch_claimD [OF this(1)] show False by (auto simp: cl set_upd)
  qed
  ultimately show ?thesis using 1 n by (simp add: finish_def)
qed



lemma settled_in_outcomes:
  "settle_outcome t r oc db = (oc1, db1) \<Longrightarrow> oc_status oc \<in> set OUTCOMES \<Longrightarrow> oc_status (confirm_outcome x oc1) \<in> set OUTCOMES"
  by (auto simp: settle_outcome_def Let_def confirm_outcome_def OUTCOMES_def split: if_splits)

text \<open>Every result can be delivered. Whatever an attempt ended as, the sender of the task's owner that asks for the
  saved result of this attempt gets it.\<close>

theorem finished_result_is_deliverable:
  assumes "finish env sc t a r sm oc (db, mem) = Inr (db', mem')" "ledger_inv db" "oc_status oc \<in> set OUTCOMES"
    and "fetch_task db (cr_task_id r) = Some k" "fetch_operation db (cr_task_id r) = Some q"
  shows "fst (claim_delivery t2 (cr_task_id r) (tk_requested_by k) (cr_execution_id r) (op_attempts q) db')"
proof -
  from assms(1) obtain e oc1 db1 oc' k' where e: "live_attempt t db r = Some e" and st: "settle_outcome t r oc db = (oc1, db1)"
    and oc': "oc' = confirm_outcome (ex_status e) oc1" and res: "task_results db' = task_results db @ [new_result t r oc']"
    and tk: "\<And>k. fetch_task db (cr_task_id r) = Some k \<Longrightarrow> \<exists>k'. fetch_task db' (cr_task_id r) = Some k' \<and>
       tk_status k' = task_status_for (oc_status oc') \<and> tk_requested_by k' = tk_requested_by k \<and>
       tk_current_execution_id k' = tk_current_execution_id k"
    and ops: "map (\<lambda>q. (op_task_id q, op_attempts q)) (task_operations db') = map (\<lambda>q. (op_task_id q, op_attempts q)) (task_operations db)"
    by (rule finishD) blast
  let ?x = "cr_execution_id r" and ?res = "new_result t r oc'"
  from tk [OF assms(4)] obtain k' where k': "k' \<in> set (agent_tasks db')" "tk_id k' = cr_task_id r"
      "tk_status k' = task_status_for (oc_status oc')" "tk_requested_by k' = tk_requested_by k" "tk_current_execution_id k' = Some ?x"
    using live_attemptD [OF e] assms(4) fetch_taskD by fastforce
  have "(cr_task_id r, op_attempts q) \<in> set (map (\<lambda>q. (op_task_id q, op_attempts q)) (task_operations db'))"
    using fetch_operationD [OF assms(5)] unfolding ops by force
  then have q': "list_ex (\<lambda>z. op_task_id z = cr_task_id r \<and> op_attempts z = op_attempts q) (task_operations db')"
    by (auto simp: list_ex_iff)
  have match: "outcome_matches (oc_status oc') (task_status_for (oc_status oc'))"
    using settled_in_outcomes [OF st assms(3), of "ex_status e"]
    by (auto simp: oc' OUTCOMES_def outcome_matches_def task_status_for_def)
  let ?P = "\<lambda>z. rt_execution_id z = ?x \<and> rt_delivery_status z = ''pending'' \<and>
       list_ex (\<lambda>k2. tk_id k2 = cr_task_id r \<and> tk_requested_by k2 = tk_requested_by k \<and> tk_current_execution_id k2 = Some ?x \<and>
         list_ex (\<lambda>z. op_task_id z = tk_id k2 \<and> op_attempts z = op_attempts q) (task_operations db') \<and>
         outcome_matches (rt_outcome z) (tk_status k2)) (agent_tasks db')"
  have "list_ex (\<lambda>k2. tk_id k2 = cr_task_id r \<and> tk_requested_by k2 = tk_requested_by k \<and> tk_current_execution_id k2 = Some ?x \<and>
         list_ex (\<lambda>z. op_task_id z = tk_id k2 \<and> op_attempts z = op_attempts q) (task_operations db') \<and>
         outcome_matches (oc_status oc') (tk_status k2)) (agent_tasks db')"
    using k' q' match by (subst list_ex_iff) (rule bexI [of _ k'], simp_all)
  then have P: "?P ?res" by (simp add: new_result_def)
  have mem: "?res \<in> set (task_results db')" by (simp add: res)
  have "sound db db'" by (rule finish_sound [OF assms(1)]) simp
  then have d: "distinct (map rt_execution_id (task_results db'))" using plan_keys(4) soundD assms(2) by blast
  have "?P z \<longleftrightarrow> rt_execution_id z = rt_execution_id ?res" if "z \<in> set (task_results db')" for z
  proof
    assume "rt_execution_id z = rt_execution_id ?res"
    with that mem d have "z = ?res" by (auto simp: distinct_map inj_on_def)
    with P show "?P z" by simp
  qed (simp add: new_result_def)
  then have "filter ?P (task_results db') = filter (\<lambda>z. rt_execution_id z = rt_execution_id ?res) (task_results db')"
    by (intro filter_cong) auto
  then have "hits ?P (task_results db') = 1" using filter_key [OF d mem] by (simp add: hits_def)
  then show ?thesis by (simp add: claim_delivery_def send_results_def)
qed

text \<open>One task at a time per owner. Through this queue an owner never has two unreleased claims: a claim is given
  only for a queued task of the owner, and then it is the owner's only one.\<close>

theorem owner_works_alone:
  assumes "work_claim t i w owner n x db = Inr (Some r, db')" "ledger_inv db"
  shows "filter (\<lambda>c. cl_owner_key c = owner \<and> \<not> cl_released c) (task_claims db') =
      [\<lparr>cl_task_id = i, cl_worker_id = w, cl_owner_key = owner, cl_execution_id = x, cl_expires_at = t + seconds n, cl_released = False\<rparr>] \<and>
    (\<exists>k. fetch_task db i = Some k \<and> tk_status k = ''queued'') \<and> ledger_inv db' \<and>
    (0 < n \<longrightarrow> live_attempt t db' r \<noteq> None)"
proof -
  let ?c = "\<lparr>cl_task_id = i, cl_worker_id = w, cl_owner_key = owner, cl_execution_id = x, cl_expires_at = t + seconds n, cl_released = False\<rparr>"
  from assms(1) obtain k e where k: "fetch_task db i = Some k" "tk_status k = ''queued''" "fetch_claim db i = None"
    and free: "\<not> list_ex (\<lambda>c. cl_owner_key c = owner \<and> \<not> cl_released c) (task_claims db)"
    and cl: "task_claims db' = task_claims db @ [?c]" and r: "cr_task_id r = i" "cr_worker_id r = w" "cr_execution_id r = x"
    and tk: "agent_tasks db' = upd (\<lambda>k. tk_id k = i)
      (\<lambda>k. k\<lparr>tk_status := ''running'', tk_current_execution_id := Some x, tk_updated_at := t\<rparr>) (agent_tasks db)"
    and e: "executions db' = executions db @ [e]" "ex_id e = x" "ex_status e = ''running''" "fetch_execution db x = None"
    by (auto simp: work_claim_def statement_defs clash_def fetch_execution_def find_None_iff split: option.splits if_splits)
  have "filter (\<lambda>c. cl_owner_key c = owner \<and> \<not> cl_released c) (task_claims db') = [?c]"
    using free by (auto simp: cl filter_empty_conv list_ex_iff)
  moreover have "ledger_inv db'" using work_claim_sound [OF assms(1)] assms(2) soundD by blast
  moreover have "live_attempt t db' r \<noteq> None" if "0 < n"
  proof -
    have "fetch_claim db' i = Some ?c" using k(3) by (simp add: fetch_claim_def cl find_append_new)
    moreover have "fetch_task db' i = Some (k\<lparr>tk_status := ''running'', tk_current_execution_id := Some x, tk_updated_at := t\<rparr>)"
      using k(1) fetch_taskD [OF k(1)] by (simp add: fetch_task_def tk find_key_upd)
    moreover have "fetch_execution db' x = Some e" using e by (simp add: fetch_execution_def find_append_new)
    ultimately show ?thesis
      using that e(3) by (simp add: live_attempt_def current_attempt_def r EXECUTION_TERMINAL_STATUSES_def seconds_def)
  qed
  ultimately show ?thesis using k by simp
qed


section \<open>Witnesses\<close>

definition sample_failure :: task_outcome where
  "sample_failure = \<lparr>oc_status = ''failed'', oc_text = ''no''\<rparr>"

lemma sample_running_tables:
  "agent_tasks sample_running = [sample_task, sample_task2\<lparr>tk_status := ''running'', tk_current_execution_id := Some ''e2''\<rparr>, sample_task3]"
  "executions sample_running = [sample_execution, sample_execution\<lparr>ex_id := ''e2'', ex_task_id := ''t2'', ex_adapter_type := ''operation''\<rparr>]"
  "task_operations sample_running = [sample_operation, sample_operation\<lparr>op_task_id := ''t3''\<rparr>]"
  "task_claims sample_running = [\<lparr>cl_task_id = ''t2'', cl_worker_id = ''w1'', cl_owner_key = ''u1'', cl_execution_id = ''e2'',
       cl_expires_at = seconds 30, cl_released = False\<rparr>]"
  "task_results sample_running = []" "execution_events sample_running = []" "change_plans sample_running = [sample_plan]"
  "change_journal sample_running = []"
  by (simp_all add: sample_running_def sample_tables)

lemma sample_attempt:
  "current_attempt sample_running ''t2'' =
     Some (\<lparr>cl_task_id = ''t2'', cl_worker_id = ''w1'', cl_owner_key = ''u1'', cl_execution_id = ''e2'',
         cl_expires_at = seconds 30, cl_released = False\<rparr>,
       sample_task2\<lparr>tk_status := ''running'', tk_current_execution_id := Some ''e2''\<rparr>,
       sample_execution\<lparr>ex_id := ''e2'', ex_task_id := ''t2'', ex_adapter_type := ''operation''\<rparr>)"
  by (simp add: current_attempt_def fetch_claim_def fetch_task_def fetch_execution_def sample_running_tables)

lemma sample_finish:
  "\<exists>db'. finish sample_env sample_screening 5 ''a9'' sample_claim_record None sample_failure (sample_running, []) = Inr (db', [])"
proof -
  have r: "cr_task_id sample_claim_record = ''t2''" "cr_worker_id sample_claim_record = ''w1''"
    "cr_execution_id sample_claim_record = ''e2''" "cr_spec sample_claim_record = None"
    by (simp_all add: sample_claim_record_def)
  have live: "live_attempt 5 sample_running sample_claim_record =
      Some (sample_execution\<lparr>ex_id := ''e2'', ex_task_id := ''t2'', ex_adapter_type := ''operation''\<rparr>)"
    by (simp add: live_attempt_def r sample_attempt EXECUTION_TERMINAL_STATUSES_def seconds_def)
  have s: "settle_outcome 5 sample_claim_record sample_failure sample_running = (sample_failure, sample_running)"
    by (simp add: settle_outcome_def sample_failure_def)
  have oc: "oc_status sample_failure = ''failed''" by (simp add: sample_failure_def)
  have "\<exists>db2. commit_result 5 sample_claim_record sample_failure sample_running = Inr db2"
    by (simp add: commit_result_def Let_def statement_defs insert_result_def clash_def result_fk_def keys_def r sample_running_tables oc)
  then obtain db2 where db2: "commit_result 5 sample_claim_record sample_failure sample_running = Inr db2" ..
  have k: "k_tasks (keys db2) = {''t1'', ''t2'', ''t3''}" "k_executions (keys db2) = {''e1'', ''e2''}"
    using db2 by (elim commit_resultE; auto simp: keys_def sample_running_tables upd_def r committed_task_def committed_execution_def)+
  have "\<exists>db'. append_event 5 ''task.result'' (Some ''t2'') (Some ''e2'') ''failed'' ''Worker result committed'' []
      (complete_conn 5 sample_claim_record sample_failure db2) = Inr db'"
    using k by (simp add: append_event_def event_fk_def keys_def)
  then obtain db' where "append_event 5 ''task.result'' (Some ''t2'') (Some ''e2'') ''failed'' ''Worker result committed'' []
      (complete_conn 5 sample_claim_record sample_failure db2) = Inr db'" ..
  then show ?thesis
    by (simp del: append_event_Inr add: finish_def live s confirm_outcome_def db2 oc r memory_complete_def completed_record_def task_status_for_def)
qed

lemma one_result_per_attempt_witness:
  "\<exists>db'. finish sample_env sample_screening 5 ''a9'' sample_claim_record None sample_failure (sample_running, []) = Inr (db', []) \<and>
     delivery_of db' ''e2'' = Some ''pending''"
proof -
  obtain db' where f: "finish sample_env sample_screening 5 ''a9'' sample_claim_record None sample_failure (sample_running, []) = Inr (db', [])"
    using sample_finish by blast
  from one_result_per_attempt [OF f, THEN conjunct2, THEN conjunct2, THEN conjunct1] f show ?thesis
    by (simp add: sample_claim_record_def)
qed


lemma finished_result_is_deliverable_witness:
  "\<exists>db'. finish sample_env sample_screening 5 ''a9'' sample_claim_record None sample_failure (sample_running, []) = Inr (db', []) \<and>
     fst (claim_delivery 6 ''t2'' ''u1'' ''e2'' 0 db')"
proof -
  obtain db' where f: "finish sample_env sample_screening 5 ''a9'' sample_claim_record None sample_failure (sample_running, []) = Inr (db', [])"
    using sample_finish by blast
  have r: "cr_task_id sample_claim_record = ''t2''" "cr_execution_id sample_claim_record = ''e2''"
    by (simp_all add: sample_claim_record_def)
  have h: "oc_status sample_failure \<in> set OUTCOMES"
    "fetch_task sample_running (cr_task_id sample_claim_record) =
       Some (sample_task2\<lparr>tk_status := ''running'', tk_current_execution_id := Some ''e2''\<rparr>)"
    "fetch_operation sample_running (cr_task_id sample_claim_record) = Some sample_operation"
    by (simp_all add: sample_failure_def OUTCOMES_def r fetch_task_def fetch_operation_def sample_running_tables)
  from finished_result_is_deliverable [OF f sample_running_inv h] f show ?thesis by (auto simp: r)
qed

lemma owner_works_alone_witness:
  "\<exists>r db'. work_claim 5 ''t2'' ''w1'' ''u1'' 30 ''e9'' sample_operations = Inr (Some r, db') \<and> live_attempt 5 db' r \<noteq> None"
proof -
  have "k_hosts (keys sample_operations) = {''h1''}" "k_profiles (keys sample_operations) = {}"
    by (simp_all add: keys_def sample_defs)
  moreover have "task_claims (add_execution e sample_operations) = []" for e by (simp add: add_execution_def sample_tables)
  moreover have "effective_owner sample_task2 = JStr ''u1''"
    by (simp add: effective_owner_def sample_task2_def sample_metadata_def)
  ultimately have "\<exists>r db'. work_claim 5 ''t2'' ''w1'' ''u1'' 30 ''e9'' sample_operations = Inr (Some r, db')"
    by (simp add: work_claim_def fetch_task_def fetch_claim_def insert_execution_def insert_claim_def clash_def execution_fk_def
        claim_fk_def append_event_def event_fk_def sample_tables)
  then obtain r db' where c: "work_claim 5 ''t2'' ''w1'' ''u1'' 30 ''e9'' sample_operations = Inr (Some r, db')" by blast
  from owner_works_alone [OF c sample_operations_inv] c show ?thesis by auto
qed

end
