(* ===== verification/File_Trees.thy ===== *)
theory File_Trees
  imports Workspaces
begin

text \<open>
  The part of the POSIX file interface that \<open>src/nyanya_agent/reviewed_changes.py\<close> uses, as the kernel documents it,
  and that module's \<open>read_at\<close> on top of it. Directories and regular files have numbers; an entry is a name in a directory.
  A directory handle is the number of the directory, so it keeps meaning the same directory whatever happens to
  its name. Hard links are several entries with one number. Every open of the code passes \<open>O_NOFOLLOW\<close>: a symbolic
  link is an error. Numbers of new files and directories are counted up, they are never seen by the code.
\<close>

datatype entry = Directory nat | Regular nat | Symlink | Special

record node =
  nd_data :: string
  nd_mode :: nat
  nd_links :: nat

record files =
  fs_root :: "nat option"  \<comment> \<open>the directory that the workspace path opens; \<open>None\<close> when it does not\<close>
  fs_entries :: "nat \<times> string \<Rightarrow> entry option"
  fs_nodes :: "nat \<Rightarrow> node option"
  fs_other_mode :: "nat \<times> string \<Rightarrow> nat"  \<comment> \<open>mode bits of entries that are not regular files\<close>
  fs_next :: nat

definition MAX_BYTES :: nat where
  "MAX_BYTES = 2000000"

definition open_root :: "files \<Rightarrow> nat result" where
  "open_root fs = (case fs_root fs of None \<Rightarrow> Inl (FileNotFoundError ''No such file or directory'') | Some r \<Rightarrow> Inr r)"

definition open_dir :: "nat \<Rightarrow> string \<Rightarrow> files \<Rightarrow> nat result" where
  "open_dir d name fs =
     (case fs_entries fs (d, name) of
        None \<Rightarrow> Inl (FileNotFoundError ''No such file or directory'')
      | Some (Directory i) \<Rightarrow> Inr i
      | Some Symlink \<Rightarrow> Inl (OSError ''Too many levels of symbolic links'')
      | Some _ \<Rightarrow> Inl (OSError ''Not a directory''))"

definition node_of :: "files \<Rightarrow> nat \<Rightarrow> node" where
  "node_of fs i = (case fs_nodes fs i of None \<Rightarrow> \<lparr>nd_data = [], nd_mode = 0, nd_links = 0\<rparr> | Some n \<Rightarrow> n)"

definition read_at :: "nat \<Rightarrow> string \<Rightarrow> files \<Rightarrow> string option result" where
  "read_at d name fs =
     (case fs_entries fs (d, name) of
        None \<Rightarrow> Inr None
      | Some Symlink \<Rightarrow> Inl (OSError ''Too many levels of symbolic links'')
      | Some (Regular i) \<Rightarrow>
          if nd_links (node_of fs i) \<noteq> 1 then Inl (SafeOperationError ''Only bounded, single-link regular files are supported'')
          else if length (nd_data (node_of fs i)) > MAX_BYTES then Inl (SafeOperationError ''File too large'')
          else Inr (Some (nd_data (node_of fs i)))
      | Some _ \<Rightarrow> Inl (SafeOperationError ''Only bounded, single-link regular files are supported''))"

text \<open>\<open>os.mkdir(name, dir_fd=d)\<close> and \<open>os.open(name, O_CREAT | O_EXCL, mode, dir_fd=d)\<close>\<close>

definition make_dir :: "nat \<Rightarrow> string \<Rightarrow> files \<Rightarrow> files result" where
  "make_dir d name fs =
     (if fs_entries fs (d, name) \<noteq> None then Inl (FileExistsError ''File exists'')
      else Inr (fs\<lparr>fs_entries := (fs_entries fs)((d, name) \<mapsto> Directory (fs_next fs)), fs_next := Suc (fs_next fs)\<rparr>))"

definition create_file :: "nat \<Rightarrow> string \<Rightarrow> nat \<Rightarrow> files \<Rightarrow> (nat \<times> files) result" where
  "create_file d name mode fs =
     (if fs_entries fs (d, name) \<noteq> None then Inl (FileExistsError ''File exists'')
      else Inr (fs_next fs, fs\<lparr>fs_entries := (fs_entries fs)((d, name) \<mapsto> Regular (fs_next fs)),
        fs_nodes := (fs_nodes fs)(fs_next fs \<mapsto> \<lparr>nd_data = [], nd_mode = mode, nd_links = 1\<rparr>), fs_next := Suc (fs_next fs)\<rparr>))"

text \<open>A write of a chunk at an offset; a gap is filled with zero bytes.\<close>

definition overwrite :: "nat \<Rightarrow> string \<Rightarrow> string \<Rightarrow> string" where
  "overwrite offset chunk data =
     take offset (data @ replicate (offset - length data) (char_of (0::nat))) @ chunk @ drop (offset + length chunk) data"

definition write_file :: "nat \<Rightarrow> nat \<Rightarrow> string \<Rightarrow> files \<Rightarrow> files" where
  "write_file i offset chunk fs =
     fs\<lparr>fs_nodes := (fs_nodes fs)(i \<mapsto> (node_of fs i)\<lparr>nd_data := overwrite offset chunk (nd_data (node_of fs i))\<rparr>)\<rparr>"

definition mode_at :: "nat \<Rightarrow> string \<Rightarrow> files \<Rightarrow> nat result" where
  "mode_at d name fs =
     (case fs_entries fs (d, name) of
        None \<Rightarrow> Inl (FileNotFoundError ''No such file or directory'')
      | Some (Regular i) \<Rightarrow> Inr (nd_mode (node_of fs i))
      | Some _ \<Rightarrow> Inr (fs_other_mode fs (d, name)))"

definition change_mode :: "nat \<Rightarrow> nat \<Rightarrow> files \<Rightarrow> files" where
  "change_mode i mode fs = fs\<lparr>fs_nodes := (fs_nodes fs)(i \<mapsto> (node_of fs i)\<lparr>nd_mode := mode\<rparr>)\<rparr>"

definition drop_link :: "entry option \<Rightarrow> files \<Rightarrow> files" where
  "drop_link e fs =
     (case e of
        Some (Regular i) \<Rightarrow> fs\<lparr>fs_nodes := (fs_nodes fs)(i \<mapsto> (node_of fs i)\<lparr>nd_links := nd_links (node_of fs i) - 1\<rparr>)\<rparr>
      | _ \<Rightarrow> fs)"

definition remove_file :: "nat \<Rightarrow> string \<Rightarrow> files \<Rightarrow> files result" where
  "remove_file d name fs =
     (case fs_entries fs (d, name) of
        None \<Rightarrow> Inl (FileNotFoundError ''No such file or directory'')
      | Some (Directory _) \<Rightarrow> Inl (OSError ''Operation not permitted'')
      | Some e \<Rightarrow> Inr ((drop_link (Some e) fs)\<lparr>fs_entries := (fs_entries fs)((d, name) := None)\<rparr>))"

text \<open>\<open>os.replace(src, dst)\<close> within one directory\<close>

definition replace_file :: "nat \<Rightarrow> string \<Rightarrow> string \<Rightarrow> files \<Rightarrow> files result" where
  "replace_file d src dst fs =
     (case (fs_entries fs (d, src), fs_entries fs (d, dst)) of
        (None, _) \<Rightarrow> Inl (FileNotFoundError ''No such file or directory'')
      | (Some e, Some (Directory _)) \<Rightarrow> Inl (OSError ''Is a directory'')
      | (Some (Directory _), Some _) \<Rightarrow> Inl (OSError ''Not a directory'')
      | (Some e, old) \<Rightarrow>
          if old = Some e \<and> (case e of Regular _ \<Rightarrow> True | _ \<Rightarrow> False) then Inr fs
          else Inr ((drop_link old fs)\<lparr>fs_entries := (fs_entries fs)((d, src) := None, (d, dst) \<mapsto> e)\<rparr>))"


section \<open>The tree and what it shows\<close>

fun walk :: "files \<Rightarrow> nat \<Rightarrow> string list \<Rightarrow> nat option" where
  "walk fs d [] = Some d"
| "walk fs d (p # ps) = (case fs_entries fs (d, p) of Some (Directory i) \<Rightarrow> walk fs i ps | _ \<Rightarrow> None)"

definition content_of :: "files \<Rightarrow> entry option \<Rightarrow> string option" where
  "content_of fs e = (case e of Some (Regular i) \<Rightarrow> Some (nd_data (node_of fs i)) | _ \<Rightarrow> None)"

text \<open>The contents of the regular files of the workspace by their path, and by a directory and a name.\<close>

definition visible :: "files \<Rightarrow> string list \<Rightarrow> string option" where
  "visible fs parts =
     (case fs_root fs of
        None \<Rightarrow> None
      | Some r \<Rightarrow> if parts = [] then None
          else (case walk fs r (butlast parts) of None \<Rightarrow> None | Some d \<Rightarrow> content_of fs (fs_entries fs (d, last parts))))"

text \<open>A tree: every directory has one name, the root none; a file with one link has one name.\<close>

definition tree :: "files \<Rightarrow> bool" where
  "tree fs \<longleftrightarrow>
     (\<forall>s i. fs_entries fs s = Some (Directory i) \<longrightarrow>
        fs_root fs \<noteq> Some i \<and> i < fs_next fs \<and> (\<forall>s'. fs_entries fs s' = Some (Directory i) \<longrightarrow> s' = s)) \<and>
     (\<forall>s i. fs_entries fs s = Some (Regular i) \<longrightarrow> i < fs_next fs \<and>
        (nd_links (node_of fs i) = 1 \<longrightarrow> (\<forall>s'. fs_entries fs s' = Some (Regular i) \<longrightarrow> s' = s))) \<and>
     (\<forall>s. fs_entries fs s \<noteq> None \<longrightarrow> fst s < fs_next fs) \<and>
     (\<forall>r. fs_root fs = Some r \<longrightarrow> r < fs_next fs)"

lemma treeD:
  assumes "tree fs"
  shows "fs_entries fs s = Some (Directory i) \<Longrightarrow> fs_root fs \<noteq> Some i \<and> i < fs_next fs"
    "fs_entries fs s = Some (Directory i) \<Longrightarrow> fs_entries fs s' = Some (Directory i) \<Longrightarrow> s' = s"
    "fs_entries fs s = Some (Regular i) \<Longrightarrow> i < fs_next fs"
    "fs_entries fs s = Some (Regular i) \<Longrightarrow> nd_links (node_of fs i) = 1 \<Longrightarrow> fs_entries fs s' = Some (Regular i) \<Longrightarrow> s' = s"
    "fs_entries fs (d, n) = Some e \<Longrightarrow> d < fs_next fs" "fs_root fs = Some r \<Longrightarrow> r < fs_next fs"
  using assms unfolding tree_def by (blast, blast, blast, blast, fastforce, blast)

lemma walk_append: "walk fs d (ps @ qs) = Option.bind (walk fs d ps) (\<lambda>e. walk fs e qs)"
  by (induction fs d ps rule: walk.induct) (auto split: option.split entry.split)

lemma walk_snoc: "walk fs d (ps @ [p]) = Some i \<longleftrightarrow> (\<exists>e. walk fs d ps = Some e \<and> fs_entries fs (e, p) = Some (Directory i))"
  by (induction ps arbitrary: d) (auto split: option.splits entry.splits)

lemma walk_below: "tree fs \<Longrightarrow> walk fs d ps = Some e \<Longrightarrow> d < fs_next fs \<Longrightarrow> e < fs_next fs"
  by (induction fs d ps rule: walk.induct) (auto dest: treeD split: option.splits entry.splits)

lemma walk_inj:
  assumes "tree fs" "fs_root fs = Some r"
  shows "walk fs r ps = Some d \<Longrightarrow> walk fs r qs = Some d \<Longrightarrow> ps = qs"
proof (induction ps arbitrary: d qs rule: rev_induct)
  case Nil
  then show ?case using treeD(1) [OF assms(1)] assms(2) by (cases qs rule: rev_cases) (auto simp: walk_snoc)
next
  case (snoc p ps)
  from snoc.prems(1) obtain e where e: "walk fs r ps = Some e" "fs_entries fs (e, p) = Some (Directory d)" by (auto simp: walk_snoc)
  show ?case
  proof (cases qs rule: rev_cases)
    case Nil
    with snoc.prems(2) e treeD(1) [OF assms(1)] assms(2) show ?thesis by fastforce
  next
    case (snoc qs' q)
    with snoc.prems(2) obtain e' where e': "walk fs r qs' = Some e'" "fs_entries fs (e', q) = Some (Directory d)" by (auto simp: walk_snoc)
    from treeD(2) [OF assms(1) e(2) e'(2)] have "e' = e" "q = p" by auto
    with snoc.IH [OF e(1)] e'(1) snoc show ?thesis by simp
  qed
qed

lemma walk_cong:
  assumes "\<And>s i. fs_entries fs' s = Some (Directory i) \<longleftrightarrow> fs_entries fs s = Some (Directory i)"
  shows "walk fs' d ps = walk fs d ps"
proof (induction ps arbitrary: d)
  case (Cons p ps)
  then show ?case using assms [of "(d, p)"]
    by (cases "fs_entries fs (d, p)"; cases "fs_entries fs' (d, p)") (auto split: entry.splits)
qed simp

text \<open>Changing one name that is not a directory changes what is shown at its path and nowhere else.\<close>

lemma visible_put:
  assumes "tree fs" "fs_root fs = Some r" "walk fs r ps = Some d"
    and "\<And>i. fs_entries fs (d, n) \<noteq> Some (Directory i)" "\<And>i. e \<noteq> Some (Directory i)"
    and "fs_root fs' = fs_root fs" "fs_entries fs' = (fs_entries fs)((d, n) := e)"
    and "\<And>s i. s \<noteq> (d, n) \<Longrightarrow> fs_entries fs s = Some (Regular i) \<Longrightarrow> nd_data (node_of fs' i) = nd_data (node_of fs i)"
  shows "visible fs' = (visible fs)(ps @ [n] := content_of fs' e)"
proof
  fix q
  have w: "walk fs' x y = walk fs x y" for x y
  proof (rule walk_cong)
    fix s i show "fs_entries fs' s = Some (Directory i) \<longleftrightarrow> fs_entries fs s = Some (Directory i)"
      using assms(4) [of i] assms(5) [of i] by (simp add: assms(7))
  qed
  show "visible fs' q = ((visible fs)(ps @ [n] := content_of fs' e)) q"
  proof (cases q rule: rev_cases)
    case Nil
    then show ?thesis by (simp add: visible_def assms(2,6))
  next
    case (snoc qs m)
    show ?thesis
    proof (cases "walk fs r qs")
      case None
      then show ?thesis using assms(3) by (auto simp: visible_def assms(2,6) w snoc)
    next
      case (Some c)
      have "(c, m) = (d, n) \<longleftrightarrow> q = ps @ [n]"
      proof
        assume "(c, m) = (d, n)"
        then have "c = d" "m = n" by blast+
        with walk_inj [OF assms(1,2) Some, of ps] assms(3) snoc show "q = ps @ [n]" by blast
      next
        assume "q = ps @ [n]"
        with snoc Some assms(3) show "(c, m) = (d, n)" by simp
      qed
      moreover have "content_of fs' (fs_entries fs (c, m)) = content_of fs (fs_entries fs (c, m))" if "(c, m) \<noteq> (d, n)"
        using assms(8) [OF that] by (auto simp: content_of_def split: option.split entry.split)
      ultimately show ?thesis using Some by (auto simp: visible_def assms(2,6,7) w snoc)
    qed
  qed
qed

text \<open>A new directory shows nothing.\<close>

lemma visible_make_dir:
  assumes "tree fs" "make_dir d n fs = Inr fs'" "d < fs_next fs"
  shows "tree fs'" "visible fs' = visible fs" "walk fs r ps = Some c \<Longrightarrow> walk fs' r ps = Some c" "fs_root fs' = fs_root fs"
    "fs_nodes fs' = fs_nodes fs" "fs_next fs \<le> fs_next fs'"
proof -
  let ?new = "fs_next fs"
  have fs': "fs' = fs\<lparr>fs_entries := (fs_entries fs)((d, n) \<mapsto> Directory ?new), fs_next := Suc ?new\<rparr>" and free: "fs_entries fs (d, n) = None"
    using assms(2) by (auto simp: make_dir_def split: if_splits)
  show "fs_root fs' = fs_root fs" "fs_nodes fs' = fs_nodes fs" "fs_next fs \<le> fs_next fs'" by (simp_all add: fs')
  have no: "node_of fs' = node_of fs" by (simp add: fs' node_of_def fun_eq_iff)
  show "tree fs'" using assms(1,3) unfolding tree_def no
    by (auto simp: fs' less_Suc_eq) (fastforce+)
  have keep: "walk fs' r ps = Some c" if "walk fs r ps = Some c" for r ps c
    using that by (induction ps arbitrary: r) (auto simp: fs' free split: option.splits entry.splits if_splits)
  then show "walk fs r ps = Some c \<Longrightarrow> walk fs' r ps = Some c" .
  have empty: "fs_entries fs (?new, m) = None" for m using treeD(5) [OF assms(1), of ?new m] by (cases "fs_entries fs (?new, m)") auto
  have old: "c = ?new \<or> walk fs r ps = Some c" if "walk fs' r ps = Some c" for r ps c
    using that
  proof (induction ps arbitrary: c rule: rev_induct)
    case (snoc p ps)
    then obtain e where e: "walk fs' r ps = Some e" "fs_entries fs' (e, p) = Some (Directory c)" by (auto simp: walk_snoc)
    with empty assms(3) have "e \<noteq> ?new" by (auto simp: fs' split: if_splits)
    with snoc.IH [OF e(1)] have "walk fs r ps = Some e" by simp
    with e(2) show ?case by (auto simp: walk_snoc fs' split: if_splits)
  qed simp
  show "visible fs' = visible fs"
  proof
    fix q
    show "visible fs' q = visible fs q"
    proof (cases "fs_root fs")
      case (Some r)
      have nn: "walk fs r ps \<noteq> Some ?new" for ps
        using walk_below [OF assms(1), of r ps ?new] treeD(6) [OF assms(1) Some] by auto
      have new_empty: "content_of fs' (fs_entries fs' (?new, m)) = None" for m
        using empty assms(3) by (simp add: content_of_def fs')
      have old_same: "content_of fs' (fs_entries fs' (c, m)) = content_of fs (fs_entries fs (c, m))" for c m
        using free by (simp add: content_of_def no split: option.split entry.split) (simp add: fs')
      show ?thesis
      proof (cases "walk fs r (butlast q)")
        case None
        then have "walk fs' r (butlast q) = None \<or> walk fs' r (butlast q) = Some ?new" using None old [of r "butlast q"] by (cases "walk fs' r (butlast q)") auto
        then show ?thesis using None new_empty by (auto simp: visible_def Some fs')
      next
        case (Some c)
        then show ?thesis using keep [OF Some] old_same by (simp add: visible_def \<open>fs_root fs = Some r\<close> fs')
      qed
    qed (simp add: visible_def fs')
  qed
qed

text \<open>What the two ways of writing a file leave behind, in terms of entries and nodes.\<close>

lemma node_of_upd [simp]: "node_of (fs\<lparr>fs_nodes := (fs_nodes fs)(i \<mapsto> n)\<rparr>) j = (if j = i then n else node_of fs j)"
  by (simp add: node_of_def)

lemma node_of_entries [simp]: "node_of (fs\<lparr>fs_entries := E\<rparr>) = node_of fs" "node_of (fs\<lparr>fs_next := k\<rparr>) = node_of fs"
  by (simp_all add: node_of_def fun_eq_iff)

lemma overwrite_end [simp]: "overwrite (length data) chunk data = data @ chunk"
  by (simp add: overwrite_def)


lemma overwrite_start [simp]: "overwrite 0 chunk [] = chunk"
  by (simp add: overwrite_def)

lemma tree_upd:
  assumes "tree fs" "fs_root fs' = fs_root fs" "fs_next fs \<le> fs_next fs'"
    and "\<And>s. fs_entries fs' s = fs_entries fs s \<or> fs_entries fs' s = None \<or>
      (\<exists>i. fs_entries fs' s = Some (Regular i) \<and> i < fs_next fs' \<and> fst s < fs_next fs' \<and>
        (\<forall>s'. fs_entries fs' s' = Some (Regular i) \<longrightarrow> s' = s))"
    and "\<And>s i. fs_entries fs' s = Some (Regular i) \<Longrightarrow> fs_entries fs s = Some (Regular i) \<Longrightarrow>
      nd_links (node_of fs' i) = nd_links (node_of fs i)"
  shows "tree fs'"
  unfolding tree_def
proof (intro conjI allI impI)
  fix s i assume d: "fs_entries fs' s = Some (Directory i)"
  have orig: "fs_entries fs x = Some (Directory i)" if "fs_entries fs' x = Some (Directory i)" for x
    using assms(4) [of x] that by auto
  from treeD(1) [OF assms(1) orig [OF d]] assms(2,3) show "fs_root fs' \<noteq> Some i" "i < fs_next fs'" by auto
  fix s' assume "fs_entries fs' s' = Some (Directory i)"
  from treeD(2) [OF assms(1) orig [OF d] orig [OF this]] show "s' = s" .
next
  fix s i assume d: "fs_entries fs' s = Some (Regular i)"
  show "i < fs_next fs'" using assms(4) [of s] d treeD(3) [OF assms(1), of s i] assms(3) by auto
  fix s' assume l: "nd_links (node_of fs' i) = 1" and d': "fs_entries fs' s' = Some (Regular i)"
  have one: "y = x" if "fs_entries fs x \<noteq> Some (Regular i)" "fs_entries fs' x = Some (Regular i)" "fs_entries fs' y = Some (Regular i)" for x y
    using assms(4) [of x] that by (cases y) simp
  show "s' = s"
  proof (cases "fs_entries fs s = Some (Regular i)")
    case s: True
    show ?thesis
    proof (cases "fs_entries fs s' = Some (Regular i)")
      case True
      with treeD(4) [OF assms(1) s] assms(5) [OF d s] l show ?thesis by simp
    next
      case False
      from one [OF this d' d] show ?thesis by simp
    qed
  next
    case False
    from one [OF this d d'] show ?thesis .
  qed
next
  fix s assume "fs_entries fs' s \<noteq> None"
  then show "fst s < fs_next fs'" using assms(4) [of s] treeD(5) [OF assms(1), of "fst s" "snd s"] assms(3) by auto
next
  fix r assume "fs_root fs' = Some r"
  then show "r < fs_next fs'" using treeD(6) [OF assms(1)] assms(2,3) by (metis less_le_trans)
qed

lemma drop_link_sel [simp]: "fs_entries (drop_link e fs) = fs_entries fs" "fs_root (drop_link e fs) = fs_root fs" "fs_next (drop_link e fs) = fs_next fs"
  by (simp_all add: drop_link_def split: option.split entry.split)

lemma node_of_drop_link: "e \<noteq> Some (Regular i) \<Longrightarrow> node_of (drop_link e fs) i = node_of fs i"
  by (simp add: drop_link_def split: option.split entry.split)

lemma node_of_drop_other: "j \<noteq> i \<Longrightarrow> node_of (drop_link (Some (Regular i)) fs) j = node_of fs j"
  by (rule node_of_drop_link) simp

text \<open>Reading a regular file with one link.\<close>

lemma read_at_Some:
  "read_at d n fs = Inr (Some data) \<longleftrightarrow> (\<exists>i. fs_entries fs (d, n) = Some (Regular i) \<and> nd_links (node_of fs i) = 1 \<and>
     length (nd_data (node_of fs i)) \<le> MAX_BYTES \<and> data = nd_data (node_of fs i))"
  by (auto simp: read_at_def split: option.splits entry.splits)

lemma read_at_None: "read_at d n fs = Inr None \<longleftrightarrow> fs_entries fs (d, n) = None"
  by (auto simp: read_at_def split: option.splits entry.splits)

lemma read_at_content: "read_at d n fs = Inr c \<Longrightarrow> content_of fs (fs_entries fs (d, n)) = c"
  by (cases c) (auto simp: read_at_Some read_at_None content_of_def)

text \<open>Three ways to change a file under a name: a new file, its removal, and a prepared file put in its place.\<close>

lemma tree_new:
  assumes "tree fs" "create_file d n mode fs = Inr (i, fs')" "d < fs_next fs"
  shows "tree fs'" "i = fs_next fs" "fs_entries fs (d, n) = None" "fs_entries fs' = (fs_entries fs)((d, n) \<mapsto> Regular i)"
    "node_of fs' = (node_of fs)(i := \<lparr>nd_data = [], nd_mode = mode, nd_links = 1\<rparr>)" "fs_root fs' = fs_root fs" "fs_next fs' = Suc (fs_next fs)"
proof -
  show e: "i = fs_next fs" "fs_entries fs (d, n) = None" "fs_entries fs' = (fs_entries fs)((d, n) \<mapsto> Regular i)"
    "fs_root fs' = fs_root fs" "fs_next fs' = Suc (fs_next fs)"
    using assms(2) by (auto simp: create_file_def split: if_splits)
  show no: "node_of fs' = (node_of fs)(i := \<lparr>nd_data = [], nd_mode = mode, nd_links = 1\<rparr>)"
    using assms(2) by (auto simp: create_file_def node_of_def fun_eq_iff split: if_splits)
  show "tree fs'"
    by (rule tree_upd [OF assms(1)]) (use e no assms(3) treeD(3) [OF assms(1)] in \<open>auto split: if_splits\<close>)
qed

lemma tree_data:
  assumes "tree fs" "fs' = fs\<lparr>fs_nodes := (fs_nodes fs)(i \<mapsto> n)\<rparr>" "nd_links n = nd_links (node_of fs i)"
  shows "tree fs'"
  by (rule tree_upd [OF assms(1)]) (use assms(2,3) in auto)

lemma tree_remove:
  assumes "tree fs" "remove_file d n fs = Inr fs'" "fs_entries fs (d, n) = Some (Regular i)" "nd_links (node_of fs i) = 1"
  shows "tree fs'" "fs_entries fs' = (fs_entries fs)((d, n) := None)" "fs_root fs' = fs_root fs" "fs_next fs' = fs_next fs"
    "s \<noteq> (d, n) \<Longrightarrow> fs_entries fs s = Some (Regular j) \<Longrightarrow> node_of fs' j = node_of fs j"
proof -
  have fs': "fs' = (drop_link (Some (Regular i)) fs)\<lparr>fs_entries := (fs_entries fs)((d, n) := None)\<rparr>"
    using assms(2,3) by (simp add: remove_file_def)
  show e: "fs_entries fs' = (fs_entries fs)((d, n) := None)" "fs_root fs' = fs_root fs" "fs_next fs' = fs_next fs"
    by (simp_all add: fs')
  have other: "node_of fs' j = node_of fs j" if "s \<noteq> (d, n)" "fs_entries fs s = Some (Regular j)" for s j
    using treeD(4) [OF assms(1,3,4), of s] that by (auto simp: fs' intro!: node_of_drop_other)
  then show "s \<noteq> (d, n) \<Longrightarrow> fs_entries fs s = Some (Regular j) \<Longrightarrow> node_of fs' j = node_of fs j" .
  show "tree fs'" by (rule tree_upd [OF assms(1)]) (use e other in \<open>auto split: if_splits\<close>)
qed

lemma tree_replace:
  assumes "tree fs" "replace_file d t n fs = Inr fs'" "t \<noteq> n"
    and "fs_entries fs (d, t) = Some (Regular j)" "nd_links (node_of fs j) = 1"
    and "fs_entries fs (d, n) = Some (Regular i)" "nd_links (node_of fs i) = 1"
  shows "tree fs'" "fs_entries fs' = (fs_entries fs)((d, t) := None, (d, n) \<mapsto> Regular j)" "fs_root fs' = fs_root fs"
    "fs_next fs' = fs_next fs" "s \<noteq> (d, n) \<Longrightarrow> fs_entries fs s = Some (Regular k) \<Longrightarrow> node_of fs' k = node_of fs k"
    "node_of fs' j = node_of fs j"
proof -
  have ij: "i \<noteq> j" using treeD(4) [OF assms(1,4,5), of "(d, n)"] assms(3,6) by auto
  then have fs': "fs' = (drop_link (Some (Regular i)) fs)\<lparr>fs_entries := (fs_entries fs)((d, t) := None, (d, n) \<mapsto> Regular j)\<rparr>"
    using assms(2,4,6) by (auto simp: replace_file_def split: if_splits)
  show e: "fs_entries fs' = (fs_entries fs)((d, t) := None, (d, n) \<mapsto> Regular j)" "fs_root fs' = fs_root fs"
    "fs_next fs' = fs_next fs" by (simp_all add: fs')
  have other: "node_of fs' k = node_of fs k" if "s \<noteq> (d, n)" "fs_entries fs s = Some (Regular k)" for s k
    using treeD(4) [OF assms(1,6,7), of s] that by (auto simp: fs' intro!: node_of_drop_other)
  then show "s \<noteq> (d, n) \<Longrightarrow> fs_entries fs s = Some (Regular k) \<Longrightarrow> node_of fs' k = node_of fs k" .
  show j: "node_of fs' j = node_of fs j" using ij by (simp add: fs' node_of_drop_link)
  show "tree fs'"
  proof (rule tree_upd [OF assms(1)])
    fix s
    have uniq: "\<forall>s'. fs_entries fs' s' = Some (Regular j) \<longrightarrow> s' = (d, n)"
    proof (intro allI impI)
      fix s' assume a: "fs_entries fs' s' = Some (Regular j)"
      show "s' = (d, n)"
      proof (rule ccontr)
        assume "s' \<noteq> (d, n)"
        with a have "s' \<noteq> (d, t) \<and> fs_entries fs s' = Some (Regular j)" by (simp add: e split: if_splits)
        with treeD(4) [OF assms(1,4,5), of s'] show False by blast
      qed
    qed
    show "fs_entries fs' s = fs_entries fs s \<or> fs_entries fs' s = None \<or>
      (\<exists>i. fs_entries fs' s = Some (Regular i) \<and> i < fs_next fs' \<and> fst s < fs_next fs' \<and>
        (\<forall>s'. fs_entries fs' s' = Some (Regular i) \<longrightarrow> s' = s))"
    proof (cases "s = (d, n)")
      case True
      then have "fs_entries fs' s = Some (Regular j) \<and> j < fs_next fs' \<and> fst s < fs_next fs'"
        using treeD(3) [OF assms(1,4)] treeD(5) [OF assms(1,4)] by (simp add: e)
      then show ?thesis using uniq True by blast
    qed (simp add: e)
  next
    fix s k assume "fs_entries fs' s = Some (Regular k)" "fs_entries fs s = Some (Regular k)"
    then show "nd_links (node_of fs' k) = nd_links (node_of fs k)" using other j by (cases "s = (d, n)") (auto simp: e)
  qed (use e in auto)
qed

end
