(* ===== verification/File_Apply.thy ===== *)
theory File_Apply
  imports Work_Queue File_Trees
begin

text \<open>
  The only code that writes workspace files: \<open>relative\<close>, \<open>parent_fd\<close>, \<open>read_file\<close>, \<open>workspace_lock\<close> and \<open>apply\<close>
  of \<open>src/nyanya_agent/reviewed_changes.py\<close>, with \<open>private_path_part\<close> of \<open>src/nyanya_agent/context_security.py\<close>.

  An apply is a sequence of system calls and database transactions that other processes interleave with. A run
  reads its surroundings by a counter of its calls: before the call number \<open>n\<close>, other programs change the files
  by \<open>su_files n\<close>; before the transaction number \<open>n\<close> they change the ledger by \<open>su_ledger n\<close> (within one, the write
  lock of SQLite keeps them out); the clock, the cancel event, the number of bytes a write accepts and the failure of
  a call are functions of the counter too. Nothing is assumed about them. The trace records each change of a file with
  the guard under which it was made; the code does not see it.
\<close>

section \<open>Paths\<close>

text \<open>\<open>str.casefold\<close>, as far as ASCII comes out of it: letters, the long s, the Kelvin sign, sharp s and the ligatures.\<close>

definition fold_table :: "(string \<times> string) list" where
  "fold_table = [(utf8 [197, 191], ''s''), (utf8 [226, 132, 170], ''k''), (utf8 [195, 159], ''ss''), (utf8 [225, 186, 158], ''ss''),
     (utf8 [239, 172, 128], ''ff''), (utf8 [239, 172, 129], ''fi''), (utf8 [239, 172, 130], ''fl''), (utf8 [239, 172, 131], ''ffi''),
     (utf8 [239, 172, 132], ''ffl''), (utf8 [239, 172, 133], ''st''), (utf8 [239, 172, 134], ''st'')]"

function casefold :: "string \<Rightarrow> string" where
  "casefold [] = []"
| "casefold (c # cs) =
     (case List.find (\<lambda>(b, a). starts_with b (c # cs)) fold_table of
        Some (b, a) \<Rightarrow> a @ casefold (drop (length b - 1) cs)
      | None \<Rightarrow> lower_char c # casefold cs)"
  by pat_completeness auto
termination by (relation "measure length") auto

definition ends_with :: "string \<Rightarrow> string \<Rightarrow> bool" where
  "ends_with e s = starts_with (rev e) (rev s)"

definition PRIVATE_PATH_PARTS :: "string list" where
  "PRIVATE_PATH_PARTS = [''.git'', ''.env'', ''.venv'', ''node_modules'', ''__pycache__'', ''.codex'', ''.gemini'',
     ''.ssh'', ''.aws'', ''data'', ''logs'', ''run'', ''sessions'', ''private'', ''downloads'', ''user_workspaces.json'',
     ''local_system.md'', ''credentials.json'', ''auth.json'', ''backups'', ''backup'', ''reports'']"

definition private_path_part :: "string \<Rightarrow> bool" where
  "private_path_part part =
     (let name = casefold part in
      name \<in> set PRIVATE_PATH_PARTS \<or>
      list_ex (\<lambda>p. starts_with p name) [''backup-'', ''backup_'', ''backups-'', ''backups_'', ''report-'', ''report_'', ''reports-'', ''reports_''] \<or>
      starts_with ''.env'' name \<or>
      starts_with ''agents'' name \<and> (ends_with ''.md'' name \<or> list_ex (\<lambda>k. starts_with ''.md.'' (drop k name)) [0..<length name] \<or>
        list_ex (\<lambda>e. ends_with e name) [''.bak'', ''.backup'', ''~'']))"

text \<open>\<open>PurePosixPath(value).parts\<close> of a path that is not absolute\<close>

definition posix_parts :: "string \<Rightarrow> string list" where
  "posix_parts value = filter (\<lambda>x. x \<noteq> [] \<and> x \<noteq> ''.'') (split_on (CHR ''/'') value)"

definition relative :: "string \<Rightarrow> string list result" where
  "relative value =
     (let parts = posix_parts value in
      if value = [] \<or> parts = [] \<or> starts_with ''/'' value \<or> ''..'' \<in> set parts \<or> char_of (92::nat) \<in> set value \<or>
         list_ex private_path_part parts
      then Inl (SafeOperationError ''Unsafe or private relative file path'') else Inr parts)"

definition digest :: "(string \<Rightarrow> string) \<Rightarrow> string option \<Rightarrow> string option" where
  "digest H data = map_option H data"

text \<open>\<open>json.dumps(plan["changes"], ensure_ascii=False, sort_keys=True)\<close>\<close>

definition change_json :: "file_change \<Rightarrow> json" where
  "change_json x = JObj [(''path'', JStr (fc_path x)), (''action'', JStr (fc_action x)), (''reason'', JStr (fc_reason x)),
     (''content'', JStr (fc_content x)), (''before_hash'', jstr_opt (fc_before_hash x)),
     (''before_content'', JStr (fc_before_content x)), (''after_hash'', jstr_opt (fc_after_hash x))]"

definition changes_text :: "file_change list \<Rightarrow> string" where
  "changes_text xs = dumps_json (JList (map change_json xs))"

section \<open>Runs\<close>

datatype mutation =
    Mkdir nat string
  | Creat nat string
  | Write nat string
  | Chmod nat nat
  | Replace nat string string
  | Unlink nat string

record surroundings =
  su_files :: "nat \<Rightarrow> files \<Rightarrow> files"
  su_ledger :: "nat \<Rightarrow> ledger \<Rightarrow> ledger"
  su_clock :: "nat \<Rightarrow> time"
  su_cancel :: "nat \<Rightarrow> bool"           \<comment> \<open>\<open>cancel_event is not None and cancel_event.is_set()\<close>\<close>
  su_fault :: "nat \<Rightarrow> string option"  \<comment> \<open>a failure of the call, for reasons outside the model\<close>
  su_written :: "nat \<Rightarrow> nat"          \<comment> \<open>bytes that the write is ready to accept\<close>
  su_locked :: bool                     \<comment> \<open>another process holds the lock of the workspace\<close>

record world =
  w_db :: ledger
  w_files :: files
  w_tick :: nat
  w_trace :: "(nat \<times> ledger \<times> mutation) list"

type_synonym 'a action = "world \<Rightarrow> 'a result \<times> world"
type_synonym guard = "nat \<Rightarrow> ledger \<Rightarrow> unit result"

definition give :: "'a \<Rightarrow> 'a action" where
  "give x w = (Inr x, w)"

definition stop :: "err \<Rightarrow> 'a action" where
  "stop e w = (Inl e, w)"

definition chain :: "'a action \<Rightarrow> ('a \<Rightarrow> 'b action) \<Rightarrow> 'b action" where
  "chain m k w = (case m w of (Inl e, w1) \<Rightarrow> (Inl e, w1) | (Inr x, w1) \<Rightarrow> k x w1)"

text \<open>\<open>except\<close> and \<open>finally\<close>: an exception of the clean-up replaces the result.\<close>

definition rescue :: "'a action \<Rightarrow> (err \<Rightarrow> 'a action) \<Rightarrow> 'a action" where
  "rescue m h w = (case m w of (Inl e, w1) \<Rightarrow> h e w1 | (Inr x, w1) \<Rightarrow> (Inr x, w1))"

definition cleaned :: "'a action \<Rightarrow> unit action \<Rightarrow> 'a action" where
  "cleaned m c w = (case m w of (r, w1) \<Rightarrow> (case c w1 of (Inl e, w2) \<Rightarrow> (Inl e, w2) | (Inr _, w2) \<Rightarrow> (r, w2)))"

definition syscall :: "surroundings \<Rightarrow> (files \<Rightarrow> ('a \<times> files) result) \<Rightarrow> 'a action" where
  "syscall su f w =
     (let n = w_tick w; fs = su_files su n (w_files w); w1 = w\<lparr>w_tick := Suc n, w_files := fs\<rparr> in
      case su_fault su n of
        Some m \<Rightarrow> (Inl (OSError m), w1)
      | None \<Rightarrow> (case f fs of Inl e \<Rightarrow> (Inl e, w1) | Inr (x, fs') \<Rightarrow> (Inr x, w1\<lparr>w_files := fs'\<rparr>)))"

definition query :: "surroundings \<Rightarrow> (files \<Rightarrow> 'a result) \<Rightarrow> 'a action" where
  "query su f = syscall su (\<lambda>fs. try_bind (f fs) (\<lambda>x. Inr (x, fs)))"

text \<open>A call that changes files, made under the guard that was passed at the count \<open>g\<close>.\<close>

definition mutate :: "surroundings \<Rightarrow> nat \<Rightarrow> mutation \<Rightarrow> (files \<Rightarrow> ('a \<times> files) result) \<Rightarrow> 'a action" where
  "mutate su g m f = chain (syscall su f) (\<lambda>x w. (Inr x, w\<lparr>w_trace := w_trace w @ [(g, w_db w, m)]\<rparr>))"

text \<open>\<open>with mutation_guard():\<close> and a transaction of its own\<close>

definition guarded :: "surroundings \<Rightarrow> guard \<Rightarrow> (nat \<Rightarrow> 'a action) \<Rightarrow> 'a action" where
  "guarded su el body w =
     (let n = w_tick w; db = su_ledger su n (w_db w); w1 = w\<lparr>w_tick := Suc n, w_db := db\<rparr> in
      case el n db of Inl e \<Rightarrow> (Inl e, w1) | Inr _ \<Rightarrow> body n w1)"

definition transact :: "surroundings \<Rightarrow> (nat \<Rightarrow> ledger \<Rightarrow> ('a \<times> ledger) result) \<Rightarrow> 'a action" where
  "transact su f w =
     (let n = w_tick w; db = su_ledger su n (w_db w); w1 = w\<lparr>w_tick := Suc n, w_db := db\<rparr> in
      case f n db of Inl e \<Rightarrow> (Inl e, w1) | Inr (x, db') \<Rightarrow> (Inr x, w1\<lparr>w_db := db'\<rparr>))"

definition cancelled :: "surroundings \<Rightarrow> bool action" where
  "cancelled su w = (Inr (su_cancel su (w_tick w)), w\<lparr>w_tick := Suc (w_tick w)\<rparr>)"

section \<open>Reading files\<close>

fun enter :: "surroundings \<Rightarrow> guard option \<Rightarrow> nat \<Rightarrow> string list \<Rightarrow> nat action" where
  "enter su mk d [] = give d"
| "enter su mk d (p # ps) =
     chain
       (case mk of
          None \<Rightarrow> give ()
        | Some el \<Rightarrow>
            rescue (guarded su el (\<lambda>n. mutate su n (Mkdir d p) (\<lambda>fs. try_bind (make_dir d p fs) (\<lambda>fs'. Inr ((), fs')))))
              (\<lambda>e. case e of FileExistsError _ \<Rightarrow> give () | _ \<Rightarrow> stop e))
       (\<lambda>_. chain (query su (open_dir d p)) (\<lambda>c. enter su mk c ps))"

definition parent_fd :: "surroundings \<Rightarrow> guard option \<Rightarrow> string \<Rightarrow> (nat \<times> string) action" where
  "parent_fd su mk path =
     (case relative path of
        Inl e \<Rightarrow> stop e
      | Inr parts \<Rightarrow> chain (query su open_root) (\<lambda>r. chain (enter su mk r (butlast parts)) (\<lambda>d. give (d, last parts))))"

definition read_file :: "surroundings \<Rightarrow> string \<Rightarrow> string option action" where
  "read_file su path =
     rescue (chain (parent_fd su None path) (\<lambda>(d, name). query su (read_at d name)))
       (\<lambda>e. case e of FileNotFoundError _ \<Rightarrow> give None | _ \<Rightarrow> stop e)"

section \<open>Apply\<close>

definition require_eligible ::
  "time \<Rightarrow> bool \<Rightarrow> plan_row \<Rightarrow> string \<Rightarrow> claim_record option \<Rightarrow> string \<Rightarrow> ledger \<Rightarrow> unit result" where
  "require_eligible t stopping plan owner record expected db =
     try_bind (require_plan_conn db (pl_id plan)) (\<lambda>_.
       if stopping then Inl (SafeOperationError ''Apply cancelled; reconcile journal before retry'')
       else (case fetch_task db (pl_task_id plan) of
           None \<Rightarrow> Inl (SafeOperationError ''Original task is no longer eligible for file apply'')
         | Some parent \<Rightarrow>
             if tk_requested_by parent \<noteq> owner \<or> tk_status parent \<notin> {''queued'', ''running'', ''awaiting_approval''}
             then Inl (SafeOperationError ''Original task is no longer eligible for file apply'')
             else
               try_bind (case record of
                   None \<Rightarrow>
                     if tk_status parent \<noteq> ''queued'' \<or> truthy_text (tk_current_execution_id parent) \<or>
                        list_ex (\<lambda>e. ex_task_id e = pl_task_id plan) (executions db) \<or>
                        list_ex (\<lambda>c. cl_task_id c = pl_task_id plan) (task_claims db) \<or>
                        list_ex (\<lambda>q. op_parent_task_id q = Some (pl_task_id plan)) (task_operations db)
                     then Inl (SafeOperationError ''File apply requires the current worker record'') else Inr ()
                 | Some r \<Rightarrow> require_apply_ownership t db (Some r) plan owner) (\<lambda>_.
               case fetch_plan db (pl_id plan) of
                 None \<Rightarrow> Inl (TypeError [])
               | Some current \<Rightarrow>
                   if pl_status current \<noteq> expected \<or> pl_expires_at current \<le> t
                   then Inl (SafeOperationError ''Plan is not approved or expired'') else Inr ())))"

text \<open>The write of one chunk inside a guard: how many bytes it took.\<close>

definition write_some :: "surroundings \<Rightarrow> nat \<Rightarrow> nat \<Rightarrow> nat \<Rightarrow> string \<Rightarrow> nat action" where
  "write_some su g i offset data w =
     (let k = min (su_written su (w_tick w)) (length data) in
      if k = 0 then query su (\<lambda>_. Inl (OSError ''File write made no progress'')) w
      else mutate su g (Write i (take k data)) (\<lambda>fs. Inr (k, write_file i offset (take k data) fs)) w)"

definition fsync :: "surroundings \<Rightarrow> unit action" where
  "fsync su = query su (\<lambda>_. Inr ())"

function write_content :: "surroundings \<Rightarrow> guard \<Rightarrow> nat \<Rightarrow> nat \<Rightarrow> string \<Rightarrow> unit action" where
  "write_content su el i offset data =
     (if data = [] then guarded su el (\<lambda>_. fsync su)
      else chain (guarded su el (\<lambda>g. write_some su g i offset data))
        (\<lambda>k. if k = 0 then stop (OSError ''File write made no progress'')
             else write_content su el i (offset + k) (drop k data)))"
  by pat_completeness auto
termination by (relation "measure (\<lambda>(su, el, i, offset, data). length data)") auto

declare write_content.simps [simp del]

definition delete_file :: "surroundings \<Rightarrow> guard \<Rightarrow> (string \<Rightarrow> string) \<Rightarrow> nat \<Rightarrow> string \<Rightarrow> string option \<Rightarrow> unit action" where
  "delete_file su el H d name before_hash =
     guarded su el (\<lambda>g. chain (query su (read_at d name)) (\<lambda>current.
       if digest H current \<noteq> before_hash then stop (SafeOperationError ''Preimage changed during apply'')
       else mutate su g (Unlink d name) (\<lambda>fs. try_bind (remove_file d name fs) (\<lambda>fs'. Inr ((), fs')))))"

definition write_new :: "surroundings \<Rightarrow> guard \<Rightarrow> nat \<Rightarrow> string \<Rightarrow> string \<Rightarrow> unit action" where
  "write_new su el d name content =
     chain (guarded su el (\<lambda>g. mutate su g (Creat d name) (create_file d name 384)))
       (\<lambda>i. write_content su el i 0 content)"

definition temp_name :: "string \<Rightarrow> int \<Rightarrow> string" where
  "temp_name plan_id index = ''.nyanya-'' @ plan_id @ ''-'' @ show_int index"

definition swap_in :: "surroundings \<Rightarrow> guard \<Rightarrow> (string \<Rightarrow> string) \<Rightarrow> nat \<Rightarrow> string \<Rightarrow> string \<Rightarrow> string option \<Rightarrow> string \<Rightarrow> nat \<Rightarrow> unit action" where
  "swap_in su el H d temp name before_hash content i =
     chain (guarded su el (\<lambda>g. chain (query su (mode_at d name)) (\<lambda>mode.
         mutate su g (Chmod i (mode mod 512)) (\<lambda>fs. Inr ((), change_mode i (mode mod 512) fs)))))
       (\<lambda>_. chain (write_content su el i 0 content)
       (\<lambda>_. guarded su el (\<lambda>g. chain (query su (read_at d name)) (\<lambda>current.
         if digest H current \<noteq> before_hash then stop (SafeOperationError ''Concurrent edit detected'')
         else mutate su g (Replace d temp name) (\<lambda>fs. try_bind (replace_file d temp name fs) (\<lambda>fs'. Inr ((), fs')))))))"

definition drop_temp :: "surroundings \<Rightarrow> guard \<Rightarrow> nat \<Rightarrow> string \<Rightarrow> unit action" where
  "drop_temp su el d temp =
     rescue (guarded su el (\<lambda>g. mutate su g (Unlink d temp) (\<lambda>fs. try_bind (remove_file d temp fs) (\<lambda>fs'. Inr ((), fs')))))
       (\<lambda>e. case e of FileNotFoundError _ \<Rightarrow> give () | SafeOperationError _ \<Rightarrow> give () | _ \<Rightarrow> stop e)"

definition modify_file ::
  "surroundings \<Rightarrow> guard \<Rightarrow> (string \<Rightarrow> string) \<Rightarrow> nat \<Rightarrow> string \<Rightarrow> string \<Rightarrow> string option \<Rightarrow> string \<Rightarrow> unit action" where
  "modify_file su el H d temp name before_hash content =
     chain (guarded su el (\<lambda>g. mutate su g (Creat d temp) (create_file d temp 384)))
       (\<lambda>i. cleaned (swap_in su el H d temp name before_hash content i) (drop_temp su el d temp))"

definition apply_item :: "surroundings \<Rightarrow> guard \<Rightarrow> (string \<Rightarrow> string) \<Rightarrow> string \<Rightarrow> int \<Rightarrow> file_change \<Rightarrow> unit action" where
  "apply_item su el H plan_id index item =
     chain (cancelled su) (\<lambda>c.
       if c then stop (SafeOperationError ''Apply cancelled; reconcile journal before retry'')
       else
         chain (parent_fd su (if fc_action item = ''create'' then Some el else None) (fc_path item)) (\<lambda>(d, name).
         chain (query su (read_at d name)) (\<lambda>current.
           if digest H current \<noteq> fc_before_hash item then stop (SafeOperationError ''Preimage changed during apply'')
           else
             chain (if fc_action item = ''delete'' then delete_file su el H d name (fc_before_hash item)
                    else if fc_action item = ''create'' then write_new su el d name (fc_content item)
                    else modify_file su el H d (temp_name plan_id index) name (fc_before_hash item) (fc_content item))
               (\<lambda>_. guarded su el (\<lambda>_. fsync su)))))"

fun apply_items :: "surroundings \<Rightarrow> guard \<Rightarrow> (string \<Rightarrow> string) \<Rightarrow> string \<Rightarrow> int \<Rightarrow> file_change list \<Rightarrow> unit action" where
  "apply_items su el H plan_id index [] = give ()"
| "apply_items su el H plan_id index (item # items) =
     chain (apply_item su el H plan_id index item) (\<lambda>_.
     chain (transact su (\<lambda>_ db. Inr ((), update_journal (\<lambda>j. jn_plan_id j = plan_id \<and> jn_ordinal j = index)
         (\<lambda>j. j\<lparr>jn_state := ''applied''\<rparr>) db))) (\<lambda>_.
     apply_items su el H plan_id (index + 1) items))"

text \<open>The first transaction: every file is read and its preimage journalled before any file is changed.\<close>

fun journal_items :: "surroundings \<Rightarrow> (string \<Rightarrow> string) \<Rightarrow> string \<Rightarrow> int \<Rightarrow> file_change list \<Rightarrow> ledger \<Rightarrow> ledger action" where
  "journal_items su H plan_id index [] db = give db"
| "journal_items su H plan_id index (item # items) db =
     chain (read_file su (fc_path item)) (\<lambda>before.
       if digest H before \<noteq> fc_before_hash item then stop (SafeOperationError ''Preimage changed; request a new plan'')
       else (case insert_journal \<lparr>jn_plan_id = plan_id, jn_ordinal = index, jn_path = fc_path item,
               jn_before_hash = fc_before_hash item, jn_after_hash = fc_after_hash item, jn_before_content = before,
               jn_state = ''prepared''\<rparr> db of
           Inl e \<Rightarrow> stop e | Inr db1 \<Rightarrow> journal_items su H plan_id (index + 1) items db1))"

definition start_apply ::
  "surroundings \<Rightarrow> (string \<Rightarrow> string) \<Rightarrow> plan_row \<Rightarrow> string \<Rightarrow> string \<Rightarrow> claim_record option \<Rightarrow> unit action" where
  "start_apply su H plan dir owner record w =
     (let n = w_tick w; db = su_ledger su n (w_db w); w1 = w\<lparr>w_tick := Suc n, w_db := db\<rparr> in
      case require_eligible (su_clock su n) (su_cancel su n) plan owner record ''approved'' db of
        Inl e \<Rightarrow> (Inl e, w1)
      | Inr _ \<Rightarrow>
          if H (changes_text (pl_changes plan)) \<noteq> pl_plan_hash plan then (Inl (SafeOperationError ''Plan integrity failure''), w1)
          else if list_ex (\<lambda>p. pl_workspace p = dir \<and> pl_status p \<in> {''applying'', ''uncertain''} \<and> pl_id p \<noteq> pl_id plan) (change_plans db)
          then (Inl (SafeOperationError ''An earlier file apply must be reconciled first''), w1)
          else
            chain (journal_items su H (pl_id plan) 0 (pl_changes plan) db) (\<lambda>db1 w2.
              (Inr (), w2\<lparr>w_db := update_plan (\<lambda>p. pl_id p = pl_id plan) (\<lambda>p. p\<lparr>pl_status := ''applying''\<rparr>) db1\<rparr>)) w1)"

definition end_apply :: "surroundings \<Rightarrow> plan_row \<Rightarrow> string \<Rightarrow> claim_record option \<Rightarrow> nat \<Rightarrow> ledger \<Rightarrow> (unit \<times> ledger) result" where
  "end_apply su plan owner record n db =
     (let t = su_clock su n in
      try_bind (require_eligible t (su_cancel su n) plan owner record ''applying'' db) (\<lambda>_.
      try_bind (append_event t ''plan.applied'' (Some (pl_task_id plan)) None [] ''Reviewed file plan applied''
          [(''plan_id'', JStr (pl_id plan))]
          (update_draft (\<lambda>d. dr_plan_id d = Some (pl_id plan) \<and> dr_status d = ''ready'')
            (\<lambda>d. d\<lparr>dr_status := ''applied'', dr_updated_at := t\<rparr>)
            (update_plan (\<lambda>p. pl_id p = pl_id plan) (\<lambda>p. p\<lparr>pl_status := ''applied''\<rparr>) db))) (\<lambda>db1.
      Inr ((), db1))))"

definition apply_guard :: "surroundings \<Rightarrow> plan_row \<Rightarrow> string \<Rightarrow> claim_record option \<Rightarrow> guard" where
  "apply_guard su plan owner record n db =
     require_eligible (su_clock su n) (su_cancel su n) plan owner record ''applying'' db"

definition run_apply :: "surroundings \<Rightarrow> (string \<Rightarrow> string) \<Rightarrow> plan_row \<Rightarrow> string \<Rightarrow> claim_record option \<Rightarrow> unit action" where
  "run_apply su H plan owner record =
     rescue
       (chain (apply_items su (apply_guard su plan owner record) H (pl_id plan) 0 (pl_changes plan))
         (\<lambda>_. transact su (end_apply su plan owner record)))
       (\<lambda>e. chain (transact su (\<lambda>_ db. Inr ((), update_plan (\<lambda>p. pl_id p = pl_id plan) (\<lambda>p. p\<lparr>pl_status := ''uncertain''\<rparr>) db)))
         (\<lambda>_. stop e))"

definition read_plan :: "surroundings \<Rightarrow> string \<Rightarrow> string \<Rightarrow> plan_row action" where
  "read_plan su plan_id owner = transact su (\<lambda>_ db. try_bind (get_plan db plan_id owner) (\<lambda>p. Inr (p, db)))"

definition locked :: "surroundings \<Rightarrow> 'a action \<Rightarrow> 'a action" where
  "locked su m = (if su_locked su then stop (OSError ''Resource temporarily unavailable'') else m)"

definition APPLIED :: string where
  "APPLIED = utf8 [237, 140, 140, 236, 157, 188, 32, 236, 160, 129, 236, 154, 169, 32, 236, 153, 132, 235, 163, 140, 58, 10]"

definition apply_plan ::
  "workspace_env \<Rightarrow> surroundings \<Rightarrow> (string \<Rightarrow> string) \<Rightarrow> string \<Rightarrow> string \<Rightarrow> claim_record option \<Rightarrow> string action" where
  "apply_plan env su H plan_id owner record =
     chain (read_plan su plan_id owner) (\<lambda>plan.
       case check_workspace env (pl_workspace plan) owner of
         Inl e \<Rightarrow> stop e
       | Inr dir \<Rightarrow>
           locked su
             (chain (start_apply su H plan dir owner record) (\<lambda>_.
              chain (run_apply su H plan owner record) (\<lambda>_.
              give (APPLIED @ join_with [char_of (10::nat)] (map fc_path (pl_changes plan)))))))"

end
