(* ===== verification/File_Laws.thy ===== *)
theory File_Laws
  imports File_Apply
begin

text \<open>
  What an apply guarantees, whatever its surroundings do: files change only under the guard, and a failure leaves the plan
  marked. When no other program changes the files of the workspace, a successful apply is exactly the planned change.
\<close>

section \<open>What a run keeps\<close>

definition keeps :: "(world \<Rightarrow> bool) \<Rightarrow> 'a action \<Rightarrow> bool" where
  "keeps I m \<longleftrightarrow> (\<forall>w. I w \<longrightarrow> I (snd (m w)))"

lemma keepsD: "keeps I m \<Longrightarrow> I w \<Longrightarrow> I (snd (m w))"
  by (simp add: keeps_def)

text \<open>The trace grew by entries that are \<open>ok\<close>; inside a guard the ledger is the one that passed it.\<close>

definition grown :: "(nat \<times> ledger \<times> mutation \<Rightarrow> bool) \<Rightarrow> world \<Rightarrow> ledger option \<Rightarrow> world \<Rightarrow> bool" where
  "grown ok w0 held w \<longleftrightarrow> (\<exists>new. w_trace w = w_trace w0 @ new \<and> list_all ok new) \<and>
     (case held of None \<Rightarrow> True | Some db \<Rightarrow> w_db w = db)"

named_theorems keeps_intros \<open>rules for the invariants of a run\<close>

lemma keeps_give [keeps_intros]: "keeps I (give x)" "keeps I (stop e)"
  by (simp_all add: keeps_def give_def stop_def)

lemma keeps_chain [keeps_intros]: "keeps I m \<Longrightarrow> (\<And>x. keeps I (k x)) \<Longrightarrow> keeps I (chain m k)"
  by (fastforce simp: keeps_def chain_def split: prod.split sum.split)

lemma keeps_rescue [keeps_intros]: "keeps I m \<Longrightarrow> (\<And>e. keeps I (h e)) \<Longrightarrow> keeps I (rescue m h)"
  by (fastforce simp: keeps_def rescue_def split: prod.split sum.split)

lemma keeps_cleaned [keeps_intros]: "keeps I m \<Longrightarrow> keeps I c \<Longrightarrow> keeps I (cleaned m c)"
  by (fastforce simp: keeps_def cleaned_def split: prod.split sum.split)

lemma keeps_if [keeps_intros]: "(b \<Longrightarrow> keeps I m) \<Longrightarrow> (\<not> b \<Longrightarrow> keeps I k) \<Longrightarrow> keeps I (if b then m else k)"
  by simp

lemma keeps_syscall [keeps_intros]: "keeps (grown ok w0 D) (syscall su f)" "keeps (grown ok w0 D) (query su q)"
  "keeps (grown ok w0 D) (cancelled su)"
  by (auto simp: keeps_def grown_def syscall_def query_def cancelled_def Let_def split: option.splits sum.splits)

lemma keeps_mutate [keeps_intros]: "ok (g, db, m) \<Longrightarrow> keeps (grown ok w0 (Some db)) (mutate su g m f)"
  by (auto simp: keeps_def mutate_def chain_def syscall_def grown_def Let_def split: option.splits sum.splits prod.splits)

lemma keeps_guarded:
  assumes "\<And>n db. el n db = Inr () \<Longrightarrow> keeps (grown ok w0 (Some db)) (body n)"
  shows "keeps (grown ok w0 None) (guarded su el body)"
  unfolding keeps_def
proof (intro allI impI)
  fix w assume w: "grown ok w0 None w"
  let ?n = "w_tick w" and ?db = "su_ledger su (w_tick w) (w_db w)"
  let ?w = "w\<lparr>w_tick := Suc ?n, w_db := ?db\<rparr>"
  show "grown ok w0 None (snd (guarded su el body w))"
  proof (cases "el ?n ?db")
    case (Inr u)
    then have "el ?n ?db = Inr ()" by simp
    moreover have "grown ok w0 (Some ?db) ?w" using w by (simp add: grown_def)
    ultimately have "grown ok w0 (Some ?db) (snd (body ?n ?w))" using assms by (simp add: keeps_def)
    then show ?thesis using Inr by (simp add: guarded_def Let_def grown_def)
  qed (use w in \<open>simp add: guarded_def grown_def Let_def\<close>)
qed

lemma keeps_transact [keeps_intros]: "keeps (grown ok w0 None) (transact su f)"
  by (auto simp: keeps_def transact_def grown_def Let_def split: sum.splits prod.splits)

lemma keeps_case [keeps_intros]:
  "(\<And>e. r = Inl e \<Longrightarrow> keeps I (a e)) \<Longrightarrow> (\<And>x. r = Inr x \<Longrightarrow> keeps I (b x)) \<Longrightarrow> keeps I (case r of Inl e \<Rightarrow> a e | Inr x \<Rightarrow> b x)"
  "(p = None \<Longrightarrow> keeps I c) \<Longrightarrow> (\<And>x. p = Some x \<Longrightarrow> keeps I (d x)) \<Longrightarrow> keeps I (case p of None \<Rightarrow> c | Some x \<Rightarrow> d x)"
  "(\<And>x y. keeps I (f x y)) \<Longrightarrow> keeps I (case pq of (x, y) \<Rightarrow> f x y)"
  by (auto split: sum.split option.split prod.split)

text \<open>The names that an apply of the changes may create, replace or remove.\<close>

fun names_of :: "mutation \<Rightarrow> string list" where
  "names_of (Mkdir d p) = [p]"
| "names_of (Creat d n) = [n]"
| "names_of (Write i c) = []"
| "names_of (Chmod i m) = []"
| "names_of (Replace d t n) = [t, n]"
| "names_of (Unlink d n) = [n]"

definition item_names :: "string \<Rightarrow> int \<Rightarrow> file_change \<Rightarrow> string list" where
  "item_names plan_id index item = temp_name plan_id index # (case relative (fc_path item) of Inl _ \<Rightarrow> [] | Inr parts \<Rightarrow> parts)"

fun plan_names :: "string \<Rightarrow> int \<Rightarrow> file_change list \<Rightarrow> string list" where
  "plan_names plan_id index [] = []"
| "plan_names plan_id index (x # xs) = item_names plan_id index x @ plan_names plan_id (index + 1) xs"

definition allowed :: "guard \<Rightarrow> string list \<Rightarrow> nat \<times> ledger \<times> mutation \<Rightarrow> bool" where
  "allowed el names = (\<lambda>(n, db, m). el n db = Inr () \<and> set (names_of m) \<subseteq> set names)"

lemma relative_parts: "relative v = Inr ps \<Longrightarrow> ps \<noteq> []"
  by (auto simp: relative_def Let_def split: if_splits)

lemma keeps_enter:
  assumes "mk = None \<or> mk = Some el \<and> set ps \<subseteq> set ns"
  shows "keeps (grown (allowed el ns) w0 None) (enter su mk d ps)"
  using assms
proof (induction ps arbitrary: d)
  case (Cons p ps)
  have mkdir: "keeps (grown (allowed el ns) w0 None)
      (rescue (guarded su el (\<lambda>n. mutate su n (Mkdir d p) (\<lambda>fs. try_bind (make_dir d p fs) (\<lambda>fs'. Inr ((), fs')))))
        (\<lambda>e. case e of FileExistsError _ \<Rightarrow> give () | _ \<Rightarrow> stop e))" if "p \<in> set ns"
  proof (rule keeps_rescue)
    show "keeps (grown (allowed el ns) w0 None)
        (guarded su el (\<lambda>n. mutate su n (Mkdir d p) (\<lambda>fs. try_bind (make_dir d p fs) (\<lambda>fs'. Inr ((), fs')))))"
      by (rule keeps_guarded, rule keeps_mutate) (simp add: allowed_def that)
  qed (simp add: keeps_give split: err.split)
  from Cons.prems have p: "mk = None \<or> mk = Some el \<and> p \<in> set ns" "mk = None \<or> mk = Some el \<and> set ps \<subseteq> set ns" by auto
  note IH = Cons.IH [OF p(2)]
  show ?case
    by (simp only: enter.simps, rule keeps_chain, rule keeps_case(2))
      (use p mkdir IH in \<open>auto intro!: keeps_chain keeps_syscall keeps_give\<close>)
qed (simp add: keeps_give)

lemma keeps_parent_fd:
  assumes "mk = None \<or> mk = Some el \<and> (\<forall>parts. relative path = Inr parts \<longrightarrow> set parts \<subseteq> set ns)"
  shows "keeps (grown (allowed el ns) w0 None) (parent_fd su mk path)"
proof (cases "relative path")
  case (Inr parts)
  have "mk = None \<or> mk = Some el \<and> set (butlast parts) \<subseteq> set ns"
    using assms Inr by (meson in_set_butlastD subset_iff)
  from keeps_enter [OF this] show ?thesis by (simp add: parent_fd_def Inr keeps_chain keeps_syscall keeps_give)
qed (simp add: parent_fd_def keeps_give)

lemma keeps_read_file: "keeps (grown (allowed el ns) w0 None) (read_file su path)"
  unfolding read_file_def
  by (rule keeps_rescue, intro keeps_intros keeps_parent_fd) (auto simp: keeps_give split: err.split)

lemma keeps_write_some: "el g db = Inr () \<Longrightarrow> keeps (grown (allowed el ns) w0 (Some db)) (write_some su g i off data)"
  unfolding keeps_def
proof (intro allI impI)
  fix w assume el: "el g db = Inr ()" and w: "grown (allowed el ns) w0 (Some db) w"
  let ?k = "min (su_written su (w_tick w)) (length data)"
  show "grown (allowed el ns) w0 (Some db) (snd (write_some su g i off data w))"
  proof (cases "?k = 0")
    case True
    then show ?thesis using keepsD [OF keeps_syscall(2) w] by (simp add: write_some_def Let_def)
  next
    case False
    have "keeps (grown (allowed el ns) w0 (Some db)) (mutate su g (Write i (take ?k data)) f)" for f :: "files \<Rightarrow> (nat \<times> files) result"
      by (rule keeps_mutate) (simp add: allowed_def el)
    from keepsD [OF this w] False show ?thesis unfolding write_some_def Let_def by (simp only: if_False)
  qed
qed

lemma keeps_fsync [keeps_intros]: "keeps (grown ok w0 D) (fsync su)"
  unfolding fsync_def by (rule keeps_intros)

lemma keeps_write_content: "keeps (grown (allowed el ns) w0 None) (write_content su el i off data)"
proof (induction su el i off data rule: write_content.induct)
  case (1 su el i off data)
  show ?case
    by (subst write_content.simps) (intro keeps_intros keeps_guarded keeps_write_some 1; assumption)
qed

text \<open>What the surroundings and the ledger are, no file changes outside a passed guard or under another name.\<close>

lemma keeps_change:
  assumes "t \<in> set ns" "n \<in> set ns"
  shows "keeps (grown (allowed el ns) w0 None) (delete_file su el H d n b)"
    "keeps (grown (allowed el ns) w0 None) (write_new su el d n c)"
    "keeps (grown (allowed el ns) w0 None) (modify_file su el H d t n b c)"
proof -
  have m: "keeps (grown (allowed el ns) w0 (Some db)) (mutate su g x f)" if "el g db = Inr ()" "set (names_of x) \<subseteq> set ns" for g db x f su
    by (rule keeps_mutate) (use that in \<open>simp add: allowed_def\<close>)
  show "keeps (grown (allowed el ns) w0 None) (delete_file su el H d n b)"
    unfolding delete_file_def by (intro keeps_guarded keeps_intros m; simp add: assms)
  show "keeps (grown (allowed el ns) w0 None) (write_new su el d n c)"
    unfolding write_new_def by (intro keeps_guarded keeps_chain keeps_write_content m; simp add: assms)
  have "keeps (grown (allowed el ns) w0 None) (drop_temp su el d t)"
    unfolding drop_temp_def by (intro keeps_rescue keeps_guarded m) (auto simp: assms keeps_give split: err.split)
  moreover have "keeps (grown (allowed el ns) w0 None) (swap_in su el H d t n b c i)" for i
    unfolding swap_in_def by (intro keeps_chain keeps_guarded keeps_syscall keeps_if keeps_give keeps_write_content m; simp add: assms)
  ultimately show "keeps (grown (allowed el ns) w0 None) (modify_file su el H d t n b c)"
    unfolding modify_file_def by (intro keeps_guarded keeps_chain keeps_cleaned m; simp add: assms)
qed


lemma keeps_chain_result:
  assumes "keeps I m" "\<And>x w w'. m w = (Inr x, w') \<Longrightarrow> keeps I (k x)"
  shows "keeps I (chain m k)"
  unfolding keeps_def
proof (intro allI impI)
  fix w assume w: "I w"
  obtain r w' where m: "m w = (r, w')" by (cases "m w")
  with keepsD [OF assms(1) w] have "I w'" by simp
  then show "I (snd (chain m k w))"
    using m assms(2) [of w _ w'] by (cases r) (auto simp: chain_def keeps_def)
qed

lemma parent_fd_name:
  assumes "parent_fd su mk path w = (Inr (d, name), w')"
  shows "\<exists>parts. relative path = Inr parts \<and> name = last parts"
  using assms by (auto simp: parent_fd_def chain_def give_def stop_def split: sum.splits prod.splits)

lemma keeps_apply_item:
  assumes "set (item_names plan_id k item) \<subseteq> set ns"
  shows "keeps (grown (allowed el ns) w0 None) (apply_item su el H plan_id k item)"
proof -
  have t: "temp_name plan_id k \<in> set ns" using assms by (simp add: item_names_def)
  have n: "\<forall>parts. relative (fc_path item) = Inr parts \<longrightarrow> set parts \<subseteq> set ns" using assms by (auto simp: item_names_def)
  have step: "keeps (grown (allowed el ns) w0 None) (guarded su el (\<lambda>_. fsync su))"
    by (intro keeps_guarded keeps_fsync)
  have "keeps (grown (allowed el ns) w0 None)
      (chain (parent_fd su (if fc_action item = ''create'' then Some el else None) (fc_path item)) (\<lambda>(d, name).
         chain (query su (read_at d name)) (\<lambda>current.
           if digest H current \<noteq> fc_before_hash item then stop (SafeOperationError ''Preimage changed during apply'')
           else
             chain (if fc_action item = ''delete'' then delete_file su el H d name (fc_before_hash item)
                    else if fc_action item = ''create'' then write_new su el d name (fc_content item)
                    else modify_file su el H d (temp_name plan_id k) name (fc_before_hash item) (fc_content item))
               (\<lambda>_. guarded su el (\<lambda>_. fsync su)))))"
  proof (rule keeps_chain_result [OF keeps_parent_fd], use n in simp)
    fix x w w' assume p: "parent_fd su (if fc_action item = ''create'' then Some el else None) (fc_path item) w = (Inr x, w')"
    obtain d name where x: "x = (d, name)" by (cases x)
    from parent_fd_name [OF p [unfolded x]] obtain parts where "relative (fc_path item) = Inr parts" "name = last parts" by blast
    with n relative_parts have "name \<in> set ns" by (meson last_in_set subset_iff)
    note c = keeps_change [OF t this]
    show "keeps (grown (allowed el ns) w0 None) (case x of (d, name) \<Rightarrow> chain (query su (read_at d name)) (\<lambda>current.
           if digest H current \<noteq> fc_before_hash item then stop (SafeOperationError ''Preimage changed during apply'')
           else
             chain (if fc_action item = ''delete'' then delete_file su el H d name (fc_before_hash item)
                    else if fc_action item = ''create'' then write_new su el d name (fc_content item)
                    else modify_file su el H d (temp_name plan_id k) name (fc_before_hash item) (fc_content item))
               (\<lambda>_. guarded su el (\<lambda>_. fsync su))))"
      unfolding x prod.case by (intro keeps_chain keeps_syscall keeps_if keeps_give step c)
  qed
  note rest = this
  show ?thesis unfolding apply_item_def
    by (rule keeps_chain, rule keeps_syscall, rule keeps_if, rule keeps_give, rule rest)
qed

lemma keeps_apply_items:
  "set (plan_names plan_id k items) \<subseteq> set ns \<Longrightarrow> keeps (grown (allowed el ns) w0 None) (apply_items su el H plan_id k items)"
  by (induction su el H plan_id k items rule: apply_items.induct)
    (auto intro!: keeps_chain keeps_transact keeps_apply_item simp: keeps_give)

lemma keeps_run_apply:
  assumes "el = apply_guard su plan owner record" "ns = plan_names (pl_id plan) 0 (pl_changes plan)"
  shows "keeps (grown (allowed el ns) w0 None) (run_apply su H plan owner record)"
  unfolding run_apply_def assms(1) [symmetric]
  by (intro keeps_rescue keeps_chain keeps_transact keeps_give keeps_apply_items) (simp add: assms(2))

text \<open>The first transaction changes no file; when it fails it changes nothing.\<close>

lemma keeps_journal_items: "keeps (grown (allowed el ns) w0 None) (journal_items su H i k items db)"
  by (induction su H i k items db rule: journal_items.induct)
    (auto intro!: keeps_chain keeps_read_file simp: keeps_give split: sum.split)

definition unmoved :: "world \<Rightarrow> world \<Rightarrow> bool" where
  "unmoved w0 w \<longleftrightarrow> w_db w = w_db w0 \<and> w_trace w = w_trace w0"

lemma unmoved_syscall [keeps_intros]: "keeps (unmoved w0) (query su q)"
  by (auto simp: keeps_def unmoved_def syscall_def query_def Let_def split: option.splits sum.splits)

lemma unmoved_enter: "keeps (unmoved w0) (enter su None d ps)"
  by (induction ps arbitrary: d) (auto intro!: keeps_chain keeps_give unmoved_syscall)

lemma unmoved_read_file: "keeps (unmoved w0) (read_file su path)"
proof -
  have "keeps (unmoved w0) (parent_fd su None path)"
    unfolding parent_fd_def by (intro keeps_case keeps_chain keeps_give unmoved_syscall unmoved_enter)
  then show ?thesis
    unfolding read_file_def by (intro keeps_rescue keeps_chain keeps_case unmoved_syscall) (auto simp: keeps_give split: err.split)
qed

lemma unmoved_journal_items: "keeps (unmoved w0) (journal_items su H i k items db)"
  by (induction su H i k items db rule: journal_items.induct)
    (auto intro!: keeps_chain unmoved_read_file simp: keeps_give split: sum.split)

lemma start_apply_effect:
  assumes "start_apply su H plan dir owner record w = (r, w')"
  shows "w_trace w' = w_trace w" "r = Inl e \<Longrightarrow> w_db w' = su_ledger su (w_tick w) (w_db w)"
proof -
  let ?n = "w_tick w" and ?db = "su_ledger su (w_tick w) (w_db w)"
  let ?w = "w\<lparr>w_tick := Suc ?n, w_db := ?db\<rparr>"
  have "unmoved ?w (snd (journal_items su H (pl_id plan) 0 (pl_changes plan) ?db ?w))"
    by (rule keepsD [OF unmoved_journal_items]) (simp add: unmoved_def)
  then show "w_trace w' = w_trace w" "r = Inl e \<Longrightarrow> w_db w' = ?db"
    using assms by (auto simp: start_apply_def Let_def chain_def unmoved_def split: sum.splits if_splits prod.splits)
qed

lemma run_apply_failed:
  assumes "run_apply su H plan owner record w = (Inl e, w')"
  shows "fetch_plan (w_db w') (pl_id plan) = Some p \<Longrightarrow> pl_status p = ''uncertain''"
proof -
  obtain db where db: "w_db w' = update_plan (\<lambda>p. pl_id p = pl_id plan) (\<lambda>p. p\<lparr>pl_status := ''uncertain''\<rparr>) db"
    using assms by (auto simp: run_apply_def rescue_def chain_def transact_def stop_def Let_def split: prod.splits sum.splits)
  show "fetch_plan (w_db w') (pl_id plan) = Some p \<Longrightarrow> pl_status p = ''uncertain''"
    by (auto simp: db fetch_plan_def update_plan_def find_key_upd dest: find_SomeD)
qed

lemma half_applied_effects: "p \<in> set (change_plans db) \<Longrightarrow> pl_status p \<in> {''applying'', ''uncertain''} \<Longrightarrow> unresolved_effects db (pl_task_id p) b"
  by (auto simp: unresolved_effects_def half_applied_def Let_def list_ex_iff)


lemma apply_guardD:
  assumes "apply_guard su plan owner record n db = Inr ()"
  shows "\<not> su_cancel su n \<and>
    (\<exists>k. fetch_task db (pl_task_id plan) = Some k \<and> tk_requested_by k = owner \<and> tk_status k \<in> {''queued'', ''running'', ''awaiting_approval''}) \<and>
    (\<exists>p. fetch_plan db (pl_id plan) = Some p \<and> pl_status p = ''applying'' \<and> su_clock su n < pl_expires_at p \<and>
       unresolved_effects db (pl_task_id p) True) \<and>
    (record = None \<or> require_apply_ownership (su_clock su n) db record plan owner = Inr ())"
  using assms half_applied_effects
  by (auto simp: apply_guard_def require_eligible_def dest: fetch_planD split: if_splits option.splits)

lemma apply_plan_trace:
  assumes "apply_plan env su H plan_id owner record w = (r, w')"
  shows "w_trace w' = w_trace w \<or> (\<exists>plan. get_plan (su_ledger su (w_tick w) (w_db w)) plan_id owner = Inr plan \<and>
    grown (allowed (apply_guard su plan owner record) (plan_names (pl_id plan) 0 (pl_changes plan))) w None w')"
proof (cases "get_plan (su_ledger su (w_tick w) (w_db w)) plan_id owner")
  case (Inl e)
  with assms show ?thesis by (auto simp: apply_plan_def chain_def read_plan_def transact_def Let_def)
next
  case (Inr plan)
  let ?ok = "allowed (apply_guard su plan owner record) (plan_names (pl_id plan) 0 (pl_changes plan))"
  have r: "read_plan su plan_id owner w = (Inr plan, w\<lparr>w_tick := Suc (w_tick w), w_db := su_ledger su (w_tick w) (w_db w)\<rparr>)"
    by (simp add: read_plan_def transact_def Let_def Inr)
  let ?w = "w\<lparr>w_tick := Suc (w_tick w), w_db := su_ledger su (w_tick w) (w_db w)\<rparr>"
  have "keeps (grown ?ok w None) (start_apply su H plan dir owner record)" for dir
    unfolding keeps_def grown_def using start_apply_effect(1) by (metis option.case(1) surjective_pairing)
  then have "keeps (grown ?ok w None) (case check_workspace env (pl_workspace plan) owner of Inl e \<Rightarrow> stop e
      | Inr dir \<Rightarrow> locked su (chain (start_apply su H plan dir owner record) (\<lambda>_.
          chain (run_apply su H plan owner record) (\<lambda>_.
          give (APPLIED @ join_with [char_of (10::nat)] (map fc_path (pl_changes plan)))))))"
    unfolding locked_def by (intro keeps_case keeps_if keeps_chain keeps_run_apply keeps_give) simp_all
  from keepsD [OF this, of ?w] have "grown ?ok w None w'"
    using assms by (simp add: apply_plan_def chain_def [of "read_plan su plan_id owner"] r grown_def)
  with Inr show ?thesis by blast
qed

text \<open>C6. Files change only under a current permission. Whatever other programs do to the ledger and the files while an
  apply runs, each of its changes was made after a check, in the same transaction, that cancellation was not requested, the
  owner's task was live, the plan was being applied and unexpired, and the worker still owned the execution; the ledger
  then showed unresolved effects, so an interruption at any point is held for reconciliation; and no name was touched
  other than those of the plan's paths and its temporary files.\<close>

theorem files_change_under_guard:
  assumes "apply_plan env su H plan_id owner record w = (r, w')"
  shows "\<exists>new. w_trace w' = w_trace w @ new \<and> list_all (\<lambda>(n, db, m).
    \<exists>plan k p. get_plan (su_ledger su (w_tick w) (w_db w)) plan_id owner = Inr plan \<and> \<not> su_cancel su n \<and>
      fetch_task db (pl_task_id plan) = Some k \<and> tk_requested_by k = owner \<and> tk_status k \<in> {''queued'', ''running'', ''awaiting_approval''} \<and>
      fetch_plan db plan_id = Some p \<and> pl_status p = ''applying'' \<and> su_clock su n < pl_expires_at p \<and>
      unresolved_effects db (pl_task_id p) True \<and>
      (record = None \<or> require_apply_ownership (su_clock su n) db record plan owner = Inr ()) \<and>
      set (names_of m) \<subseteq> set (plan_names plan_id 0 (pl_changes plan))) new"
  using apply_plan_trace [OF assms]
proof
  assume "\<exists>plan. get_plan (su_ledger su (w_tick w) (w_db w)) plan_id owner = Inr plan \<and>
    grown (allowed (apply_guard su plan owner record) (plan_names (pl_id plan) 0 (pl_changes plan))) w None w'"
  then obtain plan new where plan: "get_plan (su_ledger su (w_tick w) (w_db w)) plan_id owner = Inr plan"
    and new: "w_trace w' = w_trace w @ new"
      "list_all (allowed (apply_guard su plan owner record) (plan_names (pl_id plan) 0 (pl_changes plan))) new"
    by (auto simp: grown_def)
  from plan have "pl_id plan = plan_id" by (auto simp: get_plan_def dest: find_SomeD split: option.splits)
  with new(2) apply_guardD plan have "list_all (\<lambda>(n, db, m).
    \<exists>plan k p. get_plan (su_ledger su (w_tick w) (w_db w)) plan_id owner = Inr plan \<and> \<not> su_cancel su n \<and>
      fetch_task db (pl_task_id plan) = Some k \<and> tk_requested_by k = owner \<and> tk_status k \<in> {''queued'', ''running'', ''awaiting_approval''} \<and>
      fetch_plan db plan_id = Some p \<and> pl_status p = ''applying'' \<and> su_clock su n < pl_expires_at p \<and>
      unresolved_effects db (pl_task_id p) True \<and>
      (record = None \<or> require_apply_ownership (su_clock su n) db record plan owner = Inr ()) \<and>
      set (names_of m) \<subseteq> set (plan_names plan_id 0 (pl_changes plan))) new"
    by (elim list.pred_mono_strong) (fastforce simp: allowed_def)
  with new(1) show ?thesis by blast
qed simp

text \<open>C7. A failed apply is never forgotten. When an apply raises, either it changed no file, and the ledger is what other
  programs made of it, or the plan is marked uncertain and its task has unresolved effects, which block
  completion, cancellation and every other apply in the directory until the owner has resolved them.\<close>

theorem failed_apply_is_held:
  assumes "apply_plan env su H plan_id owner record w = (Inl e, w')"
  shows "w_trace w' = w_trace w \<and> (su_ledger su = (\<lambda>_ db. db) \<longrightarrow> w_db w' = w_db w) \<or>
    (\<forall>p. fetch_plan (w_db w') plan_id = Some p \<longrightarrow> pl_status p = ''uncertain'' \<and> unresolved_effects (w_db w') (pl_task_id p) True)"
proof (cases "get_plan (su_ledger su (w_tick w) (w_db w)) plan_id owner")
  case (Inl e)
  with assms show ?thesis by (auto simp: apply_plan_def chain_def read_plan_def transact_def Let_def)
next
  case (Inr plan)
  let ?w = "w\<lparr>w_tick := Suc (w_tick w), w_db := su_ledger su (w_tick w) (w_db w)\<rparr>"
  have r: "read_plan su plan_id owner w = (Inr plan, ?w)"
    by (simp add: read_plan_def transact_def Let_def Inr)
  have i: "pl_id plan = plan_id" using Inr by (auto simp: get_plan_def dest: find_SomeD split: option.splits)
  show ?thesis
  proof (cases "check_workspace env (pl_workspace plan) owner")
    case (Inr dir)
    show ?thesis
    proof (cases "su_locked su")
      case False
      obtain s w1 where st: "start_apply su H plan dir owner record ?w = (s, w1)" by (cases "start_apply su H plan dir owner record ?w")
      note eff = start_apply_effect [OF st]
      show ?thesis
      proof (cases s)
        case (Inl e1)
        with assms eff st r Inr False show ?thesis by (auto simp: apply_plan_def chain_def locked_def)
      next
        case s: (Inr u)
        with assms r Inr False st have "run_apply su H plan owner record w1 = (Inl e, w')"
          by (auto simp: apply_plan_def chain_def locked_def give_def split: prod.splits sum.splits)
        from run_apply_failed [OF this] half_applied_effects show ?thesis by (fastforce simp: i dest: fetch_planD)
      qed
    qed (use assms r Inr in \<open>auto simp: apply_plan_def chain_def locked_def stop_def\<close>)
  qed (use assms r in \<open>auto simp: apply_plan_def chain_def stop_def\<close>)
qed


section \<open>A run\<close>

definition sample_hash :: "string \<Rightarrow> string" where
  "sample_hash s = (if starts_with ''['' s then ''h3'' else s)"

text \<open>No other program interferes; cancellation is requested at the count \<open>k\<close>.\<close>

definition calm :: "nat \<Rightarrow> surroundings" where
  "calm k = \<lparr>su_files = (\<lambda>_ fs. fs), su_ledger = (\<lambda>_ db. db), su_clock = (\<lambda>_. 5), su_cancel = (\<lambda>n. k \<le> n),
     su_fault = (\<lambda>_. None), su_written = (\<lambda>_. 1000), su_locked = False\<rparr>"

definition empty_files :: files where
  "empty_files = \<lparr>fs_root = Some 0, fs_entries = (\<lambda>_. None), fs_nodes = (\<lambda>_. None), fs_other_mode = (\<lambda>_. 0), fs_next = 1\<rparr>"

definition sample_own_plan :: plan_row where
  "sample_own_plan = sample_plan\<lparr>pl_task_id := ''t2''\<rparr>"

definition sample_at :: "string \<Rightarrow> journal_row list \<Rightarrow> ledger" where
  "sample_at st js = sample_running\<lparr>change_plans := [sample_own_plan\<lparr>pl_status := st\<rparr>], change_journal := js\<rparr>"

definition sample_world :: world where
  "sample_world = \<lparr>w_db = sample_at ''approved'' [], w_files = empty_files, w_tick = 0, w_trace = []\<rparr>"

lemma sample_own_plan_sel [simp]:
  "pl_id sample_own_plan = ''p3''" "pl_task_id sample_own_plan = ''t2''" "pl_owner_key sample_own_plan = ''u1''"
  "pl_workspace sample_own_plan = ''/w''" "pl_plan_hash sample_own_plan = ''h3''" "pl_expires_at sample_own_plan = seconds 3600"
  "pl_status sample_own_plan = ''approved''"
  "pl_changes sample_own_plan = [\<lparr>fc_path = ''a.txt'', fc_action = ''create'', fc_reason = ''new'',
       fc_content = ''A'', fc_before_hash = None, fc_before_content = [], fc_after_hash = Some ''A''\<rparr>]"
  by (simp_all add: sample_own_plan_def sample_plan_def)

lemma sample_at_owned:
  "require_apply_ownership 5 (sample_at st js) (Some sample_claim_record) (sample_own_plan\<lparr>pl_status := x\<rparr>) ''u1'' = Inr ()"
proof -
  have q: "require_execution_ownership 5 (sample_at st js) (Some sample_claim_record) ''u1'' = Inr sample_operation"
    by (simp add: require_execution_ownership_def owned_by_def sample_at_def sample_running_def sample_claim_record_def sample_defs seconds_def)
  have l: "spec_restored sample_spec = Inr (spec_of sample_spec)" by code_simp
  show ?thesis
    by (simp add: require_apply_ownership_def q l)
       (simp add: spec_of_def field_or_def sample_spec_def sample_claim_record_def)
qed

lemma sample_at_tables:
  "agent_tasks (sample_at st js) = agent_tasks sample_running" "change_plans (sample_at st js) = [sample_own_plan\<lparr>pl_status := st\<rparr>]"
  "operation_drafts (sample_at st js) = []" "change_journal (sample_at st js) = js" "execution_events (sample_at st js) = []"
  "keys (sample_at st js) = (keys sample_running)\<lparr>k_plans := {''p3''}\<rparr>"
  by (simp_all add: sample_at_def sample_running_tables) (simp_all add: sample_running_def sample_defs keys_def)

lemma sample_eligible:
  "require_eligible 5 False (sample_own_plan\<lparr>pl_status := x\<rparr>) ''u1'' (Some sample_claim_record) st (sample_at st js) = Inr ()"
  by (simp add: require_eligible_def sample_at_owned require_plan_conn_def plan_draft_def fetch_task_def fetch_plan_def
      sample_at_tables sample_running_tables seconds_def)

lemma calm_sel [simp]:
  "su_files (calm k) n fs = fs" "su_ledger (calm k) n db = db" "su_clock (calm k) n = 5" "su_cancel (calm k) n = (k \<le> n)"
  "su_fault (calm k) n = None" "su_written (calm k) n = 1000" "\<not> su_locked (calm k)"
  by (simp_all add: calm_def)

definition sample_journal :: "string \<Rightarrow> journal_row" where
  "sample_journal st = \<lparr>jn_plan_id = ''p3'', jn_ordinal = 0, jn_path = ''a.txt'', jn_before_hash = None, jn_after_hash = Some ''A'',
     jn_before_content = None, jn_state = st\<rparr>"

lemma sample_relative: "relative ''a.txt'' = Inr [''a.txt'']"
  by code_simp

lemma sample_read: "read_file (calm k) ''a.txt'' w = (case fs_root (w_files w) of None \<Rightarrow> (Inr None, w\<lparr>w_tick := Suc (w_tick w)\<rparr>)
    | Some r \<Rightarrow> (read_at r ''a.txt'' (w_files w), w\<lparr>w_tick := Suc (Suc (w_tick w))\<rparr>))"
  if "\<And>r. fs_root (w_files w) = Some r \<Longrightarrow> fs_entries (w_files w) (r, ''a.txt'') = None"
  using that by (auto simp: read_file_def parent_fd_def sample_relative chain_def query_def syscall_def rescue_def give_def open_root_def
      read_at_def Let_def split: option.split)


lemma sample_own_plan_status: "sample_own_plan\<lparr>pl_status := ''approved''\<rparr> = sample_own_plan"
  by (simp add: sample_own_plan_def sample_plan_def)

lemma sample_plan_read: "read_plan (calm k) ''p3'' ''u1'' sample_world = (Inr sample_own_plan, sample_world\<lparr>w_tick := 1\<rparr>)"
  by (simp add: read_plan_def transact_def get_plan_def sample_world_def sample_at_tables sample_own_plan_status Let_def)

lemma sample_start:
  assumes "1 < k"
  shows "start_apply (calm k) sample_hash sample_own_plan ''/w'' ''u1'' (Some sample_claim_record) (sample_world\<lparr>w_tick := 1\<rparr>) =
     (Inr (), sample_world\<lparr>w_tick := 4, w_db := sample_at ''applying'' [sample_journal ''prepared'']\<rparr>)"
proof -
  have h: "sample_hash (changes_text xs) = ''h3''" for xs by (simp add: sample_hash_def changes_text_def)
  have e: "require_eligible 5 False sample_own_plan ''u1'' (Some sample_claim_record) ''approved'' (sample_at ''approved'' []) = Inr ()"
    using sample_eligible [of "''approved''"] by (simp add: sample_own_plan_status)
  have j: "insert_journal (sample_journal ''prepared'') (sample_at ''approved'' []) = Inr (sample_at ''approved'' [sample_journal ''prepared''])"
    by (simp add: insert_journal_def add_journal_def clash_def journal_fk_def sample_at_tables sample_journal_def) (simp add: sample_at_def)
  have u: "update_plan (\<lambda>p. pl_id p = ''p3'') (\<lambda>p. p\<lparr>pl_status := ''applying''\<rparr>) (sample_at ''approved'' js) = sample_at ''applying'' js" for js
    by (simp add: update_plan_def sample_at_def)
  have k: "\<not> k \<le> Suc 0" using assms by simp
  show ?thesis
    by (simp add: k start_apply_def Let_def sample_world_def e h sample_at_tables chain_def sample_read empty_files_def read_at_def
        digest_def give_def j [unfolded sample_journal_def] u sample_journal_def)
qed

lemma sample_guard:
  "n < k \<Longrightarrow> apply_guard (calm k) sample_own_plan ''u1'' (Some sample_claim_record) n (sample_at ''applying'' js) = Inr ()"
  using sample_eligible [of "''approved''"] by (simp add: apply_guard_def sample_own_plan_status)

definition sample_done :: files where
  "sample_done = empty_files\<lparr>fs_entries := (\<lambda>_. None)((0, ''a.txt'') \<mapsto> Regular 1),
     fs_nodes := (\<lambda>_. None)(1 \<mapsto> \<lparr>nd_data = ''A'', nd_mode = 384, nd_links = 1\<rparr>), fs_next := 2\<rparr>"

lemma sample_mark:
  "update_journal (\<lambda>j. jn_plan_id j = ''p3'' \<and> jn_ordinal j = 0) (jn_state_update (\<lambda>_. ''applied''))
     (sample_at st [sample_journal ''prepared'']) = sample_at st [sample_journal ''applied'']"
  by (simp add: update_journal_def sample_at_def sample_journal_def)

lemma sample_end:
  assumes "n < k"
  shows "\<exists>v. end_apply (calm k) sample_own_plan ''u1'' (Some sample_claim_record) n (sample_at ''applying'' js) =
     Inr ((), add_event v (sample_at ''applied'' js))"
proof -
  have u: "update_plan (\<lambda>p. pl_id p = ''p3'') (\<lambda>p. p\<lparr>pl_status := ''applied''\<rparr>) (sample_at ''applying'' js) = sample_at ''applied'' js"
    by (simp add: update_plan_def sample_at_def)
  have d: "update_draft P f (sample_at ''applied'' js) = sample_at ''applied'' js" for P f
    by (simp add: update_draft_def sample_at_def) (simp add: sample_running_def sample_defs)
  have ks: "k_tasks (keys (sample_at ''applied'' js)) = {''t1'', ''t2'', ''t3''}"
    by (simp add: keys_def sample_at_tables sample_running_tables)
  show ?thesis
    using sample_eligible [of "''approved''" "''applying''"] assms
    by (auto simp: end_apply_def sample_own_plan_status u d append_event_def event_fk_def ks)
qed

lemma sample_run:
  "\<exists>v. run_apply (calm 1000) sample_hash sample_own_plan ''u1'' (Some sample_claim_record)
      (sample_world\<lparr>w_tick := 4, w_db := sample_at ''applying'' [sample_journal ''prepared'']\<rparr>) =
     (Inr (), \<lparr>w_db = add_event v (sample_at ''applied'' [sample_journal ''applied'']), w_files = sample_done, w_tick = 17, w_trace =
        [(7, sample_at ''applying'' [sample_journal ''prepared''], Creat 0 ''a.txt''),
         (9, sample_at ''applying'' [sample_journal ''prepared''], Write 1 ''A'')]\<rparr>)"
proof -
  obtain v where v: "end_apply (calm 1000) sample_own_plan ''u1'' (Some sample_claim_record) 16 (sample_at ''applying'' [sample_journal ''applied'']) =
     Inr ((), add_event v (sample_at ''applied'' [sample_journal ''applied'']))" using sample_end [of 16 1000] by auto
  show ?thesis
    by (rule exI [of _ v])
      (simp add: run_apply_def rescue_def chain_def apply_item_def cancelled_def parent_fd_def sample_relative query_def syscall_def Let_def
      open_root_def sample_world_def empty_files_def give_def read_at_def digest_def write_new_def guarded_def sample_guard mutate_def create_file_def
      write_content.simps write_some_def write_file_def node_of_def fsync_def transact_def sample_mark v sample_done_def)
qed

lemma sample_apply:
  "\<exists>w'. apply_plan sample_env (calm 1000) sample_hash ''p3'' ''u1'' (Some sample_claim_record) sample_world = (Inr (APPLIED @ ''a.txt''), w') \<and>
     w_trace w' = [(7, sample_at ''applying'' [sample_journal ''prepared''], Creat 0 ''a.txt''),
       (9, sample_at ''applying'' [sample_journal ''prepared''], Write 1 ''A'')] \<and> w_files w' = sample_done \<and>
     change_plans (w_db w') = [sample_own_plan\<lparr>pl_status := ''applied''\<rparr>] \<and> change_journal (w_db w') = [sample_journal ''applied'']"
proof -
  have c: "check_workspace sample_env ''/w'' ''u1'' = Inr ''/w''" by code_simp
  obtain v where "run_apply (calm 1000) sample_hash sample_own_plan ''u1'' (Some sample_claim_record)
      (sample_world\<lparr>w_tick := 4, w_db := sample_at ''applying'' [sample_journal ''prepared'']\<rparr>) =
     (Inr (), \<lparr>w_db = add_event v (sample_at ''applied'' [sample_journal ''applied'']), w_files = sample_done, w_tick = 17, w_trace =
        [(7, sample_at ''applying'' [sample_journal ''prepared''], Creat 0 ''a.txt''),
         (9, sample_at ''applying'' [sample_journal ''prepared''], Write 1 ''A'')]\<rparr>)" using sample_run by blast
  then show ?thesis
    by (simp add: apply_plan_def chain_def sample_plan_read c locked_def sample_start give_def add_event_def sample_at_tables del: One_nat_def)
qed


lemma files_change_under_guard_witness:
  "\<exists>w'. apply_plan sample_env (calm 1000) sample_hash ''p3'' ''u1'' (Some sample_claim_record) sample_world = (Inr (APPLIED @ ''a.txt''), w') \<and>
     (\<exists>db m rest. w_trace w' = (7, db, m) # rest \<and> unresolved_effects db ''t2'' True)"
proof -
  obtain w' where a: "apply_plan sample_env (calm 1000) sample_hash ''p3'' ''u1'' (Some sample_claim_record) sample_world = (Inr (APPLIED @ ''a.txt''), w')"
    and t: "w_trace w' = [(7, sample_at ''applying'' [sample_journal ''prepared''], Creat 0 ''a.txt''),
       (9, sample_at ''applying'' [sample_journal ''prepared''], Write 1 ''A'')]" using sample_apply by blast
  from files_change_under_guard [OF a] have "list_all (\<lambda>(n, db, m). \<exists>p. fetch_plan db ''p3'' = Some p \<and>
      unresolved_effects db (pl_task_id p) True) (w_trace w')"
    by (auto simp: sample_world_def elim!: list.pred_mono_strong)
  then have "unresolved_effects (sample_at ''applying'' [sample_journal ''prepared'']) ''t2'' True"
    by (auto simp: t fetch_plan_def sample_at_tables)
  with a t show ?thesis by auto
qed

text \<open>The same apply with a cancellation between the creation of the file and its first write.\<close>

lemma sample_cancelled_run:
  "\<exists>db. run_apply (calm 9) sample_hash sample_own_plan ''u1'' (Some sample_claim_record)
      (sample_world\<lparr>w_tick := 4, w_db := sample_at ''applying'' [sample_journal ''prepared'']\<rparr>) =
     (Inl (SafeOperationError ''Apply cancelled; reconcile journal before retry''),
      \<lparr>w_db = sample_at ''uncertain'' [sample_journal ''prepared''], w_files = db, w_tick = 11, w_trace =
        [(7, sample_at ''applying'' [sample_journal ''prepared''], Creat 0 ''a.txt'')]\<rparr>)"
proof -
  have u: "update_plan (\<lambda>p. pl_id p = ''p3'') (\<lambda>p. p\<lparr>pl_status := ''uncertain''\<rparr>) (sample_at ''applying'' js) = sample_at ''uncertain'' js" for js
    by (simp add: update_plan_def sample_at_def)
  have g: "apply_guard (calm 9) sample_own_plan ''u1'' (Some sample_claim_record) 9 (sample_at ''applying'' js) =
      Inl (SafeOperationError ''Apply cancelled; reconcile journal before retry'')" for js
    by (simp add: apply_guard_def require_eligible_def require_plan_conn_def plan_draft_def sample_at_tables)
  show ?thesis
    by (simp add: run_apply_def rescue_def chain_def apply_item_def cancelled_def parent_fd_def sample_relative query_def syscall_def Let_def
      open_root_def sample_world_def empty_files_def give_def stop_def read_at_def digest_def write_new_def guarded_def sample_guard mutate_def
      create_file_def write_content.simps transact_def u g)
qed

lemma failed_apply_is_held_witness:
  "\<exists>e w'. apply_plan sample_env (calm 9) sample_hash ''p3'' ''u1'' (Some sample_claim_record) sample_world = (Inl e, w') \<and>
     w_trace w' \<noteq> [] \<and> unresolved_effects (w_db w') ''t2'' True"
proof -
  have c: "check_workspace sample_env ''/w'' ''u1'' = Inr ''/w''" by code_simp
  obtain db where "run_apply (calm 9) sample_hash sample_own_plan ''u1'' (Some sample_claim_record)
      (sample_world\<lparr>w_tick := 4, w_db := sample_at ''applying'' [sample_journal ''prepared'']\<rparr>) =
     (Inl (SafeOperationError ''Apply cancelled; reconcile journal before retry''),
      \<lparr>w_db = sample_at ''uncertain'' [sample_journal ''prepared''], w_files = db, w_tick = 11, w_trace =
        [(7, sample_at ''applying'' [sample_journal ''prepared''], Creat 0 ''a.txt'')]\<rparr>)" using sample_cancelled_run by blast
  then have "\<exists>e w'. apply_plan sample_env (calm 9) sample_hash ''p3'' ''u1'' (Some sample_claim_record) sample_world = (Inl e, w') \<and>
      w_trace w' \<noteq> [] \<and> w_db w' = sample_at ''uncertain'' [sample_journal ''prepared'']"
    by (simp add: apply_plan_def chain_def sample_plan_read c locked_def sample_start del: One_nat_def)
  then obtain e w' where a: "apply_plan sample_env (calm 9) sample_hash ''p3'' ''u1'' (Some sample_claim_record) sample_world = (Inl e, w')"
    and w': "w_trace w' \<noteq> []" "w_db w' = sample_at ''uncertain'' [sample_journal ''prepared'']" by blast
  have "w_trace w' \<noteq> w_trace sample_world" using w'(1) by (simp add: sample_world_def)
  with failed_apply_is_held [OF a] have "unresolved_effects (w_db w') ''t2'' True"
    by (auto simp: w'(2) fetch_plan_def sample_at_tables)
  with a w'(1) show ?thesis by blast
qed

end
