(* ===== verification/File_Refinement.thy ===== *)
theory File_Refinement
  imports File_Laws
begin

text \<open>
  An apply refines its plan: when no other program changes the files of the workspace while it runs, a successful apply turns
  the visible contents into exactly what the plan says, and a plan succeeds only on the preimages that were reviewed.
\<close>

section \<open>The specification\<close>

definition item_effect :: "file_change \<Rightarrow> string option" where
  "item_effect x = (if fc_action x = ''delete'' then None else Some (fc_content x))"

fun plan_effect :: "(string \<Rightarrow> string) \<Rightarrow> file_change list \<Rightarrow> (string list \<Rightarrow> string option) \<Rightarrow> (string list \<Rightarrow> string option) option" where
  "plan_effect H [] m = Some m"
| "plan_effect H (x # xs) m =
     (case relative (fc_path x) of
        Inl _ \<Rightarrow> None
      | Inr parts \<Rightarrow> if digest H (m parts) = fc_before_hash x then plan_effect H xs (m(parts := item_effect x)) else None)"

section \<open>Calls when nobody interferes\<close>

definition undisturbed :: "surroundings \<Rightarrow> bool" where
  "undisturbed su \<longleftrightarrow> (\<forall>n fs. su_files su n fs = fs)"

lemma syscall_result:
  assumes "undisturbed su" "syscall su f w = (r, w')"
  shows "case r of Inl e \<Rightarrow> w_files w' = w_files w | Inr x \<Rightarrow> f (w_files w) = Inr (x, w_files w')"
  using assms by (auto simp: undisturbed_def syscall_def Let_def split: option.splits sum.splits)

lemma query_result:
  assumes "undisturbed su" "query su f w = (r, w')"
  shows "w_files w' = w_files w" "r = Inr x \<Longrightarrow> f (w_files w) = Inr x"
  using assms by (auto simp: undisturbed_def query_def syscall_def Let_def try_bind_def split: option.splits sum.splits)

lemma mutate_result:
  assumes "undisturbed su" "mutate su g m f w = (r, w')"
  shows "case r of Inl e \<Rightarrow> w_files w' = w_files w | Inr x \<Rightarrow> f (w_files w) = Inr (x, w_files w')"
proof -
  obtain r1 w1 where s: "syscall su f w = (r1, w1)" by (cases "syscall su f w")
  with syscall_result [OF assms(1) s] assms(2) show ?thesis
    by (auto simp: mutate_def chain_def split: sum.splits)
qed

lemma chain_Inr: "chain m k w = (Inr y, w') \<longleftrightarrow> (\<exists>x w1. m w = (Inr x, w1) \<and> k x w1 = (Inr y, w'))"
  by (auto simp: chain_def split: prod.splits sum.splits)

lemma guarded_Inr:
  assumes "guarded su el body w = (Inr x, w')"
  obtains n w1 where "w_files w1 = w_files w" "body n w1 = (Inr x, w')"
  using assms that [of "w\<lparr>w_tick := Suc (w_tick w), w_db := su_ledger su (w_tick w) (w_db w)\<rparr>" "w_tick w"]
  by (simp add: guarded_def Let_def split: sum.splits)

lemma guarded_files:
  assumes "guarded su el body w = (r, w')" "\<And>n w1 r1. body n w1 = (r1, w') \<Longrightarrow> w_files w1 = w_files w \<Longrightarrow> w_files w' = w_files w"
  shows "w_files w' = w_files w"
  using assms by (auto simp: guarded_def Let_def split: sum.splits)

lemma transact_files: "transact su f w = (r, w') \<Longrightarrow> w_files w' = w_files w"
  by (auto simp: transact_def Let_def split: sum.splits prod.splits)

lemma fsync_files: "undisturbed su \<Longrightarrow> guarded su el (\<lambda>_. fsync su) w = (r, w') \<Longrightarrow> w_files w' = w_files w"
  by (rule guarded_files) (auto simp: fsync_def dest: query_result)

section \<open>Entering directories\<close>

definition grows_from :: "files \<Rightarrow> files \<Rightarrow> bool" where
  "grows_from fs fs' \<longleftrightarrow> tree fs' \<and> visible fs' = visible fs \<and> fs_root fs' = fs_root fs \<and> fs_next fs \<le> fs_next fs' \<and>
     (\<forall>d ps c. walk fs d ps = Some c \<longrightarrow> walk fs' d ps = Some c)"

lemma grows_from_refl: "tree fs \<Longrightarrow> grows_from fs fs"
  by (simp add: grows_from_def)

lemma grows_from_trans: "grows_from a b \<Longrightarrow> grows_from b c \<Longrightarrow> grows_from a c"
  by (simp add: grows_from_def)

lemma mkdir_result:
  assumes "undisturbed su" "tree (w_files w)" "d < fs_next (w_files w)"
    and "rescue (guarded su el (\<lambda>n. mutate su n (Mkdir d p) (\<lambda>fs. try_bind (make_dir d p fs) (\<lambda>fs'. Inr ((), fs')))))
        (\<lambda>e. case e of FileExistsError _ \<Rightarrow> give () | _ \<Rightarrow> stop e) w = (Inr (), w')"
  shows "grows_from (w_files w) (w_files w')"
proof -
  obtain r w1 where g: "guarded su el (\<lambda>n. mutate su n (Mkdir d p) (\<lambda>fs. try_bind (make_dir d p fs) (\<lambda>fs'. Inr ((), fs')))) w = (r, w1)"
    by (cases "guarded su el (\<lambda>n. mutate su n (Mkdir d p) (\<lambda>fs. try_bind (make_dir d p fs) (\<lambda>fs'. Inr ((), fs')))) w")
  show ?thesis
  proof (cases r)
    case (Inl e)
    with g have "w_files w1 = w_files w"
      by (auto simp: guarded_def Let_def split: sum.splits dest!: mutate_result [OF assms(1)])
    with g Inl assms(2,4) show ?thesis by (auto simp: rescue_def give_def stop_def grows_from_refl split: err.splits)
  next
    case (Inr u)
    with g obtain n w2 where w2: "w_files w2 = w_files w"
      "mutate su n (Mkdir d p) (\<lambda>fs. try_bind (make_dir d p fs) (\<lambda>fs'. Inr ((), fs'))) w2 = (Inr u, w1)" by (auto elim: guarded_Inr)
    with mutate_result [OF assms(1) w2(2)] have "make_dir d p (w_files w) = Inr (w_files w1)" by auto
    from visible_make_dir [OF assms(2) this assms(3)] g Inr assms(4) show ?thesis
      by (auto simp: grows_from_def rescue_def)
  qed
qed

lemma enter_result:
  assumes "undisturbed su"
  shows "tree (w_files w) \<Longrightarrow> d < fs_next (w_files w) \<Longrightarrow> enter su mk d ps w = (Inr c, w') \<Longrightarrow>
    grows_from (w_files w) (w_files w') \<and> walk (w_files w') d ps = Some c"
proof (induction ps arbitrary: d w)
  case Nil
  then show ?case by (simp add: give_def grows_from_refl)
next
  case (Cons p ps)
  from Cons.prems(3) obtain u w1 w2 e where
    1: "(case mk of None \<Rightarrow> give () | Some el \<Rightarrow>
            rescue (guarded su el (\<lambda>n. mutate su n (Mkdir d p) (\<lambda>fs. try_bind (make_dir d p fs) (\<lambda>fs'. Inr ((), fs')))))
              (\<lambda>e. case e of FileExistsError _ \<Rightarrow> give () | _ \<Rightarrow> stop e)) w = (Inr u, w1)"
    and 2: "query su (open_dir d p) w1 = (Inr e, w2)" and 3: "enter su mk e ps w2 = (Inr c, w')"
    by (auto simp: chain_Inr)
  have g: "grows_from (w_files w) (w_files w1)"
    using 1 mkdir_result [OF assms Cons.prems(1,2)] grows_from_refl [OF Cons.prems(1)]
    by (cases mk) (auto simp: give_def)
  note q = query_result [OF assms 2]
  have e: "fs_entries (w_files w1) (d, p) = Some (Directory e)"
    using q(2) by (auto simp: open_dir_def split: option.splits entry.splits)
  have t: "tree (w_files w2)" "e < fs_next (w_files w2)" using g e treeD(1) by (auto simp: q(1) grows_from_def)
  from Cons.IH [OF t 3] have h: "grows_from (w_files w2) (w_files w')" "walk (w_files w') e ps = Some c" by blast+
  have "walk (w_files w2) d [p] = Some e" using e by (simp add: q(1))
  with h(1) have "walk (w_files w') d [p] = Some e" unfolding grows_from_def by blast
  then have "walk (w_files w') d (p # ps) = Some c" using h(2) walk_append [of "w_files w'" d "[p]" ps] by simp
  with g h(1) show ?case by (simp add: q(1) grows_from_trans)
qed

lemma parent_fd_result:
  assumes "undisturbed su" "tree (w_files w)" "parent_fd su mk path w = (Inr (d, name), w')"
  obtains parts r where "relative path = Inr parts" "name = last parts" "parts \<noteq> []" "grows_from (w_files w) (w_files w')"
    "fs_root (w_files w') = Some r" "walk (w_files w') r (butlast parts) = Some d" "d < fs_next (w_files w')"
proof (cases "relative path")
  case (Inr parts)
  with assms(3) obtain r w1 where 1: "query su open_root w = (Inr r, w1)" and 2: "enter su mk r (butlast parts) w1 = (Inr d, w')"
    and n: "name = last parts" by (auto simp: parent_fd_def chain_Inr give_def)
  note q = query_result [OF assms(1) 1]
  have r: "fs_root (w_files w1) = Some r" using q by (auto simp: open_root_def split: option.splits)
  have t: "tree (w_files w1)" "r < fs_next (w_files w1)" using assms(2) treeD(6) r by (auto simp: q(1))
  from enter_result [OF assms(1) t 2] have g: "grows_from (w_files w1) (w_files w')" "walk (w_files w') r (butlast parts) = Some d" by blast+
  show ?thesis
  proof (rule that [OF Inr n relative_parts [OF Inr]])
    show "grows_from (w_files w) (w_files w')" using g by (simp add: q(1))
    show "fs_root (w_files w') = Some r" using g r by (simp add: grows_from_def)
    show "walk (w_files w') r (butlast parts) = Some d" by (rule g)
    show "d < fs_next (w_files w')" using g r walk_below [of "w_files w'" r] treeD(6) by (auto simp: grows_from_def)
  qed
qed (use assms(3) in \<open>simp add: parent_fd_def stop_def\<close>)

text \<open>What is read through a handle is what is visible at the path.\<close>

lemma visible_slot:
  assumes "fs_root fs = Some r" "walk fs r (butlast parts) = Some d" "parts \<noteq> []"
  shows "visible fs parts = content_of fs (fs_entries fs (d, last parts))"
  using assms by (simp add: visible_def)


section \<open>Changing one file\<close>

text \<open>Only the node \<open>i\<close> changed.\<close>

definition renoded :: "nat \<Rightarrow> node \<Rightarrow> files \<Rightarrow> files \<Rightarrow> bool" where
  "renoded i n fs fs' \<longleftrightarrow> fs_entries fs' = fs_entries fs \<and> fs_root fs' = fs_root fs \<and> fs_next fs' = fs_next fs \<and>
     node_of fs' = (node_of fs)(i := n)"

lemma renoded_trans: "renoded i n a b \<Longrightarrow> renoded i k b c \<Longrightarrow> renoded i k a c"
  by (simp add: renoded_def)

lemma renoded_tree: "renoded i n fs fs' \<Longrightarrow> tree fs \<Longrightarrow> nd_links n = nd_links (node_of fs i) \<Longrightarrow> tree fs'"
  by (rule tree_upd [of fs]) (auto simp: renoded_def)

lemma write_some_result:
  assumes "undisturbed su" "write_some su g i offset data w = (Inr k, w')"
  shows "w_files w' = write_file i offset (take k data) (w_files w)" "0 < k" "k \<le> length data"
proof -
  have "min (su_written su (w_tick w)) (length data) = k \<and> 0 < k \<and> w_files w' = write_file i offset (take k data) (w_files w)"
    using assms(2)
    by (auto simp: write_some_def Let_def split: if_splits dest: query_result [OF assms(1)] dest!: mutate_result [OF assms(1)])
  then show "w_files w' = write_file i offset (take k data) (w_files w)" "0 < k" "k \<le> length data" by auto
qed

lemma write_content_result:
  assumes "undisturbed su"
  shows "write_content su el i offset data w = (Inr (), w') \<Longrightarrow> offset = length (nd_data (node_of (w_files w) i)) \<Longrightarrow>
    renoded i ((node_of (w_files w) i)\<lparr>nd_data := nd_data (node_of (w_files w) i) @ data\<rparr>) (w_files w) (w_files w')"
proof (induction "length data" arbitrary: offset data w rule: less_induct)
  case less
  show ?case
  proof (cases "data = []")
    case True
    with less.prems(1) have "w_files w' = w_files w" by (subst (asm) write_content.simps) (auto dest: fsync_files [OF assms])
    with True show ?thesis by (simp add: renoded_def)
  next
    case False
    with less.prems(1) obtain k w1 where 1: "guarded su el (\<lambda>g. write_some su g i offset data) w = (Inr k, w1)"
      and 2: "(if k = 0 then stop (OSError ''File write made no progress'') else write_content su el i (offset + k) (drop k data)) w1 = (Inr (), w')"
      by (subst (asm) write_content.simps) (auto simp: chain_Inr)
    from 1 obtain g w2 where w2: "w_files w2 = w_files w" "write_some su g i offset data w2 = (Inr k, w1)" by (auto elim: guarded_Inr)
    note s = write_some_result [OF assms w2(2)]
    let ?n = "node_of (w_files w) i"
    have r1: "renoded i (?n\<lparr>nd_data := nd_data ?n @ take k data\<rparr>) (w_files w) (w_files w1)"
      using less.prems(2) by (simp add: s(1) w2(1) write_file_def renoded_def fun_eq_iff)
    then have n: "node_of (w_files w1) i = ?n\<lparr>nd_data := nd_data ?n @ take k data\<rparr>" by (simp add: renoded_def)
    have "renoded i ((node_of (w_files w1) i)\<lparr>nd_data := nd_data (node_of (w_files w1) i) @ drop k data\<rparr>) (w_files w1) (w_files w')"
    proof (rule less.hyps)
      show "length (drop k data) < length data" using s(2) False by simp
      show "write_content su el i (offset + k) (drop k data) w1 = (Inr (), w')" using 2 s(2) by simp
      show "offset + k = length (nd_data (node_of (w_files w1) i))" using less.prems(2) s(3) by (simp add: n)
    qed
    from renoded_trans [OF r1 this] show ?thesis by (simp add: n)
  qed
qed

text \<open>The result of a successful change of the name \<open>n\<close> in the directory \<open>d\<close>.\<close>

definition changed :: "nat \<Rightarrow> string \<Rightarrow> string option \<Rightarrow> files \<Rightarrow> files \<Rightarrow> bool" where
  "changed d n c fs fs' \<longleftrightarrow> tree fs' \<and> fs_root fs' = fs_root fs \<and> (\<exists>e. fs_entries fs' = (fs_entries fs)((d, n) := e) \<and>
     (\<forall>i. fs_entries fs (d, n) \<noteq> Some (Directory i) \<and> e \<noteq> Some (Directory i)) \<and> content_of fs' e = c \<and>
     (\<forall>s i. s \<noteq> (d, n) \<longrightarrow> fs_entries fs s = Some (Regular i) \<longrightarrow> nd_data (node_of fs' i) = nd_data (node_of fs i)))"

lemma changed_visible:
  assumes "changed d n c fs fs'" "tree fs" "fs_root fs = Some r" "walk fs r ps = Some d"
  shows "visible fs' = (visible fs)(ps @ [n] := c)" "tree fs'"
proof -
  from assms(1) obtain e where e: "fs_entries fs' = (fs_entries fs)((d, n) := e)" "fs_root fs' = fs_root fs"
    "\<And>i. fs_entries fs (d, n) \<noteq> Some (Directory i)" "\<And>i. e \<noteq> Some (Directory i)" "content_of fs' e = c" "tree fs'"
    "\<And>s i. s \<noteq> (d, n) \<Longrightarrow> fs_entries fs s = Some (Regular i) \<Longrightarrow> nd_data (node_of fs' i) = nd_data (node_of fs i)"
    unfolding changed_def by blast
  from visible_put [OF assms(2-4) e(3,4,2,1,7)] e(5) show "visible fs' = (visible fs)(ps @ [n] := c)" by simp
  show "tree fs'" by (rule e(6))
qed

lemma create_result:
  assumes "undisturbed su" "guarded su el (\<lambda>g. mutate su g (Creat d n) (create_file d n mode)) w = (Inr i, w')"
  shows "create_file d n mode (w_files w) = Inr (i, w_files w')"
proof -
  from assms(2) obtain g w1 where "w_files w1 = w_files w" "mutate su g (Creat d n) (create_file d n mode) w1 = (Inr i, w')"
    by (auto elim: guarded_Inr)
  with mutate_result [OF assms(1) this(2)] show ?thesis by simp
qed

lemma write_new_result:
  assumes "undisturbed su" "tree (w_files w)" "d < fs_next (w_files w)" "write_new su el d n c w = (Inr (), w')"
  shows "changed d n (Some c) (w_files w) (w_files w')"
proof -
  from assms(4) obtain i w1 where 1: "guarded su el (\<lambda>g. mutate su g (Creat d n) (create_file d n 384)) w = (Inr i, w1)"
    and 2: "write_content su el i 0 c w1 = (Inr (), w')" by (auto simp: write_new_def chain_Inr)
  note t = tree_new [OF assms(2) create_result [OF assms(1) 1] assms(3)]
  have rw: "renoded i \<lparr>nd_data = c, nd_mode = 384, nd_links = 1\<rparr> (w_files w1) (w_files w')"
    using write_content_result [OF assms(1) 2] by (simp add: t(5))
  have tr: "tree (w_files w')" by (rule renoded_tree [OF rw t(1)]) (simp add: t(5))
  have "fs_entries (w_files w') = fs_entries (w_files w1)" "fs_root (w_files w') = fs_root (w_files w1)"
    "node_of (w_files w') = (node_of (w_files w1))(i := \<lparr>nd_data = c, nd_mode = 384, nd_links = 1\<rparr>)"
    using rw by (simp_all add: renoded_def)
  moreover have "i \<noteq> j" if "fs_entries (w_files w) s = Some (Regular j)" for s j
    using treeD(3) [OF assms(2) that] by (simp add: t(2))
  ultimately show ?thesis
    unfolding changed_def by (intro conjI exI [of _ "Some (Regular i)"]) (auto simp: tr t(3-6) content_of_def)
qed

lemma unlink_result:
  assumes "undisturbed su" "mutate su g (Unlink d n) (\<lambda>fs. try_bind (remove_file d n fs) (\<lambda>fs'. Inr ((), fs'))) w = (Inr (), w')"
  shows "remove_file d n (w_files w) = Inr (w_files w')"
  using mutate_result [OF assms(1,2)] by auto

lemma delete_file_result:
  assumes "undisturbed su" "tree (w_files w)" "delete_file su el H d n b w = (Inr (), w')"
  shows "changed d n None (w_files w) (w_files w')"
proof -
  from assms(3) obtain g w1 current w2 where 1: "w_files w1 = w_files w" "query su (read_at d n) w1 = (Inr current, w2)"
    and 2: "mutate su g (Unlink d n) (\<lambda>fs. try_bind (remove_file d n fs) (\<lambda>fs'. Inr ((), fs'))) w2 = (Inr (), w')"
    by (auto simp: delete_file_def chain_Inr stop_def elim!: guarded_Inr split: if_splits)
  note q = query_result [OF assms(1) 1(2)]
  have f: "w_files w2 = w_files w" and cur: "read_at d n (w_files w) = Inr current" using q 1(1) by simp_all
  have rm: "remove_file d n (w_files w) = Inr (w_files w')" using unlink_result [OF assms(1) 2] by (simp add: f)
  with cur obtain data where "current = Some data" by (cases current) (auto simp: read_at_None remove_file_def)
  with cur obtain i where i: "fs_entries (w_files w) (d, n) = Some (Regular i)" "nd_links (node_of (w_files w) i) = 1"
    by (auto simp: read_at_Some)
  note t = tree_remove [OF assms(2) rm i]
  from t(5) show ?thesis
    unfolding changed_def by (intro conjI exI [of _ None]) (use t(1-4) i in \<open>auto simp: content_of_def\<close>)
qed


text \<open>The prepared file, just before it is put in place.\<close>

lemma swap_in_prepared:
  assumes "undisturbed su" "nd_data (node_of (w_files w) i) = []" "swap_in su el H d t n b c i w = (Inr (), w')"
  shows "\<exists>fs m current. renoded i m (w_files w) fs \<and> nd_data m = c \<and> nd_links m = nd_links (node_of (w_files w) i) \<and>
    fs_entries (w_files w) (d, n) \<noteq> None \<and> read_at d n fs = Inr current \<and> digest H current = b \<and>
    replace_file d t n fs = Inr (w_files w')"
proof -
  let ?fs = "w_files w"
  from assms(3) obtain w1 w2 where
    1: "guarded su el (\<lambda>g. chain (query su (mode_at d n)) (\<lambda>mode.
         mutate su g (Chmod i (mode mod 512)) (\<lambda>fs. Inr ((), change_mode i (mode mod 512) fs)))) w = (Inr (), w1)"
    and 2: "write_content su el i 0 c w1 = (Inr (), w2)"
    and 3: "guarded su el (\<lambda>g. chain (query su (read_at d n)) (\<lambda>current.
         if digest H current \<noteq> b then stop (SafeOperationError ''Concurrent edit detected'')
         else mutate su g (Replace d t n) (\<lambda>fs. try_bind (replace_file d t n fs) (\<lambda>fs'. Inr ((), fs'))))) w2 = (Inr (), w')"
    by (auto simp: swap_in_def chain_Inr)
  from 1 obtain g u1 mode u2 where u: "w_files u1 = ?fs" "query su (mode_at d n) u1 = (Inr mode, u2)"
    and ch: "mutate su g (Chmod i (mode mod 512)) (\<lambda>fs. Inr ((), change_mode i (mode mod 512) fs)) u2 = (Inr (), w1)"
    by (auto simp: chain_Inr elim!: guarded_Inr)
  note q = query_result [OF assms(1) u(2)]
  have "w_files w1 = change_mode i (mode mod 512) ?fs" using mutate_result [OF assms(1) ch] by (simp add: q(1) u(1))
  then have r1: "renoded i ((node_of ?fs i)\<lparr>nd_mode := mode mod 512\<rparr>) ?fs (w_files w1)"
    by (simp add: change_mode_def renoded_def fun_eq_iff)
  then have n1: "node_of (w_files w1) i = (node_of ?fs i)\<lparr>nd_mode := mode mod 512\<rparr>" by (simp add: renoded_def)
  from renoded_trans [OF r1 write_content_result [OF assms(1) 2]] assms(2)
  obtain m where m: "renoded i m ?fs (w_files w2)" "nd_data m = c" "nd_links m = nd_links (node_of ?fs i)" by (auto simp: n1)
  from 3 obtain g v1 current v2 where v: "w_files v1 = w_files w2" "query su (read_at d n) v1 = (Inr current, v2)"
    and h: "digest H current = b"
    and rp: "mutate su g (Replace d t n) (\<lambda>fs. try_bind (replace_file d t n fs) (\<lambda>fs'. Inr ((), fs'))) v2 = (Inr (), w')"
    by (auto simp: chain_Inr stop_def elim!: guarded_Inr split: if_splits)
  note p = query_result [OF assms(1) v(2)]
  have "replace_file d t n (w_files w2) = Inr (w_files w')" using mutate_result [OF assms(1) rp] by (auto simp: p(1) v(1))
  moreover have "mode_at d n ?fs = Inr mode" using q(2) u(1) by simp
  then have "fs_entries ?fs (d, n) \<noteq> None" by (auto simp: mode_at_def split: option.splits)
  moreover have "read_at d n (w_files w2) = Inr current" using p(2) v(1) by simp
  ultimately show ?thesis using m h by blast
qed

lemma swap_in_result:
  assumes "undisturbed su" "tree (w_files w)" "t \<noteq> n" "fs_entries (w_files w) (d, t) = Some (Regular i)"
    and "nd_links (node_of (w_files w) i) = 1" "nd_data (node_of (w_files w) i) = []"
    and "swap_in su el H d t n b c i w = (Inr (), w')"
  shows "tree (w_files w')" "fs_root (w_files w') = fs_root (w_files w)"
    "fs_entries (w_files w') = (fs_entries (w_files w))((d, t) := None, (d, n) \<mapsto> Regular i)"
    "nd_data (node_of (w_files w') i) = c" "fs_entries (w_files w) (d, n) \<noteq> Some (Directory k)"
    "s \<noteq> (d, n) \<Longrightarrow> s \<noteq> (d, t) \<Longrightarrow> fs_entries (w_files w) s = Some (Regular k) \<Longrightarrow>
       nd_data (node_of (w_files w') k) = nd_data (node_of (w_files w) k)"
proof -
  let ?fs = "w_files w"
  from swap_in_prepared [OF assms(1,6,7)] assms(5)
  obtain fs m current where r2: "renoded i m ?fs fs" "nd_data m = c" "nd_links m = 1"
    and some: "fs_entries ?fs (d, n) \<noteq> None" "read_at d n fs = Inr current" and rf: "replace_file d t n fs = Inr (w_files w')" by auto
  then have e: "fs_entries fs = fs_entries ?fs" "node_of fs = (node_of ?fs)(i := m)" "fs_root fs = fs_root ?fs"
    by (simp_all add: renoded_def)
  have t2: "tree fs" by (rule renoded_tree [OF r2(1) assms(2)]) (simp add: r2 assms(5))
  from some obtain j where j: "fs_entries fs (d, n) = Some (Regular j)" "nd_links (node_of fs j) = 1"
    by (cases current) (auto simp: read_at_None read_at_Some e(1))
  have i: "fs_entries fs (d, t) = Some (Regular i)" "nd_links (node_of fs i) = 1" by (simp_all add: e r2 assms(4))
  note z = tree_replace [OF t2 rf assms(3) i j]
  show "tree (w_files w')" by (rule z)
  show "fs_root (w_files w') = fs_root ?fs" "fs_entries (w_files w') = (fs_entries ?fs)((d, t) := None, (d, n) \<mapsto> Regular i)"
    by (simp_all add: z e)
  show "nd_data (node_of (w_files w') i) = c" by (simp add: z e r2)
  show "fs_entries ?fs (d, n) \<noteq> Some (Directory k)" using j by (simp add: e)
  show "nd_data (node_of (w_files w') k) = nd_data (node_of ?fs k)" if "s \<noteq> (d, n)" "s \<noteq> (d, t)" "fs_entries ?fs s = Some (Regular k)"
  proof -
    have "k \<noteq> i" using treeD(4) [OF assms(2,4,5), of s] that by auto
    with z(5) [OF that(1), of k] that show ?thesis by (simp add: e)
  qed
qed

lemma drop_temp_result:
  assumes "undisturbed su" "fs_entries (w_files w) (d, t) = None" "drop_temp su el d t w = (r, w')"
  shows "w_files w' = w_files w"
proof -
  obtain r1 w1 where g: "guarded su el (\<lambda>g. mutate su g (Unlink d t) (\<lambda>fs. try_bind (remove_file d t fs) (\<lambda>fs'. Inr ((), fs')))) w = (r1, w1)"
    by (cases "guarded su el (\<lambda>g. mutate su g (Unlink d t) (\<lambda>fs. try_bind (remove_file d t fs) (\<lambda>fs'. Inr ((), fs')))) w")
  have "w_files w1 = w_files w"
  proof (rule guarded_files [OF g])
    fix n u r2 assume m: "mutate su n (Unlink d t) (\<lambda>fs. try_bind (remove_file d t fs) (\<lambda>fs'. Inr ((), fs'))) u = (r2, w1)"
      and u: "w_files u = w_files w"
    from mutate_result [OF assms(1) m] u assms(2) show "w_files w1 = w_files w"
      by (auto simp: remove_file_def split: sum.splits)
  qed
  with g assms(3) show ?thesis by (auto simp: drop_temp_def rescue_def give_def stop_def split: sum.splits err.splits)
qed

lemma cleaned_Inr: "cleaned m c w = (Inr x, w') \<Longrightarrow> \<exists>w1 u. m w = (Inr x, w1) \<and> c w1 = (Inr u, w')"
  by (cases "m w"; cases "c (snd (m w))") (auto simp: cleaned_def split: sum.splits)

lemma modify_file_result:
  assumes "undisturbed su" "tree (w_files w)" "d < fs_next (w_files w)" "modify_file su el H d t n b c w = (Inr (), w')"
    and "fs_entries (w_files w) (d, n) \<noteq> None \<or> t \<noteq> n"
  shows "changed d n (Some c) (w_files w) (w_files w')"
proof -
  from assms(4) obtain i w1 w2 r where 1: "guarded su el (\<lambda>g. mutate su g (Creat d t) (create_file d t 384)) w = (Inr i, w1)"
    and 2: "swap_in su el H d t n b c i w1 = (Inr (), w2)" and 3: "drop_temp su el d t w2 = (r, w')"
    by (auto simp: modify_file_def chain_Inr dest!: cleaned_Inr)
  note x = tree_new [OF assms(2) create_result [OF assms(1) 1] assms(3)]
  have tn: "t \<noteq> n" using x(3) assms(5) by auto
  have new: "fs_entries (w_files w1) (d, t) = Some (Regular i)" "nd_links (node_of (w_files w1) i) = 1" "nd_data (node_of (w_files w1) i) = []"
    by (simp_all add: x)
  note y = swap_in_result [OF assms(1) x(1) tn new 2]
  have e: "fs_entries (w_files w2) = (fs_entries (w_files w))((d, n) \<mapsto> Regular i)"
    using x(3) by (auto simp: y(3) x(4) fun_eq_iff)
  have f: "w_files w' = w_files w2" by (rule drop_temp_result [OF assms(1) _ 3]) (use tn in \<open>simp add: y(3)\<close>)
  have other: "nd_data (node_of (w_files w') k) = nd_data (node_of (w_files w) k)"
    if s: "s \<noteq> (d, n)" "fs_entries (w_files w) s = Some (Regular k)" for s k
  proof -
    have st: "s \<noteq> (d, t)" "k \<noteq> i" using s x(3) treeD(3) [OF assms(2) s(2)] by (auto simp: x(2))
    then have "fs_entries (w_files w1) s = Some (Regular k)" using s(2) by (simp add: x(4))
    from y(6) [OF s(1) st(1) this] st(2) show ?thesis by (simp add: f x(5))
  qed
  have "fs_entries (w_files w) (d, n) \<noteq> Some (Directory k)" for k using y(5) [of k] tn by (simp add: x(4))
  then show ?thesis
    unfolding changed_def by (intro conjI exI [of _ "Some (Regular i)"]) (use other y(1,2,4) in \<open>auto simp: e f x(6) content_of_def\<close>)
qed


text \<open>A file that is not there cannot be modified, not even under the name of the temporary file.\<close>

lemma modify_needs_file:
  assumes "undisturbed su" "tree (w_files w)" "d < fs_next (w_files w)" "modify_file su el H d t t None c w = (Inr (), w')"
  shows False
proof -
  from assms(4) obtain i w1 w2 where 1: "guarded su el (\<lambda>g. mutate su g (Creat d t) (create_file d t 384)) w = (Inr i, w1)"
    and 2: "swap_in su el H d t t None c i w1 = (Inr (), w2)" by (auto simp: modify_file_def chain_Inr dest!: cleaned_Inr)
  note x = tree_new [OF assms(2) create_result [OF assms(1) 1] assms(3)]
  from swap_in_prepared [OF assms(1) _ 2] obtain fs m current where "renoded i m (w_files w1) fs" "read_at d t fs = Inr current"
    "digest H current = None" by (auto simp: x(5))
  then show False by (auto simp: renoded_def x(4) digest_def read_at_None)
qed

section \<open>Refinement\<close>

lemma stop_if: "(if b then stop e else m) w = (Inr x, w') \<longleftrightarrow> \<not> b \<and> m w = (Inr x, w')"
  by (simp add: stop_def)

lemma apply_item_result:
  assumes "undisturbed su" "tree (w_files w)" "apply_item su el H i k item w = (Inr (), w')"
  obtains parts where "relative (fc_path item) = Inr parts" "digest H (visible (w_files w) parts) = fc_before_hash item"
    "visible (w_files w') = (visible (w_files w))(parts := item_effect item)" "tree (w_files w')"
proof -
  from assms(3) obtain w1 d name w2 current w3 w4 where
    0: "cancelled su w = (Inr False, w1)"
    and 1: "parent_fd su (if fc_action item = ''create'' then Some el else None) (fc_path item) w1 = (Inr (d, name), w2)"
    and 2: "query su (read_at d name) w2 = (Inr current, w3)" and h: "digest H current = fc_before_hash item"
    and 3: "(if fc_action item = ''delete'' then delete_file su el H d name (fc_before_hash item)
       else if fc_action item = ''create'' then write_new su el d name (fc_content item)
       else modify_file su el H d (temp_name i k) name (fc_before_hash item) (fc_content item)) w3 = (Inr (), w4)"
    and 4: "guarded su el (\<lambda>_. fsync su) w4 = (Inr (), w')"
    unfolding apply_item_def by (auto simp: chain_Inr stop_if split: prod.splits)
  have f1: "w_files w1 = w_files w" using 0 by (auto simp: cancelled_def)
  then have t1: "tree (w_files w1)" using assms(2) by simp
  from parent_fd_result [OF assms(1) t1 1] obtain parts r where p: "relative (fc_path item) = Inr parts" "name = last parts" "parts \<noteq> []"
    and g: "grows_from (w_files w1) (w_files w2)" and r: "fs_root (w_files w2) = Some r" "walk (w_files w2) r (butlast parts) = Some d"
      "d < fs_next (w_files w2)" by metis
  note q = query_result [OF assms(1) 2]
  have t3: "tree (w_files w3)" "visible (w_files w3) = visible (w_files w)" using g by (simp_all add: q(1) grows_from_def f1)
  have cur: "read_at d name (w_files w3) = Inr current" using q by simp
  have r3: "fs_root (w_files w3) = Some r" "walk (w_files w3) r (butlast parts) = Some d" "d < fs_next (w_files w3)" using r by (simp_all add: q(1))
  have vis: "visible (w_files w) parts = current"
    using visible_slot [OF r3(1,2) p(3)] read_at_content [OF cur] by (simp add: t3(2) p(2))
  have "changed d name (item_effect item) (w_files w3) (w_files w4)"
  proof (cases "fc_action item = ''delete''")
    case True
    with 3 have "delete_file su el H d name (fc_before_hash item) w3 = (Inr (), w4)" by simp
    from delete_file_result [OF assms(1) t3(1) this] True show ?thesis by (simp add: item_effect_def)
  next
    case nd: False
    show ?thesis
    proof (cases "fc_action item = ''create''")
      case True
      with 3 nd have "write_new su el d name (fc_content item) w3 = (Inr (), w4)" by simp
      from write_new_result [OF assms(1) t3(1) r3(3) this] nd show ?thesis by (simp add: item_effect_def)
    next
      case False
      with 3 nd have m: "modify_file su el H d (temp_name i k) name (fc_before_hash item) (fc_content item) w3 = (Inr (), w4)" by simp
      have "fs_entries (w_files w3) (d, name) \<noteq> None \<or> temp_name i k \<noteq> name"
      proof (rule ccontr)
        assume "\<not> (fs_entries (w_files w3) (d, name) \<noteq> None \<or> temp_name i k \<noteq> name)"
        then have t: "temp_name i k = name" "current = None" using cur by (cases current; auto simp: read_at_Some)+
        with h have "fc_before_hash item = None" by (simp add: digest_def)
        with m t modify_needs_file [OF assms(1) t3(1) r3(3)] show False by metis
      qed
      from modify_file_result [OF assms(1) t3(1) r3(3) m this] nd show ?thesis by (simp add: item_effect_def)
    qed
  qed
  note c = changed_visible [OF this t3(1) r3(1,2)]
  have f4: "w_files w' = w_files w4" by (rule fsync_files [OF assms(1) 4])
  have "butlast parts @ [name] = parts" using p by simp
  with c have "visible (w_files w') = (visible (w_files w))(parts := item_effect item)" "tree (w_files w')"
    by (simp_all add: f4 t3(2))
  with p(1) h vis that show ?thesis by simp
qed

lemma apply_items_result:
  assumes "undisturbed su"
  shows "tree (w_files w) \<Longrightarrow> apply_items su el H i k items w = (Inr (), w') \<Longrightarrow>
    plan_effect H items (visible (w_files w)) = Some (visible (w_files w')) \<and> tree (w_files w')"
proof (induction items arbitrary: w k)
  case (Cons item items)
  from Cons.prems(2) obtain w1 w2 where 1: "apply_item su el H i k item w = (Inr (), w1)"
    and 2: "transact su (\<lambda>_ db. Inr ((), update_journal (\<lambda>j. jn_plan_id j = i \<and> jn_ordinal j = k)
         (\<lambda>j. j\<lparr>jn_state := ''applied''\<rparr>) db)) w1 = (Inr (), w2)" and 3: "apply_items su el H i (k + 1) items w2 = (Inr (), w')"
    by (auto simp: chain_Inr)
  have f: "w_files w2 = w_files w1" by (rule transact_files [OF 2])
  from apply_item_result [OF assms Cons.prems(1) 1] obtain parts where p: "relative (fc_path item) = Inr parts"
    "digest H (visible (w_files w) parts) = fc_before_hash item"
    "visible (w_files w1) = (visible (w_files w))(parts := item_effect item)" "tree (w_files w1)" by metis
  from Cons.IH [of w2, OF _ 3] p show ?case by (simp add: f del: fun_upd_apply)
qed (simp add: give_def)


section \<open>The whole apply\<close>

lemma same_files [keeps_intros]: "undisturbed su \<Longrightarrow> keeps (\<lambda>w. w_files w = F) (query su q)"
  unfolding keeps_def
proof (intro allI impI)
  fix w :: world assume "undisturbed su" "w_files w = F"
  then show "w_files (snd (query su q w)) = F" using query_result(1) [of su q w] by (cases "query su q w") simp
qed

lemma same_files_read: "undisturbed su \<Longrightarrow> keeps (\<lambda>w. w_files w = F) (read_file su path)"
proof -
  assume u: "undisturbed su"
  have "keeps (\<lambda>w. w_files w = F) (enter su None d ps)" for d ps
    by (induction ps arbitrary: d) (auto intro!: keeps_chain keeps_give same_files [OF u])
  then have "keeps (\<lambda>w. w_files w = F) (parent_fd su None path)"
    unfolding parent_fd_def by (intro keeps_case keeps_chain keeps_give same_files [OF u])
  then show ?thesis unfolding read_file_def
    by (intro keeps_rescue keeps_chain keeps_case same_files [OF u]) (auto simp: keeps_give split: err.split)
qed

lemma same_files_journal: "undisturbed su \<Longrightarrow> keeps (\<lambda>w. w_files w = F) (journal_items su H i k items db)"
  by (induction su H i k items db rule: journal_items.induct)
    (auto intro!: keeps_chain same_files_read simp: keeps_give split: sum.split)

text \<open>What a successful apply went through.\<close>

lemma apply_planD:
  assumes "apply_plan env su H plan_id owner record w = (Inr txt, w')"
  shows "\<exists>plan dir w1 w2. get_plan (su_ledger su (w_tick w) (w_db w)) plan_id owner = Inr plan \<and> pl_id plan = plan_id \<and>
    w1 = w\<lparr>w_tick := Suc (w_tick w), w_db := su_ledger su (w_tick w) (w_db w)\<rparr> \<and>
    start_apply su H plan dir owner record w1 = (Inr (), w2) \<and> run_apply su H plan owner record w2 = (Inr (), w')"
proof (cases "get_plan (su_ledger su (w_tick w) (w_db w)) plan_id owner")
  case (Inl e)
  with assms show ?thesis by (auto simp: apply_plan_def chain_def read_plan_def transact_def Let_def)
next
  case (Inr plan)
  have i: "pl_id plan = plan_id" using Inr by (auto simp: get_plan_def dest: find_SomeD split: option.splits)
  have "read_plan su plan_id owner w = (Inr plan, w\<lparr>w_tick := Suc (w_tick w), w_db := su_ledger su (w_tick w) (w_db w)\<rparr>)"
    by (simp add: read_plan_def transact_def Let_def Inr)
  with assms Inr i show ?thesis
    by (cases "check_workspace env (pl_workspace plan) owner"; cases "su_locked su")
      (auto simp: apply_plan_def chain_def [of "read_plan su plan_id owner"] chain_Inr locked_def give_def stop_def)
qed

lemma start_applyD:
  assumes "start_apply su H plan dir owner record w = (Inr (), w')"
  shows "\<exists>db w2. H (changes_text (pl_changes plan)) = pl_plan_hash plan \<and>
    journal_items su H (pl_id plan) 0 (pl_changes plan) (su_ledger su (w_tick w) (w_db w))
      (w\<lparr>w_tick := Suc (w_tick w), w_db := su_ledger su (w_tick w) (w_db w)\<rparr>) = (Inr db, w2) \<and>
    w' = w2\<lparr>w_db := update_plan (\<lambda>p. pl_id p = pl_id plan) (\<lambda>p. p\<lparr>pl_status := ''applying''\<rparr>) db\<rparr>"
  using assms by (auto simp: start_apply_def Let_def chain_Inr split: sum.splits if_splits)

lemma run_applyD:
  assumes "run_apply su H plan owner record w = (Inr (), w')"
  shows "\<exists>w1 n db. apply_items su (apply_guard su plan owner record) H (pl_id plan) 0 (pl_changes plan) w = (Inr (), w1) \<and>
    n = w_tick w1 \<and> db = su_ledger su n (w_db w1) \<and> end_apply su plan owner record n db = Inr ((), w_db w') \<and> w_files w' = w_files w1"
  using assms
  by (auto simp: run_apply_def rescue_def chain_def stop_def transact_def Let_def split: prod.splits sum.splits)

lemma end_apply_status:
  assumes "end_apply su plan owner record n db = Inr ((), db')"
  shows "\<exists>p. fetch_plan db' (pl_id plan) = Some p \<and> pl_status p = ''applied''" "change_journal db' = change_journal db"
proof -
  from assms have e: "require_eligible (su_clock su n) (su_cancel su n) plan owner record ''applying'' db = Inr ()"
    and c: "change_plans db' = upd (\<lambda>p. pl_id p = pl_id plan) (\<lambda>p. p\<lparr>pl_status := ''applied''\<rparr>) (change_plans db)"
    and j: "change_journal db' = change_journal db"
    by (auto simp: end_apply_def Let_def add_event_def update_draft_def update_plan_def)
  from e obtain p where p: "fetch_plan db (pl_id plan) = Some p"
    by (cases "fetch_plan db (pl_id plan)") (auto simp: require_eligible_def split: if_splits option.splits)
  have "fetch_plan db' (pl_id plan) = Some (p\<lparr>pl_status := ''applied''\<rparr>)"
    using p fetch_planD [OF p] by (simp add: fetch_plan_def c find_key_upd)
  then show "\<exists>p. fetch_plan db' (pl_id plan) = Some p \<and> pl_status p = ''applied''" by simp
  show "change_journal db' = change_journal db" by (rule j)
qed

text \<open>C4. An apply does exactly what was reviewed. When no other program changes the files of the workspace during the apply, its
  success means that the plan is intact, that every file had the reviewed contents when its turn came, and that the visible
  contents are now those that the plan describes, at every path: all other files are as they were and no
  temporary file is left; the plan is recorded as applied.\<close>

theorem apply_refines_plan:
  assumes "apply_plan env su H plan_id owner record w = (Inr txt, w')" "undisturbed su" "tree (w_files w)"
  shows "\<exists>plan p. get_plan (su_ledger su (w_tick w) (w_db w)) plan_id owner = Inr plan \<and>
    H (changes_text (pl_changes plan)) = pl_plan_hash plan \<and>
    plan_effect H (pl_changes plan) (visible (w_files w)) = Some (visible (w_files w')) \<and> tree (w_files w') \<and>
    fetch_plan (w_db w') plan_id = Some p \<and> pl_status p = ''applied''"
proof -
  define w1 where "w1 = w\<lparr>w_tick := Suc (w_tick w), w_db := su_ledger su (w_tick w) (w_db w)\<rparr>"
  have w1: "w_files w1 = w_files w" by (simp add: w1_def)
  from apply_planD [OF assms(1)] obtain plan dir w2 where plan: "get_plan (su_ledger su (w_tick w) (w_db w)) plan_id owner = Inr plan"
    "pl_id plan = plan_id"
    and st: "start_apply su H plan dir owner record w1 = (Inr (), w2)" and run: "run_apply su H plan owner record w2 = (Inr (), w')"
    unfolding w1_def by blast
  from start_applyD [OF st] obtain db w3 where hash: "H (changes_text (pl_changes plan)) = pl_plan_hash plan"
    and j: "journal_items su H (pl_id plan) 0 (pl_changes plan) (su_ledger su (w_tick w1) (w_db w1))
      (w1\<lparr>w_tick := Suc (w_tick w1), w_db := su_ledger su (w_tick w1) (w_db w1)\<rparr>) = (Inr db, w3)"
    and f2: "w_files w2 = w_files w3" by auto
  have "w_files (snd (journal_items su H (pl_id plan) 0 (pl_changes plan) (su_ledger su (w_tick w1) (w_db w1))
      (w1\<lparr>w_tick := Suc (w_tick w1), w_db := su_ledger su (w_tick w1) (w_db w1)\<rparr>))) = w_files w"
    by (rule keepsD [OF same_files_journal [OF assms(2)]]) (simp add: w1)
  then have w2: "w_files w2 = w_files w" by (simp add: j f2)
  from run_applyD [OF run] obtain w4 n db4 where
    items: "apply_items su (apply_guard su plan owner record) H (pl_id plan) 0 (pl_changes plan) w2 = (Inr (), w4)"
    and fin: "end_apply su plan owner record n db4 = Inr ((), w_db w')" and f: "w_files w' = w_files w4" by auto
  from apply_items_result [OF assms(2) _ items] assms(3)
  have "plan_effect H (pl_changes plan) (visible (w_files w)) = Some (visible (w_files w'))" "tree (w_files w')"
    by (simp_all add: w2 f)
  with plan hash end_apply_status(1) [OF fin] show ?thesis by auto
qed

lemma sample_tree: "tree (w_files sample_world)"
  by (simp add: tree_def sample_world_def empty_files_def)

lemma apply_refines_plan_witness:
  "\<exists>w'. apply_plan sample_env (calm 1000) sample_hash ''p3'' ''u1'' (Some sample_claim_record) sample_world = (Inr (APPLIED @ ''a.txt''), w') \<and>
     visible (w_files w') = (visible (w_files sample_world))([''a.txt''] := Some ''A'')"
proof -
  obtain w' where a: "apply_plan sample_env (calm 1000) sample_hash ''p3'' ''u1'' (Some sample_claim_record) sample_world = (Inr (APPLIED @ ''a.txt''), w')"
    using sample_apply by blast
  have u: "undisturbed (calm 1000)" by (simp add: undisturbed_def)
  have g: "get_plan (w_db sample_world) ''p3'' ''u1'' = Inr sample_own_plan"
    by (simp add: get_plan_def sample_world_def sample_at_tables sample_own_plan_status)
  from apply_refines_plan [OF a u sample_tree] have "plan_effect sample_hash (pl_changes sample_own_plan) (visible (w_files sample_world)) =
      Some (visible (w_files w'))"
    by (auto simp: g simp del: plan_effect.simps sample_own_plan_sel)
  moreover have "digest sample_hash (visible (w_files sample_world) [''a.txt'']) = None"
    by (simp add: visible_def sample_world_def empty_files_def content_of_def digest_def)
  ultimately show ?thesis using a by (auto simp: sample_relative item_effect_def)
qed


section \<open>The journal\<close>

definition exclusive :: "surroundings \<Rightarrow> bool" where
  "exclusive su \<longleftrightarrow> (\<forall>n db. su_ledger su n db = db)"

lemma db_syscall: "keeps (\<lambda>w. w_db w = D) (syscall su f)" "keeps (\<lambda>w. w_db w = D) (query su q)"
  "keeps (\<lambda>w. w_db w = D) (cancelled su)" "keeps (\<lambda>w. w_db w = D) (fsync su)"
  by (auto simp: keeps_def syscall_def query_def fsync_def cancelled_def Let_def split: option.splits sum.splits)

lemma db_mutate: "keeps (\<lambda>w. w_db w = D) (mutate su g m f)"
  unfolding mutate_def by (rule keeps_chain [OF db_syscall(1)]) (simp add: keeps_def)

lemma db_guarded: "exclusive su \<Longrightarrow> (\<And>n. keeps (\<lambda>w. w_db w = D) (body n)) \<Longrightarrow> keeps (\<lambda>w. w_db w = D) (guarded su el body)"
  by (auto simp: keeps_def guarded_def exclusive_def Let_def split: sum.splits)

lemma db_parent:
  assumes "exclusive su"
  shows "keeps (\<lambda>w. w_db w = D) (parent_fd su mk path)"
proof -
  have "keeps (\<lambda>w. w_db w = D) (rescue (guarded su el (\<lambda>n. mutate su n (Mkdir d p) (\<lambda>fs. try_bind (make_dir d p fs) (\<lambda>fs'. Inr ((), fs')))))
        (\<lambda>e. case e of FileExistsError _ \<Rightarrow> give () | _ \<Rightarrow> stop e))" for el d p
    by (rule keeps_rescue [OF db_guarded [OF assms db_mutate]]) (simp add: keeps_give split: err.split)
  then have "keeps (\<lambda>w. w_db w = D) (enter su mk d ps)" for d ps
    by (induction ps arbitrary: d) (auto intro!: keeps_chain keeps_give db_syscall split: option.split)
  then show ?thesis unfolding parent_fd_def by (intro keeps_case keeps_chain keeps_give db_syscall)
qed

lemma db_write:
  assumes "exclusive su"
  shows "keeps (\<lambda>w. w_db w = D) (write_content su el i offset data)"
proof (induction "length data" arbitrary: offset data rule: less_induct)
  case less
  have s: "keeps (\<lambda>w. w_db w = D) (write_some su g i offset data)" for g
  proof -
    have "w_db (snd (write_some su g i offset data w)) = w_db w" for w
      unfolding write_some_def Let_def
      using keepsD [OF db_mutate, of w "w_db w"] keepsD [OF db_syscall(2), of w "w_db w"] by (auto split: if_split)
    then show ?thesis by (simp add: keeps_def)
  qed
  have "keeps (\<lambda>w. w_db w = D) (if k = 0 then stop (OSError ''File write made no progress'') else write_content su el i (offset + k) (drop k data))"
    if "data \<noteq> []" for k using less.hyps [of "drop k data"] that by (simp add: keeps_give)
  then show ?case
    by (subst write_content.simps) (auto intro!: keeps_chain db_guarded [OF assms] db_syscall s)
qed

lemma db_apply_item:
  assumes "exclusive su"
  shows "keeps (\<lambda>w. w_db w = D) (apply_item su el H i k item)"
proof -
  note g = db_guarded [OF assms]
  have "keeps (\<lambda>w. w_db w = D) (delete_file su el H d n b)" for d n b
    unfolding delete_file_def by (intro g keeps_chain keeps_if keeps_give db_syscall db_mutate)
  moreover have "keeps (\<lambda>w. w_db w = D) (write_new su el d n c)" for d n c
    unfolding write_new_def by (intro g keeps_chain db_mutate db_write [OF assms])
  moreover have "keeps (\<lambda>w. w_db w = D) (drop_temp su el d t)" for d t
    unfolding drop_temp_def by (rule keeps_rescue [OF g [OF db_mutate]]) (simp add: keeps_give split: err.split)
  then have "keeps (\<lambda>w. w_db w = D) (modify_file su el H d t n b c)" for d t n b c
    unfolding modify_file_def swap_in_def by (intro g keeps_chain keeps_cleaned keeps_if keeps_give db_syscall db_mutate db_write [OF assms])
  ultimately have "keeps (\<lambda>w. w_db w = D) (case x of (d, name) \<Rightarrow> chain (query su (read_at d name)) (\<lambda>current.
           if digest H current \<noteq> fc_before_hash item then stop (SafeOperationError ''Preimage changed during apply'')
           else
             chain (if fc_action item = ''delete'' then delete_file su el H d name (fc_before_hash item)
                    else if fc_action item = ''create'' then write_new su el d name (fc_content item)
                    else modify_file su el H d (temp_name i k) name (fc_before_hash item) (fc_content item))
               (\<lambda>_. guarded su el (\<lambda>_. fsync su))))" for x
    by (cases x) (auto intro!: keeps_chain g keeps_give db_syscall)
  note rest = this
  show ?thesis unfolding apply_item_def
    by (rule keeps_chain [OF db_syscall(3)], rule keeps_if, rule keeps_give, rule keeps_chain [OF db_parent [OF assms]], rule rest)
qed

text \<open>The journal of a plan: one row for each change, in order.\<close>

fun journals :: "(string \<Rightarrow> string) \<Rightarrow> string \<Rightarrow> string \<Rightarrow> int \<Rightarrow> file_change list \<Rightarrow> journal_row list \<Rightarrow> bool" where
  "journals H st i k [] js \<longleftrightarrow> js = []"
| "journals H st i k (x # xs) js \<longleftrightarrow>
     (case js of
        [] \<Rightarrow> False
      | j # js' \<Rightarrow> jn_plan_id j = i \<and> jn_ordinal j = k \<and> jn_path j = fc_path x \<and> jn_before_hash j = fc_before_hash x \<and>
          jn_after_hash j = fc_after_hash x \<and> jn_state j = st \<and> digest H (jn_before_content j) = fc_before_hash x \<and>
          journals H st i (k + 1) xs js')"

definition planned_row :: "string \<Rightarrow> int \<Rightarrow> nat \<Rightarrow> journal_row \<Rightarrow> bool" where
  "planned_row i k n j \<longleftrightarrow> jn_plan_id j = i \<and> k \<le> jn_ordinal j \<and> jn_ordinal j < k + int n"

definition mark :: "journal_row \<Rightarrow> journal_row" where
  "mark j = j\<lparr>jn_state := ''applied''\<rparr>"

lemma journal_items_rows:
  "journal_items su H i k xs db w = (Inr db', w') \<Longrightarrow>
   \<exists>js. change_journal db' = change_journal db @ js \<and> journals H ''prepared'' i k xs js \<and>
     list_all (\<lambda>j. \<not> planned_row i k (length xs) j) (change_journal db)"
proof (induction xs arbitrary: k db w)
  case Nil
  then show ?case by (auto simp: give_def planned_row_def list_all_iff)
next
  case (Cons x xs)
  from Cons.prems obtain before w1 db1 where h: "digest H before = fc_before_hash x"
    and ins: "insert_journal \<lparr>jn_plan_id = i, jn_ordinal = k, jn_path = fc_path x,
               jn_before_hash = fc_before_hash x, jn_after_hash = fc_after_hash x, jn_before_content = before,
               jn_state = ''prepared''\<rparr> db = Inr db1" and rest: "journal_items su H i (k + 1) xs db1 w1 = (Inr db', w')"
    by (auto simp: chain_Inr stop_def split: if_splits sum.splits)
  from Cons.IH [OF rest] obtain js where js: "change_journal db' = change_journal db1 @ js" "journals H ''prepared'' i (k + 1) xs js"
    "list_all (\<lambda>j. \<not> planned_row i (k + 1) (length xs) j) (change_journal db1)" by blast
  from ins have free: "\<forall>j\<in>set (change_journal db). (jn_plan_id j, jn_ordinal j) \<noteq> (i, k)"
    and db1: "change_journal db1 = change_journal db @ [\<lparr>jn_plan_id = i, jn_ordinal = k, jn_path = fc_path x,
               jn_before_hash = fc_before_hash x, jn_after_hash = fc_after_hash x, jn_before_content = before, jn_state = ''prepared''\<rparr>]"
    by (auto simp: clash_def add_journal_def)
  have "\<not> planned_row i k (length (x # xs)) j" if "j \<in> set (change_journal db)" for j
  proof -
    have "(jn_plan_id j, jn_ordinal j) \<noteq> (i, k)" "\<not> planned_row i (k + 1) (length xs) j"
      using free js(3) that by (auto simp: db1 list_all_iff)
    then show ?thesis by (auto simp: planned_row_def)
  qed
  then have "list_all (\<lambda>j. \<not> planned_row i k (length (x # xs)) j) (change_journal db)" by (simp add: list_all_iff)
  with h js db1 show ?case by simp
qed

lemma apply_items_db:
  assumes "exclusive su"
  shows "apply_items su el H i k xs w = (Inr (), w') \<Longrightarrow>
    change_journal (w_db w') = upd (planned_row i k (length xs)) mark (change_journal (w_db w))"
proof (induction xs arbitrary: k w)
  case (Cons x xs)
  from Cons.prems obtain w1 w2 where 1: "apply_item su el H i k x w = (Inr (), w1)"
    and 2: "transact su (\<lambda>_ db. Inr ((), update_journal (\<lambda>j. jn_plan_id j = i \<and> jn_ordinal j = k)
         (\<lambda>j. j\<lparr>jn_state := ''applied''\<rparr>) db)) w1 = (Inr (), w2)" and 3: "apply_items su el H i (k + 1) xs w2 = (Inr (), w')"
    by (auto simp: chain_Inr)
  have "w_db (snd (apply_item su el H i k x w)) = w_db w" by (rule keepsD [OF db_apply_item [OF assms]]) simp
  with 1 have "w_db w1 = w_db w" by simp
  with 2 assms have d: "change_journal (w_db w2) = upd (\<lambda>j. jn_plan_id j = i \<and> jn_ordinal j = k) mark (change_journal (w_db w))"
    by (auto simp: transact_def exclusive_def Let_def update_journal_def mark_def [abs_def])
  show ?case unfolding Cons.IH [OF 3] d by (auto simp: upd_def planned_row_def mark_def)
qed (auto simp: give_def planned_row_def intro!: upd_none [symmetric])

lemma journals_mark:
  "journals H ''prepared'' i k xs js \<Longrightarrow> k0 \<le> k \<Longrightarrow> k + int (length xs) \<le> k0 + int n \<Longrightarrow>
   journals H ''applied'' i k xs (upd (planned_row i k0 n) mark js)"
  by (induction xs arbitrary: k js) (auto simp: planned_row_def mark_def split: list.splits)

text \<open>An applied plan is fully recorded. When the apply is the only writer of the ledger, its success leaves one journal row for
  each change, in the plan's order, marked applied and holding the contents that the file had before; no row of
  another plan changes.\<close>

theorem applied_plan_is_recorded:
  assumes "apply_plan env su H plan_id owner record w = (Inr txt, w')" "exclusive su"
  shows "\<exists>plan rows. get_plan (w_db w) plan_id owner = Inr plan \<and> change_journal (w_db w') = change_journal (w_db w) @ rows \<and>
    journals H ''applied'' plan_id 0 (pl_changes plan) rows"
proof -
  have x: "su_ledger su n db = db" for n db using assms(2) by (simp add: exclusive_def)
  from apply_planD [OF assms(1)] obtain plan dir w2 where plan: "get_plan (w_db w) plan_id owner = Inr plan" "pl_id plan = plan_id"
    and st: "start_apply su H plan dir owner record (w\<lparr>w_tick := Suc (w_tick w), w_db := w_db w\<rparr>) = (Inr (), w2)"
    and run: "run_apply su H plan owner record w2 = (Inr (), w')" unfolding x by blast
  from start_applyD [OF st] obtain db w3 where
    j: "journal_items su H plan_id 0 (pl_changes plan) (w_db w) (w\<lparr>w_tick := Suc (Suc (w_tick w)), w_db := w_db w\<rparr>) = (Inr db, w3)"
    and w2: "change_journal (w_db w2) = change_journal db" by (auto simp: x plan(2) update_plan_def)
  from journal_items_rows [OF j] obtain js where js: "change_journal db = change_journal (w_db w) @ js"
    "journals H ''prepared'' plan_id 0 (pl_changes plan) js"
    "list_all (\<lambda>j. \<not> planned_row plan_id 0 (length (pl_changes plan)) j) (change_journal (w_db w))" by blast
  from run_applyD [OF run] obtain w4 n where items: "apply_items su (apply_guard su plan owner record) H (pl_id plan) 0 (pl_changes plan) w2 = (Inr (), w4)"
    and fin: "end_apply su plan owner record n (w_db w4) = Inr ((), w_db w')" by (auto simp: x)
  have "change_journal (w_db w') = upd (planned_row plan_id 0 (length (pl_changes plan))) mark (change_journal (w_db w) @ js)"
    using apply_items_db [OF assms(2) items] end_apply_status(2) [OF fin] by (simp add: plan(2) w2 js(1))
  moreover have "upd (planned_row plan_id 0 (length (pl_changes plan))) mark (change_journal (w_db w)) = change_journal (w_db w)"
    using js(3) by (intro upd_none) (auto simp: list_all_iff)
  ultimately show ?thesis using plan(1) journals_mark [OF js(2), of 0 "length (pl_changes plan)"] by auto
qed

lemma applied_plan_is_recorded_witness:
  "\<exists>w'. apply_plan sample_env (calm 1000) sample_hash ''p3'' ''u1'' (Some sample_claim_record) sample_world = (Inr (APPLIED @ ''a.txt''), w') \<and>
     length (change_journal (w_db w')) = 1 \<and> jn_state (hd (change_journal (w_db w'))) = ''applied''"
proof -
  obtain w' where a: "apply_plan sample_env (calm 1000) sample_hash ''p3'' ''u1'' (Some sample_claim_record) sample_world = (Inr (APPLIED @ ''a.txt''), w')"
    using sample_apply by blast
  have u: "exclusive (calm 1000)" by (simp add: exclusive_def)
  have g: "get_plan (w_db sample_world) ''p3'' ''u1'' = Inr sample_own_plan" "change_journal (w_db sample_world) = []"
    by (simp_all add: get_plan_def sample_world_def sample_at_tables sample_own_plan_status)
  from applied_plan_is_recorded [OF a u] a show ?thesis by (auto simp: g split: list.splits)
qed

section \<open>Chunked writes\<close>

lemma overwrite_at_end: "overwrite (length xs) ys xs = xs @ ys"
  by (simp add: overwrite_def)

lemma same_walk: "fs_entries a = fs_entries b \<Longrightarrow> walk a d ps = walk b d ps"
  by (induction ps arbitrary: d) (auto split: option.split entry.split)

text \<open>C5. However the kernel splits a write into chunks: when \<open>write_content\<close> succeeds, the files are those that a single write of
  the whole text at the end of the file gives.\<close>

theorem chunked_write_is_whole:
  assumes "undisturbed su" "write_content su el i offset data w = (Inr (), w')" "offset = length (nd_data (node_of (w_files w) i))"
  shows "node_of (w_files w') = node_of (write_file i offset data (w_files w)) \<and>
    fs_entries (w_files w') = fs_entries (write_file i offset data (w_files w)) \<and>
    fs_root (w_files w') = fs_root (write_file i offset data (w_files w)) \<and>
    visible (w_files w') = visible (write_file i offset data (w_files w))"
proof -
  let ?one = "write_file i offset data (w_files w)"
  have r: "renoded i ((node_of (w_files w) i)\<lparr>nd_data := nd_data (node_of (w_files w) i) @ data\<rparr>) (w_files w) (w_files w')"
    by (rule write_content_result [OF assms])
  have e: "fs_entries (w_files w') = fs_entries ?one" "fs_root (w_files w') = fs_root ?one"
    using r by (simp_all add: renoded_def write_file_def)
  moreover have n: "node_of (w_files w') = node_of ?one"
    using r by (simp add: renoded_def write_file_def assms(3) overwrite_at_end node_of_def fun_eq_iff)
  moreover have "visible (w_files w') = visible ?one"
    using e n same_walk [OF e(1)] by (auto simp: visible_def content_of_def fun_eq_iff split: option.split entry.split)
  ultimately show ?thesis by simp
qed

definition slow :: surroundings where
  "slow = (calm 1000)\<lparr>su_written := \<lambda>_. 1\<rparr>"

lemma chunked_write_is_whole_witness:
  "\<exists>w'. write_content slow (\<lambda>_ _. Inr ()) 1 0 ''AB'' (sample_world\<lparr>w_files := empty_files\<lparr>fs_nodes := [1 \<mapsto> \<lparr>nd_data = [], nd_mode = 384, nd_links = 1\<rparr>]\<rparr>\<rparr>) = (Inr (), w') \<and>
     nd_data (node_of (w_files w') 1) = ''AB''"
proof -
  let ?w = "sample_world\<lparr>w_files := empty_files\<lparr>fs_nodes := [1 \<mapsto> \<lparr>nd_data = [], nd_mode = 384, nd_links = 1\<rparr>]\<rparr>\<rparr>"
  obtain w' where w': "write_content slow (\<lambda>_ _. Inr ()) 1 0 ''AB'' ?w = (Inr (), w')"
    by (simp add: write_content.simps write_some_def guarded_def mutate_def syscall_def query_def fsync_def chain_def slow_def
        calm_def sample_world_def Let_def write_file_def node_of_def empty_files_def)
  have "undisturbed slow" by (simp add: undisturbed_def slow_def calm_def)
  from chunked_write_is_whole [OF this w'] have "node_of (w_files w') 1 = node_of (write_file 1 0 ''AB'' (w_files ?w)) 1"
    by (simp add: node_of_def)
  then have "nd_data (node_of (w_files w') 1) = nd_data (node_of (write_file 1 0 ''AB'' (w_files ?w)) 1)" by (rule arg_cong [where f = nd_data])
  also have "\<dots> = ''AB''" by (simp add: write_file_def node_of_def overwrite_def)
  finally show ?thesis using w' by blast
qed

end
