(* ===== verification/Plan_Resolution.thy ===== *)
theory Plan_Resolution
  imports File_Refinement
begin

text \<open>
  After an interrupted apply: \<open>observe\<close>, \<open>reconcile\<close>, \<open>evidence_hash\<close> and \<open>resolve\<close> of
  \<open>src/nyanya_agent/reviewed_changes.py\<close>. The files are only read; the owner's resolution is bound to the hash of what was
  observed.
\<close>

record observation =
  ob_path :: string
  ob_state :: string
  ob_sha256 :: "string option"

definition observed_state :: "file_change \<Rightarrow> string option \<Rightarrow> string" where
  "observed_state x current =
     (if current = fc_after_hash x then ''after'' else if current = fc_before_hash x then ''before'' else ''diverged'')"

fun observe :: "surroundings \<Rightarrow> (string \<Rightarrow> string) \<Rightarrow> file_change list \<Rightarrow> observation list action" where
  "observe su H [] = give []"
| "observe su H (x # xs) =
     chain (read_file su (fc_path x)) (\<lambda>data.
     chain (observe su H xs) (\<lambda>rest.
       give (\<lparr>ob_path = fc_path x, ob_state = observed_state x (digest H data), ob_sha256 = digest H data\<rparr> # rest)))"

definition evidence_json :: "observation list \<Rightarrow> json" where
  "evidence_json obs = JList (map (\<lambda>b. JObj [(''path'', JStr (ob_path b)), (''observed'', JStr (ob_state b)),
     (''sha256'', jstr_opt (ob_sha256 b))]) obs)"

definition evidence_hash :: "(string \<Rightarrow> string) \<Rightarrow> observation list \<Rightarrow> string" where
  "evidence_hash H obs = H (dumps_json (evidence_json obs))"

definition reconcile ::
  "workspace_env \<Rightarrow> surroundings \<Rightarrow> (string \<Rightarrow> string) \<Rightarrow> string \<Rightarrow> string \<Rightarrow> observation list action" where
  "reconcile env su H plan_id owner =
     chain (read_plan su plan_id owner) (\<lambda>plan.
       case check_workspace env (pl_workspace plan) owner of
         Inl e \<Rightarrow> stop e
       | Inr _ \<Rightarrow> locked su
           (chain (observe su H (pl_changes plan)) (\<lambda>evidence.
            chain (transact su (\<lambda>n db. try_bind (append_event (su_clock su n) ''plan.reconciled'' (Some (pl_task_id plan)) None []
                ''Read-only file evidence; no writes replayed'' [(''files'', evidence_json evidence)] db) (\<lambda>db1. Inr ((), db1)))) (\<lambda>_.
            give evidence))))"

section \<open>Resolving\<close>

text \<open>A worker still holds a claim of the plan's task or of one of its operations.\<close>

definition still_running :: "time \<Rightarrow> ledger \<Rightarrow> string \<Rightarrow> bool" where
  "still_running t db task_id =
     list_ex (\<lambda>c. \<not> cl_released c \<and> cl_expires_at c > t \<and> list_ex (\<lambda>k. tk_id k = cl_task_id c) (agent_tasks db) \<and>
       (cl_task_id c = task_id \<or>
        list_ex (\<lambda>q. op_task_id q = cl_task_id c \<and> op_parent_task_id q = Some task_id) (task_operations db))) (task_claims db)"

definition related_tasks :: "ledger \<Rightarrow> string \<Rightarrow> task_row list" where
  "related_tasks db plan_id =
     filter (\<lambda>k. tk_status k \<in> {''blocked'', ''failed''} \<and>
       list_ex (\<lambda>q. op_task_id q = tk_id k \<and> json_is (op_spec q) ''kind'' ''apply'' \<and> json_is (op_spec q) ''plan_id'' plan_id)
         (task_operations db)) (agent_tasks db)"

text \<open>The lost executions that the resolution covers: the task's attempt that was running when the plan was made, and those of
  the plan's apply operations.\<close>

definition covered_executions :: "ledger \<Rightarrow> plan_row \<Rightarrow> string list" where
  "covered_executions db plan =
     map ex_id (filter (\<lambda>e. ex_task_id e = pl_task_id plan \<and> ex_status e = ''lost'' \<and>
         list_ex (\<lambda>k. tk_id k = pl_task_id plan \<and> tk_current_execution_id k = Some (ex_id e)) (agent_tasks db) \<and>
         (case (ex_started_at e, ex_ended_at e) of (Some s, Some z) \<Rightarrow> s \<le> pl_created_at plan \<and> pl_created_at plan \<le> z | _ \<Rightarrow> False))
       (executions db)) @
     map ex_id (filter (\<lambda>e. ex_status e = ''lost'' \<and>
         list_ex (\<lambda>q. op_task_id q = ex_task_id e \<and> op_parent_task_id q = Some (pl_task_id plan) \<and>
           json_is (op_spec q) ''plan_id'' (pl_id plan)) (task_operations db)) (executions db))"

text \<open>File states confirmed; the remaining changes need a new plan. Effects of other executions need to be checked.\<close>

definition RESOLVED_PARTLY :: string where
  "RESOLVED_PARTLY = utf8 [237, 140, 140, 236, 157, 188, 32, 236, 131, 129, 237, 131, 156, 32, 237, 153, 149, 236, 157, 184, 32,
     236, 153, 132, 235, 163, 140, 46, 32, 235, 130, 168, 236, 157, 128, 32, 235, 179, 128, 234, 178, 189, 236, 157, 128, 32,
     237, 152, 132, 236, 158, 172, 32, 237, 140, 140, 236, 157, 188, 32, 234, 184, 176, 236, 164, 128, 236, 157, 152, 32, 236, 131,
     136, 32, 235, 179, 128, 234, 178, 189, 236, 149, 136, 236, 157, 132, 32, 236, 154, 148, 236, 178, 173, 237, 149, 152, 236,
     132, 184, 236, 154, 148, 46]"

definition OTHER_EFFECTS :: string where
  "OTHER_EFFECTS = utf8 [235, 139, 164, 235, 165, 184, 32, 236, 139, 164, 237, 150, 137, 32, 237, 154, 168, 234, 179, 188, 236, 157,
     152, 32, 237, 153, 149, 236, 157, 184, 236, 157, 180, 32, 237, 149, 132, 236, 154, 148, 237, 149, 169, 235, 139, 136, 235, 139, 164, 46]"

text \<open>The settlement of an apply task of the plan.\<close>

definition settle_related :: "time \<Rightarrow> string \<Rightarrow> bool \<Rightarrow> task_row \<Rightarrow> ledger \<Rightarrow> ledger result" where
  "settle_related t plan_id whole task db =
     (let status = (if unresolved_effects db (tk_id task) True then ''blocked'' else if whole then ''completed'' else ''cancelled'')
      in append_event t ''task.apply_reconciled'' (Some (tk_id task)) None status
           ''Owner reconciled interrupted file effects; see plan resolution'' [(''plan_id'', JStr plan_id)]
           (update_task (\<lambda>k. tk_id k = tk_id task)
             (\<lambda>k. k\<lparr>tk_status := status, tk_completed_at := (if status \<in> {''completed'', ''cancelled''} then Some t else None),
                    tk_updated_at := t\<rparr>) db))"

definition settle_parent :: "time \<Rightarrow> plan_row \<Rightarrow> bool \<Rightarrow> ledger \<Rightarrow> ledger" where
  "settle_parent t plan whole db =
     (let unresolved = unresolved_effects db (pl_task_id plan) True;
          db1 = (if unresolved then db
            else update_draft (\<lambda>d. dr_plan_id d = Some (pl_id plan) \<and> dr_status d = ''ready'')
              (\<lambda>d. d\<lparr>dr_status := (if whole then ''applied'' else ''closed''), dr_updated_at := t, dr_revision := dr_revision d + 1\<rparr>) db);
          status = (if whole \<and> \<not> unresolved then ''completed'' else ''blocked'')
      in update_operation (\<lambda>q. op_task_id q = pl_task_id plan)
           (\<lambda>q. q\<lparr>op_eligible := False,
                  op_hold_reason := (if unresolved then ''unresolved_effects'' else if whole then [] else ''partial_apply_resolved''),
                  op_diagnosis := (if whole then if unresolved then OTHER_EFFECTS else [] else RESOLVED_PARTLY)\<rparr>)
           (update_task (\<lambda>k. tk_id k = pl_task_id plan)
             (\<lambda>k. k\<lparr>tk_status := status, tk_updated_at := t, tk_completed_at := (if status = ''completed'' then Some t else None)\<rparr>) db1))"

definition record_resolution :: "time \<Rightarrow> plan_row \<Rightarrow> observation list \<Rightarrow> ledger \<Rightarrow> ledger result" where
  "record_resolution t plan evidence db =
     (if still_running t db (pl_task_id plan)
      then Inl (SafeOperationError ''Active execution must stop before file effects can be resolved'')
      else
        (case fetch_plan db (pl_id plan) of
           None \<Rightarrow> Inl (TypeError [])
         | Some row \<Rightarrow>
             if pl_status row \<notin> {''applying'', ''uncertain'', ''applied''}
             then Inl (SafeOperationError ''Only unresolved file effects can be resolved'')
             else if pl_status row = ''applied'' \<and> fetch_task db (pl_task_id plan) = None then Inl (TypeError [])
             else if pl_status row = ''applied'' \<and> map_option tk_status (fetch_task db (pl_task_id plan)) = Some ''completed''
             then Inl (SafeOperationError ''Only unresolved file effects can be resolved'')
             else
               (let whole = list_all (\<lambda>b. ob_state b = ''after'') evidence;
                    db1 = update_plan (\<lambda>p. pl_id p = pl_id plan)
                      (\<lambda>p. p\<lparr>pl_status := (if whole then ''applied'' else ''reconciled'')\<rparr>) db
                in try_bind (append_event t ''plan.resolved'' (Some (pl_task_id plan)) None []
                     ''Owner acknowledged observed file state; no file writes performed''
                     [(''plan_id'', JStr (pl_id plan)), (''files'', evidence_json evidence), (''complete'', JBool whole),
                      (''resolved_execution_ids'', JList (map JStr (covered_executions db1 plan)))] db1) (\<lambda>db2.
                   for_each (settle_related t (pl_id plan) whole) (related_tasks db1 (pl_id plan)) (settle_parent t plan whole db2)))))"

definition RESOLUTION_SAVED :: string where
  "RESOLUTION_SAVED = utf8 [237, 140, 140, 236, 157, 188, 32, 236, 131, 129, 237, 131, 156, 32, 237, 153, 149, 236, 157, 184, 236,
     157, 132, 32, 234, 184, 176, 235, 161, 157, 237, 150, 136, 236, 138, 181, 235, 139, 136, 235, 139, 164, 46, 32]"

definition ALL_CONFIRMED :: string where
  "ALL_CONFIRMED = utf8 [235, 179, 128, 234, 178, 189, 236, 149, 136, 236, 157, 152, 32, 235, 170, 168, 235, 147, 160, 32, 234, 178,
     176, 234, 179, 188, 234, 176, 128, 32, 237, 153, 149, 236, 157, 184, 235, 144, 152, 236, 151, 136, 236, 138, 181, 235, 139,
     136, 235, 139, 164, 46]"

definition resolve ::
  "workspace_env \<Rightarrow> surroundings \<Rightarrow> (string \<Rightarrow> string) \<Rightarrow> string \<Rightarrow> string \<Rightarrow> string \<Rightarrow> string action" where
  "resolve env su H plan_id owner observed_hash =
     chain (read_plan su plan_id owner) (\<lambda>plan.
       case check_workspace env (pl_workspace plan) owner of
         Inl e \<Rightarrow> stop e
       | Inr _ \<Rightarrow> locked su
           (chain (observe su H (pl_changes plan)) (\<lambda>evidence.
              if evidence_hash H evidence \<noteq> observed_hash then stop (SafeOperationError ''Observed files changed; run reconcile again'')
              else chain (transact su (\<lambda>n db. try_bind (record_resolution (su_clock su n) plan evidence db) (\<lambda>db1. Inr ((), db1)))) (\<lambda>_.
                give (RESOLUTION_SAVED @ (if list_all (\<lambda>b. ob_state b = ''after'') evidence then ALL_CONFIRMED else RESOLVED_PARTLY))))))"


section \<open>Soundness\<close>

lemma not_secret_resolution: "\<not> secret_key ''files''" "\<not> secret_key ''complete''" "\<not> secret_key ''resolved_execution_ids''"
  "\<not> secret_key ''path''" "\<not> secret_key ''observed''" "\<not> secret_key ''sha256''"
  by code_simp+

lemma settle_related_sound: "settle_related t i c k db = Inr db' \<Longrightarrow> sound db0 db \<Longrightarrow> sound db0 db'"
  by (auto simp: settle_related_def Let_def row_defs task_unique_def not_secret_apply_task intro!: sound_intros)

lemma settle_parent_sound: "sound db0 db \<Longrightarrow> sound db0 (settle_parent t p c db)"
  by (auto simp: settle_parent_def Let_def row_defs task_unique_def intro!: sound_intros)

lemma evidence_concealed: "concealed (evidence_json obs)"
  by (auto simp: evidence_json_def not_secret_resolution jstr_opt_def list_all_iff split: option.split)

lemma record_resolution_sound: "record_resolution t p ev db = Inr db' \<Longrightarrow> sound db0 db \<Longrightarrow> sound db0 db'"
  by (auto simp: record_resolution_def Let_def row_defs not_secret_resolution not_secret_apply_task evidence_concealed
      split: option.splits if_splits intro!: sound_intros settle_parent_sound elim!: for_each_sound settle_related_sound)

section \<open>What is observed\<close>

lemma enter_missing:
  assumes "undisturbed su" "enter su None d ps w = (Inl (FileNotFoundError m), w')"
  shows "walk (w_files w) d ps = None"
  using assms(2)
proof (induction ps arbitrary: d w)
  case (Cons p ps)
  obtain r w1 where q: "query su (open_dir d p) w = (r, w1)" by (cases "query su (open_dir d p) w")
  show ?case
  proof (cases r)
    case (Inl e)
    with Cons.prems q have "query su (open_dir d p) w = (Inl (FileNotFoundError m), w1)" by (auto simp: chain_def give_def)
    with assms(1) have "open_dir d p (w_files w) = Inl (FileNotFoundError m)"
      by (auto simp: query_def syscall_def undisturbed_def Let_def try_bind_def split: option.splits sum.splits)
    then show ?thesis by (simp add: open_dir_def split: option.splits entry.splits)
  next
    case (Inr c)
    note qr = query_result [OF assms(1) q]
    from qr(2) [OF Inr] have "fs_entries (w_files w) (d, p) = Some (Directory c)"
      by (auto simp: open_dir_def split: option.splits entry.splits)
    moreover have "enter su None c ps w1 = (Inl (FileNotFoundError m), w')" using Cons.prems q Inr by (auto simp: chain_def give_def)
    ultimately show ?thesis using Cons.IH [of c w1] by (simp add: qr(1))
  qed
qed (simp add: give_def)

lemma read_file_visible:
  assumes "undisturbed su" "tree (w_files w)" "read_file su path w = (Inr data, w')"
  shows "\<exists>parts. relative path = Inr parts \<and> data = visible (w_files w) parts"
proof -
  let ?m = "chain (parent_fd su None path) (\<lambda>(d, name). query su (read_at d name))"
  obtain r w1 where m: "?m w = (r, w1)" by (cases "?m w")
  obtain rp w2 where p: "parent_fd su None path w = (rp, w2)" by (cases "parent_fd su None path w")
  show ?thesis
  proof (cases rp)
    case (Inr x)
    obtain d name where x: "x = (d, name)" by (cases x)
    from parent_fd_result [OF assms(1,2) p [unfolded Inr x]] obtain parts r0 where parts: "relative path = Inr parts" "name = last parts" "parts \<noteq> []"
      and g: "grows_from (w_files w) (w_files w2)" and r0: "fs_root (w_files w2) = Some r0" "walk (w_files w2) r0 (butlast parts) = Some d" by metis
    have q: "query su (read_at d name) w2 = (r, w1)" using m p by (simp add: chain_def Inr x)
    have "r = Inr data"
    proof (cases r)
      case (Inl e)
      have "e \<noteq> FileNotFoundError z" for z
        using q assms(1) by (auto simp: Inl query_def syscall_def undisturbed_def Let_def try_bind_def read_at_def
            split: option.splits sum.splits entry.splits if_splits)
      with m Inl assms(3) show ?thesis by (auto simp: read_file_def rescue_def stop_def split: err.splits)
    qed (use m assms(3) in \<open>simp add: read_file_def rescue_def\<close>)
    with query_result [OF assms(1) q] have "read_at d name (w_files w2) = Inr data" by simp
    from visible_slot [OF r0 parts(3)] read_at_content [OF this] g parts show ?thesis by (auto simp: grows_from_def)
  next
    case (Inl e)
    have m': "?m w = (Inl e, w2)" using p by (simp add: chain_def Inl)
    with assms(3) obtain z where e: "e = FileNotFoundError z" "data = None"
      by (auto simp: read_file_def rescue_def give_def stop_def split: err.splits)
    from p Inl e obtain parts where parts: "relative path = Inr parts"
      by (cases "relative path") (auto simp: parent_fd_def stop_def relative_def Let_def split: if_splits)
    obtain ro w3 where o: "query su open_root w = (ro, w3)" by (cases "query su open_root w")
    note qr = query_result [OF assms(1) o]
    have "visible (w_files w) parts = None"
    proof (cases ro)
      case (Inl e1)
      with p parts o e \<open>rp = Inl e\<close> have "query su open_root w = (Inl (FileNotFoundError z), w3)" by (auto simp: parent_fd_def chain_def)
      with assms(1) have "open_root (w_files w) = Inl (FileNotFoundError z)"
        by (auto simp: query_def syscall_def undisturbed_def Let_def try_bind_def split: option.splits sum.splits)
      then show ?thesis by (simp add: open_root_def visible_def split: option.splits)
    next
      case (Inr r0)
      with qr(2) have r0: "fs_root (w_files w) = Some r0" by (auto simp: open_root_def split: option.splits)
      have "enter su None r0 (butlast parts) w3 = (Inl (FileNotFoundError z), w2)"
        using p parts o Inr e \<open>rp = Inl e\<close> by (auto simp: parent_fd_def chain_def give_def split: prod.splits sum.splits)
      from enter_missing [OF assms(1) this] show ?thesis by (simp add: visible_def r0 qr(1))
    qed
    with parts e show ?thesis by auto
  qed
qed

lemma read_file_still:
  assumes "read_file su path w = (r, w')"
  shows "w_db w' = w_db w" "w_trace w' = w_trace w" "undisturbed su \<Longrightarrow> w_files w' = w_files w"
proof -
  show "w_db w' = w_db w" "w_trace w' = w_trace w"
    using keepsD [OF unmoved_read_file, of w w su path] assms by (simp_all add: unmoved_def)
  show "undisturbed su \<Longrightarrow> w_files w' = w_files w"
    using keepsD [OF same_files_read, of su w "w_files w" path] assms by simp
qed

definition observed :: "(string \<Rightarrow> string) \<Rightarrow> files \<Rightarrow> file_change \<Rightarrow> string option \<Rightarrow> bool" where
  "observed H fs x h \<longleftrightarrow> (\<exists>parts. relative (fc_path x) = Inr parts \<and> h = digest H (visible fs parts))"

lemma observe_result:
  assumes "undisturbed su"
  shows "tree (w_files w) \<Longrightarrow> observe su H xs w = (Inr obs, w') \<Longrightarrow>
    w_db w' = w_db w \<and> w_trace w' = w_trace w \<and> w_files w' = w_files w \<and>
    list_all2 (\<lambda>x b. ob_state b = observed_state x (ob_sha256 b) \<and> observed H (w_files w) x (ob_sha256 b)) xs obs"
proof (induction xs arbitrary: w obs)
  case (Cons x xs)
  from Cons.prems(2) obtain data w1 rest where 1: "read_file su (fc_path x) w = (Inr data, w1)"
    and 2: "observe su H xs w1 = (Inr rest, w')"
    and obs: "obs = \<lparr>ob_path = fc_path x, ob_state = observed_state x (digest H data), ob_sha256 = digest H data\<rparr> # rest"
    by (auto simp: chain_Inr give_def)
  note s = read_file_still [OF 1]
  from read_file_visible [OF assms Cons.prems(1) 1] have "observed H (w_files w) x (digest H data)" by (auto simp: observed_def)
  with Cons.IH [OF _ 2] Cons.prems(1) s(1,2) s(3) [OF assms] show ?case by (simp add: obs)
qed (simp add: give_def)


section \<open>What a resolution records\<close>

definition same_effect_rows :: "ledger \<Rightarrow> ledger \<Rightarrow> bool" where
  "same_effect_rows db db' \<longleftrightarrow> same_evidence db db' \<and> executions db' = executions db"

lemma settle_related_rows:
  assumes "settle_related t i c k db = Inr db'"
  shows "same_effect_rows db db'" "fetch_task db' j = map_option (\<lambda>x. if tk_id x = tk_id k then x\<lparr>
       tk_status := (if unresolved_effects db (tk_id k) True then ''blocked'' else if c then ''completed'' else ''cancelled''),
       tk_completed_at := (if unresolved_effects db (tk_id k) True then None else Some t), tk_updated_at := t\<rparr> else x) (fetch_task db j)"
  using assms
  by (auto simp: settle_related_def Let_def same_effect_rows_def same_evidence_def resolved_log_def statement_defs fetch_task_def find_key_upd
      intro!: map_option_cong)

lemma settle_parent_rows:
  "same_effect_rows db (settle_parent t p c db)"
  "fetch_task (settle_parent t p c db) (pl_task_id p) = map_option (\<lambda>k. k\<lparr>
       tk_status := (if c \<and> \<not> unresolved_effects db (pl_task_id p) True then ''completed'' else ''blocked''), tk_updated_at := t,
       tk_completed_at := (if c \<and> \<not> unresolved_effects db (pl_task_id p) True then Some t else None)\<rparr>) (fetch_task db (pl_task_id p))"
proof -
  show "same_effect_rows db (settle_parent t p c db)"
    by (auto simp: settle_parent_def Let_def same_effect_rows_def same_evidence_def resolved_log_def statement_defs op_view_def)
  have "map_option (\<lambda>k. if tk_id k = pl_task_id p then f k else k) (fetch_task d (pl_task_id p)) = map_option f (fetch_task d (pl_task_id p))" for f d
    by (cases "fetch_task d (pl_task_id p)") (auto dest: fetch_taskD)
  then show "fetch_task (settle_parent t p c db) (pl_task_id p) = map_option (\<lambda>k. k\<lparr>
       tk_status := (if c \<and> \<not> unresolved_effects db (pl_task_id p) True then ''completed'' else ''blocked''), tk_updated_at := t,
       tk_completed_at := (if c \<and> \<not> unresolved_effects db (pl_task_id p) True then Some t else None)\<rparr>) (fetch_task db (pl_task_id p))"
    by (simp add: settle_parent_def Let_def statement_defs fetch_task_def find_key_upd)
qed

lemma record_resolutionD:
  assumes "record_resolution t plan ev db = Inr db'" "c \<longleftrightarrow> list_all (\<lambda>b. ob_state b = ''after'') ev"
  shows "\<not> still_running t db (pl_task_id plan)"
    "\<exists>p. fetch_plan db' (pl_id plan) = Some p \<and> pl_status p = (if c then ''applied'' else ''reconciled'')"
    "fetch_task db' (pl_task_id plan) = Some k \<Longrightarrow> tk_status k = ''completed'' \<Longrightarrow> c \<and> \<not> unresolved_effects db' (pl_task_id plan) True"
proof -
  let ?T = "pl_task_id plan"
  define st where "st = (if c then ''applied'' else ''reconciled'')"
  let ?db1 = "update_plan (\<lambda>p. pl_id p = pl_id plan) (\<lambda>p. p\<lparr>pl_status := st\<rparr>) db"
  from assms(1) obtain row where row: "fetch_plan db (pl_id plan) = Some row" and live: "\<not> still_running t db ?T"
    and run: "try_bind (append_event t ''plan.resolved'' (Some ?T) None [] ''Owner acknowledged observed file state; no file writes performed''
        [(''plan_id'', JStr (pl_id plan)), (''files'', evidence_json ev), (''complete'', JBool c),
         (''resolved_execution_ids'', JList (map JStr (covered_executions ?db1 plan)))] ?db1) (\<lambda>db2.
      for_each (settle_related t (pl_id plan) c) (related_tasks ?db1 (pl_id plan)) (settle_parent t plan c db2)) = Inr db'"
    unfolding record_resolution_def Let_def assms(2) [symmetric] st_def [symmetric]
    by (simp only: split: option.splits if_splits) simp_all
  from run obtain v where
    loop: "for_each (settle_related t (pl_id plan) c) (related_tasks ?db1 (pl_id plan)) (settle_parent t plan c (add_event v ?db1)) = Inr db'"
    by auto
  define db2 where "db2 = add_event v ?db1"
  have db2: "change_plans db2 = upd (\<lambda>p. pl_id p = pl_id plan) (\<lambda>p. p\<lparr>pl_status := st\<rparr>) (change_plans db)"
    by (simp add: db2_def add_event_def update_plan_def)
  note loop = loop [folded db2_def]
  show "\<not> still_running t db ?T" by (rule live)
  let ?ok = "\<lambda>d. same_effect_rows db2 d \<and> (\<forall>k. fetch_task d ?T = Some k \<longrightarrow> tk_status k = ''completed'' \<longrightarrow> c \<and> \<not> unresolved_effects db2 ?T True)"
  have eff: "unresolved_effects d i True = unresolved_effects db2 i True" if "same_effect_rows db2 d" for d i
    using that same_effects by (simp add: same_effect_rows_def)
  have "?ok db'"
    using loop
  proof (rule for_each_inv)
    show "?ok (settle_parent t plan c db2)"
      using settle_parent_rows [where db = db2 and t = t and p = plan and c = c] by (auto split: if_splits)
    fix r x y assume x: "?ok x" and s: "settle_related t (pl_id plan) c r x = Inr y"
    note rows = settle_related_rows [OF s]
    have "same_effect_rows db2 y" using x rows(1) same_evidence_trans by (auto simp: same_effect_rows_def)
    moreover have "c \<and> \<not> unresolved_effects db2 ?T True" if y: "fetch_task y ?T = Some k" "tk_status k = ''completed''" for k
    proof -
      from y(1) obtain k0 where k0: "fetch_task x ?T = Some k0" by (auto simp: rows(2))
      show ?thesis
      proof (cases "tk_id r = ?T")
        case True
        with y k0 fetch_taskD [OF k0] x eff show ?thesis by (auto simp: rows(2) split: if_splits)
      next
        case False
        with y k0 fetch_taskD [OF k0] x show ?thesis by (auto simp: rows(2))
      qed
    qed
    ultimately show "?ok y" by blast
  qed
  then have same: "same_effect_rows db2 db'" and task: "\<And>k. fetch_task db' ?T = Some k \<Longrightarrow> tk_status k = ''completed'' \<Longrightarrow> c \<and> \<not> unresolved_effects db2 ?T True"
    by blast+
  have "fetch_plan db' (pl_id plan) = Some (row\<lparr>pl_status := st\<rparr>)"
    using same row fetch_planD [OF row] by (simp add: same_effect_rows_def same_evidence_def fetch_plan_def db2 find_key_upd)
  then show "\<exists>p. fetch_plan db' (pl_id plan) = Some p \<and> pl_status p = (if c then ''applied'' else ''reconciled'')" by (simp add: st_def)
  show "fetch_task db' ?T = Some k \<Longrightarrow> tk_status k = ''completed'' \<Longrightarrow> c \<and> \<not> unresolved_effects db' ?T True"
    using task eff [OF same] by simp
qed

lemma after_iff: "list_all2 (\<lambda>x b. ob_state b = observed_state x (ob_sha256 b) \<and> observed H fs x (ob_sha256 b)) xs obs \<Longrightarrow>
   list_all (\<lambda>b. ob_state b = ''after'') obs \<longleftrightarrow> list_all (\<lambda>x. observed H fs x (fc_after_hash x)) xs"
  by (induction rule: list_all2_induct) (auto simp: observed_state_def observed_def)

text \<open>C27. A resolution tells the truth and touches nothing. When the owner resolves a plan on the evidence hash, no file changes; no worker
  holds a claim on the plan's work; the plan is recorded as applied exactly when every file of the plan now has the contents that the
  plan gives it, and as reconciled otherwise; and the task ends as completed only if the plan is applied and
  no effect of its work is unresolved.\<close>

theorem resolution_tells_truth:
  assumes "resolve env su H plan_id owner h w = (Inr txt, w')" "undisturbed su" "tree (w_files w)"
  shows "\<exists>plan p. get_plan (su_ledger su (w_tick w) (w_db w)) plan_id owner = Inr plan \<and>
    w_files w' = w_files w \<and> w_trace w' = w_trace w \<and> fetch_plan (w_db w') plan_id = Some p \<and>
    pl_status p = (if list_all (\<lambda>x. observed H (w_files w) x (fc_after_hash x)) (pl_changes plan) then ''applied'' else ''reconciled'') \<and>
    (\<forall>k. fetch_task (w_db w') (pl_task_id plan) = Some k \<longrightarrow> tk_status k = ''completed'' \<longrightarrow>
      pl_status p = ''applied'' \<and> \<not> unresolved_effects (w_db w') (pl_task_id plan) True)"
proof (cases "get_plan (su_ledger su (w_tick w) (w_db w)) plan_id owner")
  case (Inl e)
  with assms(1) show ?thesis by (auto simp: resolve_def chain_def read_plan_def transact_def Let_def)
next
  case (Inr plan)
  define w1 where "w1 = w\<lparr>w_tick := Suc (w_tick w), w_db := su_ledger su (w_tick w) (w_db w)\<rparr>"
  have i: "pl_id plan = plan_id" using Inr by (auto simp: get_plan_def dest: find_SomeD split: option.splits)
  have "read_plan su plan_id owner w = (Inr plan, w1)" by (simp add: read_plan_def transact_def Let_def Inr w1_def)
  with assms(1) obtain evidence w2 u where o: "observe su H (pl_changes plan) w1 = (Inr evidence, w2)"
    and t: "transact su (\<lambda>n db. try_bind (record_resolution (su_clock su n) plan evidence db) (\<lambda>db1. Inr ((), db1))) w2 = (Inr u, w')"
    unfolding resolve_def chain_def [of "read_plan su plan_id owner"]
    by (cases "check_workspace env (pl_workspace plan) owner"; cases "su_locked su")
      (auto simp: chain_Inr locked_def give_def stop_def split: if_splits)
  have "tree (w_files w1)" using assms(3) by (simp add: w1_def)
  note ob = observe_result [OF assms(2) this o]
  let ?c = "list_all (\<lambda>x. observed H (w_files w) x (fc_after_hash x)) (pl_changes plan)"
  have c: "?c \<longleftrightarrow> list_all (\<lambda>b. ob_state b = ''after'') evidence" using after_iff ob by (fastforce simp: w1_def)
  from t obtain n db where rr: "record_resolution (su_clock su n) plan evidence db = Inr (w_db w')"
    and f: "w_files w' = w_files w2" "w_trace w' = w_trace w2"
    by (auto simp: transact_def Let_def try_bind_def split: sum.splits)
  note d = record_resolutionD [OF rr c]
  from d(2) obtain p where p: "fetch_plan (w_db w') plan_id = Some p" "pl_status p = (if ?c then ''applied'' else ''reconciled'')" by (auto simp: i)
  with Inr ob f p d(3) show ?thesis by (auto simp: w1_def)
qed


text \<open>The interrupted apply of the sample, after the worker's claim has run out: its file is there, complete.\<close>

definition later :: surroundings where
  "later = (calm 1000)\<lparr>su_clock := (\<lambda>_. seconds 31)\<rparr>"

definition sample_interrupted :: world where
  "sample_interrupted = \<lparr>w_db = sample_at ''uncertain'' [sample_journal ''prepared''], w_files = sample_done, w_tick = 0, w_trace = []\<rparr>"

lemma later_sel [simp]:
  "su_files later n fs = fs" "su_ledger later n db = db" "su_clock later n = seconds 31" "su_fault later n = None" "\<not> su_locked later"
  by (simp_all add: later_def)

lemma sample_done_tree: "tree sample_done"
  by (auto simp: tree_def sample_done_def empty_files_def node_of_def)

lemma sample_resolve:
  "\<exists>w'. resolve sample_env later sample_hash ''p3'' ''u1'' ''h3'' sample_interrupted = (Inr (RESOLUTION_SAVED @ ALL_CONFIRMED), w')"
proof -
  have r: "read_plan later ''p3'' ''u1'' sample_interrupted = (Inr (sample_own_plan\<lparr>pl_status := ''uncertain''\<rparr>), sample_interrupted\<lparr>w_tick := 1\<rparr>)"
    by (simp add: read_plan_def transact_def get_plan_def sample_interrupted_def sample_at_tables Let_def)
  have c: "check_workspace sample_env ''/w'' ''u1'' = Inr ''/w''" by code_simp
  have f: "read_file later ''a.txt'' (sample_interrupted\<lparr>w_tick := 1\<rparr>) = (Inr (Some ''A''), sample_interrupted\<lparr>w_tick := 3\<rparr>)"
    by (simp add: read_file_def parent_fd_def sample_relative chain_def query_def syscall_def rescue_def give_def open_root_def
        read_at_def Let_def sample_interrupted_def sample_done_def empty_files_def node_of_def MAX_BYTES_def)
  have h: "evidence_hash sample_hash obs = ''h3''" for obs by (simp add: evidence_hash_def sample_hash_def evidence_json_def)
  have a: "sample_hash ''A'' = ''A''" by (simp add: sample_hash_def)
  have idle: "\<not> still_running (seconds 31) (sample_at st js) ''t2''" for st js
    by (simp add: still_running_def) (simp add: sample_at_def sample_running_tables seconds_def)
  have none: "related_tasks (update_plan P g (sample_at st js)) ''p3'' = []" for P g st js
    by (simp add: related_tasks_def update_plan_def sample_at_def sample_running_tables)
  have k: "k_tasks (keys (sample_at st js)) = {''t1'', ''t2'', ''t3''}" for st js
    by (simp add: keys_def sample_at_tables sample_running_tables)
  have p: "fetch_plan (sample_at ''uncertain'' js) ''p3'' = Some (sample_own_plan\<lparr>pl_status := ''uncertain''\<rparr>)" for js
    by (simp add: fetch_plan_def sample_at_tables)
  have "\<exists>db'. record_resolution (seconds 31) (sample_own_plan\<lparr>pl_status := ''uncertain''\<rparr>) ev (sample_at ''uncertain'' js) = Inr db'" for ev js
    by (simp add: record_resolution_def idle p none Let_def event_fk_def k append_event_def)
  then obtain db' where rr: "record_resolution (seconds 31) (sample_own_plan\<lparr>pl_status := ''uncertain''\<rparr>)
      [\<lparr>ob_path = ''a.txt'', ob_state = ''after'', ob_sha256 = Some ''A''\<rparr>] (sample_at ''uncertain'' [sample_journal ''prepared'']) = Inr db'" by blast
  have db: "w_db sample_interrupted = sample_at ''uncertain'' [sample_journal ''prepared'']" by (simp add: sample_interrupted_def)
  show ?thesis
    by (simp add: resolve_def chain_def r c locked_def f give_def digest_def a observed_state_def h transact_def Let_def
        db rr del: One_nat_def)
qed

lemma resolution_tells_truth_witness:
  "\<exists>w' p. resolve sample_env later sample_hash ''p3'' ''u1'' ''h3'' sample_interrupted = (Inr (RESOLUTION_SAVED @ ALL_CONFIRMED), w') \<and>
     fetch_plan (w_db w') ''p3'' = Some p \<and> pl_status p = ''applied''"
proof -
  obtain w' where a: "resolve sample_env later sample_hash ''p3'' ''u1'' ''h3'' sample_interrupted = (Inr (RESOLUTION_SAVED @ ALL_CONFIRMED), w')"
    using sample_resolve by blast
  have u: "undisturbed later" by (simp add: undisturbed_def)
  have t: "tree (w_files sample_interrupted)" by (simp add: sample_interrupted_def sample_done_tree)
  have g: "get_plan (w_db sample_interrupted) ''p3'' ''u1'' = Inr (sample_own_plan\<lparr>pl_status := ''uncertain''\<rparr>)"
    by (simp add: get_plan_def sample_interrupted_def sample_at_tables)
  have "observed sample_hash (w_files sample_interrupted) x (Some ''A'')" if "fc_path x = ''a.txt''" for x
    by (simp add: observed_def that sample_relative visible_def sample_interrupted_def sample_done_def empty_files_def content_of_def
        node_of_def digest_def sample_hash_def)
  with resolution_tells_truth [OF a u t] a show ?thesis by (auto simp: g)
qed

end
