(* ===== verification/Work_Drafts.thy ===== *)
theory Work_Drafts
  imports Plan_Resolution Op_Admission
begin

text \<open>
  Working copies: \<open>src/nyanya_agent/work_drafts.py\<close>. A draft is opened for a set of files, its read scope is approved by the owner, its
  files are copied into the ledger once, and feedback replaces its plan until one is applied or the draft is closed. The regular
  expressions of \<open>sensitive_content\<close> are a parameter. Lists and maps that come from a provider's answer are JSON values.
\<close>

definition fetch_draft :: "ledger \<Rightarrow> string \<Rightarrow> draft_row option" where
  "fetch_draft db i = List.find (\<lambda>d. dr_id d = i) (operation_drafts db)"

definition MAX_FILES :: nat where "MAX_FILES = 80"

definition MAX_SNAPSHOT_BYTES :: nat where "MAX_SNAPSHOT_BYTES = 50000"

definition MAX_OPEN_DRAFTS :: nat where "MAX_OPEN_DRAFTS = 20"

section \<open>ASCII names\<close>

lemma ascii_simps [simp]: "ascii []" "ascii (c # s) \<longleftrightarrow> (of_char c :: nat) < 128 \<and> ascii s"
  by (simp_all add: ascii_def)

lemma fold_table_ascii: "(of_char c :: nat) < 128 \<Longrightarrow> List.find (\<lambda>(b, a). starts_with b (c # cs)) fold_table = None"
proof -
  assume c: "(of_char c :: nat) < 128"
  have "list_all (\<lambda>(b, a). case b of [] \<Rightarrow> False | x # _ \<Rightarrow> 128 \<le> (of_char x :: nat)) fold_table" by code_simp
  with c show ?thesis by (fastforce simp: find_None_iff list_all_iff split: list.splits)
qed

lemma casefold_ascii: "ascii s \<Longrightarrow> casefold s = lower s"
  by (induction s rule: casefold.induct) (auto simp: ascii_def lower_def fold_table_ascii)

lemma private_ascii:
  "ascii part \<Longrightarrow> private_path_part part \<longleftrightarrow>
     (let name = lower part in
      name \<in> set PRIVATE_PATH_PARTS \<or>
      list_ex (\<lambda>p. starts_with p name) [''backup-'', ''backup_'', ''backups-'', ''backups_'', ''report-'', ''report_'', ''reports-'', ''reports_''] \<or>
      starts_with ''.env'' name \<or>
      starts_with ''agents'' name \<and> (ends_with ''.md'' name \<or> list_ex (\<lambda>k. starts_with ''.md.'' (drop k name)) [0..<length name] \<or>
        list_ex (\<lambda>e. ends_with e name) [''.bak'', ''.backup'', ''~'']))"
  by (simp add: private_path_part_def casefold_ascii)

section \<open>Scope\<close>

text \<open>The last two arguments of \<open>_scope\<close> say how the caller is bound to the conversation: by a task, by a conversation key, or
  not at all; and whether an earlier generation is refused.\<close>

definition draft_scope ::
  "(string \<Rightarrow> string) \<Rightarrow> ledger \<Rightarrow> draft_row option \<Rightarrow> string \<Rightarrow> string \<Rightarrow> string option \<Rightarrow> string option \<Rightarrow> bool \<Rightarrow> unit result" where
  "draft_scope H db draft owner workspace task_id key current =
     (case draft of
        None \<Rightarrow> Inl (PermissionError ''Draft scope mismatch'')
      | Some d \<Rightarrow>
          if (dr_owner_key d, dr_workspace d) \<noteq> (owner, workspace) then Inl (PermissionError ''Draft scope mismatch'')
          else if \<not> truthy_text (dr_session_id d) then Inr ()
          else
            (let session = fetch_conversation db (the (dr_session_id d)) in
             if current \<and> session = None then Inl (TypeError [])
             else if current \<and> map_option cv_generation session \<noteq> dr_generation d
             then Inl (SafeOperationError ''Draft belongs to an earlier conversation generation'')
             else if truthy_text task_id then
               (case (fetch_turn db (the task_id), fetch_task db (the task_id)) of
                  (Some turn, Some task) \<Rightarrow>
                    if (Some (tn_session_id turn), Some (tn_generation turn)) \<noteq> (dr_session_id d, dr_generation d)
                    then Inl (PermissionError ''Draft conversation mismatch'')
                    else (case fetch_task db (dr_source_task_id d) of
                        None \<Rightarrow> Inl (TypeError [])
                      | Some source \<Rightarrow> if tk_project_id source \<noteq> tk_project_id task then Inl (PermissionError ''Draft project mismatch'')
                          else Inr ())
                | _ \<Rightarrow> Inl (PermissionError ''Draft conversation mismatch''))
             else
               (case key of
                  None \<Rightarrow> Inl (PermissionError ''Draft conversation mismatch'')
                | Some k \<Rightarrow>
                    (case session of
                       None \<Rightarrow> Inl (TypeError [])
                     | Some s \<Rightarrow> if H k \<noteq> cv_conversation_hash s then Inl (PermissionError ''Draft conversation mismatch'') else Inr ()))))"

section \<open>Opening\<close>

definition SNAPSHOT_DEPENDENCIES :: "string list" where
  "SNAPSHOT_DEPENDENCIES = [''conda_envs'', ''site-packages'', ''venv'']"

definition context_path_allowed :: "string \<Rightarrow> bool" where
  "context_path_allowed name =
     (let parts = posix_parts name in
      parts \<noteq> [] \<and> list_all (\<lambda>p. \<not> private_path_part p \<and> \<not> starts_with ''.'' p \<and> casefold p \<notin> set SNAPSHOT_DEPENDENCIES) parts \<and>
      \<not> list_ex (\<lambda>e. ends_with e (casefold (last parts))) [''.pem'', ''.key'', ''.db'', ''.sqlite'', ''.log''])"

fun draft_paths_from :: "string list \<Rightarrow> json list \<Rightarrow> string list result" where
  "draft_paths_from seen [] = Inr (sort seen)"
| "draft_paths_from seen (v # vs) =
     (case v of
        JStr s \<Rightarrow>
          if length s > 1024 then Inl (SafeOperationError ''Invalid draft file path'')
          else try_bind (relative s) (\<lambda>parts.
            (let name = join_with ''/'' parts in
             if \<not> context_path_allowed name \<or> name \<in> set seen then Inl (SafeOperationError ''Private or duplicate draft path'')
             else draft_paths_from (seen @ [name]) vs))
      | _ \<Rightarrow> Inl (SafeOperationError ''Invalid draft file path''))"

definition draft_paths :: "json \<Rightarrow> string list result" where
  "draft_paths paths =
     (case paths of
        JList vs \<Rightarrow> if length vs > MAX_FILES then Inl (SafeOperationError ''Draft file scope exceeds its bound'') else draft_paths_from [] vs
      | _ \<Rightarrow> Inl (SafeOperationError ''Draft file scope exceeds its bound''))"

definition scope_text :: "string \<Rightarrow> string \<Rightarrow> string \<Rightarrow> string list \<Rightarrow> turn_row option \<Rightarrow> string" where
  "scope_text identifier owner dir paths turn =
     compact_json (JList [JStr identifier, JStr owner, JStr dir, JList (map JStr paths),
       (case turn of None \<Rightarrow> JNull
        | Some c \<Rightarrow> JObj [(''generation'', JInt (tn_generation c)), (''session_id'', JStr (tn_session_id c))])])"

definition create_draft ::
  "workspace_env \<Rightarrow> (string \<Rightarrow> string) \<Rightarrow> time \<Rightarrow> string \<Rightarrow> claim_record \<Rightarrow> json \<Rightarrow> ledger \<Rightarrow> (draft_row \<times> ledger) result" where
  "create_draft env H t identifier r paths db =
     (case cr_spec r of
        None \<Rightarrow> Inl (TypeError [])
      | Some spec \<Rightarrow>
          try_bind (check_workspace env (json_text (os_workspace spec)) (cr_owner r)) (\<lambda>dir.
          try_bind (draft_paths paths) (\<lambda>names.
            case List.find (\<lambda>d. dr_source_task_id d = cr_task_id r) (operation_drafts db) of
              Some prior \<Rightarrow>
                if dr_paths prior \<noteq> names then Inl (SafeOperationError ''Retry cannot replace a draft scope'') else Inr (prior, db)
            | None \<Rightarrow>
                if hits (\<lambda>d. dr_owner_key d = cr_owner r \<and> dr_status d \<in> {''pending'', ''ready''}) (operation_drafts db) \<ge> MAX_OPEN_DRAFTS
                then Inl (SafeOperationError ''Close existing drafts before opening another'')
                else
                  (let turn = fetch_turn db (cr_task_id r);
                       row = \<lparr>dr_id = identifier, dr_owner_key = cr_owner r, dr_workspace = dir, dr_source_task_id = cr_task_id r,
                         dr_session_id = map_option tn_session_id turn, dr_generation = map_option tn_generation turn, dr_paths = names,
                         dr_scope_hash = H (scope_text identifier (cr_owner r) dir names turn), dr_snapshot = [],
                         dr_status = (if names \<noteq> [] then ''pending'' else ''ready''), dr_plan_id = None, dr_open_task_id = None,
                         dr_revision = 1, dr_created_at = t, dr_updated_at = t,
                         dr_expires_at = t + seconds (if names \<noteq> [] then 3600 else 2592000)\<rparr>
                   in try_bind (insert_draft row db) (\<lambda>db1. Inr (row, db1))))))"

text \<open>\<open>bytes.decode("utf-8")\<close> succeeds.\<close>

definition cont :: "nat \<Rightarrow> bool" where
  "cont b \<longleftrightarrow> 128 \<le> b \<and> b < 192"

fun valid_bytes :: "nat list \<Rightarrow> bool" where
  "valid_bytes [] = True"
| "valid_bytes (a # r) =
     (if a < 128 then valid_bytes r
      else if 194 \<le> a \<and> a < 224 then (case r of b # r1 \<Rightarrow> cont b \<and> valid_bytes r1 | _ \<Rightarrow> False)
      else if 224 \<le> a \<and> a < 240 then
        (case r of b # c # r1 \<Rightarrow> cont b \<and> cont c \<and> (a = 224 \<longrightarrow> 160 \<le> b) \<and> (a = 237 \<longrightarrow> b < 160) \<and> valid_bytes r1 | _ \<Rightarrow> False)
      else if 240 \<le> a \<and> a < 245 then
        (case r of b # c # d # r1 \<Rightarrow> cont b \<and> cont c \<and> cont d \<and> (a = 240 \<longrightarrow> 144 \<le> b) \<and> (a = 244 \<longrightarrow> b < 144) \<and> valid_bytes r1
         | _ \<Rightarrow> False)
      else False)"

definition valid_utf8 :: "string \<Rightarrow> bool" where
  "valid_utf8 s = valid_bytes (map of_char s)"

text \<open>The copy of the files: names with their content and its hash.\<close>

fun copy_inputs :: "surroundings \<Rightarrow> (string \<Rightarrow> string) \<Rightarrow> (string \<Rightarrow> bool) \<Rightarrow> nat \<Rightarrow> string list \<Rightarrow> dict action" where
  "copy_inputs su H sensitive used [] = give []"
| "copy_inputs su H sensitive used (name # names) =
     chain (read_file su name) (\<lambda>data.
       case data of
         None \<Rightarrow> stop (SafeOperationError ''A planned input file is unavailable'')
       | Some content \<Rightarrow>
           if used + length content > MAX_SNAPSHOT_BYTES then stop (SafeOperationError ''Draft input exceeds the snapshot limit'')
           else if \<not> valid_utf8 content then stop (SafeOperationError ''Draft inputs must be UTF-8 text'')
           else if char_of (0::nat) \<in> set content \<or> sensitive content
           then stop (SafeOperationError ''Draft input is unsupported or contains sensitive data'')
           else chain (copy_inputs su H sensitive (used + length content) names) (\<lambda>rest.
             give ((name, JObj [(''content'', JStr content), (''sha256'', JStr (H content))]) # rest)))"

text \<open>\<open>_settle_review\<close>\<close>

definition settle_review :: "time \<Rightarrow> string \<Rightarrow> string \<Rightarrow> string \<Rightarrow> ledger \<Rightarrow> ledger result" where
  "settle_review t task_id status reason db =
     (let db1 = update_task (\<lambda>k. tk_id k = task_id \<and> tk_status k = ''awaiting_approval'')
            (\<lambda>k. k\<lparr>tk_status := status, tk_completed_at := Some t, tk_updated_at := t\<rparr>) db;
          rows = filter (\<lambda>e. ex_task_id e = task_id \<and> ex_status e = ''awaiting_approval'') (executions db1)
      in for_each (\<lambda>row db.
           append_event t ''draft.review_closed'' (Some task_id) (Some (ex_id row)) status reason []
             (update_execution (\<lambda>e. ex_id e = ex_id row)
               (\<lambda>e. e\<lparr>ex_status := (if status = ''completed'' then ''succeeded'' else status), ex_ended_at := Some t, ex_updated_at := t\<rparr>) db))
           rows db1)"

definition scope_opened ::
  "(string \<Rightarrow> string) \<Rightarrow> time \<Rightarrow> draft_row \<Rightarrow> task_row \<Rightarrow> dict \<Rightarrow> intake \<Rightarrow> ledger \<Rightarrow> (task_row \<times> ledger) result" where
  "scope_opened H t d source snapshot a db =
     (let db1 = update_draft (\<lambda>x. dr_id x = dr_id d)
            (\<lambda>x. x\<lparr>dr_status := ''ready'', dr_snapshot := snapshot, dr_revision := dr_revision x + 1, dr_updated_at := t,
                   dr_expires_at := t + seconds 2592000\<rparr>) db
      in try_bind (settle_review t (tk_id source) ''completed'' ''Read scope approved'' db1) (\<lambda>db2.
         try_bind (submit_conn H t a
             (update_approval (\<lambda>g. ag_task_id g = Some (tk_id source) \<and> ag_action g = ''draft.read_scope'' \<and> ag_status g = ''pending'')
               (\<lambda>g. g\<lparr>ag_status := ''approved'', ag_decided_by := in_owner a, ag_decided_at := Some t\<rparr>) db2)) (\<lambda>(task, db3).
         if \<not> fk (k_tasks (keys db3)) (Some (tk_id task)) then Inl (IntegrityError ''FOREIGN KEY constraint failed'')
         else
           try_bind (append_event t ''draft.scope_approved'' (Some (tk_id source)) None []
               ''Exact read scope approved; original files unchanged'' [(''draft_id'', JStr (dr_id d))]
               (update_draft (\<lambda>x. dr_id x = dr_id d) (\<lambda>x. x\<lparr>dr_open_task_id := Some (tk_id task)\<rparr>) db3)) (\<lambda>db4.
           Inr (task, db4)))))"

definition open_and_submit ::
  "workspace_env \<Rightarrow> surroundings \<Rightarrow> (string \<Rightarrow> string) \<Rightarrow> (string \<Rightarrow> bool) \<Rightarrow> string \<Rightarrow> string \<Rightarrow> string \<Rightarrow> string \<Rightarrow> string option \<Rightarrow>
   string \<Rightarrow> string \<Rightarrow> (task_row \<times> bool) action" where
  "open_and_submit env su H sensitive identifier scope_hash owner generation key new_task_id new_session_id w =
     (let n = w_tick w; t = su_clock su n; db = su_ledger su n (w_db w); w1 = w\<lparr>w_tick := Suc n, w_db := db\<rparr>;
          draft = fetch_draft db identifier
      in case (case draft of None \<Rightarrow> Inr [] | Some d \<Rightarrow> check_workspace env (dr_workspace d) owner) of
           Inl e \<Rightarrow> (Inl e, w1)
         | Inr dir \<Rightarrow>
             (case (draft_scope H db draft owner dir None key True, draft) of
                (Inl e, _) \<Rightarrow> (Inl e, w1)
              | (Inr _, None) \<Rightarrow> (Inl (TypeError []), w1)
              | (Inr _, Some d) \<Rightarrow>
                  if dr_scope_hash d \<noteq> scope_hash \<or> dr_expires_at d \<le> t
                  then (Inl (SafeOperationError ''Draft read scope changed or expired''), w1)
                  else if dr_status d = ''ready'' \<and> truthy_text (dr_open_task_id d) then
                    (case fetch_task db (the (dr_open_task_id d)) of None \<Rightarrow> (Inl (TypeError []), w1) | Some k \<Rightarrow> (Inr (k, False), w1))
                  else
                    (case (fetch_task db (dr_source_task_id d), fetch_operation db (dr_source_task_id d)) of
                       (Some source, Some q) \<Rightarrow>
                         if dr_status d \<noteq> ''pending'' \<or> tk_status source \<noteq> ''awaiting_approval''
                         then (Inl (SafeOperationError ''Draft is not waiting for read-scope approval''), w1)
                         else
                           chain (copy_inputs su H sensitive 0 (dr_paths d)) (\<lambda>snapshot w2.
                             case try_bind (spec_restored (op_spec q)) (\<lambda>spec.
                               try_bind (check_workspace env dir owner) (\<lambda>dir2.
                                 scope_opened H t d source snapshot
                                   \<lparr>in_spec = spec\<lparr>os_draft_id := JStr identifier\<rparr>, in_owner = owner, in_generation = generation,
                                    in_root = dir2, in_source_request_id = None, in_project_id = tk_project_id source,
                                    in_parent_task_id = Some (tk_id source), in_conversation_key = key,
                                    in_new_task_id = new_task_id, in_new_session_id = new_session_id\<rparr> db)) of
                               Inl e \<Rightarrow> (Inl e, w2)
                             | Inr (task, db') \<Rightarrow> (Inr (task, True), w2\<lparr>w_db := db'\<rparr>)) w1
                     | _ \<Rightarrow> if dr_status d \<noteq> ''pending'' then (Inl (SafeOperationError ''Draft is not waiting for read-scope approval''), w1)
                         else (Inl (TypeError []), w1))))"

section \<open>Continuing\<close>

text \<open>The draft that the next message of a conversation continues, if there is one.\<close>

definition continued_drafts :: "(string \<Rightarrow> string) \<Rightarrow> time \<Rightarrow> ledger \<Rightarrow> string \<Rightarrow> string \<Rightarrow> string \<Rightarrow> draft_row list" where
  "continued_drafts H t db owner workspace key =
     limit 2 (order_desc dr_created_at (filter (\<lambda>d.
       list_ex (\<lambda>s. dr_session_id d = Some (cv_id s) \<and> cv_conversation_hash s = H key \<and> dr_generation d = Some (cv_generation s))
         (conversation_sessions db) \<and>
       list_ex (\<lambda>k. tk_id k = dr_source_task_id d \<and> tk_project_id k = None) (agent_tasks db) \<and>
       dr_owner_key d = owner \<and> dr_workspace d = workspace \<and> dr_status d = ''ready'' \<and> dr_expires_at d > t) (operation_drafts db)))"

definition active_draft ::
  "(string \<Rightarrow> string) \<Rightarrow> time \<Rightarrow> ledger \<Rightarrow> string \<Rightarrow> string \<Rightarrow> string option \<Rightarrow> string result" where
  "active_draft H t db owner workspace key =
     (case key of
        None \<Rightarrow> Inr []
      | Some k \<Rightarrow>
          (case continued_drafts H t db owner workspace k of
             [] \<Rightarrow> Inr [] | [d] \<Rightarrow> Inr (dr_id d) | _ \<Rightarrow> Inl (SafeOperationError ''Select an explicit draft before continuing'')))"

text \<open>A loaded draft: its row, the copied files and the changes of its pending plan.\<close>

record snap_item =
  si_content :: string
  si_sha256 :: string

record loaded_draft =
  ld_row :: draft_row
  ld_original :: "(string \<times> snap_item) list"
  ld_changes :: "file_change list"

definition snap_item_of :: "json \<Rightarrow> snap_item result" where
  "snap_item_of j =
     (case j of
        JObj obj \<Rightarrow>
          (case (map_of obj ''content'', map_of obj ''sha256'') of
             (Some (JStr c), Some (JStr h)) \<Rightarrow> Inr \<lparr>si_content = c, si_sha256 = h\<rparr> | _ \<Rightarrow> Inl (KeyError ''content''))
      | _ \<Rightarrow> Inl (TypeError []))"

fun snap_items :: "dict \<Rightarrow> (string \<times> snap_item) list result" where
  "snap_items [] = Inr []"
| "snap_items ((name, j) # d) = try_bind (snap_item_of j) (\<lambda>i. try_bind (snap_items d) (\<lambda>r. Inr ((name, i) # r)))"

definition load_draft ::
  "workspace_env \<Rightarrow> (string \<Rightarrow> string) \<Rightarrow> time \<Rightarrow> ledger \<Rightarrow> string \<Rightarrow> claim_record \<Rightarrow> loaded_draft result" where
  "load_draft env H t db identifier r =
     (case cr_spec r of
        None \<Rightarrow> Inl (TypeError [])
      | Some spec \<Rightarrow>
          try_bind (check_workspace env (json_text (os_workspace spec)) (cr_owner r)) (\<lambda>dir.
          let draft = fetch_draft db identifier in
          try_bind (draft_scope H db draft (cr_owner r) dir (Some (cr_task_id r)) None True) (\<lambda>_.
            let d = the draft in
            if dr_status d \<noteq> ''ready'' \<or> dr_expires_at d \<le> t then Inl (SafeOperationError ''Draft is not available for feedback'')
            else try_bind (snap_items (dr_snapshot d)) (\<lambda>original.
              if \<not> truthy_text (dr_plan_id d) then Inr \<lparr>ld_row = d, ld_original = original, ld_changes = []\<rparr>
              else (case fetch_plan db (the (dr_plan_id d)) of
                  None \<Rightarrow> Inl (TypeError [])
                | Some p \<Rightarrow> if pl_status p \<noteq> ''pending''
                    then Inl (SafeOperationError ''Finish or close the existing file plan before new feedback'')
                    else Inr \<lparr>ld_row = d, ld_original = original, ld_changes = pl_changes p\<rparr>)))))"

definition alnum :: "char \<Rightarrow> bool" where
  "alnum c \<longleftrightarrow> (let n = (of_char c :: nat) in (48 \<le> n \<and> n \<le> 57) \<or> (65 \<le> n \<and> n \<le> 90) \<or> (97 \<le> n \<and> n \<le> 122))"

definition draft_directory :: "string \<Rightarrow> string result" where
  "draft_directory identifier =
     (if \<not> starts_with ''draft_'' identifier \<or> drop 6 identifier = [] \<or> \<not> list_all alnum (drop 6 identifier)
      then Inl (SafeOperationError ''Invalid draft identity'') else Inr (''nyanya-tasks/drafts/'' @ identifier))"

text \<open>What the worker is shown: the copied files with the pending changes applied.\<close>

record shown_item = snap_item +
  sh_deletion :: bool  \<comment> \<open>\<open>pending_deletion\<close>\<close>

fun show_change :: "(string \<Rightarrow> string) \<Rightarrow> file_change \<Rightarrow> (string \<times> shown_item) list \<Rightarrow> (string \<times> shown_item) list result" where
  "show_change H x values =
     (if fc_action x = ''delete'' then
        if map_of values (fc_path x) = None then Inl (KeyError (fc_path x))
        else Inr (map (\<lambda>(n, v). if n = fc_path x then (n, v\<lparr>sh_deletion := True\<rparr>) else (n, v)) values)
      else
        (let item = \<lparr>si_content = fc_content x, si_sha256 = H (fc_content x), sh_deletion = False\<rparr> in
         if map_of values (fc_path x) = None then Inr (values @ [(fc_path x, item)])
         else Inr (map (\<lambda>(n, v). if n = fc_path x then (n, item) else (n, v)) values)))"

definition current_snapshot :: "(string \<Rightarrow> string) \<Rightarrow> loaded_draft \<Rightarrow> (string \<times> shown_item) list result" where
  "current_snapshot H draft =
     try_bind (for_each (show_change H) (ld_changes draft)
        (map (\<lambda>(n, i). (n, \<lparr>si_content = si_content i, si_sha256 = si_sha256 i, sh_deletion = False\<rparr>)) (ld_original draft)))
       (\<lambda>values. if sum_list (map (\<lambda>(n, v). length (si_content v)) values) > 2000000
          then Inl (SafeOperationError ''Draft contents exceed the working-copy limit'') else Inr values)"

section \<open>Merging feedback\<close>

record draft_change =
  dg_path :: string
  dg_action :: string
  dg_content :: string
  dg_reason :: string

text \<open>\<open>combined[name] = ...\<close> of a dictionary that keeps its order\<close>

definition put_change :: "draft_change \<Rightarrow> draft_change list \<Rightarrow> draft_change list" where
  "put_change c cs = (if dg_path c \<in> dg_path ` set cs then map (\<lambda>x. if dg_path x = dg_path c then c else x) cs else cs @ [c])"

definition pop_change :: "string \<Rightarrow> draft_change list \<Rightarrow> draft_change list" where
  "pop_change name cs = filter (\<lambda>x. dg_path x \<noteq> name) cs"

definition field :: "dict \<Rightarrow> string \<Rightarrow> json result" where
  "field d k = (case map_of d k of None \<Rightarrow> Inl (KeyError k) | Some v \<Rightarrow> Inr v)"

definition relative_json :: "json \<Rightarrow> string result" where
  "relative_json j = (case j of JStr s \<Rightarrow> try_bind (relative s) (\<lambda>parts. Inr (join_with ''/'' parts)) | _ \<Rightarrow> Inl (TypeError []))"

text \<open>\<open>action not in {"create", "modify", "delete"}\<close>: a list or a map cannot be looked up in a set.\<close>

definition action_json :: "err \<Rightarrow> json \<Rightarrow> string result" where
  "action_json e j =
     (case j of
        JStr a \<Rightarrow> if a \<in> {''create'', ''modify'', ''delete''} then Inr a else Inl e
      | JList _ \<Rightarrow> Inl (TypeError []) | JObj _ \<Rightarrow> Inl (TypeError []) | _ \<Rightarrow> Inl e)"

definition CHANGE_FIELDS :: "string list" where
  "CHANGE_FIELDS = [''path'', ''action'', ''content'', ''reason'']"

definition text_field :: "dict \<Rightarrow> string \<Rightarrow> string option" where
  "text_field d k = (case map_of d k of None \<Rightarrow> Some [] | Some (JStr s) \<Rightarrow> Some s | _ \<Rightarrow> None)"

text \<open>The end of a round: the text of the change and its place in the plan.\<close>

definition merge_text ::
  "(string \<times> snap_item) list \<Rightarrow> dict \<Rightarrow> string \<Rightarrow> string \<Rightarrow> draft_change list \<Rightarrow> draft_change list result" where
  "merge_text original obj name action combined =
     (case (text_field obj ''content'', map_of obj ''reason'') of
        (Some content, Some (JStr reason)) \<Rightarrow>
          if strip reason = [] then Inl (SafeOperationError ''Draft text and rationale are required'')
          else if action = ''modify'' \<and> map_of obj ''content'' = None then Inl (KeyError ''content'')
          else if action = ''modify'' \<and> map_option si_content (map_of original name) = Some content then Inr (pop_change name combined)
          else Inr (put_change \<lparr>dg_path = name, dg_action = action, dg_content = content, dg_reason = reason\<rparr> combined)
      | _ \<Rightarrow> Inl (SafeOperationError ''Draft text and rationale are required''))"

definition delta_target :: "string \<Rightarrow> string \<Rightarrow> string \<Rightarrow> string" where
  "delta_target base action name = (if action = ''create'' \<and> \<not> starts_with base name then base @ name else name)"

definition merge_place ::
  "string \<Rightarrow> (string \<times> snap_item) list \<Rightarrow> dict \<Rightarrow> string \<Rightarrow> string \<Rightarrow> string list \<times> draft_change list \<Rightarrow>
   (string list \<times> draft_change list) result" where
  "merge_place base original obj action name state =
     (let (seen, combined) = state
      in if name \<in> set seen then Inl (SafeOperationError ''Duplicate draft delta'')
         else if map_of original name = None then
           if \<not> starts_with base name then Inl (SafeOperationError ''A new input needs a separately approved read scope'')
           else if action \<noteq> ''create'' \<and> \<not> list_ex (\<lambda>c. dg_path c = name \<and> dg_action c = ''create'') combined
           then Inl (SafeOperationError ''Draft target does not exist'')
           else if action = ''delete'' then Inr (name # seen, pop_change name combined)
           else try_bind (merge_text original obj name ''create'' combined) (\<lambda>c. Inr (name # seen, c))
         else if action = ''create'' then Inl (SafeOperationError ''Creation cannot replace an existing input'')
         else try_bind (merge_text original obj name action combined) (\<lambda>c. Inr (name # seen, c)))"

definition merge_one ::
  "string \<Rightarrow> (string \<times> snap_item) list \<Rightarrow> json \<Rightarrow> string list \<times> draft_change list \<Rightarrow> (string list \<times> draft_change list) result" where
  "merge_one base original change state =
     (case change of
        JObj obj \<Rightarrow>
          if \<not> set (map fst obj) \<subseteq> set CHANGE_FIELDS then Inl (SafeOperationError ''Invalid draft change fields'')
          else
            try_bind (field obj ''path'') (\<lambda>path. try_bind (relative_json path) (\<lambda>name.
            try_bind (field obj ''action'') (\<lambda>act. try_bind (action_json (SafeOperationError ''Unsupported draft action'') act) (\<lambda>action.
              merge_place base original obj action (delta_target base action name) state))))
      | _ \<Rightarrow> Inl (SafeOperationError ''Invalid draft change fields''))"

definition earlier_changes :: "loaded_draft \<Rightarrow> draft_change list" where
  "earlier_changes draft =
     fold (\<lambda>x. put_change \<lparr>dg_path = fc_path x, dg_action = fc_action x, dg_content = fc_content x, dg_reason = fc_reason x\<rparr>)
       (ld_changes draft) []"

definition merge_draft :: "loaded_draft \<Rightarrow> json \<Rightarrow> draft_change list result" where
  "merge_draft draft changes =
     (case changes of
        JList items \<Rightarrow>
          if length items > 40 then Inl (SafeOperationError ''Invalid draft delta'')
          else try_bind (draft_directory (dr_id (ld_row draft))) (\<lambda>dir.
            try_bind (for_each (merge_one (dir @ ''/'') (ld_original draft)) items ([], earlier_changes draft)) (\<lambda>(seen, combined).
              if length combined > 40 then Inl (SafeOperationError ''Draft plan exceeds the file limit'') else Inr combined))
      | _ \<Rightarrow> Inl (SafeOperationError ''Invalid draft delta''))"

section \<open>Plans of a draft\<close>

text \<open>\<open>link_plan_conn\<close>: the result of a feedback task becomes the draft's plan, and the plan before it is withdrawn. The update of
  the draft checks the foreign key of its plan.\<close>

definition belongs_to_draft :: "operation_spec \<Rightarrow> draft_row \<Rightarrow> string \<Rightarrow> bool" where
  "belongs_to_draft spec d task_id \<longleftrightarrow>
     os_draft_id spec = JStr (dr_id d) \<or> (\<not> truthy (os_draft_id spec) \<and> dr_source_task_id d = task_id)"

definition withdraw_plan :: "time \<Rightarrow> plan_row \<Rightarrow> string \<Rightarrow> ledger \<Rightarrow> ledger result" where
  "withdraw_plan t previous task_id db =
     (if pl_status previous \<noteq> ''pending'' \<and> \<not> (pl_task_id previous = task_id \<and> pl_status previous = ''revoked'')
      then Inl (SafeOperationError ''The previous plan is already being applied or held'')
      else if pl_task_id previous \<noteq> task_id \<and> unresolved_effects db (pl_task_id previous) True
      then Inl (SafeOperationError ''The previous draft has uncertain execution evidence'')
      else
        (let db1 = update_approval (\<lambda>g. ag_task_id g = Some (pl_task_id previous) \<and> ag_status g = ''pending'')
               (\<lambda>g. g\<lparr>ag_status := ''rejected'', ag_decided_at := Some t\<rparr>)
               (update_plan (\<lambda>p. pl_id p = pl_id previous) (\<lambda>p. p\<lparr>pl_status := ''revoked''\<rparr>) db)
         in if pl_task_id previous \<noteq> task_id
            then settle_review t (pl_task_id previous) ''completed'' ''Superseded by draft feedback'' db1 else Inr db1))"

definition link_plan_conn ::
  "(string \<Rightarrow> string) \<Rightarrow> time \<Rightarrow> draft_row \<Rightarrow> string \<Rightarrow> string option \<Rightarrow> claim_record option \<Rightarrow> ledger \<Rightarrow> ledger result" where
  "link_plan_conn H t draft task_id plan_id record db =
     try_bind (require_execution_ownership t db record (dr_owner_key draft)) (\<lambda>operation.
     try_bind (spec_restored (op_spec operation)) (\<lambda>spec.
       if map_option cr_task_id record \<noteq> Some task_id \<or> os_kind spec \<noteq> JStr ''request'' \<or>
          os_workspace spec \<noteq> JStr (dr_workspace draft) \<or> \<not> belongs_to_draft spec draft task_id
       then Inl (SafeOperationError ''Draft feedback does not match the claimed operation'')
       else
         (case fetch_draft db (dr_id draft) of
            None \<Rightarrow> Inl (SafeOperationError ''Draft changed while this result was running'')
          | Some current \<Rightarrow>
              if dr_status current \<noteq> ''ready'' \<or> dr_revision current \<noteq> dr_revision draft
              then Inl (SafeOperationError ''Draft changed while this result was running'')
              else
                try_bind (draft_scope H db (Some current) (dr_owner_key draft) (dr_workspace draft) (Some task_id) None True) (\<lambda>_.
                try_bind
                  (if truthy_text (dr_plan_id current) then
                     (case fetch_plan db (the (dr_plan_id current)) of
                        None \<Rightarrow> Inl (TypeError []) | Some previous \<Rightarrow> withdraw_plan t previous task_id db)
                   else Inr db) (\<lambda>db1.
                if fk (k_plans (keys db1)) plan_id then
                  Inr (update_draft (\<lambda>d. dr_id d = dr_id draft)
                    (\<lambda>d. d\<lparr>dr_plan_id := plan_id, dr_revision := dr_revision d + 1, dr_updated_at := t\<rparr>) db1)
                else Inl (IntegrityError ''FOREIGN KEY constraint failed''))))))"

section \<open>Closing\<close>

definition show_draft ::
  "workspace_env \<Rightarrow> (string \<Rightarrow> string) \<Rightarrow> ledger \<Rightarrow> string \<Rightarrow> string \<Rightarrow> string option \<Rightarrow> draft_row result" where
  "show_draft env H db identifier owner key =
     (let draft = fetch_draft db identifier in
      try_bind (case draft of None \<Rightarrow> Inr [] | Some d \<Rightarrow> check_workspace env (dr_workspace d) owner) (\<lambda>dir.
      try_bind (draft_scope H db draft owner dir None key False) (\<lambda>_. Inr (the draft))))"

definition draft_tasks :: "ledger \<Rightarrow> draft_row \<Rightarrow> task_row list" where
  "draft_tasks db d =
     filter (\<lambda>k. list_ex (\<lambda>q. op_task_id q = tk_id k \<and> (tk_id k = dr_source_task_id d \<or> json_is (op_spec q) ''draft_id'' (dr_id d)))
       (task_operations db)) (agent_tasks db)"

definition close_plan :: "draft_row \<Rightarrow> ledger \<Rightarrow> ledger result" where
  "close_plan live db =
     (if \<not> truthy_text (dr_plan_id live) then Inr db
      else
        (case fetch_plan db (the (dr_plan_id live)) of
           None \<Rightarrow> Inl (TypeError [])
         | Some plan \<Rightarrow>
             if pl_status plan \<notin> {''pending'', ''revoked'', ''expired''} then Inl (SafeOperationError ''Draft plan cannot be closed safely'')
             else if pl_status plan = ''pending''
             then Inr (update_plan (\<lambda>p. pl_id p = pl_id plan) (\<lambda>p. p\<lparr>pl_status := ''revoked''\<rparr>) db)
             else Inr db))"

definition close_waiting :: "time \<Rightarrow> task_row \<Rightarrow> ledger \<Rightarrow> ledger result" where
  "close_waiting t task db =
     (if tk_status task = ''awaiting_approval'' then
        try_bind (settle_review t (tk_id task) ''cancelled'' ''Draft explicitly closed'' db) (\<lambda>db1.
          Inr (update_approval (\<lambda>g. ag_task_id g = Some (tk_id task) \<and> ag_status g = ''pending'')
            (\<lambda>g. g\<lparr>ag_status := ''rejected'', ag_decided_at := Some t\<rparr>) db1))
      else Inr db)"

definition close_draft_conn ::
  "(string \<Rightarrow> string) \<Rightarrow> time \<Rightarrow> draft_row \<Rightarrow> string \<Rightarrow> string option \<Rightarrow> ledger \<Rightarrow> ledger result" where
  "close_draft_conn H t draft owner key db =
     (case fetch_draft db (dr_id draft) of
        None \<Rightarrow> Inl (TypeError [])
      | Some live \<Rightarrow>
          if dr_revision live \<noteq> dr_revision draft then Inl (SafeOperationError ''Draft changed; refresh before closing'')
          else
            try_bind (draft_scope H db (Some live) owner (dr_workspace draft) None key False) (\<lambda>_.
              let tasks = draft_tasks db draft in
              if list_ex (\<lambda>k. tk_status k \<in> {''queued'', ''running'', ''cancelling''} \<or> unresolved_effects db (tk_id k) True) tasks
              then Inl (SafeOperationError ''Draft has active or uncertain work; preserve it for review'')
              else if dr_status live \<in> {''closed'', ''applied''} then Inr db
              else
                try_bind (close_plan live db) (\<lambda>db1.
                try_bind (for_each (close_waiting t) tasks db1) (\<lambda>db2.
                  Inr (update_draft (\<lambda>d. dr_id d = dr_id draft)
                    (\<lambda>d. d\<lparr>dr_status := ''closed'', dr_updated_at := t, dr_revision := dr_revision d + 1\<rparr>) db2)))))"

text \<open>The draft is looked up first, in a transaction of its own.\<close>

definition close_draft ::
  "workspace_env \<Rightarrow> surroundings \<Rightarrow> (string \<Rightarrow> string) \<Rightarrow> string \<Rightarrow> string \<Rightarrow> string option \<Rightarrow> unit action" where
  "close_draft env su H identifier owner key =
     chain (transact su (\<lambda>_ db. try_bind (show_draft env H db identifier owner key) (\<lambda>d. Inr (d, db)))) (\<lambda>draft.
       transact su (\<lambda>n db. try_bind (close_draft_conn H (su_clock su n) draft owner key db) (\<lambda>db1. Inr ((), db1))))"

section \<open>Maintenance\<close>

definition expire_scope :: "time \<Rightarrow> draft_row \<Rightarrow> ledger \<Rightarrow> ledger result" where
  "expire_scope t draft db =
     (case fetch_task db (dr_source_task_id draft) of
        None \<Rightarrow> Inl (TypeError [])
      | Some task \<Rightarrow>
          if tk_status task = ''awaiting_approval'' \<and> \<not> unresolved_effects db (dr_source_task_id draft) True then
            try_bind (settle_review t (dr_source_task_id draft) ''cancelled'' ''Read scope expired without copying files'' db) (\<lambda>db1.
              Inr (update_draft (\<lambda>d. dr_id d = dr_id draft)
                (\<lambda>d. d\<lparr>dr_status := ''closed'', dr_updated_at := t, dr_revision := dr_revision d + 1\<rparr>)
                (update_approval (\<lambda>g. ag_task_id g = Some (dr_source_task_id draft) \<and> ag_action g = ''draft.read_scope'' \<and>
                    ag_status g = ''pending'') (\<lambda>g. g\<lparr>ag_status := ''expired'', ag_decided_at := Some t\<rparr>) db1)))
          else Inr db)"

definition spent_snapshot :: "time \<Rightarrow> draft_row \<Rightarrow> bool" where
  "spent_snapshot t d \<longleftrightarrow> dr_status d \<in> {''closed'', ''applied''} \<and> dr_updated_at d < t - seconds 604800 \<and> dr_snapshot d \<noteq> []"

definition maintain_drafts :: "time \<Rightarrow> ledger \<Rightarrow> ledger result" where
  "maintain_drafts t db =
     (let overdue = take 100 (filter (\<lambda>d. dr_status d = ''pending'' \<and> dr_expires_at d < t) (operation_drafts db))
      in try_bind (for_each (expire_scope t) overdue db) (\<lambda>db1.
        let ids = map dr_id (take 100 (filter (spent_snapshot t) (operation_drafts db1)))
        in Inr (update_draft (\<lambda>d. dr_id d \<in> set ids) (\<lambda>d. d\<lparr>dr_snapshot := []\<rparr>) db1)))"

section \<open>Soundness\<close>

lemma not_secret_draft: "\<not> secret_key ''draft_id''"
  by code_simp

lemma create_draft_sound: "create_draft env H t i r p db = Inr (d, db') \<Longrightarrow> sound db0 db \<Longrightarrow> sound db0 db'"
  by (auto simp: create_draft_def Let_def row_defs split: option.splits if_splits intro!: sound_intros)

lemma settle_review_sound: "settle_review t k s r db = Inr db' \<Longrightarrow> sound db0 db \<Longrightarrow> sound db0 db'"
  unfolding settle_review_def Let_def
  by (erule for_each_sound) (auto simp: row_defs task_unique_def intro!: sound_intros)

lemma scope_opened_sound: "scope_opened H t d k s a db = Inr (task, db') \<Longrightarrow> sound db0 db \<Longrightarrow> sound db0 db'"
  by (auto simp: scope_opened_def Let_def row_defs not_secret_draft split: prod.splits if_splits
      intro!: sound_intros elim!: submit_conn_sound settle_review_sound)

lemma withdraw_plan_sound: "withdraw_plan t p k db = Inr db' \<Longrightarrow> sound db0 db \<Longrightarrow> sound db0 db'"
  by (auto simp: withdraw_plan_def Let_def row_defs split: if_splits intro!: sound_intros elim!: settle_review_sound)

lemma link_plan_conn_sound: "link_plan_conn H t d k p r db = Inr db' \<Longrightarrow> sound db0 db \<Longrightarrow> sound db0 db'"
  by (auto simp: link_plan_conn_def Let_def row_defs split: option.splits if_splits intro!: sound_intros elim!: withdraw_plan_sound)

lemma close_waiting_sound: "close_waiting t k db = Inr db' \<Longrightarrow> sound db0 db \<Longrightarrow> sound db0 db'"
  by (auto simp: close_waiting_def row_defs split: if_splits intro!: sound_intros elim!: settle_review_sound)

lemma close_plan_sound: "close_plan d db = Inr db' \<Longrightarrow> sound db0 db \<Longrightarrow> sound db0 db'"
  by (auto simp: close_plan_def row_defs split: option.splits if_splits intro!: sound_intros)

lemma close_draft_conn_sound: "close_draft_conn H t d ow key db = Inr db' \<Longrightarrow> sound db0 db \<Longrightarrow> sound db0 db'"
  by (auto simp: close_draft_conn_def Let_def row_defs split: option.splits if_splits
      intro!: sound_intros elim!: for_each_sound close_waiting_sound close_plan_sound)

lemma expire_scope_sound: "expire_scope t d db = Inr db' \<Longrightarrow> sound db0 db \<Longrightarrow> sound db0 db'"
  by (auto simp: expire_scope_def Let_def row_defs split: option.splits if_splits intro!: sound_intros elim!: settle_review_sound)

lemma maintain_drafts_sound: "maintain_drafts t db = Inr db' \<Longrightarrow> sound db0 db \<Longrightarrow> sound db0 db'"
  by (auto simp: maintain_drafts_def Let_def row_defs intro!: sound_intros elim!: for_each_sound expire_scope_sound)

end
