(* ===== verification/Plan_Proposals.thy ===== *)
theory Plan_Proposals
  imports Work_Drafts
begin

text \<open>
  File plans: \<open>propose\<close> of \<open>src/nyanya_agent/reviewed_changes.py\<close>. The changes are JSON values, as a provider returned them; the
  baseline holds the files that were shown to it. With a draft the preimages come from the copied files, without one
  they are read from the workspace, and a plan that only creates files is approved at once.
\<close>

section \<open>Dates\<close>

text \<open>The proleptic Gregorian calendar: days since the epoch to year, month and day, counted in years that begin in March.\<close>

definition civil :: "int \<Rightarrow> int \<times> int \<times> int" where
  "civil days =
     (let z = days + 719468; era = z div 146097; doe = z mod 146097;
          yoe = (doe - doe div 1460 + doe div 36524 - doe div 146096) div 365;
          doy = doe - (365 * yoe + yoe div 4 - yoe div 100);
          mp = (5 * doy + 2) div 153; d = doy - (153 * mp + 2) div 5 + 1;
          m = (if mp < 10 then mp + 3 else mp - 9)
      in (yoe + era * 400 + (if m \<le> 2 then 1 else 0), m, d))"

definition padded :: "nat \<Rightarrow> int \<Rightarrow> string" where
  "padded n i = (let s = show_int i in replicate (n - length s) (CHR ''0'') @ s)"

text \<open>\<open>strftime('%Y%m%d-%H%M%S')\<close> in UTC\<close>

definition compact_stamp :: "time \<Rightarrow> string" where
  "compact_stamp t =
     (let s = t div 1000000; (y, m, d) = civil (s div 86400); r = s mod 86400
      in padded 4 y @ padded 2 m @ padded 2 d @ ''-'' @ padded 2 (r div 3600) @ padded 2 (r div 60 mod 60) @ padded 2 (r mod 60))"

lemma compact_stamp_samples:
  "compact_stamp 1709164800000000 = ''20240229-000000''" "compact_stamp 1735689599000000 = ''20241231-235959''"
  "compact_stamp 951868800000000 = ''20000301-000000''"
  by code_simp+

section \<open>Preparing the changes\<close>

definition change_name :: "bool \<Rightarrow> string \<Rightarrow> string \<Rightarrow> string \<Rightarrow> string" where
  "change_name drafted dir action name =
     (if action \<noteq> ''create'' \<or> drafted \<and> starts_with (dir @ ''/'') name then name else dir @ ''/'' @ name)"

text \<open>The checks of one item that come before its file is read: its name, action, reason and fields.\<close>

definition item_head :: "bool \<Rightarrow> string \<Rightarrow> string list \<Rightarrow> json \<Rightarrow> (string \<times> string \<times> string \<times> dict) result" where
  "item_head drafted dir seen item =
     (case item of
        JObj obj \<Rightarrow>
          if \<not> set (map fst obj) \<subseteq> set CHANGE_FIELDS then Inl (SafeOperationError ''Unknown file change field'')
          else
            try_bind (field obj ''path'') (\<lambda>path. try_bind (relative_json path) (\<lambda>name0.
            try_bind (field obj ''action'') (\<lambda>act.
            try_bind (action_json (SafeOperationError ''Action and rationale required'') act) (\<lambda>action.
              case text_field obj ''reason'' of
                None \<Rightarrow> Inl (SafeOperationError ''Action and rationale required'')
              | Some reason \<Rightarrow>
                  if strip reason = [] then Inl (SafeOperationError ''Action and rationale required'')
                  else
                    (let name = change_name drafted dir action name0 in
                     if name \<in> set seen then Inl (SafeOperationError ''Duplicate file operation'')
                     else Inr (name, action, reason, obj))))))
      | _ \<Rightarrow> Inl (SafeOperationError ''Unknown file change field''))"

text \<open>The checks after it: the prepared change.\<close>

definition prepare_change ::
  "(string \<Rightarrow> string) \<Rightarrow> (string \<times> snap_item) list \<Rightarrow> nat \<Rightarrow> string \<Rightarrow> string \<Rightarrow> string \<Rightarrow> dict \<Rightarrow> string option \<Rightarrow> file_change result" where
  "prepare_change H baseline used name action reason obj before =
     (if action = ''create'' \<and> before \<noteq> None then Inl (SafeOperationError ''Creation would overwrite a file'')
      else if action \<noteq> ''create'' \<and>
        (before = None \<or> (case map_of baseline name of None \<Rightarrow> True | Some i \<Rightarrow> digest H before \<noteq> Some (si_sha256 i)))
      then Inl (SafeOperationError ''File changed or not present in the reviewed input snapshot'')
      else
        (case text_field obj ''content'' of
           None \<Rightarrow> Inl (SafeOperationError ''Text content required'')
         | Some content \<Rightarrow>
             (let data = (if action = ''delete'' then None else Some content) in
              if used + (case data of None \<Rightarrow> 0 | Some b \<Rightarrow> length b) > MAX_BYTES then Inl (SafeOperationError ''Plan too large'')
              else if (case before of None \<Rightarrow> False | Some b \<Rightarrow> \<not> valid_utf8 b) then Inl (ValueError ''invalid start byte'')
              else Inr \<lparr>fc_path = name, fc_action = action, fc_reason = take_cp 2000 reason,
                fc_content = (case data of None \<Rightarrow> [] | Some b \<Rightarrow> b), fc_before_hash = digest H before,
                fc_before_content = (case before of None \<Rightarrow> [] | Some b \<Rightarrow> b), fc_after_hash = digest H data\<rparr>)))"

fun prepare ::
  "surroundings \<Rightarrow> (string \<Rightarrow> string) \<Rightarrow> bool \<Rightarrow> string \<Rightarrow> (string \<times> snap_item) list \<Rightarrow> string list \<Rightarrow> nat \<Rightarrow> json list \<Rightarrow>
   file_change list action" where
  "prepare su H drafted dir baseline seen used [] = give []"
| "prepare su H drafted dir baseline seen used (item # items) =
     (case item_head drafted dir seen item of
        Inl e \<Rightarrow> stop e
      | Inr (name, action, reason, obj) \<Rightarrow>
          chain (if drafted then give (map_option si_content (map_of baseline name)) else read_file su name) (\<lambda>before.
            case prepare_change H baseline used name action reason obj before of
              Inl e \<Rightarrow> stop e
            | Inr x \<Rightarrow> chain (prepare su H drafted dir baseline (name # seen) (used + length (fc_content x)) items)
                (\<lambda>rest. give (x # rest))))"

section \<open>Recording the plan\<close>

definition automatic :: "loaded_draft option \<Rightarrow> file_change list \<Rightarrow> bool" where
  "automatic draft xs \<longleftrightarrow> draft = None \<and> list_all (\<lambda>x. fc_action x = ''create'') xs"

definition record_plan ::
  "(string \<Rightarrow> string) \<Rightarrow> time \<Rightarrow> string \<Rightarrow> string \<Rightarrow> string \<Rightarrow> string \<Rightarrow> file_change list \<Rightarrow> loaded_draft option \<Rightarrow> claim_record option \<Rightarrow>
   ledger \<Rightarrow> ledger result" where
  "record_plan H t plan_id task_id owner dir prepared draft record db =
     (case fetch_task db task_id of
        None \<Rightarrow> Inl (PermissionError ''Plan owner mismatch'')
      | Some task \<Rightarrow>
          if tk_requested_by task \<noteq> owner then Inl (PermissionError ''Plan owner mismatch'')
          else
            try_bind (insert_plan \<lparr>pl_id = plan_id, pl_task_id = task_id, pl_owner_key = owner, pl_workspace = dir, pl_revision = 1,
                pl_plan_hash = H (changes_text prepared), pl_changes = prepared,
                pl_status = (if automatic draft prepared then ''approved'' else ''pending''),
                pl_expires_at = t + seconds 3600, pl_decided_by = [], pl_created_at = t\<rparr>
              (update_plan (\<lambda>p. pl_task_id p = task_id \<and> pl_status p \<in> {''pending'', ''approved''}) (\<lambda>p. p\<lparr>pl_status := ''revoked''\<rparr>) db))
              (\<lambda>db1.
            try_bind (case draft of None \<Rightarrow> Inr db1 | Some d \<Rightarrow> link_plan_conn H t (ld_row d) task_id (Some plan_id) record db1) (\<lambda>db2.
            append_event t ''plan.proposed'' (Some task_id) None []
              (if automatic draft prepared then ''Exclusive creation'' else ''File-level review required'')
              [(''plan_id'', JStr plan_id), (''plan_hash'', JStr (H (changes_text prepared)))] db2)))"

definition read_clock :: "surroundings \<Rightarrow> time action" where
  "read_clock su w = (Inr (su_clock su (w_tick w)), w\<lparr>w_tick := Suc (w_tick w)\<rparr>)"

definition TASK_KINDS :: "string list" where
  "TASK_KINDS = [''work'', ''analysis'', ''code'', ''document'', ''data'']"

definition propose ::
  "workspace_env \<Rightarrow> surroundings \<Rightarrow> (string \<Rightarrow> string) \<Rightarrow> string \<Rightarrow> string \<Rightarrow> string \<Rightarrow> string \<Rightarrow> json \<Rightarrow> (string \<times> snap_item) list \<Rightarrow> string \<Rightarrow>
   loaded_draft option \<Rightarrow> claim_record option \<Rightarrow> plan_row action" where
  "propose env su H plan_id task_id owner workspace changes baseline kind draft record =
     (case check_workspace env workspace owner of
        Inl e \<Rightarrow> stop e
      | Inr dir \<Rightarrow>
          (case changes of
             JList items \<Rightarrow>
               if items = [] \<or> length items > 40 then stop (SafeOperationError ''Invalid change list'')
               else if kind \<notin> set TASK_KINDS then stop (SafeOperationError ''Invalid task directory kind'')
               else
                 chain (read_clock su) (\<lambda>t.
                   case (case draft of
                       None \<Rightarrow> Inr (''nyanya-tasks/'' @ kind @ ''/'' @ compact_stamp t @ ''-'' @ plan_id)
                     | Some d \<Rightarrow> draft_directory (dr_id (ld_row d))) of
                     Inl e \<Rightarrow> stop e
                   | Inr folder \<Rightarrow>
                       chain (prepare su H (draft \<noteq> None) folder baseline [] 0 items) (\<lambda>prepared.
                       chain (transact su (\<lambda>n db.
                         try_bind (record_plan H (su_clock su n) plan_id task_id owner dir prepared draft record db) (\<lambda>db1. Inr ((), db1))))
                         (\<lambda>_. read_plan su plan_id owner)))
           | _ \<Rightarrow> stop (SafeOperationError ''Invalid change list'')))"

end
