(* ===== verification/Proposal_Laws.thy ===== *)
theory Proposal_Laws
  imports Plan_Proposals
begin

text \<open>
  What a proposal guarantees before anybody reviews it, and what the feedback of a draft may touch.
\<close>

section \<open>Prepared changes\<close>

text \<open>A change with its preimage: a creation of a name that was free in the folder of the task, or a change of a file that was
  shown, with the contents that were shown.\<close>

definition prepared_change :: "(string \<Rightarrow> string) \<Rightarrow> string \<Rightarrow> (string \<times> snap_item) list \<Rightarrow> file_change \<Rightarrow> bool" where
  "prepared_change H folder baseline x \<longleftrightarrow>
     fc_after_hash x = (if fc_action x = ''delete'' then None else Some (H (fc_content x))) \<and>
     (if fc_action x = ''create'' then starts_with (folder @ ''/'') (fc_path x) \<and> fc_before_hash x = None
      else fc_action x \<in> {''modify'', ''delete''} \<and> (\<exists>i. map_of baseline (fc_path x) = Some i \<and>
        fc_before_hash x = Some (si_sha256 i) \<and> H (fc_before_content x) = si_sha256 i))"

text \<open>What the plan of a draft may name: copied files, and new files in the folder of the draft.\<close>

definition in_scope :: "string \<Rightarrow> (string \<times> snap_item) list \<Rightarrow> string \<Rightarrow> string \<Rightarrow> bool" where
  "in_scope folder original path action \<longleftrightarrow>
     (if map_of original path = None then action = ''create'' \<and> starts_with (folder @ ''/'') path else action \<in> {''modify'', ''delete''})"

lemma starts_with_append_self [simp]: "starts_with p (p @ s)"
  by (auto simp: starts_with_append)

lemma action_json_Inr: "action_json e j = Inr a \<Longrightarrow> a \<in> {''create'', ''modify'', ''delete''}"
  by (auto simp: action_json_def split: json.splits if_splits)

lemma item_headD:
  assumes "item_head drafted folder seen item = Inr (name, action, reason, obj)"
  shows "name \<notin> set seen" "action \<in> {''create'', ''modify'', ''delete''}"
    "action = ''create'' \<Longrightarrow> starts_with (folder @ ''/'') name"
proof -
  obtain name0 where "name \<notin> set seen" "action \<in> {''create'', ''modify'', ''delete''}" "name = change_name drafted folder action name0"
    using assms by (auto simp: item_head_def Let_def dest!: action_json_Inr split: json.splits if_splits option.splits)
  moreover have "starts_with (folder @ ''/'') (change_name drafted folder ''create'' name0)"
    by (auto simp: change_name_def starts_with_append)
  ultimately show "name \<notin> set seen" "action \<in> {''create'', ''modify'', ''delete''}"
    "action = ''create'' \<Longrightarrow> starts_with (folder @ ''/'') name" by auto
qed

lemma prepare_changeD:
  assumes "prepare_change H baseline used name action reason obj before = Inr x"
    "action \<in> {''create'', ''modify'', ''delete''}" "action = ''create'' \<Longrightarrow> starts_with (folder @ ''/'') name"
  shows "fc_path x = name" "fc_action x = action" "prepared_change H folder baseline x" "used + length (fc_content x) \<le> MAX_BYTES"
    "action = ''create'' \<Longrightarrow> before = None"
  using assms by (auto simp: prepare_change_def prepared_change_def digest_def Let_def split: if_splits option.splits)

definition prepared_list :: "(string \<Rightarrow> string) \<Rightarrow> bool \<Rightarrow> string \<Rightarrow> (string \<times> snap_item) list \<Rightarrow> string list \<Rightarrow> file_change list \<Rightarrow> bool" where
  "prepared_list H drafted folder baseline seen xs \<longleftrightarrow>
     distinct (map fc_path xs) \<and> fc_path ` set xs \<inter> set seen = {} \<and>
     (\<forall>x\<in>set xs. prepared_change H folder baseline x \<and> (drafted \<longrightarrow> in_scope folder baseline (fc_path x) (fc_action x)))"

lemma prepare_result:
  "prepare su H drafted folder baseline seen used items w = (Inr xs, w') \<Longrightarrow> used \<le> MAX_BYTES \<Longrightarrow>
   prepared_list H drafted folder baseline seen xs \<and> length xs = length items \<and>
   used + sum_list (map (\<lambda>x. length (fc_content x)) xs) \<le> MAX_BYTES"
proof (induction items arbitrary: seen used xs w w')
  case Nil
  then show ?case by (simp add: give_def prepared_list_def)
next
  case (Cons item items)
  from Cons.prems obtain name action reason obj where h: "item_head drafted folder seen item = Inr (name, action, reason, obj)"
    by (auto simp: stop_def split: sum.splits prod.splits)
  from Cons.prems obtain before w1 where
    b: "(if drafted then give (map_option si_content (map_of baseline name)) else read_file su name) w = (Inr before, w1)"
    and k: "(case prepare_change H baseline used name action reason obj before of
        Inl e \<Rightarrow> stop e
      | Inr x \<Rightarrow> chain (prepare su H drafted folder baseline (name # seen) (used + length (fc_content x)) items)
          (\<lambda>rest. give (x # rest))) w1 = (Inr xs, w')"
    by (auto simp: h chain_Inr)
  from k obtain x where x: "prepare_change H baseline used name action reason obj before = Inr x"
    by (cases "prepare_change H baseline used name action reason obj before") (auto simp: stop_def)
  from k obtain rest w2 where r: "prepare su H drafted folder baseline (name # seen) (used + length (fc_content x)) items w1 = (Inr rest, w2)"
    and xs: "xs = x # rest"
    by (auto simp: x chain_Inr give_def)
  note hd = item_headD [OF h]
  have pd: "fc_path x = name" "fc_action x = action" "prepared_change H folder baseline x" "used + length (fc_content x) \<le> MAX_BYTES"
    "action = ''create'' \<Longrightarrow> before = None"
    using prepare_changeD [OF x hd(2)] hd(3) by blast+
  from Cons.IH [OF r pd(4)] have ih: "prepared_list H drafted folder baseline (name # seen) rest" "length rest = length items"
    "used + length (fc_content x) + sum_list (map (\<lambda>x. length (fc_content x)) rest) \<le> MAX_BYTES" by auto
  have "in_scope folder baseline name action" if drafted
  proof -
    have "before = map_option si_content (map_of baseline name)" using b that by (simp add: give_def)
    then show ?thesis using pd(2,3,5) hd(2,3) pd(1) by (auto simp: in_scope_def prepared_change_def)
  qed
  with ih hd(1) pd show ?case by (auto simp: xs prepared_list_def)
qed

lemma unmoved_prepare: "keeps (unmoved w0) (prepare su H drafted folder baseline seen used items)"
  by (induction su H drafted folder baseline seen used items rule: prepare.induct)
    (auto intro!: keeps_chain unmoved_read_file simp: keeps_give split: sum.split prod.split)

section \<open>Proposals\<close>

definition open_plans :: "ledger \<Rightarrow> string \<Rightarrow> plan_row list" where
  "open_plans db task_id = filter (\<lambda>p. pl_task_id p = task_id \<and> pl_status p \<in> {''pending'', ''approved''}) (change_plans db)"

lemma settle_review_frame:
  assumes "settle_review t k s r db = Inr db'"
  shows "change_plans db' = change_plans db" "operation_drafts db' = operation_drafts db" "approvals db' = approvals db"
    "agent_tasks db' = upd (\<lambda>x. tk_id x = k \<and> tk_status x = ''awaiting_approval'')
      (\<lambda>x. x\<lparr>tk_status := s, tk_completed_at := Some t, tk_updated_at := t\<rparr>) (agent_tasks db)"
proof -
  let ?tasks = "upd (\<lambda>x. tk_id x = k \<and> tk_status x = ''awaiting_approval'')
      (\<lambda>x. x\<lparr>tk_status := s, tk_completed_at := Some t, tk_updated_at := t\<rparr>) (agent_tasks db)"
  define P where "P x \<longleftrightarrow> change_plans x = change_plans db \<and> operation_drafts x = operation_drafts db \<and> approvals x = approvals db \<and>
    agent_tasks x = ?tasks" for x :: ledger
  have "P db'"
    using assms unfolding settle_review_def Let_def
    by (rule for_each_inv) (auto simp: P_def statement_defs)
  then show "change_plans db' = change_plans db" "operation_drafts db' = operation_drafts db" "approvals db' = approvals db"
    "agent_tasks db' = ?tasks" by (auto simp: P_def)
qed

lemma withdraw_plan_frame:
  assumes "withdraw_plan t p k db = Inr db'"
  shows "change_plans db' = upd (\<lambda>x. pl_id x = pl_id p) (\<lambda>x. x\<lparr>pl_status := ''revoked''\<rparr>) (change_plans db)" "operation_drafts db' = operation_drafts db"
  using assms by (auto simp: withdraw_plan_def Let_def statement_defs dest: settle_review_frame split: if_splits)

lemma link_plan_connE:
  assumes "link_plan_conn H t d k np r db = Inr db'"
  obtains cur db1 where "fetch_draft db (dr_id d) = Some cur" "dr_status cur = ''ready''" "dr_revision cur = dr_revision d"
    "draft_scope H db (Some cur) (dr_owner_key d) (dr_workspace d) (Some k) None True = Inr ()"
    "if truthy_text (dr_plan_id cur) then \<exists>p. fetch_plan db (the (dr_plan_id cur)) = Some p \<and> withdraw_plan t p k db = Inr db1 else db1 = db"
    "db' = update_draft (\<lambda>x. dr_id x = dr_id d) (\<lambda>x. x\<lparr>dr_plan_id := np, dr_revision := dr_revision x + 1, dr_updated_at := t\<rparr>) db1"
  using assms by (auto simp: link_plan_conn_def split: option.splits if_splits)

lemma link_plan_frame:
  assumes "link_plan_conn H t d k np r db = Inr db'"
  shows "\<exists>P. change_plans db' = upd P (\<lambda>x. x\<lparr>pl_status := ''revoked''\<rparr>) (change_plans db) \<and>
    (\<forall>p. P p \<longrightarrow> (\<exists>cur. fetch_draft db (dr_id d) = Some cur \<and> dr_plan_id cur = Some (pl_id p)))"
proof -
  from assms show ?thesis
  proof (rule link_plan_connE)
    fix cur db1
    assume a: "fetch_draft db (dr_id d) = Some cur"
      "if truthy_text (dr_plan_id cur) then \<exists>p. fetch_plan db (the (dr_plan_id cur)) = Some p \<and> withdraw_plan t p k db = Inr db1 else db1 = db"
      "db' = update_draft (\<lambda>x. dr_id x = dr_id d) (\<lambda>x. x\<lparr>dr_plan_id := np, dr_revision := dr_revision x + 1, dr_updated_at := t\<rparr>) db1"
    have c: "change_plans db' = change_plans db1" by (simp add: a(3) statement_defs)
    show ?thesis
    proof (cases "truthy_text (dr_plan_id cur)")
      case True
      then obtain i where i: "dr_plan_id cur = Some i" by (cases "dr_plan_id cur") (auto simp: truthy_text_def)
      with a(2) True obtain p where "fetch_plan db i = Some p" "withdraw_plan t p k db = Inr db1" by auto
      with withdraw_plan_frame(1) have "change_plans db1 = upd (\<lambda>x. pl_id x = i) (\<lambda>x. x\<lparr>pl_status := ''revoked''\<rparr>) (change_plans db)"
        by (auto dest!: fetch_planD)
      then show ?thesis by (intro exI [of _ "\<lambda>x. pl_id x = i"]) (simp add: c i a(1))
    next
      case False
      with a(2) show ?thesis by (intro exI [of _ "\<lambda>_. False"]) (simp add: c upd_none)
    qed
  qed
qed

lemma set_upd_cases: "q \<in> set (upd P f rows) \<Longrightarrow> (\<exists>r\<in>set rows. P r \<and> q = f r) \<or> (q \<in> set rows \<and> \<not> P q)"
  by (auto simp: set_upd split: if_splits)

lemma upd_hit: "q \<in> set (upd P f rows) \<Longrightarrow> P q \<Longrightarrow> \<exists>r. q = f r"
  by (auto simp: set_upd)

lemma distinct_map_eq: "distinct (map f xs) \<Longrightarrow> x \<in> set xs \<Longrightarrow> y \<in> set xs \<Longrightarrow> f x = f y \<Longrightarrow> x = y"
  by (auto simp: distinct_map inj_on_def)

text \<open>The plan is recorded, and of the task's other plans none remains that could be decided or applied.\<close>

lemma draft_plan_exists:
  assumes "ledger_inv db" "fetch_draft db i = Some cur" "dr_plan_id cur = Some pid"
  shows "pid \<in> pl_id ` set (change_plans db)"
proof -
  have "cur \<in> set (operation_drafts db)" using assms(2) by (auto simp: fetch_draft_def dest: find_SomeD)
  with assms(1) have "draft_ok (keys db) cur" by (auto simp: ledger_inv_def inv_at_def table_inv_def)
  with assms(3) show ?thesis by (simp add: row_defs keys_def)
qed

lemma record_plan_result:
  assumes "record_plan H t plan_id task_id owner dir prepared draft record db = Inr db'" "ledger_inv db"
  shows "\<exists>p\<in>set (change_plans db'). pl_id p = plan_id \<and> pl_task_id p = task_id \<and> pl_owner_key p = owner \<and>
      pl_workspace p = dir \<and> pl_changes p = prepared \<and> pl_plan_hash p = H (changes_text prepared) \<and>
      pl_status p = (if automatic draft prepared then ''approved'' else ''pending'') \<and> pl_expires_at p = t + seconds 3600"
    "\<forall>p\<in>set (open_plans db' task_id). pl_id p = plan_id" "distinct (map pl_id (change_plans db'))"
proof -
  define new :: plan_row where "new = \<lparr>pl_id = plan_id, pl_task_id = task_id, pl_owner_key = owner, pl_workspace = dir, pl_revision = 1,
      pl_plan_hash = H (changes_text prepared), pl_changes = prepared,
      pl_status = (if automatic draft prepared then ''approved'' else ''pending''),
      pl_expires_at = t + seconds 3600, pl_decided_by = [], pl_created_at = t\<rparr>"
  let ?old = "upd (\<lambda>p. pl_task_id p = task_id \<and> pl_status p \<in> {''pending'', ''approved''}) (\<lambda>p. p\<lparr>pl_status := ''revoked''\<rparr>) (change_plans db)"
  define db1 where "db1 = add_plan new (update_plan (\<lambda>p. pl_task_id p = task_id \<and> pl_status p \<in> {''pending'', ''approved''}) (\<lambda>p. p\<lparr>pl_status := ''revoked''\<rparr>) db)"
  from assms(1) obtain db2 where fresh: "plan_id \<notin> pl_id ` set (change_plans db)"
    and l: "case draft of None \<Rightarrow> db2 = db1 | Some d \<Rightarrow> link_plan_conn H t (ld_row d) task_id (Some plan_id) record db1 = Inr db2"
    and ev: "change_plans db' = change_plans db2"
  proof -
    have k: "clash pl_id no_unique (change_plans (update_plan P (\<lambda>p. p\<lparr>pl_status := ''revoked''\<rparr>) db)) r \<longleftrightarrow> pl_id r \<in> pl_id ` set (change_plans db)" for P r
    proof -
      have "clash pl_id no_unique rows r \<longleftrightarrow> pl_id r \<in> pl_id ` set rows" for rows by (auto simp: clash_def image_iff) metis+
      then show ?thesis by (simp add: statement_defs)
    qed
    have e: "change_plans (add_event e x) = change_plans x" for e x by (simp add: statement_defs)
    from assms(1) show ?thesis
      by (auto simp: record_plan_def k e new_def db1_def simp del: append_event_Inr dest!: append_event_Inr [THEN iffD1] intro!: that split: option.splits if_splits)
  qed
  have d1: "change_plans db1 = ?old @ [new]" "operation_drafts db1 = operation_drafts db" by (simp_all add: db1_def statement_defs)
  have "\<exists>P. change_plans db2 = upd P (\<lambda>x. x\<lparr>pl_status := ''revoked''\<rparr>) (?old @ [new]) \<and> \<not> P new"
  proof (cases draft)
    case None
    with l show ?thesis by (intro exI [of _ "\<lambda>_. False"]) (simp add: d1 upd_none)
  next
    case (Some d)
    with l have "link_plan_conn H t (ld_row d) task_id (Some plan_id) record db1 = Inr db2" by simp
    from link_plan_frame [OF this] obtain P where P: "change_plans db2 = upd P (\<lambda>x. x\<lparr>pl_status := ''revoked''\<rparr>) (?old @ [new])"
      and cur: "\<And>p. P p \<Longrightarrow> \<exists>cur. fetch_draft db1 (dr_id (ld_row d)) = Some cur \<and> dr_plan_id cur = Some (pl_id p)"
      unfolding d1(1) by blast
    have "\<not> P new"
    proof
      assume "P new"
      from cur [OF this] obtain cur where "fetch_draft db (dr_id (ld_row d)) = Some cur" "dr_plan_id cur = Some plan_id"
        by (auto simp: fetch_draft_def d1 new_def)
      with draft_plan_exists [OF assms(2)] fresh show False by blast
    qed
    with P show ?thesis by blast
  qed
  then obtain P where P: "change_plans db' = upd P (\<lambda>x. x\<lparr>pl_status := ''revoked''\<rparr>) ?old @ [new]" by (auto simp: ev)
  show "\<exists>p\<in>set (change_plans db'). pl_id p = plan_id \<and> pl_task_id p = task_id \<and> pl_owner_key p = owner \<and>
      pl_workspace p = dir \<and> pl_changes p = prepared \<and> pl_plan_hash p = H (changes_text prepared) \<and>
      pl_status p = (if automatic draft prepared then ''approved'' else ''pending'') \<and> pl_expires_at p = t + seconds 3600"
    by (rule bexI [of _ new]) (simp_all add: P, simp_all add: new_def)
  show "\<forall>p\<in>set (open_plans db' task_id). pl_id p = plan_id"
  proof
    fix p assume "p \<in> set (open_plans db' task_id)"
    then have p: "p \<in> set (change_plans db')" "pl_task_id p = task_id" "pl_status p \<in> {''pending'', ''approved''}" by (auto simp: open_plans_def)
    from p(1) have "p = new \<or> p \<in> set (upd P (\<lambda>x. x\<lparr>pl_status := ''revoked''\<rparr>) ?old)" unfolding P by simp
    moreover have False if m: "p \<in> set (upd P (\<lambda>x. x\<lparr>pl_status := ''revoked''\<rparr>) ?old)"
    proof -
      have "\<exists>r. p = r\<lparr>pl_status := ''revoked''\<rparr>"
      proof (cases "P p")
        case True
        from upd_hit [OF m this] show ?thesis by blast
      next
        case False
        show ?thesis
        proof (cases "p \<in> set ?old")
          case True
          from upd_hit [OF this] p(2,3) show ?thesis by blast
        next
          case False
          with set_upd_cases [OF m] show ?thesis by blast
        qed
      qed
      with p(3) show False by auto
    qed
    ultimately show "pl_id p = plan_id" by (auto simp: new_def)
  qed
  have "distinct (map pl_id (change_plans db))" using plan_keys [OF assms(2)] by simp
  with fresh show "distinct (map pl_id (change_plans db'))" by (simp add: P new_def)
qed

lemma proposeE:
  assumes "propose env su H plan_id task_id owner workspace changes baseline kind draft record w = (Inr plan, w')"
  obtains dir items folder xs w1 w2 w3 where "check_workspace env workspace owner = Inr dir" "changes = JList items"
    "items \<noteq> []" "length items \<le> 40" "\<And>d. draft = Some d \<Longrightarrow> draft_directory (dr_id (ld_row d)) = Inr folder"
    "w1 = w\<lparr>w_tick := Suc (w_tick w)\<rparr>" "prepare su H (draft \<noteq> None) folder baseline [] 0 items w1 = (Inr xs, w2)"
    "transact su (\<lambda>n db. try_bind (record_plan H (su_clock su n) plan_id task_id owner dir xs draft record db) (\<lambda>db1. Inr ((), db1))) w2 = (Inr (), w3)"
    "read_plan su plan_id owner w3 = (Inr plan, w')"
proof -
  from assms obtain dir items where c: "check_workspace env workspace owner = Inr dir" "changes = JList items" "items \<noteq> []" "length items \<le> 40"
    "kind \<in> set TASK_KINDS"
    by (auto simp: propose_def stop_def split: sum.splits json.splits if_splits)
  define w1 where "w1 = w\<lparr>w_tick := Suc (w_tick w)\<rparr>"
  define f where "f = (case draft of None \<Rightarrow> Inr (''nyanya-tasks/'' @ kind @ ''/'' @ compact_stamp (su_clock su (w_tick w)) @ ''-'' @ plan_id)
    | Some d \<Rightarrow> draft_directory (dr_id (ld_row d)))"
  have "length items \<le> 40" "\<not> 40 < length items" using c by simp_all
  with assms have k: "(case f of Inl e \<Rightarrow> stop e
     | Inr folder \<Rightarrow> chain (prepare su H (draft \<noteq> None) folder baseline [] 0 items) (\<lambda>prepared.
         chain (transact su (\<lambda>n db.
           try_bind (record_plan H (su_clock su n) plan_id task_id owner dir prepared draft record db) (\<lambda>db1. Inr ((), db1))))
           (\<lambda>_. read_plan su plan_id owner))) w1 = (Inr plan, w')"
    by (simp add: propose_def c chain_def [of "read_clock su"] read_clock_def w1_def f_def)
  then obtain folder where f: "f = Inr folder" by (cases f) (auto simp: stop_def)
  from k obtain xs w2 w3 where "prepare su H (draft \<noteq> None) folder baseline [] 0 items w1 = (Inr xs, w2)"
    "transact su (\<lambda>n db. try_bind (record_plan H (su_clock su n) plan_id task_id owner dir xs draft record db) (\<lambda>db1. Inr ((), db1))) w2 = (Inr (), w3)"
    "read_plan su plan_id owner w3 = (Inr plan, w')"
    by (auto simp: f chain_Inr)
  moreover have "draft_directory (dr_id (ld_row d)) = Inr folder" if "draft = Some d" for d using f that by (simp add: f_def)
  ultimately show ?thesis using that c w1_def by blast
qed


section \<open>A proposal\<close>

definition sample_items :: "json list" where
  "sample_items = [JObj [(''path'', JStr ''b.txt''), (''action'', JStr ''create''), (''content'', JStr ''B''), (''reason'', JStr ''new'')]]"

lemma backslash: "char_of (92::nat) = CHR 0x5C"
  by code_simp

definition sample_fresh :: string where
  "sample_fresh = ''nyanya-tasks/work/19700101-000000-p9''"

definition sample_creation :: file_change where
  "sample_creation = \<lparr>fc_path = sample_fresh @ ''/b.txt'', fc_action = ''create'', fc_reason = ''new'', fc_content = ''B'',
     fc_before_hash = None, fc_before_content = [], fc_after_hash = Some (sample_hash ''B'')\<rparr>"

definition sample_recorded :: plan_row where
  "sample_recorded = \<lparr>pl_id = ''p9'', pl_task_id = ''t2'', pl_owner_key = ''u1'', pl_workspace = ''/w'', pl_revision = 1,
     pl_plan_hash = sample_hash (changes_text [sample_creation]), pl_changes = [sample_creation], pl_status = ''approved'',
     pl_expires_at = 5 + seconds 3600, pl_decided_by = [], pl_created_at = 5\<rparr>"

lemma sample_prepared:
  "prepare (calm 1000) sample_hash False sample_fresh [] [] 0 sample_items
     (sample_world\<lparr>w_tick := 1\<rparr>) = (Inr [sample_creation], sample_world\<lparr>w_tick := 3\<rparr>)"
proof -
  let ?obj = "[(''path'', JStr ''b.txt''), (''action'', JStr ''create''), (''content'', JStr ''B''), (''reason'', JStr ''new'')]"
  have b: "relative ''b.txt'' = Inr [''b.txt'']"
    by (simp add: relative_def posix_parts_def private_ascii backslash lower_def lower_char_def Let_def PRIVATE_PATH_PARTS_def)
  have h: "item_head False sample_fresh [] (JObj ?obj) = Inr (sample_fresh @ ''/b.txt'', ''create'', ''new'', ?obj)"
    by (simp add: item_head_def field_def relative_json_def b action_json_def text_field_def CHANGE_FIELDS_def change_name_def Let_def
      strip_def rstrip_def lstrip_def is_space_def)
  have p: "relative (sample_fresh @ ''/b.txt'') = Inr [''nyanya-tasks'', ''work'', ''19700101-000000-p9'', ''b.txt'']"
    by (simp add: relative_def sample_fresh_def posix_parts_def private_ascii backslash lower_def lower_char_def Let_def PRIVATE_PATH_PARTS_def)
  have r: "read_file (calm 1000) (sample_fresh @ ''/b.txt'') (sample_world\<lparr>w_tick := 1\<rparr>) = (Inr None, sample_world\<lparr>w_tick := 3\<rparr>)"
    by (simp add: read_file_def parent_fd_def p chain_def query_def syscall_def Let_def rescue_def give_def open_root_def open_dir_def
      sample_world_def empty_files_def del: One_nat_def)
  have c: "prepare_change sample_hash [] 0 (sample_fresh @ ''/b.txt'') ''create'' ''new'' ?obj None = Inr sample_creation"
    by (simp add: prepare_change_def sample_creation_def text_field_def MAX_BYTES_def digest_def Let_def)
  show ?thesis by (simp add: sample_items_def h r c chain_def give_def del: One_nat_def)
qed

lemma sample_propose:
  "\<exists>w'. propose sample_env (calm 1000) sample_hash ''p9'' ''t2'' ''u1'' ''/w'' (JList sample_items) [] ''work'' None None sample_world =
     (Inr sample_recorded, w')"
proof -
  have c: "check_workspace sample_env ''/w'' ''u1'' = Inr ''/w''" by code_simp
  have k: "''work'' \<in> set TASK_KINDS" by (simp add: TASK_KINDS_def)
  have f: "''nyanya-tasks/'' @ ''work'' @ ''/'' @ compact_stamp 5 @ ''-'' @ ''p9'' = sample_fresh" by code_simp
  have a: "automatic None [sample_creation]" by (simp add: automatic_def sample_creation_def)
  obtain db where db: "record_plan sample_hash 5 ''p9'' ''t2'' ''u1'' ''/w'' [sample_creation] None None (sample_at ''approved'' []) = Inr db"
    "change_plans db = [sample_own_plan\<lparr>pl_status := ''revoked''\<rparr>, sample_recorded]"
    by (simp add: record_plan_def fetch_task_def sample_at_tables sample_running_tables a insert_plan_def clash_def plan_fk_def keys_def
        append_event_def event_fk_def statement_defs sample_recorded_def)
  have i: "sample_items \<noteq> []" "length sample_items = 1" by (simp_all add: sample_items_def)
  have w: "sample_world\<lparr>w_tick := Suc (w_tick sample_world)\<rparr> = sample_world\<lparr>w_tick := 1\<rparr>" "w_db sample_world = sample_at ''approved'' []"
    by (simp_all add: sample_world_def)
  have g: "get_plan db ''p9'' ''u1'' = Inr sample_recorded" by (simp add: get_plan_def db(2)) (simp add: sample_recorded_def)
  show ?thesis
    by (rule exI, simp add: propose_def c k i read_clock_def chain_def w sample_prepared transact_def Let_def db g read_plan_def
        f [simplified] del: One_nat_def)
qed

lemma sample_at_inv: "ledger_inv (sample_at st [])"
  by (simp add: ledger_inv_def inv_at_def table_inv_def unique_on_def keys_def sample_at_def sample_running_def sample_own_plan_def sample_defs row_defs
      List.map_filter_def host_unique_def project_unique_def task_unique_def turn_unique_def
      conversation_unique_def not_secret_approval_keys not_secret_owner_key)


end
