(* ===== verification/Draft_Laws.thy ===== *)
theory Draft_Laws
  imports Proposal_Laws
begin

text \<open>
  Drafts: feedback is a delta within the approved scope, a new plan withdraws the one before it, a draft is closed only when nothing of
  it is running or uncertain, and opening copies exactly the approved files.
\<close>

section \<open>Feedback\<close>

definition change_in_scope :: "string \<Rightarrow> (string \<times> snap_item) list \<Rightarrow> draft_change \<Rightarrow> bool" where
  "change_in_scope folder original c \<longleftrightarrow> in_scope folder original (dg_path c) (dg_action c)"

definition draft_change_of :: "file_change \<Rightarrow> draft_change" where
  "draft_change_of x = \<lparr>dg_path = fc_path x, dg_action = fc_action x, dg_content = fc_content x, dg_reason = fc_reason x\<rparr>"

text \<open>The file that an item of an answer is about.\<close>

definition delta_name :: "string \<Rightarrow> json \<Rightarrow> string option" where
  "delta_name folder item =
     (case item of
        JObj obj \<Rightarrow>
          (case (map_of obj ''path'', map_of obj ''action'') of
             (Some path, Some (JStr action)) \<Rightarrow>
               (case relative_json path of
                  Inl _ \<Rightarrow> None
                | Inr name \<Rightarrow> Some (delta_target (folder @ ''/'') action name))
           | _ \<Rightarrow> None)
      | _ \<Rightarrow> None)"

lemma put_change_paths:
  "distinct (map dg_path cs) \<Longrightarrow> distinct (map dg_path (put_change c cs))"
  "x \<in> set (put_change c cs) \<Longrightarrow> x = c \<or> x \<in> set cs" "dg_path x \<noteq> dg_path c \<Longrightarrow> x \<in> set (put_change c cs) \<longleftrightarrow> x \<in> set cs"
proof -
  have m: "map dg_path (map (\<lambda>x. if dg_path x = dg_path c then c else x) cs) = map dg_path cs" by (simp cong: map_cong)
  show "distinct (map dg_path cs) \<Longrightarrow> distinct (map dg_path (put_change c cs))"
    by (simp add: put_change_def m del: map_map)
  show "x \<in> set (put_change c cs) \<Longrightarrow> x = c \<or> x \<in> set cs" "dg_path x \<noteq> dg_path c \<Longrightarrow> x \<in> set (put_change c cs) \<longleftrightarrow> x \<in> set cs"
    by (auto simp: put_change_def image_iff split: if_splits)
qed

lemma merge_textD:
  assumes "merge_text original obj name action cs = Inr cs'"
  shows "cs' = pop_change name cs \<or> (\<exists>c. dg_path c = name \<and> dg_action c = action \<and> cs' = put_change c cs)"
proof -
  from assms obtain content reason where
    "cs' = pop_change name cs \<or> cs' = put_change \<lparr>dg_path = name, dg_action = action, dg_content = content, dg_reason = reason\<rparr> cs"
    unfolding merge_text_def by (auto split: option.splits json.splits if_splits)
  then show ?thesis by (elim disjE) (auto intro!: exI [of _ "\<lparr>dg_path = name, dg_action = action, dg_content = content, dg_reason = reason\<rparr>"])
qed

lemma merge_oneD:
  assumes "merge_one (folder @ ''/'') original item (seen, cs) = Inr (seen', cs')"
  obtains name where "delta_name folder item = Some name" "seen' = name # seen" "name \<notin> set seen"
    "cs' = pop_change name cs \<or> (\<exists>c. dg_path c = name \<and> change_in_scope folder original c \<and> cs' = put_change c cs)"
proof -
  from assms obtain obj path name0 act action where i: "item = JObj obj" "map_of obj ''path'' = Some path" "relative_json path = Inr name0"
    "map_of obj ''action'' = Some act" "action_json (SafeOperationError ''Unsupported draft action'') act = Inr action"
    and m: "merge_place (folder @ ''/'') original obj action (delta_target (folder @ ''/'') action name0) (seen, cs) = Inr (seen', cs')"
    by (auto simp: merge_one_def field_def split: json.splits if_splits option.splits)
  define name where "name = delta_target (folder @ ''/'') action name0"
  from i(5) have a: "act = JStr action" "action \<in> {''create'', ''modify'', ''delete''}"
    by (auto simp: action_json_def split: json.splits if_splits)
  have d: "delta_name folder item = Some name" by (simp add: delta_name_def i a name_def)
  from m have r: "seen' = name # seen" "name \<notin> set seen"
    by (auto simp: merge_place_def name_def [symmetric] split: if_splits)
  have "cs' = pop_change name cs \<or> (\<exists>c. dg_path c = name \<and> change_in_scope folder original c \<and> cs' = put_change c cs)"
  proof (cases "map_of original name")
    case None
    with m r(2) have "starts_with (folder @ ''/'') name" "cs' = pop_change name cs \<or> merge_text original obj name ''create'' cs = Inr cs'"
      by (auto simp: merge_place_def name_def [symmetric] split: if_splits)
    with None show ?thesis by (auto simp: change_in_scope_def in_scope_def dest!: merge_textD)
  next
    case (Some x)
    with m r(2) have "action \<noteq> ''create''" "merge_text original obj name action cs = Inr cs'"
      by (auto simp: merge_place_def name_def [symmetric] split: if_splits)
    with Some a(2) show ?thesis by (auto simp: change_in_scope_def in_scope_def dest!: merge_textD)
  qed
  with d r that show ?thesis by blast
qed

lemma earlier_changes_props:
  "distinct (map dg_path (earlier_changes draft))"
  "c \<in> set (earlier_changes draft) \<Longrightarrow> \<exists>x\<in>set (ld_changes draft). c = draft_change_of x"
proof -
  let ?P = "\<lambda>cs. distinct (map dg_path cs) \<and> (\<forall>c\<in>set cs. \<exists>x\<in>set (ld_changes draft). c = draft_change_of x)"
  have "?P (earlier_changes draft)"
    unfolding earlier_changes_def
    by (rule fold_inv) (auto simp: draft_change_of_def put_change_paths(1) dest!: put_change_paths(2))
  then show "distinct (map dg_path (earlier_changes draft))"
    "c \<in> set (earlier_changes draft) \<Longrightarrow> \<exists>x\<in>set (ld_changes draft). c = draft_change_of x" by auto
qed

text \<open>C30. Feedback on a draft is a delta. Merging an answer into the draft's pending changes yields at most 40 changes of distinct
  files, every one of them of a copied file or a creation in the draft's own folder (when the pending changes were so); a pending change
  of a file that the answer does not name stays as it was, and no other file is added.\<close>

theorem feedback_is_a_delta:
  assumes "merge_draft draft (JList items) = Inr cs" "draft_directory (dr_id (ld_row draft)) = Inr folder"
    and "\<And>x. x \<in> set (ld_changes draft) \<Longrightarrow> in_scope folder (ld_original draft) (fc_path x) (fc_action x)"
  shows "distinct (map dg_path cs) \<and> length cs \<le> 40 \<and> list_all (change_in_scope folder (ld_original draft)) cs \<and>
    (\<forall>c. Some (dg_path c) \<notin> set (map (delta_name folder) items) \<longrightarrow> c \<in> set cs \<longleftrightarrow> c \<in> set (earlier_changes draft))"
proof -
  let ?orig = "ld_original draft" and ?names = "set (map (delta_name folder) items)"
  define P where "P s \<longleftrightarrow> distinct (map dg_path (snd s)) \<and> (\<forall>c\<in>set (snd s). change_in_scope folder ?orig c) \<and>
    (\<forall>c. Some (dg_path c) \<notin> ?names \<longrightarrow> c \<in> set (snd s) \<longleftrightarrow> c \<in> set (earlier_changes draft))" for s :: "string list \<times> draft_change list"
  from assms(1,2) obtain seen where f: "for_each (merge_one (folder @ ''/'') ?orig) items ([], earlier_changes draft) = Inr (seen, cs)"
    and l: "length cs \<le> 40"
    by (auto simp: merge_draft_def split: if_splits prod.splits)
  have "P (seen, cs)"
    using f
  proof (rule for_each_inv)
    show "P ([], earlier_changes draft)"
      using earlier_changes_props assms(3) by (fastforce simp: P_def change_in_scope_def draft_change_of_def)
  next
    fix item x y assume i: "item \<in> set items" and "P x" and m: "merge_one (folder @ ''/'') ?orig item x = Inr y"
    obtain s1 c1 s2 c2 where xy: "x = (s1, c1)" "y = (s2, c2)" by (cases x; cases y)
    from m show "P y" unfolding xy
    proof (rule merge_oneD)
      fix name
      assume n: "delta_name folder item = Some name"
        and c2: "c2 = pop_change name c1 \<or> (\<exists>c. dg_path c = name \<and> change_in_scope folder ?orig c \<and> c2 = put_change c c1)"
      from n i have nn: "Some name \<in> ?names" by force
      from c2 show "P (s2, c2)"
      proof
        assume "c2 = pop_change name c1"
        with \<open>P x\<close> nn show ?thesis by (auto simp: P_def xy pop_change_def distinct_map_filter)
      next
        assume "\<exists>c. dg_path c = name \<and> change_in_scope folder ?orig c \<and> c2 = put_change c c1"
        then obtain c where c: "dg_path c = name" "change_in_scope folder ?orig c" "c2 = put_change c c1" by blast
        have "x \<in> set c2 \<longleftrightarrow> x \<in> set c1" if "Some (dg_path x) \<notin> ?names" for x
        proof -
          have "dg_path x \<noteq> dg_path c" using that nn c(1) by metis
          with put_change_paths(3) c(3) show ?thesis by metis
        qed
        with \<open>P x\<close> c show ?thesis by (auto simp: P_def xy put_change_paths(1) dest!: put_change_paths(2))
      qed
    qed
  qed
  with l show ?thesis by (simp add: P_def list_all_iff)
qed

section \<open>Superseded plans\<close>

lemma decide_revoked:
  assumes "\<And>q. q \<in> set (change_plans db) \<Longrightarrow> pl_id q = i \<Longrightarrow> pl_status q = ''revoked''"
  shows "\<exists>e. decide_conn t i owner h b db = Inl e"
proof (cases "List.find (\<lambda>p. pl_id p = i \<and> pl_owner_key p = owner) (change_plans db)")
  case None
  then show ?thesis by (simp add: decide_conn_def try_bind_def split: sum.split)
next
  case (Some q)
  then have "pl_status q = ''revoked''" using assms by (auto dest: find_SomeD)
  with Some show ?thesis by (simp add: decide_conn_def try_bind_def split: sum.split)
qed

text \<open>C28. Once a feedback task's plan is linked to a draft, the plan that it replaces is withdrawn: nobody can decide it any more, and
  every further step of an apply of it is refused in that state. The draft then names the new plan, under a new revision.\<close>

theorem superseded_plan_is_withdrawn:
  assumes "link_plan_conn H t d k (Some new) r db = Inr db'" "ledger_inv db" "fetch_draft db (dr_id d) = Some cur" "dr_plan_id cur = Some old"
    "old \<noteq> []"
  shows "(\<exists>p. fetch_plan db' old = Some p \<and> pl_status p = ''revoked'') \<and>
    (\<forall>t' owner h b. \<exists>e. decide_conn t' old owner h b db' = Inl e) \<and>
    (\<forall>t' stopping plan owner rc st. pl_id plan = old \<and> st \<noteq> ''revoked'' \<longrightarrow> (\<exists>e. require_eligible t' stopping plan owner rc st db' = Inl e)) \<and>
    (\<exists>now. fetch_draft db' (dr_id d) = Some now \<and> dr_plan_id now = Some new \<and> dr_revision now = dr_revision d + 1)"
proof -
  from assms(1) obtain db1 p where p: "fetch_plan db old = Some p" "withdraw_plan t p k db = Inr db1" "dr_revision cur = dr_revision d"
    and db': "db' = update_draft (\<lambda>x. dr_id x = dr_id d) (\<lambda>x. x\<lparr>dr_plan_id := Some new, dr_revision := dr_revision x + 1, dr_updated_at := t\<rparr>) db1"
    by (rule link_plan_connE) (use assms(3-5) in auto)
  note w = withdraw_plan_frame [OF p(2)]
  have "fetch_plan db' old = Some (p\<lparr>pl_status := ''revoked''\<rparr>)"
    using p(1) fetch_planD [OF p(1)] by (simp add: fetch_plan_def db' statement_defs w find_key_upd)
  moreover have r: "pl_status q = ''revoked''" if "q \<in> set (change_plans db')" "pl_id q = old" for q
  proof -
    have "q \<in> set (upd (\<lambda>x. pl_id x = old) (\<lambda>x. x\<lparr>pl_status := ''revoked''\<rparr>) (change_plans db))"
      using that(1) fetch_planD [OF p(1)] by (simp add: db' statement_defs w)
    from upd_hit [OF this] that(2) show ?thesis by auto
  qed
  then have "\<exists>e. decide_conn t' old owner h b db' = Inl e" for t' owner h b by (rule decide_revoked)
  moreover have "\<exists>e. require_eligible t' stopping plan owner rc st db' = Inl e" if "pl_id plan = old" "st \<noteq> ''revoked''"
    for t' stopping plan owner rc st
  proof -
    have "map_option pl_status (fetch_plan db' (pl_id plan)) = Some ''revoked''" using calculation(1) that(1) by simp
    with that(2) show ?thesis
      by (auto simp: require_eligible_def try_bind_def split: option.splits sum.splits)
  qed
  moreover have "fetch_draft db' (dr_id d) = Some (cur\<lparr>dr_plan_id := Some new, dr_revision := dr_revision cur + 1, dr_updated_at := t\<rparr>)"
    using assms(3) by (auto simp: fetch_draft_def db' statement_defs w find_key_upd dest: find_SomeD)
  ultimately show ?thesis using p(3) by auto
qed

section \<open>Closing\<close>

lemma close_waiting_frame:
  assumes "close_waiting t k db = Inr db'"
  shows "change_plans db' = change_plans db" "operation_drafts db' = operation_drafts db"
    "agent_tasks db' = (if tk_status k = ''awaiting_approval'' then upd (\<lambda>x. tk_id x = tk_id k \<and> tk_status x = ''awaiting_approval'')
      (\<lambda>x. x\<lparr>tk_status := ''cancelled'', tk_completed_at := Some t, tk_updated_at := t\<rparr>) (agent_tasks db) else agent_tasks db)"
  using assms settle_review_frame by (auto simp: close_waiting_def statement_defs split: if_splits)

text \<open>After the loop every waiting task of the draft is cancelled, and no other task has changed.\<close>

lemma close_loop:
  assumes "for_each (close_waiting t) ks db = Inr db'"
  shows "change_plans db' = change_plans db" "operation_drafts db' = operation_drafts db"
    "y \<in> set (agent_tasks db') \<Longrightarrow> \<exists>z\<in>set (agent_tasks db). tk_id z = tk_id y \<and>
      (tk_status y = tk_status z \<or> tk_status z = ''awaiting_approval'' \<and> tk_status y = ''cancelled'' \<and> tk_id y \<in> tk_id ` set ks)"
    "map tk_id (agent_tasks db') = map tk_id (agent_tasks db)"
    "y \<in> set (agent_tasks db') \<Longrightarrow> k \<in> set ks \<Longrightarrow> tk_status k = ''awaiting_approval'' \<Longrightarrow> tk_id y = tk_id k \<Longrightarrow> tk_status y \<noteq> ''awaiting_approval''"
proof -
  define P where "P x \<longleftrightarrow> change_plans x = change_plans db \<and> operation_drafts x = operation_drafts db \<and>
    map tk_id (agent_tasks x) = map tk_id (agent_tasks db) \<and>
    (\<forall>y\<in>set (agent_tasks x). \<exists>z\<in>set (agent_tasks db). tk_id z = tk_id y \<and>
      (tk_status y = tk_status z \<or> tk_status z = ''awaiting_approval'' \<and> tk_status y = ''cancelled'' \<and> tk_id y \<in> tk_id ` set ks))" for x :: ledger
  have "P db'"
    using assms
  proof (rule for_each_inv)
    show "P db" by (auto simp: P_def)
  next
    fix k x y assume k: "k \<in> set ks" and P: "P x" and c: "close_waiting t k x = Inr y"
    note f = close_waiting_frame [OF c]
    have "\<exists>z\<in>set (agent_tasks db). tk_id z = tk_id a \<and> (tk_status a = tk_status z \<or>
        tk_status z = ''awaiting_approval'' \<and> tk_status a = ''cancelled'' \<and> tk_id a \<in> tk_id ` set ks)" if "a \<in> set (agent_tasks y)" for a
    proof (cases "a \<in> set (agent_tasks x)")
      case True
      with P show ?thesis by (auto simp: P_def)
    next
      case False
      with that obtain b where b: "b \<in> set (agent_tasks x)" "tk_id b = tk_id k" "tk_status b = ''awaiting_approval''"
        "tk_id a = tk_id b" "tk_status a = ''cancelled''" by (auto simp: f(3) set_upd split: if_splits)
      with P k show ?thesis by (fastforce simp: P_def)
    qed
    with P f show "P y" by (simp add: P_def)
  qed
  then show "change_plans db' = change_plans db" "operation_drafts db' = operation_drafts db"
    "y \<in> set (agent_tasks db') \<Longrightarrow> \<exists>z\<in>set (agent_tasks db). tk_id z = tk_id y \<and>
      (tk_status y = tk_status z \<or> tk_status z = ''awaiting_approval'' \<and> tk_status y = ''cancelled'' \<and> tk_id y \<in> tk_id ` set ks)"
    "map tk_id (agent_tasks db') = map tk_id (agent_tasks db)" by (auto simp: P_def)
  show "tk_status y \<noteq> ''awaiting_approval''" if "y \<in> set (agent_tasks db')" "k \<in> set ks" "tk_status k = ''awaiting_approval''" "tk_id y = tk_id k"
  proof -
    have "\<forall>y\<in>set (agent_tasks db'). tk_status k = ''awaiting_approval'' \<longrightarrow> tk_id y = tk_id k \<longrightarrow> tk_status y \<noteq> ''awaiting_approval''"
      by (rule for_each_establish [OF assms that(2), where Q = "\<lambda>k x. \<forall>y\<in>set (agent_tasks x). tk_status k = ''awaiting_approval'' \<longrightarrow> tk_id y = tk_id k \<longrightarrow> tk_status y \<noteq> ''awaiting_approval''"])
        (auto dest!: close_waiting_frame(3) simp: set_upd split: if_splits)
    with that show ?thesis by blast
  qed
qed

lemma close_draft_connE:
  assumes "close_draft_conn H t d owner key db = Inr db'" "fetch_draft db (dr_id d) = Some live" "dr_status live \<notin> {''closed'', ''applied''}"
  obtains db1 db2 where "\<And>k. k \<in> set (draft_tasks db d) \<Longrightarrow> tk_status k \<notin> {''queued'', ''running'', ''cancelling''} \<and> \<not> unresolved_effects db (tk_id k) True"
    "if truthy_text (dr_plan_id live) then
       \<exists>p. fetch_plan db (the (dr_plan_id live)) = Some p \<and> pl_status p \<in> {''pending'', ''revoked'', ''expired''} \<and>
         db1 = (if pl_status p = ''pending'' then update_plan (\<lambda>x. pl_id x = pl_id p) (\<lambda>x. x\<lparr>pl_status := ''revoked''\<rparr>) db else db)
     else db1 = db"
    "for_each (close_waiting t) (draft_tasks db d) db1 = Inr db2"
    "db' = update_draft (\<lambda>x. dr_id x = dr_id d) (\<lambda>x. x\<lparr>dr_status := ''closed'', dr_updated_at := t, dr_revision := dr_revision x + 1\<rparr>) db2"
proof -
  from assms have s: "\<not> list_ex (\<lambda>k. tk_status k \<in> {''queued'', ''running'', ''cancelling''} \<or> unresolved_effects db (tk_id k) True) (draft_tasks db d)"
    by (auto simp: close_draft_conn_def Let_def split: if_splits)
  have c: "dr_status live \<in> {''closed'', ''applied''} \<longleftrightarrow> False" using assms(3) by blast
  from assms(1) obtain db1 db2 where p: "close_plan live db = Inr db1" and f: "for_each (close_waiting t) (draft_tasks db d) db1 = Inr db2"
    and e: "db' = update_draft (\<lambda>x. dr_id x = dr_id d) (\<lambda>x. x\<lparr>dr_status := ''closed'', dr_updated_at := t, dr_revision := dr_revision x + 1\<rparr>) db2"
    unfolding close_draft_conn_def assms(2) option.case Let_def if_not_P [OF s] c if_False by (auto split: if_splits)
  have "if truthy_text (dr_plan_id live) then
       \<exists>p. fetch_plan db (the (dr_plan_id live)) = Some p \<and> pl_status p \<in> {''pending'', ''revoked'', ''expired''} \<and>
         db1 = (if pl_status p = ''pending'' then update_plan (\<lambda>x. pl_id x = pl_id p) (\<lambda>x. x\<lparr>pl_status := ''revoked''\<rparr>) db else db)
     else db1 = db"
    using p by (cases "fetch_plan db (the (dr_plan_id live))") (auto simp: close_plan_def split: if_split_asm)
  with s f e show ?thesis by (intro that) (auto simp: list_ex_iff)
qed

text \<open>C29. Closing a draft that is still open leaves nothing of it behind: it is refused while a task of the draft is queued, running or
  cancelling or has unresolved effects; when it succeeds, the draft is closed, its plan can no longer be decided or applied, the tasks
  that waited for a review are cancelled and every other task has its old status.\<close>

theorem closed_draft_is_quiet:
  assumes "close_draft_conn H t d owner key db = Inr db'" "fetch_draft db (dr_id d) = Some live" "dr_status live \<notin> {''closed'', ''applied''}"
    and "ledger_inv db"
  shows "(\<exists>c. fetch_draft db' (dr_id d) = Some c \<and> dr_status c = ''closed'') \<and>
    (\<forall>i. dr_plan_id live = Some i \<and> i \<noteq> [] \<longrightarrow> (\<exists>p. fetch_plan db' i = Some p \<and> pl_status p \<in> {''revoked'', ''expired''})) \<and>
    (\<forall>k\<in>set (draft_tasks db d). tk_status k \<notin> {''queued'', ''running'', ''cancelling''} \<and> \<not> unresolved_effects db (tk_id k) True) \<and>
    (\<forall>k\<in>set (agent_tasks db). \<exists>k'. fetch_task db' (tk_id k) = Some k' \<and>
      tk_status k' = (if k \<in> set (draft_tasks db d) \<and> tk_status k = ''awaiting_approval'' then ''cancelled'' else tk_status k))"
  using assms(1-3)
proof (rule close_draft_connE)
  fix db1 db2
  assume q: "\<And>k. k \<in> set (draft_tasks db d) \<Longrightarrow> tk_status k \<notin> {''queued'', ''running'', ''cancelling''} \<and> \<not> unresolved_effects db (tk_id k) True"
    and p: "if truthy_text (dr_plan_id live) then
       \<exists>p. fetch_plan db (the (dr_plan_id live)) = Some p \<and> pl_status p \<in> {''pending'', ''revoked'', ''expired''} \<and>
         db1 = (if pl_status p = ''pending'' then update_plan (\<lambda>x. pl_id x = pl_id p) (\<lambda>x. x\<lparr>pl_status := ''revoked''\<rparr>) db else db)
     else db1 = db"
    and f: "for_each (close_waiting t) (draft_tasks db d) db1 = Inr db2"
    and e: "db' = update_draft (\<lambda>x. dr_id x = dr_id d) (\<lambda>x. x\<lparr>dr_status := ''closed'', dr_updated_at := t, dr_revision := dr_revision x + 1\<rparr>) db2"
  note loop = close_loop [OF f]
  have d1: "operation_drafts db1 = operation_drafts db" "agent_tasks db1 = agent_tasks db"
    using p by (auto simp: statement_defs split: if_splits)
  have d': "operation_drafts db' = upd (\<lambda>x. dr_id x = dr_id d) (\<lambda>x. x\<lparr>dr_status := ''closed'', dr_updated_at := t, dr_revision := dr_revision x + 1\<rparr>)
      (operation_drafts db)" "change_plans db' = change_plans db1" "agent_tasks db' = agent_tasks db2"
    by (simp_all add: e statement_defs loop(1,2) d1)
  have "\<exists>c. fetch_draft db' (dr_id d) = Some c \<and> dr_status c = ''closed''"
    using assms(2) by (auto simp: fetch_draft_def d' find_key_upd dest: find_SomeD)
  moreover have "\<exists>p. fetch_plan db' i = Some p \<and> pl_status p \<in> {''revoked'', ''expired''}" if i: "dr_plan_id live = Some i" "i \<noteq> []" for i
  proof -
    from p i obtain p where p: "fetch_plan db i = Some p" "pl_status p \<in> {''pending'', ''revoked'', ''expired''}"
      "db1 = (if pl_status p = ''pending'' then update_plan (\<lambda>x. pl_id x = pl_id p) (\<lambda>x. x\<lparr>pl_status := ''revoked''\<rparr>) db else db)" by auto
    then show ?thesis using fetch_planD [OF p(1)] by (auto simp: fetch_plan_def d' statement_defs find_key_upd)
  qed
  moreover have "\<exists>k'. fetch_task db' (tk_id k) = Some k' \<and>
      tk_status k' = (if k \<in> set (draft_tasks db d) \<and> tk_status k = ''awaiting_approval'' then ''cancelled'' else tk_status k)"
    if k: "k \<in> set (agent_tasks db)" for k
  proof -
    have "tk_id k \<in> set (map tk_id (agent_tasks db'))" using k loop(4) by (simp add: d' d1)
    then obtain k' where k': "fetch_task db' (tk_id k) = Some k'" unfolding fetch_task_def
      by (cases "List.find (\<lambda>r. tk_id r = tk_id k) (agent_tasks db')") (auto simp: find_None_iff)
    then have m: "k' \<in> set (agent_tasks db2)" "tk_id k' = tk_id k" by (auto simp: fetch_task_def d' dest: find_SomeD)
    have u: "z = k" if "z \<in> set (agent_tasks db)" "tk_id z = tk_id k" for z
    proof -
      have "distinct (map tk_id (agent_tasks db))" using assms(4) by (rule ledger_inv_rows)
      from distinct_map_eq [OF this that(1) k that(2)] show ?thesis .
    qed
    from loop(3) [OF m(1)] u m(2) have s: "tk_status k' = tk_status k \<or> tk_status k = ''awaiting_approval'' \<and> tk_status k' = ''cancelled'' \<and>
        tk_id k \<in> tk_id ` set (draft_tasks db d)" by (auto simp: d1)
    have i: "tk_id k \<in> tk_id ` set (draft_tasks db d) \<longleftrightarrow> k \<in> set (draft_tasks db d)"
      using u by (auto simp: draft_tasks_def)
    show ?thesis using k' s loop(5) [OF m(1), of k] m(2) by (auto simp: i)
  qed
  ultimately show ?thesis using q by blast
qed

section \<open>Samples\<close>

definition sample_draft :: draft_row where
  "sample_draft = \<lparr>dr_id = ''draft_1'', dr_owner_key = ''u1'', dr_workspace = ''/w'', dr_source_task_id = ''t2'', dr_session_id = None,
     dr_generation = None, dr_paths = [''a.txt''], dr_scope_hash = ''s'', dr_snapshot = [(''a.txt'', JObj [(''content'', JStr ''A''),
     (''sha256'', JStr ''h'')])], dr_status = ''ready'', dr_plan_id = Some ''p3'', dr_open_task_id = None, dr_revision = 2,
     dr_created_at = 0, dr_updated_at = 0, dr_expires_at = seconds 3600\<rparr>"

lemma sample_draft_sel [simp]:
  "dr_id sample_draft = ''draft_1''" "dr_owner_key sample_draft = ''u1''" "dr_workspace sample_draft = ''/w''"
  "dr_source_task_id sample_draft = ''t2''" "dr_session_id sample_draft = None" "dr_status sample_draft = ''ready''"
  "dr_plan_id sample_draft = Some ''p3''" "dr_revision sample_draft = 2"
  by (simp_all add: sample_draft_def)

definition sample_loaded :: loaded_draft where
  "sample_loaded = \<lparr>ld_row = sample_draft, ld_original = [(''a.txt'', \<lparr>si_content = ''A'', si_sha256 = ''h''\<rparr>)], ld_changes = []\<rparr>"

definition sample_delta :: "json list" where
  "sample_delta = [JObj [(''path'', JStr ''a.txt''), (''action'', JStr ''modify''), (''content'', JStr ''Z''), (''reason'', JStr ''fix'')]]"

lemma feedback_is_a_delta_witness:
  "merge_draft sample_loaded (JList sample_delta) =
     Inr [\<lparr>dg_path = ''a.txt'', dg_action = ''modify'', dg_content = ''Z'', dg_reason = ''fix''\<rparr>] \<and>
   list_all (change_in_scope ''nyanya-tasks/drafts/draft_1'' (ld_original sample_loaded))
     [\<lparr>dg_path = ''a.txt'', dg_action = ''modify'', dg_content = ''Z'', dg_reason = ''fix''\<rparr>]"
proof -
  have d: "draft_directory (dr_id (ld_row sample_loaded)) = Inr ''nyanya-tasks/drafts/draft_1''" by code_simp
  have m: "merge_draft sample_loaded (JList sample_delta) =
     Inr [\<lparr>dg_path = ''a.txt'', dg_action = ''modify'', dg_content = ''Z'', dg_reason = ''fix''\<rparr>]"
    by (simp add: merge_draft_def d) (simp add: sample_delta_def merge_one_def CHANGE_FIELDS_def field_def relative_json_def sample_relative
      action_json_def delta_target_def merge_place_def sample_loaded_def earlier_changes_def merge_text_def text_field_def strip_def rstrip_def
      lstrip_def is_space_def put_change_def)
  show ?thesis using feedback_is_a_delta [OF m d] m by (simp add: sample_loaded_def)
qed

definition sample_drafted :: ledger where
  "sample_drafted = (sample_at ''pending'' [])\<lparr>change_plans := [sample_own_plan\<lparr>pl_status := ''pending''\<rparr>, sample_own_plan\<lparr>pl_id := ''p9''\<rparr>],
     operation_drafts := [sample_draft]\<rparr>"

lemma sample_drafted_inv: "ledger_inv sample_drafted"
  by (simp add: ledger_inv_def inv_at_def table_inv_def unique_on_def keys_def sample_drafted_def sample_draft_def sample_at_def
      sample_running_def sample_own_plan_def sample_defs row_defs List.map_filter_def host_unique_def project_unique_def task_unique_def
      turn_unique_def conversation_unique_def not_secret_approval_keys not_secret_owner_key)

lemma superseded_plan_is_withdrawn_witness:
  "\<exists>db' p. link_plan_conn sample_hash 5 sample_draft ''t2'' (Some ''p9'') (Some sample_claim_record) sample_drafted = Inr db' \<and>
     fetch_plan db' ''p3'' = Some p \<and> pl_status p = ''revoked''"
proof -
  have o: "require_execution_ownership 5 sample_drafted (Some sample_claim_record) ''u1'' = Inr sample_operation"
    by (simp add: require_execution_ownership_def owned_by_def sample_drafted_def sample_at_def sample_running_def sample_claim_record_def
      sample_defs seconds_def)
  have l: "spec_restored sample_spec = Inr (spec_of sample_spec)" by code_simp
  have f: "fetch_draft sample_drafted ''draft_1'' = Some sample_draft" by (simp add: fetch_draft_def sample_drafted_def sample_draft_def)
  have b: "os_workspace (spec_of sample_spec) = JStr ''/w''" "os_kind (spec_of sample_spec) = JStr ''request''"
    "belongs_to_draft (spec_of sample_spec) sample_draft ''t2''" "cr_task_id sample_claim_record = ''t2''"
    by (simp_all add: spec_of_def field_or_def sample_spec_def belongs_to_draft_def sample_claim_record_def)
  have p: "fetch_plan sample_drafted ''p3'' = Some (sample_own_plan\<lparr>pl_status := ''pending''\<rparr>)"
    by (simp add: fetch_plan_def sample_drafted_def)
  have wd: "\<exists>x. withdraw_plan 5 (sample_own_plan\<lparr>pl_status := ''pending''\<rparr>) ''t2'' sample_drafted = Inr x"
    by (simp add: withdraw_plan_def Let_def)
  then obtain x where x: "withdraw_plan 5 (sample_own_plan\<lparr>pl_status := ''pending''\<rparr>) ''t2'' sample_drafted = Inr x" ..
  have "''p9'' \<in> pl_id ` set (change_plans x)"
    unfolding withdraw_plan_frame [OF x] by (simp add: sample_drafted_def)
  then obtain db' where db': "link_plan_conn sample_hash 5 sample_draft ''t2'' (Some ''p9'') (Some sample_claim_record) sample_drafted = Inr db'"
    by (simp add: link_plan_conn_def o l b f draft_scope_def p x keys_def)
  from superseded_plan_is_withdrawn [OF this sample_drafted_inv] f db' show ?thesis by fastforce
qed

definition sample_waiting :: ledger where
  "sample_waiting = sample_operations\<lparr>change_plans := [sample_plan\<lparr>pl_status := ''pending''\<rparr>],
     operation_drafts := [sample_draft\<lparr>dr_source_task_id := ''t3''\<rparr>]\<rparr>"

lemma sample_waiting_inv: "ledger_inv sample_waiting"
  by (simp add: ledger_inv_def inv_at_def table_inv_def unique_on_def keys_def sample_waiting_def sample_draft_def
      sample_defs row_defs List.map_filter_def host_unique_def project_unique_def task_unique_def
      turn_unique_def conversation_unique_def not_secret_approval_keys not_secret_owner_key)

lemma closed_draft_is_quiet_witness:
  "\<exists>db' k. close_draft_conn sample_hash 5 (sample_draft\<lparr>dr_source_task_id := ''t3''\<rparr>) ''u1'' None sample_waiting = Inr db' \<and>
     fetch_task db' ''t3'' = Some k \<and> tk_status k = ''cancelled''"
proof -
  let ?d = "sample_draft\<lparr>dr_source_task_id := ''t3''\<rparr>"
  have f: "fetch_draft sample_waiting ''draft_1'' = Some ?d" by (simp add: fetch_draft_def sample_waiting_def)
  have t: "draft_tasks sample_waiting ?d = [sample_task3]"
    by (simp add: draft_tasks_def sample_waiting_def sample_defs json_is_def)
  have u: "\<not> unresolved_effects sample_waiting ''t3'' True"
    by (simp add: unresolved_effects_def resolution_owner_def half_applied_def sample_waiting_def sample_defs open_attempt_def Let_def json_is_def)
  have k: "tk_id sample_task3 = ''t3''" "tk_status sample_task3 = ''awaiting_approval''" "sample_task3 \<in> set (agent_tasks sample_waiting)"
    by (simp_all add: sample_defs sample_waiting_def)
  have p: "fetch_plan sample_waiting ''p3'' = Some (sample_plan\<lparr>pl_status := ''pending''\<rparr>)"
    by (simp add: fetch_plan_def sample_waiting_def) (simp add: sample_plan_def)
  obtain x where x: "close_waiting 5 sample_task3 (update_plan (\<lambda>p. pl_id p = ''p3'') (\<lambda>p. p\<lparr>pl_status := ''revoked''\<rparr>) sample_waiting) = Inr x"
    by (simp add: close_waiting_def settle_review_def Let_def statement_defs sample_waiting_def sample_defs)
  have i: "pl_id (sample_plan\<lparr>pl_status := ''pending''\<rparr>) = ''p3''" by (simp add: sample_plan_def)
  obtain db' where db': "close_draft_conn sample_hash 5 ?d ''u1'' None sample_waiting = Inr db'"
    by (simp add: close_draft_conn_def f t k u draft_scope_def close_plan_def p i x)
  from closed_draft_is_quiet [OF db' _ _ sample_waiting_inv] f t k db' show ?thesis by fastforce
qed

end
