(* ===== verification/System_Steps.thy ===== *)
theory System_Steps
  imports Ledger_Leases Ledger_Approvals Ledger_Registry Legacy_Mirror Upload_Approvals Draft_Laws
begin

text \<open>
  The program as a whole. A step is one call of any operation that writes the ledger, by any process; the calls that are not
  one transaction (applying, proposing, observing and resolving a plan, opening and closing a draft) interleave with
  any number of steps of the other processes. What every component promises then holds for everything together.
\<close>

inductive system_step :: "ledger \<Rightarrow> ledger \<Rightarrow> bool" where
  register_host: "register_host t i nm ro pf ar ts st cap md db = Inr (h, db') \<Longrightarrow> system_step db db'"
| upsert_profile: "upsert_agent_profile t i nm ad mo wr en cap pol db = Inr (p, db') \<Longrightarrow> system_step db db'"
| create_project: "create_project t i nm ow wr st de md db = Inr (j, db') \<Longrightarrow> system_step db db'"
| create_codex: "create_codex_session t i pj k nm ex st wr mo md db = Inr (s, db') \<Longrightarrow> system_step db db'"
| tasks: "task_step db db' \<Longrightarrow> system_step db db'"
| approvals: "approval_step db db' \<Longrightarrow> system_step db db'"
| uploads: "upload_step db db' \<Longrightarrow> system_step db db'"
| leases: "lease_step db db' \<Longrightarrow> system_step db db'"
| artifact: "add_artifact_row t i pa ti ei ki sh si mt md db = Inr (a, db') \<Longrightarrow> system_step db db'"
| mirror: "system_step db (snd (reconcile_legacy_requests H t n db))"
| conversations: "conversation_step db db' \<Longrightarrow> system_step db db'"
| register_worker: "register_worker t w db = Inr db' \<Longrightarrow> system_step db db'"
| worker_heartbeat: "system_step db (heartbeat t w c db)"
| submit: "submit env H t a db = Inr (r, db') \<Longrightarrow> system_step db db'"
| approve: "approve_and_submit_apply env H t p ow h g i db = Inr (q, db') \<Longrightarrow> system_step db db'"
| start_failure: "record_start_failure t x k ow e db = Inr db' \<Longrightarrow> system_step db db'"
| hold_legacy: "hold_legacy_for_quiesced_upgrade t wr re db = Inr (n, db') \<Longrightarrow> system_step db db'"
| recover: "recover t db = Inr (n, db') \<Longrightarrow> system_step db db'"
| claim: "claim t g n x db = Inr (r, db') \<Longrightarrow> system_step db db'"
| assess: "assessment t k v db = Inr (p, db') \<Longrightarrow> system_step db db'"
| dismiss: "dismiss t i ow st up db = Inr (s, db') \<Longrightarrow> system_step db db'"
| cancel: "cancel t i ow ex st up db = Inr (s, db') \<Longrightarrow> system_step db db'"
| resume: "system_step db (snd (resume env t i ow g db))"
| deliver: "claim_delivery t k ow x n db = (b, db') \<Longrightarrow> system_step db db'"
| queue_deliver: "queue_claim_delivery t k ow x db = (b, db') \<Longrightarrow> system_step db db'"
| settle: "system_step db (settle_delivery t x d e db)"
| record_sent: "system_step db (record_delivery t x d e db)"
| acknowledge: "acknowledge_delivery t k ow db = Inr (s, db') \<Longrightarrow> system_step db db'"
| work_claim: "work_claim t i w ow n x db = Inr (r, db') \<Longrightarrow> system_step db db'"
| renew: "renew t r n db = (b, db') \<Longrightarrow> system_step db db'"
| finish: "finish env sc t ai cr sm oc (db, mem) = Inr (db', mem') \<Longrightarrow> system_step db db'"
| decide: "decide_conn t p ow h rv db = Inr db' \<Longrightarrow> system_step db db'"
| settle_expired: "settle_expired t db = Inr (n, db') \<Longrightarrow> system_step db db'"
| create_draft: "create_draft env H t i cr ps db = Inr (d, db') \<Longrightarrow> system_step db db'"
| maintain: "maintain_drafts t db = Inr db' \<Longrightarrow> system_step db db'"
| propose: "(\<And>n d. system_step\<^sup>*\<^sup>* d (su_ledger su n d)) \<Longrightarrow>
    system_step (w_db w) (w_db (snd (propose env su H p k ow ws ch bl kd dr rc w)))"
| apply_plan: "(\<And>n d. system_step\<^sup>*\<^sup>* d (su_ledger su n d)) \<Longrightarrow>
    system_step (w_db w) (w_db (snd (apply_plan env su H p ow rc w)))"
| reconcile: "(\<And>n d. system_step\<^sup>*\<^sup>* d (su_ledger su n d)) \<Longrightarrow>
    system_step (w_db w) (w_db (snd (reconcile env su H p ow w)))"
| resolve: "(\<And>n d. system_step\<^sup>*\<^sup>* d (su_ledger su n d)) \<Longrightarrow>
    system_step (w_db w) (w_db (snd (resolve env su H p ow oh w)))"
| open_draft: "(\<And>n d. system_step\<^sup>*\<^sup>* d (su_ledger su n d)) \<Longrightarrow>
    system_step (w_db w) (w_db (snd (open_and_submit env su H sen i sh ow g ck nt ns w)))"
| close_draft: "(\<And>n d. system_step\<^sup>*\<^sup>* d (su_ledger su n d)) \<Longrightarrow>
    system_step (w_db w) (w_db (snd (close_draft env su H i ow ck w)))"

section \<open>Runs\<close>

text \<open>A run keeps the ledger sound when what happens around it does.\<close>

definition fine :: "ledger \<Rightarrow> world \<Rightarrow> bool" where
  "fine db0 w \<longleftrightarrow> sound db0 (w_db w)"

lemma fine_syscall: "keeps (fine db0) (syscall su f)" "keeps (fine db0) (query su q)" "keeps (fine db0) (cancelled su)"
  by (auto simp: keeps_def fine_def syscall_def query_def cancelled_def Let_def split: option.splits sum.splits)

lemma fine_mutate: "keeps (fine db0) (mutate su g m f)"
  by (auto simp: keeps_def mutate_def chain_def syscall_def fine_def Let_def split: option.splits sum.splits prod.splits)

lemmas flow = keeps_give keeps_chain keeps_rescue keeps_cleaned keeps_if keeps_case fine_syscall fine_mutate

lemma fine_begin: "(\<And>n d. sound d (su_ledger su n d)) \<Longrightarrow> fine db0 w \<Longrightarrow> sound db0 (su_ledger su n (w_db w))"
  unfolding fine_def by (blast intro: sound_trans)

lemma fine_guarded:
  assumes "\<And>n d. sound d (su_ledger su n d)" "\<And>n. keeps (fine db0) (body n)"
  shows "keeps (fine db0) (guarded su el body)"
  unfolding keeps_def
proof (intro allI impI)
  fix w assume w: "fine db0 w"
  let ?n = "w_tick w" and ?w = "w\<lparr>w_tick := Suc (w_tick w), w_db := su_ledger su (w_tick w) (w_db w)\<rparr>"
  have "fine db0 ?w" using fine_begin [OF assms(1) w] by (simp add: fine_def)
  moreover from this have "fine db0 (snd (body ?n ?w))" by (rule keepsD [OF assms(2)])
  ultimately show "fine db0 (snd (guarded su el body w))" by (simp add: guarded_def Let_def split: sum.split)
qed

lemma fine_transact:
  assumes "\<And>n d. sound d (su_ledger su n d)" "\<And>n d x d'. sound db0 d \<Longrightarrow> f n d = Inr (x, d') \<Longrightarrow> sound db0 d'"
  shows "keeps (fine db0) (transact su f)"
  unfolding keeps_def
proof (intro allI impI)
  fix w assume w: "fine db0 w"
  have s: "sound db0 (su_ledger su (w_tick w) (w_db w))" by (rule fine_begin [OF assms(1) w])
  then show "fine db0 (snd (transact su f w))"
    using assms(2) [OF s] by (auto simp: transact_def Let_def fine_def split: sum.split prod.split)
qed

lemma fine_read_plan: "(\<And>n d. sound d (su_ledger su n d)) \<Longrightarrow> keeps (fine db0) (read_plan su p ow)"
  unfolding read_plan_def by (rule fine_transact) auto

lemma fine_locked: "keeps (fine db0) m \<Longrightarrow> keeps (fine db0) (locked su m)"
  by (simp add: locked_def keeps_give)

lemma fine_enter:
  assumes "\<And>n d. sound d (su_ledger su n d)"
  shows "keeps (fine db0) (enter su mk d ps)"
proof (induction ps arbitrary: d)
  case (Cons p ps)
  have "keeps (fine db0) (case mk of None \<Rightarrow> give () | Some el \<Rightarrow>
      rescue (guarded su el (\<lambda>n. mutate su n (Mkdir d p) (\<lambda>fs. try_bind (make_dir d p fs) (\<lambda>fs'. Inr ((), fs')))))
        (\<lambda>e. case e of FileExistsError _ \<Rightarrow> give () | _ \<Rightarrow> stop e))"
    by (cases mk) (auto intro!: flow fine_guarded [OF assms] split: err.split)
  then show ?case by (auto intro!: flow Cons.IH)
qed (simp add: keeps_give)

lemma fine_parent: "(\<And>n d. sound d (su_ledger su n d)) \<Longrightarrow> keeps (fine db0) (parent_fd su mk p)"
  by (auto simp: parent_fd_def intro!: flow fine_enter split: sum.split)

lemma fine_read: "(\<And>n d. sound d (su_ledger su n d)) \<Longrightarrow> keeps (fine db0) (read_file su p)"
  unfolding read_file_def by (auto intro!: flow fine_parent split: err.split)


lemma fine_write:
  "(\<And>n d. sound d (su_ledger su n d)) \<Longrightarrow> keeps (fine db0) (write_content su el i off data)"
proof (induction su el i off data rule: write_content.induct)
  case (1 su el i off data)
  have w: "keeps (fine db0) (write_some su g i off data)" for g
    unfolding keeps_def write_some_def Let_def
    by (auto intro: keepsD [OF fine_syscall(2)] keepsD [OF fine_mutate])
  show ?case
    by (subst write_content.simps) (auto intro!: flow fine_guarded "1.prems" "1.IH" w simp: fsync_def)
qed

lemma fine_item:
  assumes "\<And>n d. sound d (su_ledger su n d)"
  shows "keeps (fine db0) (apply_item su el H p i x)"
proof -
  note here = flow fine_guarded [OF assms] fine_write [OF assms]
  have 1: "keeps (fine db0) (delete_file su el H d n h)" for d n h
    unfolding delete_file_def by (intro here)
  have 2: "keeps (fine db0) (write_new su el d n c)" for d n c
    unfolding write_new_def by (intro here)
  have 3: "keeps (fine db0) (swap_in su el H d tm n h c j)" for d tm n h c j
    unfolding swap_in_def by (intro here)
  have 4: "keeps (fine db0) (drop_temp su el d tm)" for d tm
    unfolding drop_temp_def by (intro here) (auto intro: here split: err.split)
  have 5: "keeps (fine db0) (modify_file su el H d tm n h c)" for d tm n h c
    unfolding modify_file_def by (intro here 3 4)
  show ?thesis unfolding apply_item_def fsync_def by (intro here fine_parent [OF assms] 1 2 5)
qed

lemma fine_items:
  assumes "\<And>n d. sound d (su_ledger su n d)"
  shows "keeps (fine db0) (apply_items su el H p i xs)"
proof (induction xs arbitrary: i)
  case (Cons x xs)
  have "keeps (fine db0) (transact su (\<lambda>_ db. Inr ((), update_journal P (\<lambda>j. j\<lparr>jn_state := ''applied''\<rparr>) db)))" for P
    by (rule fine_transact [OF assms]) (auto intro!: sound_intros simp: row_defs)
  then show ?case by (auto intro!: flow fine_item [OF assms] Cons.IH)
qed (simp add: keeps_give)

lemma journal_items_fine:
  "journal_items su H p i xs db w = (Inr db1, w1) \<Longrightarrow> sound db0 db \<Longrightarrow> sound db0 db1"
proof (induction xs arbitrary: i db w)
  case (Cons x xs)
  from Cons.prems(1) obtain before w2 j db2 where j: "insert_journal j db = Inr db2"
    and rest: "journal_items su H p (i + 1) xs db2 w2 = (Inr db1, w1)"
    by (auto simp: chain_def stop_def split: prod.splits sum.splits if_splits)
  from j Cons.prems(2) have "sound db0 db2" by (auto simp: row_defs intro!: sound_intros)
  with rest show ?case by (rule Cons.IH)
qed (simp add: give_def)

lemma fine_journal:
  "(\<And>n d. sound d (su_ledger su n d)) \<Longrightarrow> keeps (fine db0) (journal_items su H p i xs db)"
  by (induction xs arbitrary: i db) (auto intro!: flow fine_read)

lemma sound_plan_status [intro]: "sound db0 db \<Longrightarrow> sound db0 (update_plan P (\<lambda>p. p\<lparr>pl_status := st\<rparr>) db)"
  by (auto intro!: sound_intros simp: row_defs)

lemma fine_start:
  assumes "\<And>n d. sound d (su_ledger su n d)"
  shows "keeps (fine db0) (start_apply su H plan dir ow rc)"
  unfolding keeps_def
proof (intro allI impI)
  fix w assume w: "fine db0 w"
  define db w1 where "db = su_ledger su (w_tick w) (w_db w)" and "w1 = w\<lparr>w_tick := Suc (w_tick w), w_db := db\<rparr>"
  have s: "sound db0 db" unfolding db_def by (rule fine_begin [OF assms w])
  then have w1: "fine db0 w1" by (simp add: fine_def w1_def)
  have j: "fine db0 (snd (chain (journal_items su H (pl_id plan) 0 (pl_changes plan) db)
      (\<lambda>db1 w2. (Inr (), w2\<lparr>w_db := update_plan (\<lambda>p. pl_id p = pl_id plan) (\<lambda>p. p\<lparr>pl_status := ''applying''\<rparr>) db1\<rparr>)) w1))"
  proof (cases "journal_items su H (pl_id plan) 0 (pl_changes plan) db w1")
    case (Pair r w2)
    with keepsD [OF fine_journal [OF assms] w1, of H "pl_id plan" 0 "pl_changes plan" db] have "fine db0 w2" by simp
    with Pair journal_items_fine [of su H "pl_id plan" 0 "pl_changes plan" db w1] s show ?thesis
      by (auto simp: chain_def fine_def split: sum.split)
  qed
  show "fine db0 (snd (start_apply su H plan dir ow rc w))"
    unfolding start_apply_def Let_def using j w1 by (simp add: db_def w1_def split: sum.split)
qed

lemma end_apply_sound: "end_apply su plan ow rc n d = Inr (x, d') \<Longrightarrow> sound db0 d \<Longrightarrow> sound db0 d'"
  by (auto simp: end_apply_def Let_def row_defs intro!: sound_intros)

lemma fine_apply:
  assumes "\<And>n d. sound d (su_ledger su n d)"
  shows "keeps (fine db0) (apply_plan env su H p ow rc)"
proof -
  have u: "keeps (fine db0) (transact su (\<lambda>_ db. Inr ((), update_plan P (\<lambda>p. p\<lparr>pl_status := ''uncertain''\<rparr>) db)))" for P
    by (rule fine_transact [OF assms]) auto
  have f: "keeps (fine db0) (transact su (end_apply su plan ow rc))" for plan
    by (rule fine_transact [OF assms]) (rule end_apply_sound)
  show ?thesis unfolding apply_plan_def run_apply_def
    by (intro flow fine_locked fine_read_plan [OF assms] fine_start [OF assms] fine_items [OF assms] u f)
qed

section \<open>The other runs\<close>

lemma fine_observe: "(\<And>n d. sound d (su_ledger su n d)) \<Longrightarrow> keeps (fine db0) (observe su H xs)"
  by (induction xs) (auto intro!: flow fine_read)

lemma not_secret_files: "\<not> secret_key ''files''"
  by code_simp

lemma fine_reconcile:
  assumes "\<And>n d. sound d (su_ledger su n d)"
  shows "keeps (fine db0) (reconcile env su H p ow)"
proof -
  have r: "keeps (fine db0) (transact su (\<lambda>n db. try_bind (append_event (su_clock su n) ''plan.reconciled'' (Some k) None []
      m [(''files'', evidence_json evidence)] db) (\<lambda>db1. Inr ((), db1))))" for k m evidence
    by (rule fine_transact [OF assms]) (auto simp: row_defs not_secret_files evidence_concealed intro!: sound_intros)
  show ?thesis unfolding reconcile_def
    by (intro flow fine_locked fine_read_plan [OF assms] fine_observe [OF assms] r)
qed

lemma fine_resolve:
  assumes "\<And>n d. sound d (su_ledger su n d)"
  shows "keeps (fine db0) (resolve env su H p ow oh)"
proof -
  have r: "keeps (fine db0) (transact su (\<lambda>n db. try_bind (record_resolution (su_clock su n) plan ev db) (\<lambda>db1. Inr ((), db1))))" for plan ev
    by (rule fine_transact [OF assms]) (auto elim: record_resolution_sound)
  show ?thesis unfolding resolve_def
    by (intro flow fine_locked fine_read_plan [OF assms] fine_observe [OF assms] r)
qed

lemma fine_prepare:
  assumes "\<And>n d. sound d (su_ledger su n d)"
  shows "keeps (fine db0) (prepare su H dr dir bl seen used items)"
proof (induction items arbitrary: seen used)
  case (Cons item items)
  then show ?case by (auto intro!: flow fine_read [OF assms] split: prod.split)
qed (simp add: keeps_give)

lemma record_plan_sound: "record_plan H t i k ow dir prep dr rc db = Inr db' \<Longrightarrow> sound db0 db \<Longrightarrow> sound db0 db'"
  by (auto simp: record_plan_def row_defs split: option.splits if_splits intro!: sound_intros elim!: link_plan_conn_sound)

lemma fine_propose:
  assumes "\<And>n d. sound d (su_ledger su n d)"
  shows "keeps (fine db0) (propose env su H p k ow ws ch bl kd dr rc)"
proof -
  have "keeps (fine db0) (transact su (\<lambda>n db. try_bind (record_plan H (su_clock su n) p k ow dir prep dr rc db) (\<lambda>db1. Inr ((), db1))))" for dir prep
    by (rule fine_transact [OF assms]) (auto elim: record_plan_sound)
  moreover have "keeps (fine db0) (read_clock su)"
    by (auto simp: keeps_def read_clock_def fine_def)
  ultimately show ?thesis unfolding propose_def
    by (auto intro!: flow fine_read_plan [OF assms] fine_prepare [OF assms] split: json.split sum.split)
qed

lemma fine_copy:
  assumes "\<And>n d. sound d (su_ledger su n d)"
  shows "keeps (fine db0) (copy_inputs su H sen used ns)"
  by (induction ns arbitrary: used) (auto intro!: flow fine_read [OF assms])

lemma fine_close:
  assumes "\<And>n d. sound d (su_ledger su n d)"
  shows "keeps (fine db0) (close_draft env su H i ow ck)"
proof -
  have 1: "keeps (fine db0) (transact su (\<lambda>_ db. try_bind (show_draft env H db i ow ck) (\<lambda>d. Inr (d, db))))"
    by (rule fine_transact [OF assms]) auto
  have 2: "keeps (fine db0) (transact su (\<lambda>n db. try_bind (close_draft_conn H (su_clock su n) d ow ck db) (\<lambda>db1. Inr ((), db1))))" for d
    by (rule fine_transact [OF assms]) (auto elim: close_draft_conn_sound)
  show ?thesis unfolding close_draft_def by (intro flow 1 2)
qed


lemma fine_open:
  assumes "\<And>n d. sound d (su_ledger su n d)"
  shows "keeps (fine db0) (open_and_submit env su H sen i sh ow g ck nt ns)"
  unfolding keeps_def
proof (intro allI impI)
  fix w assume w: "fine db0 w"
  define db w1 where "db = su_ledger su (w_tick w) (w_db w)" and "w1 = w\<lparr>w_tick := Suc (w_tick w), w_db := db\<rparr>"
  have s: "sound db0 db" unfolding db_def by (rule fine_begin [OF assms w])
  then have w1: "fine db0 w1" by (simp add: fine_def w1_def)
  have c: "fine db0 (snd (chain (copy_inputs su H sen 0 ps) (\<lambda>snapshot w2.
      case f snapshot of Inl e \<Rightarrow> (Inl e, w2) | Inr (task, db') \<Rightarrow> (Inr (task, True), w2\<lparr>w_db := db'\<rparr>)) w1))"
    if "\<And>x task db'. f x = Inr (task, db') \<Longrightarrow> sound db0 db'" for ps and f :: "dict \<Rightarrow> (task_row \<times> ledger) result"
    using keepsD [OF fine_copy [OF assms] w1, of H sen 0 ps] that
    by (auto simp: chain_def fine_def split: prod.split sum.split)
  have o: "scope_opened H t d k x a db = Inr (task, db') \<Longrightarrow> sound db0 db'" for t d k x a task db'
    by (rule scope_opened_sound [OF _ s])
  show "fine db0 (snd (open_and_submit env su H sen i sh ow g ck nt ns w))"
    unfolding open_and_submit_def Let_def using w1
    by (auto simp flip: db_def w1_def split: option.split sum.split prod.split intro!: c dest: o)
qed

section \<open>Every step\<close>

lemma mirror_all_sound: "sound db0 db \<Longrightarrow> sound db0 (snd (mirror_all H t is n db))"
proof (induction "is" arbitrary: n db)
  case (Cons i "is")
  then show ?case
    by (auto split: sum.split prod.split dest!: mirror_legacy_request_sound intro!: Cons.IH elim: sound_trans)
qed simp

lemma reconcile_legacy_sound: "sound db (snd (reconcile_legacy_requests H t n db))"
proof -
  have "sound db (snd (mirror_all H t is 0 db))" for "is" by (rule mirror_all_sound) simp
  then show ?thesis
    by (auto simp: reconcile_legacy_requests_def Let_def split: prod.split sum.split) (metis snd_conv)+
qed

lemmas delivery_sound = delivery_step_sound [OF delivery_step.claim] delivery_step_sound [OF delivery_step.queue_claim]
  delivery_step_sound [OF delivery_step.settle] delivery_step_sound [OF delivery_step.record_sent]
  delivery_step_sound [OF delivery_step.acknowledge]

lemma quiet_surroundings:
  "(\<And>n d. (\<lambda>x y. system_step x y \<and> sound x y)\<^sup>*\<^sup>* d (su_ledger su n d)) \<Longrightarrow> sound d (su_ledger su n d)"
proof -
  have "(\<lambda>x y. system_step x y \<and> sound x y)\<^sup>*\<^sup>* a b \<Longrightarrow> sound a b" for a b
    by (induction rule: rtranclp_induct) (auto intro: sound_trans)
  then show "(\<And>n d. (\<lambda>x y. system_step x y \<and> sound x y)\<^sup>*\<^sup>* d (su_ledger su n d)) \<Longrightarrow> sound d (su_ledger su n d)" by blast
qed

lemma run_sound: "keeps (fine (w_db w)) m \<Longrightarrow> sound (w_db w) (w_db (snd (m w)))"
  using keepsD [of "fine (w_db w)" m w] by (simp add: fine_def)

lemma system_step_sound: "system_step db db' \<Longrightarrow> sound db db'"
proof (induction rule: system_step.induct)
  case (propose su w env H p k ow ws ch bl kd dr rc)
  show ?case by (intro run_sound fine_propose quiet_surroundings propose)
next
  case (apply_plan su w env H p ow rc)
  show ?case by (intro run_sound fine_apply quiet_surroundings apply_plan)
next
  case (reconcile su w env H p ow)
  show ?case by (intro run_sound fine_reconcile quiet_surroundings reconcile)
next
  case (resolve su w env H p ow oh)
  show ?case by (intro run_sound fine_resolve quiet_surroundings resolve)
next
  case (open_draft su w env H sen i sh ow g ck nt ns)
  show ?case by (intro run_sound fine_open quiet_surroundings open_draft)
next
  case (close_draft su w env H i ow ck)
  show ?case by (intro run_sound fine_close quiet_surroundings close_draft)
qed (blast intro: register_host_sound upsert_agent_profile_sound create_project_sound create_codex_session_sound
    task_step_sound approval_step_sound upload_step_sound lease_step_sound add_artifact_row_sound reconcile_legacy_sound
    conversation_step_sound register_worker_sound heartbeat_sound submit_sound approve_and_submit_apply_sound
    record_start_failure_sound hold_legacy_sound recover_sound claim_sound assessment_sound dismiss_sound cancel_sound
    resume_sound delivery_sound work_claim_sound renew_sound finish_sound decide_conn_sound
    settle_expired_sound create_draft_sound maintain_drafts_sound sound_refl)+


interpretation system: recorded_system system_step ledger_inv extends_logs
proof
  fix s t assume "system_step s t"
  then have "sound s t" by (rule system_step_sound)
  then show "ledger_inv s \<Longrightarrow> ledger_inv t" and "extends_logs s t" by (auto simp: sound_def)
qed (auto simp: extends_logs_def)

section \<open>Properties\<close>





end
