(* ===== verification/Conversation_Context.thy ===== *)
theory Conversation_Context
  imports Work_Memory
begin

text \<open>
  What a conversation shows to a model: \<open>_serialize\<close>, \<open>worker_context\<close> and \<open>snapshot\<close> of \<open>src/nyanya_agent/conversation_store.py\<close>.
  The most recent turns, and older ones that share a word with the request, are rendered as one JSON text within a limit. The words of
  a request (a regular expression over Unicode) are the parameter \<open>words\<close>; the classifiers are those of \<open>screening\<close>.
\<close>

definition CONVERSATION_BYTES :: int where "CONVERSATION_BYTES = 24 * 1024"
definition MAX_TURNS :: int where "MAX_TURNS = 8"
definition MAX_RECALL_TURNS :: int where "MAX_RECALL_TURNS = 4"

text \<open>A row of the query: the turn, its task, the saved result of the current attempt, the status of the latest plan.\<close>

record recalled_turn =
  rc_turn :: turn_row
  rc_task :: task_row
  rc_result :: "result_row option"
  rc_plan_status :: "string option"

definition latest_plan_status :: "ledger \<Rightarrow> task_row \<Rightarrow> string option" where
  "latest_plan_status db k =
     (case rev (order_by pl_created_at (filter (\<lambda>p. pl_task_id p = tk_id k \<and> pl_owner_key p = tk_requested_by k \<and>
         json_is (tk_metadata k) ''workspace_root'' (pl_workspace p)) (change_plans db))) of
        [] \<Rightarrow> None | p # _ \<Rightarrow> Some (pl_status p))"

text \<open>The conditions of the query. \<open>limit_at\<close> holds the generation, the number and the project of the turn that asks.\<close>

definition recall_row :: "ledger \<Rightarrow> turn_row \<Rightarrow> task_row \<Rightarrow> recalled_turn" where
  "recall_row db c k = \<lparr>rc_turn = c, rc_task = k,
     rc_result = (case tk_current_execution_id k of None \<Rightarrow> None | Some x \<Rightarrow> fetch_result db x),
     rc_plan_status = latest_plan_status db k\<rparr>"

definition recallable ::
  "ledger \<Rightarrow> work_record list \<Rightarrow> conversation_row \<Rightarrow> (int \<times> string option) option \<Rightarrow> turn_row \<Rightarrow> task_row \<Rightarrow> bool" where
  "recallable db mem s before c k \<longleftrightarrow>
     tn_session_id c = cv_id s \<and> cv_memory_reset_generation s \<le> tn_generation c \<and> tk_requested_by k = cv_owner_key s \<and>
     (\<exists>q\<in>set (task_operations db). op_task_id q = tk_id k \<and> json_is (op_spec q) ''workspace'' (cv_workspace_root s)) \<and>
     \<not> (\<exists>m\<in>set mem. wr_status m = ''forgotten'' \<and> wr_source_task_id m = tn_task_id c) \<and>
     (case before of None \<Rightarrow> True
      | Some (n, project) \<Rightarrow>
          (tn_generation c < cv_generation s \<or> tn_generation c = cv_generation s \<and> tn_sequence c < n) \<and>
          tk_project_id k = project)"

definition recall_rows ::
  "ledger \<Rightarrow> work_record list \<Rightarrow> conversation_row \<Rightarrow> (int \<times> string option) option \<Rightarrow> recalled_turn list" where
  "recall_rows db mem s before =
     concat (map (\<lambda>c. map (recall_row db c) (filter (\<lambda>k. tk_id k = tn_task_id c \<and> recallable db mem s before c k) (agent_tasks db)))
       (conversation_turns db))"

text \<open>\<open>ORDER BY c.generation DESC, c.sequence DESC\<close>\<close>

definition newest_first :: "recalled_turn list \<Rightarrow> recalled_turn list" where
  "newest_first rows = order_desc (\<lambda>x. tn_generation (rc_turn x)) (order_desc (\<lambda>x. tn_sequence (rc_turn x)) rows)"

fun uniq :: "'a list \<Rightarrow> 'a list" where
  "uniq [] = []"
| "uniq (x # xs) = x # uniq (filter (\<lambda>y. y \<noteq> x) xs)"

definition occurs_in :: "string \<Rightarrow> string \<Rightarrow> bool" where
  "occurs_in w s = list_ex (\<lambda>n. starts_with w (drop n s)) [0..<Suc (length s)]"

definition response_of :: "recalled_turn \<Rightarrow> string" where
  "response_of x = (case rc_result x of None \<Rightarrow> [] | Some r \<Rightarrow> rt_response r)"

definition selected_turns ::
  "(string \<Rightarrow> string list) \<Rightarrow> ledger \<Rightarrow> work_record list \<Rightarrow> conversation_row \<Rightarrow> (int \<times> string option) option \<Rightarrow> string \<Rightarrow>
   recalled_turn list \<times> string list" where
  "selected_turns words db mem s before query =
     (let candidates = newest_first (recall_rows db mem s before);
          rows = limit MAX_TURNS candidates;
          recent = map (\<lambda>x. tn_task_id (rc_turn x)) rows;
          tokens = take 8 (uniq (words (take_cp 2048 query)));
          older = limit MAX_RECALL_TURNS (filter (\<lambda>x. tn_task_id (rc_turn x) \<notin> set recent \<and>
            list_ex (\<lambda>w. occurs_in w (lower (tk_prompt (rc_task x) @ '' '' @ response_of x))) tokens) candidates)
      in (if tokens \<noteq> [] \<and> rows \<noteq> [] then newest_first (rows @ older) else rows, recent))"

definition showable :: "screening \<Rightarrow> int \<Rightarrow> recalled_turn \<Rightarrow> bool" where
  "showable sc most x \<longleftrightarrow>
     (let request = tk_prompt (rc_task x); response = response_of x in
      \<not> sc_no_storage sc request \<and> int (length request + length response) \<le> most \<and>
      \<not> sc_sensitive sc request \<and> \<not> sc_sensitive sc response)"

definition turn_json :: "conversation_row \<Rightarrow> string list \<Rightarrow> recalled_turn \<Rightarrow> json" where
  "turn_json s recent x =
     (let c = rc_turn x; k = rc_task x;
          outcome = (case rc_result x of Some r \<Rightarrow> rt_outcome r | None \<Rightarrow> []) in
      JObj [(''task_id'', JStr (tn_task_id c)), (''request'', JStr (tk_prompt k)), (''response'', JStr (response_of x)),
        (''context_source'', JStr (if tn_task_id c \<in> set recent then ''recent'' else ''related_earlier_turn'')),
        (''outcome'', JStr (if outcome = [] then tk_status k else outcome)), (''current_task_status'', JStr (tk_status k)),
        (''current_plan_status'', jstr_opt (rc_plan_status x)),
        (''delivery_status'', JStr (case rc_result x of
            Some r \<Rightarrow> if rt_delivery_status r = [] then ''no_saved_result'' else rt_delivery_status r | None \<Rightarrow> ''no_saved_result'')),
        (''reply_kind'', JStr (if tn_completed_execution_id c = tk_current_execution_id k then tn_reply_kind c else ''answer'')),
        (''pending_question'', JBool (cv_pending_task_id s = Some (tn_task_id c) \<and>
            cv_pending_execution_id s = tk_current_execution_id k \<and> outcome = ''succeeded''))])"

definition history_json :: "conversation_row \<Rightarrow> json list \<Rightarrow> string" where
  "history_json s turns = compact_json (JObj [(''kind'', JStr ''untrusted_conversation_history''), (''generation'', JInt (cv_generation s)),
     (''evidence'', JStr ''Saved attempt outcome, response and delivery; current task and plan lifecycle are separate.''),
     (''turns'', JList turns)])"

text \<open>The oldest turns are dropped until the text fits and passes the filter.\<close>

fun fit_turns :: "screening \<Rightarrow> conversation_row \<Rightarrow> int \<Rightarrow> json list \<Rightarrow> json list" where
  "fit_turns sc s most [] = []"
| "fit_turns sc s most (x # xs) =
     (let value = history_json s (x # xs) in
      if int (length value) \<le> most \<and> \<not> sc_sensitive sc value then x # xs else fit_turns sc s most xs)"

definition serialized_turns ::
  "screening \<Rightarrow> (string \<Rightarrow> string list) \<Rightarrow> ledger \<Rightarrow> work_record list \<Rightarrow> conversation_row \<Rightarrow> (int \<times> string option) option \<Rightarrow> string \<Rightarrow> int \<Rightarrow>
   json list result" where
  "serialized_turns sc words db mem s before query max_bytes =
     (if max_bytes < 2 then Inl (ValueError ''Conversation context limit must allow an empty JSON object'')
      else
        (let most = min max_bytes CONVERSATION_BYTES; (rows, recent) = selected_turns words db mem s before query
         in Inr (fit_turns sc s most (map (turn_json s recent) (filter (showable sc most) (rev rows))))))"

definition history_text :: "conversation_row \<Rightarrow> json list \<Rightarrow> string" where
  "history_text s turns = (if turns = [] then ''{}'' else history_json s turns)"

definition serialize ::
  "screening \<Rightarrow> (string \<Rightarrow> string list) \<Rightarrow> ledger \<Rightarrow> work_record list \<Rightarrow> conversation_row \<Rightarrow> (int \<times> string option) option \<Rightarrow> string \<Rightarrow> int \<Rightarrow>
   string result" where
  "serialize sc words db mem s before query max_bytes =
     try_bind (serialized_turns sc words db mem s before query max_bytes) (\<lambda>turns. Inr (history_text s turns))"

text \<open>The conversation and the turns that are shown, before they are rendered.\<close>

definition context_turns ::
  "workspace_env \<Rightarrow> screening \<Rightarrow> (string \<Rightarrow> string list) \<Rightarrow> ledger \<Rightarrow> work_record list \<Rightarrow> string \<Rightarrow> string \<Rightarrow> string \<Rightarrow> int \<Rightarrow>
   (conversation_row \<times> json list) option result" where
  "context_turns env sc words db mem task_id owner workspace max_bytes =
     try_bind (check_workspace env workspace owner) (\<lambda>dir.
       case fetch_turn db task_id of
         None \<Rightarrow> Inr None
       | Some turn \<Rightarrow>
           (case fetch_conversation db (tn_session_id turn) of
              None \<Rightarrow> Inr None
            | Some s \<Rightarrow>
                if cv_owner_key s \<noteq> owner \<or> cv_workspace_root s \<noteq> dir
                then Inl (PermissionError ''Conversation context scope mismatch'')
                else (case fetch_task db task_id of
                    None \<Rightarrow> Inl (TypeError [])
                  | Some k \<Rightarrow>
                      if tk_requested_by k \<noteq> owner \<or> \<not> json_is (tk_metadata k) ''workspace_root'' dir
                      then Inl (PermissionError ''Conversation task scope mismatch'')
                      else if tn_generation turn \<noteq> cv_generation s then Inr None
                      else
                        try_bind (serialized_turns sc words db mem s (Some (tn_sequence turn, tk_project_id k)) (tk_prompt k) max_bytes)
                          (\<lambda>turns. Inr (Some (s, turns))))))"

definition conversation_context ::
  "workspace_env \<Rightarrow> screening \<Rightarrow> (string \<Rightarrow> string list) \<Rightarrow> ledger \<Rightarrow> work_record list \<Rightarrow> string \<Rightarrow> string \<Rightarrow> string \<Rightarrow> int \<Rightarrow> string result" where
  "conversation_context env sc words db mem task_id owner workspace max_bytes =
     try_bind (context_turns env sc words db mem task_id owner workspace max_bytes)
       (\<lambda>found. Inr (case found of None \<Rightarrow> ''{}'' | Some (s, turns) \<Rightarrow> history_text s turns))"

definition conversation_snapshot ::
  "workspace_env \<Rightarrow> (string \<Rightarrow> string) \<Rightarrow> screening \<Rightarrow> ledger \<Rightarrow> work_record list \<Rightarrow> string \<Rightarrow> string \<Rightarrow> string \<Rightarrow> int \<Rightarrow> string result" where
  "conversation_snapshot env H sc db mem owner conversation_key workspace max_bytes =
     try_bind (check_workspace env workspace owner) (\<lambda>dir.
     try_bind (conversation_hash H conversation_key) (\<lambda>hashed.
       case find_session db owner hashed dir of
         None \<Rightarrow> Inr ''{}'' | Some s \<Rightarrow> serialize sc (\<lambda>_. []) db mem s None [] max_bytes))"

section \<open>Lemmas\<close>

lemma set_uniq [simp]: "set (uniq xs) = set xs"
  by (induction xs rule: uniq.induct) auto

lemma recall_rowsD:
  "x \<in> set (recall_rows db mem s before) \<Longrightarrow>
   x = recall_row db (rc_turn x) (rc_task x) \<and> rc_turn x \<in> set (conversation_turns db) \<and> rc_task x \<in> set (agent_tasks db) \<and>
   tk_id (rc_task x) = tn_task_id (rc_turn x) \<and> recallable db mem s before (rc_turn x) (rc_task x)"
  by (auto simp: recall_rows_def recall_row_def)

lemma set_newest_first [simp]: "set (newest_first rows) = set rows"
  by (simp add: newest_first_def)

lemma length_newest_first [simp]: "length (newest_first rows) = length rows"
  by (simp add: newest_first_def order_desc_def)

lemma selected_turns_set:
  assumes "selected_turns words db mem s before query = (rows, recent)"
  shows "set rows \<subseteq> set (recall_rows db mem s before)" "int (length rows) \<le> MAX_TURNS + MAX_RECALL_TURNS"
proof -
  have l: "set (limit n xs) \<subseteq> set xs" for n and xs :: "recalled_turn list" by (rule set_limit)
  show "set rows \<subseteq> set (recall_rows db mem s before)"
    using assms l by (fastforce simp: selected_turns_def Let_def split: if_splits)
  have l: "length (limit 8 xs) \<le> 8" "length (limit 4 ys) \<le> 4" for xs ys :: "recalled_turn list"
    by (simp_all add: limit_def)
  have "length (limit 8 xs) + length (limit 4 ys) \<le> 12" for xs ys :: "recalled_turn list"
    using l(1) [of xs] l(2) [of ys] by simp
  moreover have "length (limit 8 xs) \<le> 12" for xs :: "recalled_turn list" using l(1) [of xs] by simp
  ultimately have "length rows \<le> 12"
    using assms by (auto simp: selected_turns_def Let_def MAX_TURNS_def MAX_RECALL_TURNS_def split: if_splits)
  then show "int (length rows) \<le> MAX_TURNS + MAX_RECALL_TURNS" by (simp add: MAX_TURNS_def MAX_RECALL_TURNS_def)
qed

text \<open>What is shown is a suffix of the showable turns.\<close>

lemma fit_turns_cases:
  "fit_turns sc s most js = [] \<or>
   (\<exists>n < length js. fit_turns sc s most js = drop n js \<and> int (length (history_json s (drop n js))) \<le> most \<and>
      \<not> sc_sensitive sc (history_json s (drop n js)))"
proof (induction js)
  case (Cons j js)
  show ?case
  proof (cases "int (length (history_json s (j # js))) \<le> most \<and> \<not> sc_sensitive sc (history_json s (j # js))")
    case True
    then show ?thesis by (intro disjI2 exI [of _ 0]) (simp add: Let_def)
  next
    case False
    then have e: "fit_turns sc s most (j # js) = fit_turns sc s most js" by (auto simp: Let_def)
    from Cons.IH show ?thesis
    proof (elim disjE exE conjE)
      fix n assume "n < length js" "fit_turns sc s most js = drop n js"
        "int (length (history_json s (drop n js))) \<le> most" "\<not> sc_sensitive sc (history_json s (drop n js))"
      then show ?thesis unfolding e by (intro disjI2 exI [of _ "Suc n"]) simp
    qed (simp only: e simp_thms)
  qed
qed simp

text \<open>The text respects the limit.\<close>

lemma history_text_fits:
  assumes "serialized_turns sc words db mem s before query n = Inr turns"
  shows "int (length (history_text s turns)) \<le> min n CONVERSATION_BYTES"
proof -
  obtain js where t: "turns = fit_turns sc s (min n CONVERSATION_BYTES) js" and n: "2 \<le> n"
    using assms by (auto simp: serialized_turns_def Let_def split: if_splits prod.splits)
  have "2 \<le> min n CONVERSATION_BYTES" using n by (simp add: CONVERSATION_BYTES_def)
  with fit_turns_cases [of sc s "min n CONVERSATION_BYTES" js] show ?thesis by (auto simp: history_text_def t)
qed

lemma drop_map_filter: "\<exists>ys. drop n (map f xs) = map f ys \<and> set ys \<subseteq> set xs \<and> length ys \<le> length xs"
  by (intro exI [of _ "drop n xs"]) (auto simp: drop_map dest: in_set_dropD)

lemma serializeD:
  assumes "serialized_turns sc words db mem s before query n = Inr turns" "turns \<noteq> []"
  obtains recent xs where "turns = map (turn_json s recent) xs" "int (length (history_json s turns)) \<le> min n CONVERSATION_BYTES"
    "\<not> sc_sensitive sc (history_json s turns)" "int (length xs) \<le> MAX_TURNS + MAX_RECALL_TURNS"
    "\<And>x. x \<in> set xs \<Longrightarrow> x \<in> set (recall_rows db mem s before) \<and> showable sc (min n CONVERSATION_BYTES) x"
proof -
  obtain rows recent where r: "selected_turns words db mem s before query = (rows, recent)" by (rule prod.exhaust)
  let ?most = "min n CONVERSATION_BYTES" and ?shown = "filter (showable sc (min n CONVERSATION_BYTES)) (rev rows)"
  let ?js = "map (turn_json s recent) ?shown"
  have v: "turns = fit_turns sc s ?most ?js"
    using assms(1) r by (auto simp: serialized_turns_def Let_def split: if_splits)
  with fit_turns_cases [of sc s ?most ?js] assms(2) obtain i where
    i: "turns = drop i ?js" "int (length (history_json s turns)) \<le> ?most" "\<not> sc_sensitive sc (history_json s turns)" by auto
  have d: "drop i ?js = map (turn_json s recent) (drop i ?shown)" by (simp add: drop_map)
  have sub: "x \<in> set rows \<and> showable sc ?most x" if "x \<in> set (drop i ?shown)" for x
    using in_set_dropD [OF that] by simp
  have "length (drop i ?shown) \<le> length rows" by (metis length_drop diff_le_self le_trans length_filter_le length_rev)
  then have l: "int (length (drop i ?shown)) \<le> MAX_TURNS + MAX_RECALL_TURNS" using selected_turns_set(2) [OF r] by simp
  show ?thesis
    by (rule that [OF i(1) [unfolded d] i(2,3) l]) (use sub selected_turns_set(1) [OF r] in blast)
qed

section \<open>Properties\<close>

text \<open>C37. A conversation shows a model only what belongs to it. The text is \<open>{}\<close>, or it renders at most twelve turns within the limit and
  passes the content filter; each of them is an earlier turn of the same conversation since its last reset, of the same owner, workspace and
  project, has not been forgotten, was not withheld from storage by its request, and passes the filter itself.\<close>

theorem recall_is_scoped:
  assumes "conversation_context env sc words db mem task owner ws n = Inr v"
  shows "v = ''{}'' \<or> (\<exists>s turn k recent xs. fetch_turn db task = Some turn \<and> fetch_conversation db (tn_session_id turn) = Some s \<and>
     fetch_task db task = Some k \<and> cv_owner_key s = owner \<and> tk_requested_by k = owner \<and>
     check_workspace env ws owner = Inr (cv_workspace_root s) \<and> v = history_json s (map (turn_json s recent) xs) \<and>
     int (length v) \<le> min n 24576 \<and> \<not> sc_sensitive sc v \<and> length xs \<le> 12 \<and>
     list_all (\<lambda>x. rc_turn x \<in> set (conversation_turns db) \<and> tn_session_id (rc_turn x) = tn_session_id turn \<and>
       cv_memory_reset_generation s \<le> tn_generation (rc_turn x) \<and>
       (tn_generation (rc_turn x) < tn_generation turn \<or>
        tn_generation (rc_turn x) = tn_generation turn \<and> tn_sequence (rc_turn x) < tn_sequence turn) \<and>
       rc_task x \<in> set (agent_tasks db) \<and> tk_id (rc_task x) = tn_task_id (rc_turn x) \<and> tk_requested_by (rc_task x) = owner \<and>
       tk_project_id (rc_task x) = tk_project_id k \<and>
       list_ex (\<lambda>q. op_task_id q = tk_id (rc_task x) \<and> json_is (op_spec q) ''workspace'' (cv_workspace_root s)) (task_operations db) \<and>
       \<not> list_ex (\<lambda>m. wr_status m = ''forgotten'' \<and> wr_source_task_id m = tk_id (rc_task x)) mem \<and>
       \<not> sc_no_storage sc (tk_prompt (rc_task x)) \<and> \<not> sc_sensitive sc (tk_prompt (rc_task x)) \<and> \<not> sc_sensitive sc (response_of x)) xs)"
proof (cases "v = ''{}''")
  case False
  with assms obtain dir turn s k turns where
    w: "check_workspace env ws owner = Inr dir" and t: "fetch_turn db task = Some turn"
    and c: "fetch_conversation db (tn_session_id turn) = Some s" and own: "cv_owner_key s = owner" "cv_workspace_root s = dir"
    and k: "fetch_task db task = Some k" "tk_requested_by k = owner" and g: "tn_generation turn = cv_generation s"
    and ser: "serialized_turns sc words db mem s (Some (tn_sequence turn, tk_project_id k)) (tk_prompt k) n = Inr turns"
    and v': "v = history_text s turns"
    by (auto simp: conversation_context_def context_turns_def split: option.splits if_splits)
  from v' False have ne: "turns \<noteq> []" "v = history_json s turns" by (auto simp: history_text_def split: if_splits)
  from serializeD [OF ser ne(1)] obtain recent xs where
    v: "v = history_json s (map (turn_json s recent) xs)" "int (length v) \<le> min n CONVERSATION_BYTES" "\<not> sc_sensitive sc v"
       "int (length xs) \<le> MAX_TURNS + MAX_RECALL_TURNS"
    and rows: "\<And>x. x \<in> set xs \<Longrightarrow> x \<in> set (recall_rows db mem s (Some (tn_sequence turn, tk_project_id k))) \<and>
        showable sc (min n CONVERSATION_BYTES) x" unfolding ne(2) by blast
  have i: "cv_id s = tn_session_id turn" using fetch_conversationD [OF c] by simp
  show ?thesis
    by (rule disjI2, intro exI conjI list_all_iff [THEN iffD2] ballI)
       (use w t c own k g v i rows in \<open>fastforce simp: CONVERSATION_BYTES_def MAX_TURNS_def MAX_RECALL_TURNS_def recallable_def
          showable_def Let_def list_ex_iff dest!: recall_rowsD\<close>)+
qed simp


text \<open>In the conversation of the sample the task \<open>t3\<close> follows \<open>t2\<close>.\<close>

definition sample_talk :: ledger where
  "sample_talk = sample_operations\<lparr>conversation_turns := [sample_turn, sample_turn\<lparr>tn_task_id := ''t3'', tn_sequence := 2\<rparr>]\<rparr>"

lemma sample_history:
  "case conversation_context sample_env sample_screening (\<lambda>_. []) sample_talk [] ''t3'' ''u1'' ''/w'' 24576 of Inl _ \<Rightarrow> False
   | Inr v \<Rightarrow> v \<noteq> ''{}''"
  by code_simp

lemma recall_is_scoped_witness:
  "\<exists>v. conversation_context sample_env sample_screening (\<lambda>_. []) sample_talk [] ''t3'' ''u1'' ''/w'' 24576 = Inr v \<and> v \<noteq> ''{}'' \<and>
     length v \<le> 24576"
proof -
  obtain v where v: "conversation_context sample_env sample_screening (\<lambda>_. []) sample_talk [] ''t3'' ''u1'' ''/w'' 24576 = Inr v" "v \<noteq> ''{}''"
    using sample_history by (auto split: sum.splits)
  with recall_is_scoped [OF v(1)] have "int (length v) \<le> 24576" by auto
  with v show ?thesis by auto
qed

end
