(* ===== verification/Spec2Isabelle.thy ===== *)
theory Spec2Isabelle
  imports Migrations System_Steps Worker_Prompts
begin

text \<open>
  NyaNya Agent: the ledger of an assistant that works on files under the control of one operator.

  \<^bold>\<open>The program.\<close> Requests arrive from a terminal or a messenger. Each becomes a \<^emph>\<open>task\<close>, with one
  \<^emph>\<open>operation\<close> (what to do) and one or more \<^emph>\<open>executions\<close> (attempts), in one SQLite file. A worker process claims
  queued operations, runs a model provider and commits the result. A provider never writes files: it returns changes, which
  become a \<^emph>\<open>file plan\<close>; the owner approves a plan by its hash, and only then an apply operation writes it, with a
  journal and under a lock. When anything stops in the middle, the state is held and the owner decides on what is seen
  on disk. Results are saved first and delivered afterwards by one sender. Everything meets in the tables:
  the functions under \<open>src/nyanya_agent/\<close> are transactions on them, so the model is a record of tables (\<open>ledger\<close>) and one
  function per transaction.

  \<^bold>\<open>Theories and the files they model\<close>, in the order in which they build on each other.
  \<^item> \<open>Prelude\<close>, \<open>Json_Values\<close>, \<open>Regex_Matcher\<close>, \<open>Texts\<close>, \<open>Control_Texts\<close>: strings as bytes, errors
    (\<open>err\<close>, \<open>result\<close>), loops over rows, JSON values, Python's matching of patterns, messages that are not ASCII.
  \<^item> \<open>Machines\<close>: three locales. \<open>recorded_system\<close>: steps that keep an invariant and only extend a log, so runs do;
    \<open>status_machine\<close>: rows with a status whose final values never change, so they do not change over runs;
    \<open>fenced_resource\<close>: a lock whose grants carry increasing tokens. They are interpreted on the operations of
    \<open>Ledger_Tasks\<close>, \<open>Ledger_Approvals\<close>, \<open>Ledger_Leases\<close> and others.
  \<^item> \<open>Redaction\<close>, \<open>Schema\<close>, \<open>Sample_Ledger\<close>: what is written to the ledger (\<open>redact\<close>), the tables of
    \<open>database.py\<close>, \<open>execution_store.py\<close> and \<open>operation_schema.py\<close> with their keys, the invariant \<open>ledger_inv\<close> (keys are unique,
    references resolve, metadata is concealed), the relation \<open>extends\<close> (no event is ever lost) and
    the bundle \<open>sound\<close> (an operation keeps the one and respects the other), and a small concrete ledger.
  \<^item> \<open>Ledger_Registry\<close>, \<open>Ledger_Tasks\<close>, \<open>Ledger_Approvals\<close>, \<open>Ledger_Leases\<close>, \<open>Migrations\<close>, \<open>Legacy_Mirror\<close>:
    \<open>execution_store.py\<close> and \<open>approval_contract.py\<close>, function by function.
  \<^item> \<open>Operation_Spec\<close>, \<open>Workspaces\<close>: \<open>operation_spec.py\<close>, \<open>task_outcomes.py\<close>, the route of \<open>model_routing.py\<close>; roots
    and containment of \<open>bridge_policy.py\<close> and \<open>workspace_paths.py\<close>.
  \<^item> \<open>Conversations\<close>, \<open>Conversation_Context\<close>: \<open>conversation_store.py\<close>, the order of turns and what a model is shown of
    them. \<open>Effects\<close>, \<open>Op_Admission\<close>, \<open>Op_Claims\<close>, \<open>Op_Delivery\<close>, \<open>Op_Views\<close>,
    \<open>Op_Control\<close>: \<open>operation_store.py\<close>; \<open>Admission_Laws\<close> has what admission guarantees.
  \<^item> \<open>Work_Memory\<close>: \<open>work_memory.py\<close>. \<open>Wiki_Store\<close>: \<open>wiki_store.py\<close> and what \<open>work_memory.py\<close> does to it; \<open>wiki_step\<close> is the
    step relation of the two tables together. \<open>Work_Queue\<close>: \<open>work_queue.py\<close>, the worker's claim and the single commit of a result.
  \<^item> \<open>Review_Plans\<close>, \<open>File_Trees\<close>, \<open>File_Apply\<close>, \<open>Plan_Resolution\<close>, \<open>Plan_Proposals\<close>: \<open>reviewed_changes.py\<close>;
    \<open>File_Laws\<close>, \<open>File_Refinement\<close> and \<open>Proposal_Laws\<close> have its properties. \<open>Work_Drafts\<close>: \<open>work_drafts.py\<close>, with \<open>Draft_Laws\<close>.
  \<^item> \<open>Upload_Approvals\<close>: \<open>upload_approval.py\<close>. \<open>System_Steps\<close>: all operations together, interleaved in any way.
    \<open>Worker_Prompts\<close>: the prompts of \<open>operation_worker.py\<close>.

  \<^bold>\<open>How the code is rendered.\<close>
  \<^item> A table is the list of its rows in the order of insertion (SQLite's \<open>rowid\<close>); a row is a record with the columns; a nullable column is
    an \<open>option\<close>; a \<open>*_json\<close> column holds the dictionary it encodes. \<open>ORDER BY\<close> is a stable sort. An insert that violates a key is the
    error \<open>Integrity\<close>. A transaction that raises is rolled back: it answers \<open>Inl e\<close> and there is no new ledger.
  \<^item> Time is in microseconds, a reading of the clock is an argument (one reading per transaction); \<open>now_iso\<close>
    rounds down to the second. Random identifiers are arguments. The code compares times as ISO texts in UTC, whose order is that
    of the instants for four-digit years.
  \<^item> Parameters stand for what is not in the repository or is a heuristic over language: SHA-256 (\<open>H\<close>), what the
    file system answers about paths, the classifiers of \<open>context_security.py\<close> (\<open>screening\<close>), what a model provider returns, SQLite's execution of a
    migration text. No lemma assumes more of \<open>H\<close> than its name as a hypothesis says.
  \<^item> An apply is not one transaction. It runs in \<open>File_Apply\<close> as a chain of system calls and transactions, and before each of them the
    surroundings (\<open>su_files\<close>, \<open>su_ledger\<close>) may change files and ledger in any way. Lemmas that need quiet surroundings
    say so by name (\<open>undisturbed\<close>, \<open>exclusive\<close>), and their witnesses give some.
  \<^item> Loops of the source are structural recursions over finite lists of rows or paths (\<open>for_each\<close>, \<open>fold\<close>), so every definition is
    total and no fuel bounds a result; the matcher of \<open>Regex_Matcher\<close> recurses on the pattern and on what is left of the text.

  \<^bold>\<open>What is shown.\<close> For each component: every operation that writes the ledger is \<open>sound\<close> (the lemmas \<open>*_sound\<close>).
  Beyond that: final statuses are final and runs cannot leave them; a superseded lease is dead; a claim excludes a second apply and follows the conversation; one attempt
  has one result; one sender delivers; an approval is single use, binds one revision and admits once; a successful apply is exactly the
  reviewed change and files change only under the guard; a failed apply is held, and its resolution says what is on disk; cancellation, recovery
  and resumption never hide or repeat an effect; feedback on a draft stays in its approved scope; memory is private, minimal and
  forgettable, and so are topic notes and conversations; a prompt keeps the request whole and within its bound.
  A failing branch is part of each definition, and several properties are about errors.

  \<^bold>\<open>Not modelled.\<close> The processes and network clients around the ledger (the loop of \<open>operation_worker.py\<close>, \<open>process_runner.py\<close>,
  \<open>execution_runtime.py\<close>, \<open>execution_adapters.py\<close>, the Discord and Telegram bridges, the dashboard, the manager and the installer), because what they
  do is input and output between the modelled calls; the classifiers of requests and contents (patterns over natural
  language in \<open>bridge_policy.py\<close>, \<open>context_security.py\<close> and \<open>control_intents.py\<close>), which are parameters; the
  reading of a file snapshot for a plan without a draft (\<open>snapshot\<close> of \<open>reviewed_changes.py\<close>); the dashboard's memory candidates and the
  archives of logs, which are separate stores.
\<close>

end
